(* ===== verification/Float64.thy ===== *)
theory Float64
  imports Complex_Main "HOL-Library.Log_Nat"
begin

text \<open>
  The \<open>float64\<close> values of the program. Quota readings, limits, balances and deltas are Go
  \<open>float64\<close>; the model keeps them as rationals (every finite double is one) and makes the
  rounding of each arithmetic operation explicit: an operation computes the exact rational result
  and then rounds it to the nearest double, ties to even, with 53 significant bits and the
  subnormal spacing \<open>2^-1074\<close>. Comparisons are exact. Not modelled: infinities, NaN and
  overflow beyond \<open>1.8e308\<close> (a reading that large is rejected by the JSON decoder), and the
  sign of zero, which no comparison of the program observes.
\<close>

type_synonym f64 = rat

subsection \<open>Rounding\<close>

definition ilog2 :: "rat \<Rightarrow> int" where
  "ilog2 x = (let (p, q) = quotient_of x; e = bitlen p - bitlen q
              in if 2 powi e \<le> x then e else e - 1)"

definition ulp :: "rat \<Rightarrow> rat" where
  "ulp x = 2 powi (max (ilog2 \<bar>x\<bar> - 52) (- 1074))"

definition round_half_even :: "rat \<Rightarrow> int" where
  "round_half_even y =
     (let f = \<lfloor>y\<rfloor>; d = y - of_int f
      in if d < 1/2 then f else if 1/2 < d then f + 1 else if even f then f else f + 1)"

definition rnd :: "rat \<Rightarrow> f64" where
  "rnd x = (if x = 0 then 0 else of_int (round_half_even (x / ulp x)) * ulp x)"

definition fadd :: "f64 \<Rightarrow> f64 \<Rightarrow> f64" where "fadd a b = rnd (a + b)"
definition fsub :: "f64 \<Rightarrow> f64 \<Rightarrow> f64" where "fsub a b = rnd (a - b)"
definition fmul :: "f64 \<Rightarrow> f64 \<Rightarrow> f64" where "fmul a b = rnd (a * b)"
definition fdiv :: "f64 \<Rightarrow> f64 \<Rightarrow> f64" where "fdiv a b = rnd (a / b)"

text \<open>A value is a double when rounding leaves it alone.\<close>

definition is_f64 :: "rat \<Rightarrow> bool" where "is_f64 x \<longleftrightarrow> rnd x = x"

subsection \<open>The exponent\<close>

lemma pow2_le_imp: assumes "(2::rat) powi a \<le> 2 powi b" shows "a \<le> b"
proof (rule ccontr)
  assume "\<not> a \<le> b"
  then have "(2::rat) powi b < 2 powi a" by (intro power_int_strict_increasing) auto
  with assms show False by simp
qed

lemma bitlen_pos_bounds:
  assumes "0 < p"
  shows "(2::rat) powi (bitlen p - 1) \<le> of_int p" and "of_int p < (2::rat) powi (bitlen p)"
proof -
  have b: "2 ^ nat (bitlen p - 1) \<le> p" "p < 2 ^ nat (bitlen p)"
    using bitlen_bounds [OF assms] by auto
  have n: "1 \<le> bitlen p"
    using assms bitlen_nonneg [of p] bitlen_eq_zero_iff [of p] by linarith
  have "of_int (2 ^ nat (bitlen p - 1)) \<le> (of_int p :: rat)"
    using b(1) by (simp only: of_int_le_iff)
  then show "(2::rat) powi (bitlen p - 1) \<le> of_int p"
    using n by (simp add: power_int_nonneg_exp)
  have "(of_int p :: rat) < of_int (2 ^ nat (bitlen p))"
    using b(2) by (simp only: of_int_less_iff)
  then show "of_int p < (2::rat) powi (bitlen p)"
    using n by (simp add: power_int_nonneg_exp)
qed

lemma ilog2_bounds:
  assumes "0 < x"
  shows "2 powi (ilog2 x) \<le> x" and "x < 2 powi (ilog2 x + 1)"
proof -
  obtain p q where pq: "quotient_of x = (p, q)" by fastforce
  then have x: "x = of_int p / of_int q" and q: "0 < q"
    by (simp_all add: quotient_of_div quotient_of_denom_pos)
  with assms have p: "0 < p" by (simp add: zero_less_divide_iff)
  let ?e = "bitlen p - bitlen q"
  note bp = bitlen_pos_bounds [OF p] and bq = bitlen_pos_bounds [OF q]
  have q': "(0::rat) < of_int q" using q by simp
  have "of_int p < (2::rat) powi (bitlen p)" by (rule bp)
  also have "\<dots> = 2 powi (?e + 1) * 2 powi (bitlen q - 1)"
    by (simp flip: power_int_add)
  also have "\<dots> \<le> 2 powi (?e + 1) * of_int q"
    using bq(1) by (intro mult_left_mono) auto
  finally have up: "x < 2 powi (?e + 1)" using q' by (simp add: x divide_less_eq)
  have "2 powi (?e - 1) * of_int q \<le> (2::rat) powi (?e - 1) * 2 powi (bitlen q)"
    using bq(2) by (intro mult_left_mono) auto
  also have "\<dots> = 2 powi (bitlen p - 1)" by (simp flip: power_int_add)
  also have "\<dots> \<le> of_int p" by (rule bp)
  finally have lo: "2 powi (?e - 1) \<le> x" using q' by (simp add: x le_divide_eq)
  show "2 powi (ilog2 x) \<le> x" "x < 2 powi (ilog2 x + 1)"
    using up lo by (auto simp: ilog2_def pq Let_def)
qed

lemma ilog2_mono: assumes "0 < x" "x \<le> y" shows "ilog2 x \<le> ilog2 y"
proof (rule ccontr)
  assume "\<not> ilog2 x \<le> ilog2 y"
  then have "(2::rat) powi (ilog2 y + 1) \<le> 2 powi (ilog2 x)"
    by (intro power_int_increasing) auto
  with ilog2_bounds(1) [of x] ilog2_bounds(2) [of y] assms show False by linarith
qed

lemma ulp_pos [simp]: "0 < ulp x" "0 \<le> ulp x" "ulp x \<noteq> 0"
  by (simp_all add: ulp_def)

lemma ulp_minus [simp]: "ulp (- x) = ulp x"
  by (simp add: ulp_def)

lemma ulp_mono: "0 < x \<Longrightarrow> x \<le> y \<Longrightarrow> ulp x \<le> ulp y"
  unfolding ulp_def using ilog2_mono [of x y] by (intro power_int_increasing) auto

subsection \<open>Rounding to an integer\<close>

lemma rhe_of_int [simp]: "round_half_even (of_int n) = n"
  by (simp add: round_half_even_def)

lemma rhe_0 [simp]: "round_half_even 0 = 0"
  using rhe_of_int [of 0] by simp

lemma rhe_numeral [simp]: "round_half_even (numeral k) = numeral k"
  using rhe_of_int [of "numeral k"] by simp

lemma rhe_near: "\<bar>of_int (round_half_even y) - y\<bar> \<le> 1/2"
proof -
  define f where "f = \<lfloor>y\<rfloor>"
  have f: "of_int f \<le> y" "y < of_int f + 1" unfolding f_def by linarith+
  show ?thesis
    unfolding round_half_even_def Let_def f_def [symmetric] using f by (auto simp: abs_le_iff)
qed

lemma rhe_mono: assumes "x \<le> y" shows "round_half_even x \<le> round_half_even y"
proof (rule ccontr)
  assume "\<not> ?thesis"
  then have gt: "round_half_even y + 1 \<le> round_half_even x" by simp
  have nx: "\<bar>of_int (round_half_even x) - x\<bar> \<le> 1/2" and ny: "\<bar>of_int (round_half_even y) - y\<bar> \<le> 1/2"
    by (rule rhe_near)+
  have "(of_int (round_half_even y) :: rat) + 1 \<le> of_int (round_half_even x)"
    using gt by (metis of_int_1 of_int_add of_int_le_iff)
  with nx ny assms have "x = y" unfolding abs_le_iff by linarith
  with gt show False by simp
qed

lemma rhe_minus: "round_half_even (- x) = - round_half_even x"
proof (cases "x = of_int \<lfloor>x\<rfloor>")
  case True
  then show ?thesis by (metis of_int_minus rhe_of_int)
next
  case False
  then have c: "\<lfloor>- x\<rfloor> = - \<lfloor>x\<rfloor> - 1" by linarith
  show ?thesis
    by (auto simp: round_half_even_def Let_def c)
qed

subsection \<open>Rounding to a double\<close>

lemma rnd_0 [simp]: "rnd 0 = 0"
  by (simp add: rnd_def)

lemma rnd_minus: "rnd (- x) = - rnd x"
  by (simp add: rnd_def rhe_minus)

lemma rnd_nonneg: assumes "0 \<le> x" shows "0 \<le> rnd x"
proof (cases "x = 0")
  case False
  have "round_half_even (of_int 0) \<le> round_half_even (x / ulp x)"
    using assms by (intro rhe_mono) simp
  then have "0 \<le> (of_int (round_half_even (x / ulp x)) :: rat)" by simp
  then show ?thesis using False unfolding rnd_def by (simp add: zero_le_mult_iff)
qed simp

lemma ulp_scale_upper: assumes "0 < x" shows "x \<le> 2 ^ 53 * ulp x"
proof -
  have "x < 2 powi (ilog2 x + 1)" using assms by (rule ilog2_bounds)
  also have "\<dots> \<le> (2::rat) powi (53 + max (ilog2 x - 52) (- 1074))"
    by (intro power_int_increasing) auto
  also have "\<dots> = 2 ^ 53 * ulp x"
    using assms by (simp add: ulp_def power_int_add)
  finally show ?thesis by simp
qed

lemma rnd_le_scale: assumes "0 < x" shows "rnd x \<le> 2 ^ 53 * ulp x"
proof -
  have "x / ulp x \<le> of_int (2 ^ 53)"
    using ulp_scale_upper [OF assms] by (simp add: divide_le_eq)
  then have "round_half_even (x / ulp x) \<le> 2 ^ 53"
    using rhe_mono [of "x / ulp x" "of_int (2 ^ 53)"] by (simp only: rhe_of_int)
  then have "(of_int (round_half_even (x / ulp x)) :: rat) \<le> of_int (2 ^ 53)"
    by (simp only: of_int_le_iff)
  then show ?thesis using assms by (simp add: rnd_def)
qed

lemma rnd_ge_scale: assumes "0 < y" "ulp x < ulp y" shows "2 ^ 52 * ulp y \<le> rnd y"
proof -
  have "ilog2 y - 52 > -1074"
  proof (rule ccontr)
    assume "\<not> ?thesis"
    then have "ulp y = 2 powi (- 1074)" using assms by (simp add: ulp_def max_def)
    moreover have "2 powi (- 1074) \<le> ulp x" unfolding ulp_def by (intro power_int_increasing) auto
    ultimately show False using assms by simp
  qed
  then have u: "ulp y = 2 powi (ilog2 y - 52)" using assms by (simp add: ulp_def)
  have "2 ^ 52 * ulp y = (2::rat) powi (ilog2 y)"
    unfolding u by (simp add: power_int_diff)
  also have "\<dots> \<le> y" using assms by (intro ilog2_bounds)
  finally have "of_int (2 ^ 52) \<le> y / ulp y" by (simp add: le_divide_eq)
  then have "2 ^ 52 \<le> round_half_even (y / ulp y)"
    using rhe_mono [of "of_int (2 ^ 52)" "y / ulp y"] by (simp only: rhe_of_int)
  then have "(of_int (2 ^ 52) :: rat) \<le> of_int (round_half_even (y / ulp y))"
    by (simp only: of_int_le_iff)
  then show ?thesis using assms by (simp add: rnd_def)
qed

lemma ulp_lt_double: assumes "ulp x < ulp y" shows "2 * ulp x \<le> ulp y"
proof -
  let ?a = "max (ilog2 \<bar>x\<bar> - 52) (- 1074)" and ?b = "max (ilog2 \<bar>y\<bar> - 52) (- 1074)"
  have "?a < ?b"
  proof (rule ccontr)
    assume "\<not> ?thesis"
    then have "(2::rat) powi ?b \<le> 2 powi ?a" by (intro power_int_increasing) auto
    with assms show False by (simp add: ulp_def)
  qed
  then have "(2::rat) powi (?a + 1) \<le> 2 powi ?b" by (intro power_int_increasing) auto
  then show ?thesis by (simp add: ulp_def power_int_add)
qed

lemma rnd_mono_pos: assumes "0 < x" "x \<le> y" shows "rnd x \<le> rnd y"
proof (cases "ulp x = ulp y")
  case True
  have "round_half_even (x / ulp x) \<le> round_half_even (y / ulp y)"
    using assms True by (intro rhe_mono) (simp add: divide_right_mono)
  then show ?thesis using assms True by (simp add: rnd_def)
next
  case False
  then have lt: "ulp x < ulp y" using ulp_mono [OF assms] by simp
  have "rnd x \<le> 2 ^ 53 * ulp x" using assms by (intro rnd_le_scale)
  also have "\<dots> \<le> 2 ^ 52 * ulp y" using ulp_lt_double [OF lt] by simp
  also have "\<dots> \<le> rnd y" using assms lt by (intro rnd_ge_scale) auto
  finally show ?thesis .
qed

lemma rnd_mono: assumes "x \<le> y" shows "rnd x \<le> rnd y"
proof -
  consider "0 < x" | "x \<le> 0" "0 \<le> y" | "y < 0" by linarith
  then show ?thesis
  proof cases
    case 1 then show ?thesis using assms by (rule rnd_mono_pos)
  next
    case 2
    then show ?thesis using rnd_nonneg [of y] rnd_nonneg [of "- x"] by (simp add: rnd_minus)
  next
    case 3
    then show ?thesis using rnd_mono_pos [of "- y" "- x"] assms by (simp add: rnd_minus)
  qed
qed

subsection \<open>Exactness\<close>

text \<open>Multiples \<open>m * 2^e\<close> with \<open>\<bar>m\<bar> \<le> 2^53\<close> and \<open>e \<ge> -1074\<close> are left alone.\<close>

lemma rnd_scaled:
  assumes "\<bar>m\<bar> \<le> 2 ^ 53" "-1074 \<le> e"
  shows "rnd (of_int m * 2 powi e) = of_int m * 2 powi e"
proof (cases "m = 0")
  case False
  let ?x = "of_int m * (2::rat) powi e" and ?k = "max (ilog2 \<bar>of_int m * (2::rat) powi e\<bar> - 52) (- 1074)"
  have ax: "\<bar>?x\<bar> = of_int \<bar>m\<bar> * 2 powi e" by (simp add: abs_mult power_int_abs)
  have x0: "?x \<noteq> 0" "0 < \<bar>?x\<bar>" using False by auto
  show ?thesis
  proof (cases "?k \<le> e")
    case True
    have "?x / ulp ?x = of_int (m * 2 ^ nat (e - ?k))"
      using True by (simp add: ulp_def power_int_nonneg_exp power_int_diff [symmetric] flip: times_divide_eq_right)
    then have "round_half_even (?x / ulp ?x) = m * 2 ^ nat (e - ?k)" by (simp only: rhe_of_int)
    moreover have "(2::rat) ^ nat (e - ?k) * 2 powi ?k = 2 powi e"
      using True by (simp add: power_int_nonneg_exp [symmetric] flip: power_int_add)
    ultimately show ?thesis
      using x0 by (simp add: rnd_def ulp_def mult.assoc)
  next
    case k: False
    have "(of_int \<bar>m\<bar> :: rat) \<le> of_int (2 ^ 53)" using assms(1) by (simp only: of_int_le_iff)
    then have m53: "(of_int \<bar>m\<bar> :: rat) \<le> 2 ^ 53" by simp
    have "2 powi (ilog2 \<bar>?x\<bar>) \<le> \<bar>?x\<bar>" using x0 by (intro ilog2_bounds)
    also have "\<dots> \<le> 2 ^ 53 * 2 powi e"
      unfolding ax using m53 by (intro mult_right_mono) auto
    also have "\<dots> = (2::rat) powi (53 + e)" by (simp add: power_int_add)
    finally have "ilog2 \<bar>?x\<bar> \<le> 53 + e" by (rule pow2_le_imp)
    with k assms(2) have ke: "ilog2 \<bar>?x\<bar> = 53 + e" "?k = e + 1" by auto
    have "(2::rat) ^ 53 * 2 powi e = 2 powi (53 + e)" by (simp add: power_int_add)
    also have "\<dots> \<le> \<bar>?x\<bar>"
      using ilog2_bounds(1) [OF x0(2)] by (simp only: ke(1))
    also have "\<dots> = of_int \<bar>m\<bar> * 2 powi e" by (rule ax)
    finally have "(2::rat) ^ 53 \<le> of_int \<bar>m\<bar>" by (simp add: mult_le_cancel_right)
    then have "of_int (2 ^ 53) \<le> (of_int \<bar>m\<bar> :: rat)" by simp
    then have "2 ^ 53 \<le> \<bar>m\<bar>" by (simp only: of_int_le_iff)
    then have m: "m = 2 ^ 53 \<or> m = - (2 ^ 53)" using assms(1) by linarith
    have u: "ulp ?x = 2 * 2 powi e" using ke by (simp add: ulp_def power_int_add)
    have "?x / ulp ?x = of_int (m div 2)" using m unfolding u by auto
    then have "round_half_even (?x / ulp ?x) = m div 2" by (simp only: rhe_of_int)
    then show ?thesis using x0 m unfolding rnd_def u by auto
  qed
qed simp

lemma rnd_of_int: "\<bar>n\<bar> \<le> 2 ^ 53 \<Longrightarrow> rnd (of_int n) = of_int n"
  using rnd_scaled [of n 0] by simp

lemma rnd_idem [simp]: "rnd (rnd x) = rnd x"
proof (cases "x = 0")
  case False
  have pos: "rnd (rnd y) = rnd y" if "0 < y" for y
  proof -
    let ?m = "round_half_even (y / ulp y)"
    have "0 \<le> ?m" using rhe_mono [of 0 "y / ulp y"] that by (simp add: less_imp_le)
    moreover have "?m \<le> 2 ^ 53"
      using rhe_mono [of "y / ulp y" "of_int (2 ^ 53)"] ulp_scale_upper [OF that]
      by (simp add: divide_le_eq)
    ultimately have "\<bar>?m\<bar> \<le> 2 ^ 53" by simp
    from rnd_scaled [OF this, of "max (ilog2 \<bar>y\<bar> - 52) (- 1074)"]
    show ?thesis using that by (simp add: rnd_def [of y] ulp_def)
  qed
  show ?thesis
    using pos [of x] pos [of "- x"] False by (cases "0 < x") (auto simp: rnd_minus)
qed simp

lemma rnd_numeral [simp]: "numeral k \<le> (2 ^ 53 :: int) \<Longrightarrow> rnd (numeral k) = numeral k"
  using rnd_of_int [of "numeral k"] by simp

lemma rnd_neg_numeral [simp]: "numeral k \<le> (2 ^ 53 :: int) \<Longrightarrow> rnd (- numeral k) = - numeral k"
  by (simp add: rnd_minus)

lemma rnd_1 [simp]: "rnd 1 = 1"
  using rnd_of_int [of 1] by simp

lemma rnd_ge_of_int: "\<bar>n\<bar> \<le> 2 ^ 53 \<Longrightarrow> of_int n \<le> x \<Longrightarrow> of_int n \<le> rnd x"
  using rnd_mono [of "of_int n" x] by (simp add: rnd_of_int)

lemma rnd_le_of_int: "\<bar>n\<bar> \<le> 2 ^ 53 \<Longrightarrow> x \<le> of_int n \<Longrightarrow> rnd x \<le> of_int n"
  using rnd_mono [of x "of_int n"] by (simp add: rnd_of_int)

subsection \<open>The four operations\<close>

lemma is_f64_rnd [simp, intro]: "is_f64 (rnd x)"
  by (simp add: is_f64_def)

lemma is_f64_op [simp, intro]:
  "is_f64 (fadd a b)" "is_f64 (fsub a b)" "is_f64 (fmul a b)" "is_f64 (fdiv a b)"
  by (simp_all add: fadd_def fsub_def fmul_def fdiv_def)

lemma is_f64_of_int: "\<bar>n\<bar> \<le> 2 ^ 53 \<Longrightarrow> is_f64 (of_int n)"
  by (simp add: is_f64_def rnd_of_int)

lemma is_f64_0 [simp, intro]: "is_f64 0" by (simp add: is_f64_def)

lemma is_f64_numeral [simp]: "numeral k \<le> (2 ^ 53 :: int) \<Longrightarrow> is_f64 (numeral k)"
  by (simp add: is_f64_def)

text \<open>Adding a positive amount never lowers a double; the smallest hypothesis under which the
  running totals of the trackers are monotone.\<close>

lemma fadd_ge: "is_f64 a \<Longrightarrow> 0 \<le> b \<Longrightarrow> a \<le> fadd a b"
  unfolding fadd_def is_f64_def using rnd_mono [of a "a + b"] by simp

lemma fadd_nonneg: "0 \<le> a \<Longrightarrow> 0 \<le> b \<Longrightarrow> 0 \<le> fadd a b"
  unfolding fadd_def by (intro rnd_nonneg) simp

lemma fadd_0 [simp]: "is_f64 a \<Longrightarrow> fadd a 0 = a" "is_f64 a \<Longrightarrow> fadd 0 a = a"
  by (simp_all add: fadd_def is_f64_def)

lemma fmul_nonneg: "0 \<le> a \<Longrightarrow> 0 \<le> b \<Longrightarrow> 0 \<le> fmul a b"
  unfolding fmul_def by (intro rnd_nonneg) simp

lemma fdiv_nonneg: "0 \<le> a \<Longrightarrow> 0 \<le> b \<Longrightarrow> 0 \<le> fdiv a b"
  unfolding fdiv_def by (intro rnd_nonneg) simp

lemma fsub_pos_imp: "0 < fsub a b \<Longrightarrow> b < a"
  unfolding fsub_def using rnd_mono [of "a - b" 0] by (force simp: not_le)

lemma fsub_nonpos_of_le: "a \<le> b \<Longrightarrow> fsub a b \<le> 0"
  unfolding fsub_def using rnd_mono [of "a - b" 0] by simp

text \<open>On integers of at most 53 bits the operations are the exact ones: request counts and token
  counts are tracked without rounding.\<close>

lemma fadd_int: "\<bar>m + n\<bar> \<le> 2 ^ 53 \<Longrightarrow> fadd (of_int m) (of_int n) = of_int (m + n)"
  by (simp add: fadd_def rnd_of_int flip: of_int_add)

lemma fsub_int: "\<bar>m - n\<bar> \<le> 2 ^ 53 \<Longrightarrow> fsub (of_int m) (of_int n) = of_int (m - n)"
  by (simp add: fsub_def rnd_of_int flip: of_int_diff)

lemma fmul_int: "\<bar>m * n\<bar> \<le> 2 ^ 53 \<Longrightarrow> fmul (of_int m) (of_int n) = of_int (m * n)"
  by (simp add: fmul_def rnd_of_int flip: of_int_mult)

text \<open>A Go conversion \<open>int(f)\<close> or \<open>int64(f)\<close> drops the fraction.\<close>

definition trunc :: "f64 \<Rightarrow> int" where
  "trunc x = (if 0 \<le> x then \<lfloor>x\<rfloor> else - \<lfloor>- x\<rfloor>)"

lemma trunc_of_int [simp]: "trunc (of_int n) = n"
  by (simp add: trunc_def)

lemma trunc_mono: assumes "x \<le> y" shows "trunc x \<le> trunc y"
proof -
  consider "0 \<le> x" | "x < 0" "0 \<le> y" | "y < 0" by linarith
  then show ?thesis
  proof cases
    case 1 then show ?thesis using assms by (simp add: trunc_def floor_mono)
  next
    case 2
    then have "0 \<le> \<lfloor>- x\<rfloor>" "0 \<le> \<lfloor>y\<rfloor>" by simp_all
    then have "- \<lfloor>- x\<rfloor> \<le> \<lfloor>y\<rfloor>" by linarith
    then show ?thesis using 2 by (simp add: trunc_def)
  next
    case 3
    then show ?thesis using assms floor_mono [of "- y" "- x"] by (simp add: trunc_def)
  qed
qed

lemma trunc_nonneg: "0 \<le> x \<Longrightarrow> 0 \<le> trunc x"
  by (simp add: trunc_def)

end
