(* ===== verification/Prelude.thy ===== *)
theory Prelude
  imports Float64 "HOL-Library.Signed_Division" "HOL-Library.Product_Lexorder"
    "HOL-Library.List_Lexorder" "HOL-Library.Char_ord"
begin

text \<open>
  What the components share: Go times and durations, machine integers, the statements of the
  embedded database with their possible failures, and the operations of a component as functions
  on its state that either return a value or an error text.
\<close>

subsection \<open>Machine integers\<close>

text \<open>Go \<open>int\<close> and \<open>int64\<close> (64 bit): results of arithmetic are wrapped.\<close>

definition i64 :: "int \<Rightarrow> int" where
  "i64 n = (n + 2 ^ 63) mod 2 ^ 64 - 2 ^ 63"

definition in_i64 :: "int \<Rightarrow> bool" where
  "in_i64 n \<longleftrightarrow> - (2 ^ 63) \<le> n \<and> n < 2 ^ 63"

lemma i64_id [simp]: "in_i64 n \<Longrightarrow> i64 n = n"
  by (simp add: i64_def in_i64_def)

lemma in_i64_i64 [simp]: "in_i64 (i64 n)"
  using pos_mod_bound [of "2 ^ 64" "n + 2 ^ 63"] pos_mod_sign [of "2 ^ 64" "n + 2 ^ 63"]
  by (simp add: i64_def in_i64_def)

subsection \<open>Times and durations\<close>

text \<open>
  A \<open>time.Time\<close> is its instant, in nanoseconds since the Unix epoch; the monotonic reading and
  the location are dropped (no comparison of the modelled code depends on them). A
  \<open>time.Duration\<close> is a 64-bit number of nanoseconds. \<open>time_Sub\<close> saturates as Go's
  \<open>Time.Sub\<close> does.
\<close>

type_synonym time = int
type_synonym duration = int

abbreviation Second :: duration where "Second \<equiv> 1000000000"
abbreviation Minute :: duration where "Minute \<equiv> 60000000000"
abbreviation Hour :: duration where "Hour \<equiv> 3600000000000"

definition zero_time :: time where "zero_time = - 62135596800 * Second"

definition time_After :: "time \<Rightarrow> time \<Rightarrow> bool" where "time_After t u \<longleftrightarrow> u < t"
definition time_Before :: "time \<Rightarrow> time \<Rightarrow> bool" where "time_Before t u \<longleftrightarrow> t < u"
definition time_Add :: "time \<Rightarrow> duration \<Rightarrow> time" where "time_Add t d = t + d"

definition time_Sub :: "time \<Rightarrow> time \<Rightarrow> duration" where
  "time_Sub t u = max (- (2 ^ 63)) (min (2 ^ 63 - 1) (t - u))"

text \<open>\<open>t.Truncate(d)\<close> rounds down to a multiple of \<open>d\<close> since the zero time; for the durations
  used (whole hours) the epoch is such a multiple.\<close>

definition time_Truncate :: "time \<Rightarrow> duration \<Rightarrow> time" where
  "time_Truncate t d = t - (t - zero_time) mod d"

text \<open>The idiom \<open>if diff < 0 { diff = -diff }\<close> on a duration.\<close>

definition dur_abs :: "duration \<Rightarrow> duration" where
  "dur_abs d = (if d < 0 then i64 (- d) else d)"

definition dur_Hours :: "duration \<Rightarrow> f64" where
  "dur_Hours d = fadd (rnd (of_int (d sdiv Hour))) (fdiv (rnd (of_int (d smod Hour))) 3600000000000)"

definition dur_Minutes :: "duration \<Rightarrow> f64" where
  "dur_Minutes d = fadd (rnd (of_int (d sdiv Minute))) (fdiv (rnd (of_int (d smod Minute))) 60000000000)"

named_theorems time_defs
lemmas [time_defs] = time_After_def time_Before_def time_Add_def

lemma dur_abs_gt_iff:
  assumes "0 \<le> tol" "\<bar>t - u\<bar> < 2 ^ 63"
  shows "tol < dur_abs (time_Sub t u) \<longleftrightarrow> tol < \<bar>t - u\<bar>"
proof -
  have "time_Sub t u = t - u" using assms by (simp add: time_Sub_def)
  moreover have "i64 (- (t - u)) = - (t - u)" using assms by (intro i64_id) (auto simp: in_i64_def abs_less_iff)
  ultimately show ?thesis by (simp add: dur_abs_def)
qed

text \<open>
  The database stores a time as its RFC 3339 text with nanoseconds, in which trailing zeros of the
  fraction are dropped. For the UTC times the program stores the text determines the instant, so a
  column value is kept as the \<^typ>\<open>time\<close> itself; but SQL compares and sorts the text, and that
  order is the one below: first the whole seconds (fixed-width date and time), then the rest of the
  text, which is the fraction without its trailing zeros followed by \<open>Z\<close>.
\<close>

fun digits9 :: "nat \<Rightarrow> nat \<Rightarrow> string" where
  "digits9 0 n = []"
| "digits9 (Suc k) n = digits9 k (n div 10) @ [char_of (48 + n mod 10)]"

definition frac_text :: "nat \<Rightarrow> string" where
  "frac_text ns =
     (if ns = 0 then ''Z''
      else ''.'' @ rev (dropWhile (\<lambda>c. c = CHR ''0'') (rev (digits9 9 ns))) @ ''Z'')"

definition text_key :: "time \<Rightarrow> int \<times> string" where
  "text_key t = (t div Second, frac_text (nat (t mod Second)))"

definition text_less_eq :: "time \<Rightarrow> time \<Rightarrow> bool" where
  "text_less_eq t u \<longleftrightarrow> text_key t \<le> text_key u"

lemma text_less_eq_second: "t div Second < u div Second \<Longrightarrow> text_less_eq t u"
  by (simp add: text_less_eq_def text_key_def)

subsection \<open>Numbers as text\<close>

text \<open>\<open>%d\<close> of \<open>fmt.Sprintf\<close>. Different numbers have different texts, and only a sign and digits occur in them.\<close>

fun dec_digits :: "nat \<Rightarrow> string" where
  "dec_digits n = (if n < 10 then [char_of (48 + n)] else dec_digits (n div 10) @ [char_of (48 + n mod 10)])"

declare dec_digits.simps [simp del]

definition itoa :: "int \<Rightarrow> string" where
  "itoa n = (if n < 0 then CHR ''-'' # dec_digits (nat (- n)) else dec_digits (nat n))"

definition dec_value :: "string \<Rightarrow> nat" where
  "dec_value s = foldl (\<lambda>a c. 10 * a + (of_char c - 48)) 0 s"

lemma of_char_digit: "d < 10 \<Longrightarrow> (of_char (char_of (48 + d) :: char) :: nat) = 48 + d"
  by (simp add: of_char_of)

lemma dec_value_digits: "dec_value (dec_digits n) = n"
proof (induction n rule: dec_digits.induct)
  case (1 n)
  then show ?case
    by (subst dec_digits.simps) (auto simp: dec_value_def of_char_digit)
qed

lemma dec_digits_chars: "c \<in> set (dec_digits n) \<Longrightarrow> 48 \<le> (of_char c :: nat) \<and> (of_char c :: nat) < 58"
proof (induction n rule: dec_digits.induct)
  case (1 n)
  from 1(2) show ?case
    by (subst (asm) dec_digits.simps) (auto simp: of_char_digit split: if_splits dest: 1(1))
qed

lemma itoa_chars: "c \<in> set (itoa n) \<Longrightarrow> c = CHR ''-'' \<or> 48 \<le> (of_char c :: nat) \<and> (of_char c :: nat) < 58"
  by (auto simp: itoa_def split: if_splits dest: dec_digits_chars)

lemma itoa_no_colon: "CHR '':'' \<notin> set (itoa n)"
  using itoa_chars [of "CHR '':''" n] by auto

lemma dec_digits_no_minus: "CHR ''-'' # xs \<noteq> dec_digits n"
proof
  assume *: "CHR ''-'' # xs = dec_digits n"
  have "CHR ''-'' \<in> set (CHR ''-'' # xs)" by simp
  then have "CHR ''-'' \<in> set (dec_digits n)" using * by simp
  then show False using dec_digits_chars [of "CHR ''-''" n] by simp
qed

lemma dec_digits_inj [simp]: "dec_digits m = dec_digits n \<longleftrightarrow> m = n"
  by (metis dec_value_digits)

lemma itoa_inj [simp]: "itoa m = itoa n \<longleftrightarrow> m = n"
  using dec_digits_no_minus by (auto simp: itoa_def dec_digits_no_minus [symmetric])

subsection \<open>Operations with a state and an error\<close>

text \<open>
  An operation maps the state to a result and the new state; the result is the value or the text
  of the error. The state is returned in both cases: what was done before the error stays done.
\<close>

type_synonym ('s, 'a) op = "'s \<Rightarrow> (string + 'a) \<times> 's"

definition returnE :: "'a \<Rightarrow> ('s, 'a) op" where "returnE x s = (Inr x, s)"
definition failE :: "string \<Rightarrow> ('s, 'a) op" where "failE e s = (Inl e, s)"
definition modifyE :: "('s \<Rightarrow> 's) \<Rightarrow> ('s, unit) op" where "modifyE f s = (Inr (), f s)"
definition getE :: "('s \<Rightarrow> 'a) \<Rightarrow> ('s, 'a) op" where "getE f s = (Inr (f s), s)"

definition bindE :: "('s, 'a) op \<Rightarrow> ('a \<Rightarrow> ('s, 'b) op) \<Rightarrow> ('s, 'b) op" where
  "bindE m f s = (case m s of (Inl e, s') \<Rightarrow> (Inl e, s') | (Inr x, s') \<Rightarrow> f x s')"

definition thenE :: "('s, unit) op \<Rightarrow> ('s, 'b) op \<Rightarrow> ('s, 'b) op" where
  "thenE m n = bindE m (\<lambda>_. n)"

text \<open>\<open>fmt.Errorf("msg: %w", err)\<close>.\<close>

definition wrapE :: "string \<Rightarrow> ('s, 'a) op \<Rightarrow> ('s, 'a) op" where
  "wrapE msg m s = (case m s of (Inl e, s') \<Rightarrow> (Inl (msg @ e), s') | (Inr x, s') \<Rightarrow> (Inr x, s'))"

text \<open>A loop over a slice that returns at the first error.\<close>

fun forE :: "('a \<Rightarrow> ('s, unit) op) \<Rightarrow> 'a list \<Rightarrow> ('s, unit) op" where
  "forE f [] = returnE ()"
| "forE f (x # xs) = thenE (f x) (forE f xs)"

text \<open>An operation on a part of the state.\<close>

definition liftE :: "('s \<Rightarrow> 't) \<Rightarrow> ('t \<Rightarrow> 's \<Rightarrow> 's) \<Rightarrow> ('t, 'a) op \<Rightarrow> ('s, 'a) op" where
  "liftE part put m s = (case m (part s) of (r, t) \<Rightarrow> (r, put t s))"

text \<open>Ignoring the error of a call, as code that only logs it does.\<close>

definition ignoreE :: "('s, 'a) op \<Rightarrow> 's \<Rightarrow> 's" where "ignoreE m s = snd (m s)"

subsection \<open>Weakest preconditions\<close>

text \<open>
  \<open>wp m Q E s\<close>: run from \<open>s\<close>, the operation returns normally with \<open>Q\<close> or fails with \<open>E\<close>.
  Operations are total, so this is also total correctness.
\<close>

definition wp :: "('s, 'a) op \<Rightarrow> ('a \<Rightarrow> 's \<Rightarrow> bool) \<Rightarrow> (string \<Rightarrow> 's \<Rightarrow> bool) \<Rightarrow> 's \<Rightarrow> bool" where
  "wp m Q E s = (case m s of (Inl e, s') \<Rightarrow> E e s' | (Inr x, s') \<Rightarrow> Q x s')"

named_theorems wps

lemma wp_returnE [wps]: "wp (returnE x) Q E s = Q x s"
  by (simp add: wp_def returnE_def)

lemma wp_failE [wps]: "wp (failE e) Q E s = E e s"
  by (simp add: wp_def failE_def)

lemma wp_modifyE [wps]: "wp (modifyE f) Q E s = Q () (f s)"
  by (simp add: wp_def modifyE_def)

lemma wp_getE [wps]: "wp (getE f) Q E s = Q (f s) s"
  by (simp add: wp_def getE_def)

lemma wp_bindE [wps]: "wp (bindE m f) Q E s = wp m (\<lambda>x. wp (f x) Q E) E s"
  by (simp add: wp_def bindE_def split: prod.split sum.split)

lemma wp_thenE [wps]: "wp (thenE m n) Q E s = wp m (\<lambda>_. wp n Q E) E s"
  by (simp add: thenE_def wp_bindE)

lemma wp_wrapE [wps]: "wp (wrapE msg m) Q E s = wp m Q (\<lambda>e. E (msg @ e)) s"
  by (simp add: wp_def wrapE_def split: prod.split sum.split)

lemma wp_liftE: "wp (liftE part put m) Q E s = wp m (\<lambda>x t. Q x (put t s)) (\<lambda>e t. E e (put t s)) (part s)"
  by (simp add: wp_def liftE_def split: prod.split sum.split)

lemma wp_liftE_run: "m (part s) = (Inr x, t) \<Longrightarrow> wp (liftE part put m) Q E s = Q x (put t s)"
  by (simp add: wp_def liftE_def)

lemma wp_if [wps]: "wp (if b then m else n) Q E s = (if b then wp m Q E s else wp n Q E s)"
  by simp

lemma wp_mono:
  "wp m Q E s \<Longrightarrow> (\<And>x s'. Q x s' \<Longrightarrow> Q' x s') \<Longrightarrow> (\<And>e s'. E e s' \<Longrightarrow> E' e s') \<Longrightarrow> wp m Q' E' s"
  by (auto simp: wp_def split: prod.splits sum.splits)

lemma wp_ignore: "wp m (\<lambda>_. P) (\<lambda>_. P) s \<Longrightarrow> P (ignoreE m s)"
  by (auto simp: wp_def ignoreE_def split: prod.splits sum.splits)

lemma wp_forE_inv:
  assumes "I s" and "\<And>x s. x \<in> set xs \<Longrightarrow> I s \<Longrightarrow> wp (f x) (\<lambda>_. I) (\<lambda>_. I) s"
  shows "wp (forE f xs) (\<lambda>_. I) (\<lambda>_. I) s"
  using assms
proof (induction xs arbitrary: s)
  case (Cons x xs)
  have "wp (f x) (\<lambda>_. I) (\<lambda>_. I) s" using Cons.prems by simp
  then show ?case
    unfolding forE.simps wp_thenE by (rule wp_mono) (use Cons in auto)
qed (simp add: wps)

text \<open>Elements for which nothing is done can be left out of a loop.\<close>

lemma forE_filter:
  "(\<And>x. \<not> P x \<Longrightarrow> f x = returnE ()) \<Longrightarrow> forE f xs = forE f (filter P xs)"
  by (induction xs) (auto simp: thenE_def bindE_def returnE_def fun_eq_iff split: prod.split sum.split)

text \<open>Running an operation whose statements all succeed.\<close>

lemma run_returnE [simp]: "returnE x s = (Inr x, s)"
  by (simp add: returnE_def)

lemma run_failE [simp]: "failE e s = (Inl e, s)"
  by (simp add: failE_def)

lemma run_modifyE [simp]: "modifyE f s = (Inr (), f s)"
  by (simp add: modifyE_def)

lemma run_bindE_ok: "m s = (Inr x, s') \<Longrightarrow> bindE m f s = f x s'"
  by (simp add: bindE_def)

lemma run_bindE_err: "m s = (Inl e, s') \<Longrightarrow> bindE m f s = (Inl e, s')"
  by (simp add: bindE_def)

lemma run_thenE_ok: "m s = (Inr x, s') \<Longrightarrow> thenE m n s = n s'"
  by (simp add: thenE_def bindE_def)

lemma run_thenE_err: "m s = (Inl e, s') \<Longrightarrow> thenE m n s = (Inl e, s')"
  by (simp add: thenE_def bindE_def)

lemma run_wrapE_ok: "m s = (Inr x, s') \<Longrightarrow> wrapE msg m s = (Inr x, s')"
  by (simp add: wrapE_def)

lemma run_wrapE_err: "m s = (Inl e, s') \<Longrightarrow> wrapE msg m s = (Inl (msg @ e), s')"
  by (simp add: wrapE_def)

lemmas runs = run_bindE_ok run_thenE_ok run_wrapE_ok

subsection \<open>Database tables and statements\<close>

text \<open>
  A table is the list of its rows in insertion order, the last value of its
  \<open>AUTOINCREMENT\<close> key, and the outcomes of the coming statements: the error text of the driver
  for a statement that fails, \<open>None\<close> for one that succeeds; after the end of the list all
  succeed. A failing statement leaves the rows as they were (SQLite's statement atomicity).
\<close>

record 'r tbl =
  db_rows :: "'r list"
  db_seq :: int
  db_faults :: "string option list"

definition empty_tbl :: "'r tbl" where
  "empty_tbl = \<lparr>db_rows = [], db_seq = 0, db_faults = []\<rparr>"

definition db_stmt :: "('r tbl \<Rightarrow> 'a \<times> 'r tbl) \<Rightarrow> ('r tbl, 'a) op" where
  "db_stmt f t =
     (case db_faults t of
        [] \<Rightarrow> (case f t of (a, t') \<Rightarrow> (Inr a, t'))
      | None # fs \<Rightarrow> (case f (t\<lparr>db_faults := fs\<rparr>) of (a, t') \<Rightarrow> (Inr a, t'))
      | Some e # fs \<Rightarrow> (Inl e, t\<lparr>db_faults := fs\<rparr>))"

text \<open>A table on which no statement fails.\<close>

definition healthy :: "'r tbl \<Rightarrow> bool" where
  "healthy t \<longleftrightarrow> db_faults t = []"

lemma run_db_stmt: "healthy t \<Longrightarrow> db_stmt f t = (Inr (fst (f t)), snd (f t))"
  by (simp add: db_stmt_def healthy_def split: prod.split)

lemma wp_db_healthy: "healthy t \<Longrightarrow> wp (db_stmt f) Q E t = Q (fst (f t)) (snd (f t))"
  by (simp add: wp_def run_db_stmt)

lemma wp_db_stmt:
  assumes "\<And>fs. Q (fst (f (t\<lparr>db_faults := fs\<rparr>))) (snd (f (t\<lparr>db_faults := fs\<rparr>)))"
    and "\<And>e fs. E e (t\<lparr>db_faults := fs\<rparr>)"
  shows "wp (db_stmt f) Q E t"
proof -
  have eq: "t\<lparr>db_faults := db_faults t\<rparr> = t" by simp
  show ?thesis
    using assms(1) [of "db_faults t"] assms(1) assms(2) unfolding eq
    by (auto simp: wp_def db_stmt_def split: list.split option.split prod.splits)
       (metis fst_conv snd_conv)+
qed

end
