(* ===== verification/CycleStore.thy ===== *)
theory CycleStore
  imports Prelude "HOL-Library.Multiset"
begin

text \<open>
  The reset-cycle tables. Every provider has a table of quota cycles with the columns id, quota key,
  cycle_start, cycle_end, reset time, peak and total_delta; a cycle is active while its cycle_end is
  NULL. This theory holds the rows, the SQL statements on them, the well-formedness of a table (at
  most one active cycle per quota, unique ids), the relation of the atomic changes a table can
  undergo, and the interface \<open>cycle_store\<close> the trackers are proved against.
\<close>

subsection \<open>Rows\<close>

record ('k, 'v, 'r) cycle =
  cyc_id :: int
  cyc_key :: 'k
  cyc_start :: time
  cyc_end :: "time option"
  cyc_reset :: 'r
  cyc_peak :: 'v
  cyc_delta :: 'v

type_synonym ('k, 'v, 'r) cycles = "('k, 'v, 'r) cycle tbl"

definition is_active :: "'k \<Rightarrow> ('k, 'v, 'r) cycle \<Rightarrow> bool" where
  "is_active k c \<longleftrightarrow> cyc_key c = k \<and> cyc_end c = None"

definition is_closed :: "'k \<Rightarrow> ('k, 'v, 'r) cycle \<Rightarrow> bool" where
  "is_closed k c \<longleftrightarrow> cyc_key c = k \<and> cyc_end c \<noteq> None"

definition active :: "'k \<Rightarrow> ('k, 'v, 'r) cycles \<Rightarrow> ('k, 'v, 'r) cycle option" where
  "active k t = find (is_active k) (db_rows t)"

definition closed_cycles :: "'k \<Rightarrow> ('k, 'v, 'r) cycles \<Rightarrow> ('k, 'v, 'r) cycle list" where
  "closed_cycles k t = filter (is_closed k) (db_rows t)"

subsection \<open>The effect of the statements on a table\<close>

definition add_cycle :: "'k \<Rightarrow> time \<Rightarrow> 'r \<Rightarrow> 'v \<Rightarrow> 'v \<Rightarrow> ('k, 'v, 'r) cycles \<Rightarrow> ('k, 'v, 'r) cycles" where
  "add_cycle k s r p d t =
     t\<lparr>db_rows := db_rows t @
          [\<lparr>cyc_id = db_seq t + 1, cyc_key = k, cyc_start = s, cyc_end = None,
            cyc_reset = r, cyc_peak = p, cyc_delta = d\<rparr>],
       db_seq := db_seq t + 1\<rparr>"

definition update_where ::
    "(('k, 'v, 'r) cycle \<Rightarrow> bool) \<Rightarrow> (('k, 'v, 'r) cycle \<Rightarrow> ('k, 'v, 'r) cycle) \<Rightarrow> ('k, 'v, 'r) cycles \<Rightarrow> ('k, 'v, 'r) cycles" where
  "update_where P f t = t\<lparr>db_rows := map (\<lambda>c. if P c then f c else c) (db_rows t)\<rparr>"

definition set_stats :: "'k \<Rightarrow> 'v \<Rightarrow> 'v \<Rightarrow> ('k, 'v, 'r) cycles \<Rightarrow> ('k, 'v, 'r) cycles" where
  "set_stats k p d = update_where (is_active k) (\<lambda>c. c\<lparr>cyc_peak := p, cyc_delta := d\<rparr>)"

definition set_reset :: "'k \<Rightarrow> 'r \<Rightarrow> ('k, 'v, 'r) cycles \<Rightarrow> ('k, 'v, 'r) cycles" where
  "set_reset k r = update_where (is_active k) (\<lambda>c. c\<lparr>cyc_reset := r\<rparr>)"

definition end_cycle :: "'k \<Rightarrow> time \<Rightarrow> 'v \<Rightarrow> 'v \<Rightarrow> ('k, 'v, 'r) cycles \<Rightarrow> ('k, 'v, 'r) cycles" where
  "end_cycle k e p d =
     update_where (is_active k) (\<lambda>c. c\<lparr>cyc_end := Some e, cyc_peak := p, cyc_delta := d\<rparr>)"

definition expire_cycle :: "'k \<Rightarrow> time \<Rightarrow> ('k, 'v, 'r) cycles \<Rightarrow> ('k, 'v, 'r) cycles" where
  "expire_cycle k e = update_where (is_active k) (\<lambda>c. c\<lparr>cyc_end := Some e\<rparr>)"

subsection \<open>The statements\<close>

text \<open>
  \<open>INSERT\<close> and the read of the new id, which is a second call of the driver; the two \<open>UPDATE\<close>s
  of the active cycle; the \<open>SELECT\<close> of the active cycle; the \<open>SELECT\<close> of a history with an
  optional limit, newest first in the order of the text column. Each takes the texts with which the
  provider's function wraps the errors of the driver.
\<close>

definition sql_create ::
    "string \<Rightarrow> string \<Rightarrow> 'k \<Rightarrow> time \<Rightarrow> 'r \<Rightarrow> 'v \<Rightarrow> 'v \<Rightarrow> (('k, 'v, 'r) cycles, int) op" where
  "sql_create msg idmsg k s r p d =
     bindE (wrapE msg (db_stmt (\<lambda>t. (db_seq t + 1, add_cycle k s r p d t))))
       (\<lambda>i. wrapE idmsg (db_stmt (\<lambda>t. (i, t))))"

definition sql_exec :: "string \<Rightarrow> (('k, 'v, 'r) cycles \<Rightarrow> ('k, 'v, 'r) cycles) \<Rightarrow> (('k, 'v, 'r) cycles, unit) op" where
  "sql_exec msg f = wrapE msg (db_stmt (\<lambda>t. ((), f t)))"

definition sql_active :: "string \<Rightarrow> 'k \<Rightarrow> (('k, 'v, 'r) cycles, ('k, 'v, 'r) cycle option) op" where
  "sql_active msg k = wrapE msg (db_stmt (\<lambda>t. (active k t, t)))"

definition order_desc :: "('r \<Rightarrow> time) \<Rightarrow> 'r list \<Rightarrow> 'r list" where
  "order_desc f xs = rev (sort_key (\<lambda>r. text_key (f r)) xs)"

definition order_asc :: "('r \<Rightarrow> time) \<Rightarrow> 'r list \<Rightarrow> 'r list" where
  "order_asc f xs = sort_key (\<lambda>r. text_key (f r)) xs"

text \<open>\<open>ORDER BY cycle_start DESC LIMIT 1\<close> on the active cycles.\<close>

definition sql_active_latest :: "string \<Rightarrow> 'k \<Rightarrow> (('k, 'v, 'r) cycles, ('k, 'v, 'r) cycle option) op" where
  "sql_active_latest msg k =
     wrapE msg (db_stmt (\<lambda>t.
       (case order_desc cyc_start (filter (is_active k) (db_rows t)) of [] \<Rightarrow> None | c # _ \<Rightarrow> Some c, t)))"

text \<open>The optional \<open>limit ...int\<close> argument: only a first value above zero limits.\<close>

definition sql_limit :: "int list \<Rightarrow> 'a list \<Rightarrow> 'a list" where
  "sql_limit limit xs = (case limit of [] \<Rightarrow> xs | l # _ \<Rightarrow> if 0 < l then take (nat l) xs else xs)"

definition rows_err :: "'a \<Rightarrow> ('r tbl, 'a) op" where
  "rows_err xs = db_stmt (\<lambda>t. (xs, t))"

definition sql_history ::
    "string \<Rightarrow> (('k, 'v, 'r) cycle \<Rightarrow> bool) \<Rightarrow> int list \<Rightarrow> (('k, 'v, 'r) cycles, ('k, 'v, 'r) cycle list) op" where
  "sql_history msg P limit =
     bindE (wrapE msg (db_stmt (\<lambda>t. (sql_limit limit (order_desc cyc_start (filter P (db_rows t))), t))))
       rows_err"

text \<open>The snapshot tables: \<open>INSERT\<close>, newest row, rows of a period (\<open>BETWEEN\<close> on the text column; with a
  limit the newest ones, still oldest first). Rows with the same text come out in insertion order.\<close>

definition sql_insert_snapshot :: "string \<Rightarrow> string \<Rightarrow> (int \<Rightarrow> 'r) \<Rightarrow> ('r tbl, int) op" where
  "sql_insert_snapshot msg idmsg mk =
     bindE (wrapE msg (db_stmt (\<lambda>t. (db_seq t + 1,
              t\<lparr>db_rows := db_rows t @ [mk (db_seq t + 1)], db_seq := db_seq t + 1\<rparr>))))
       (\<lambda>i. wrapE idmsg (db_stmt (\<lambda>t. (i, t))))"

definition sql_latest :: "string \<Rightarrow> ('r \<Rightarrow> time) \<Rightarrow> ('r tbl, 'r option) op" where
  "sql_latest msg col = wrapE msg (db_stmt (\<lambda>t.
     (case order_desc col (db_rows t) of [] \<Rightarrow> None | r # _ \<Rightarrow> Some r, t)))"

definition between_rows :: "('r \<Rightarrow> time) \<Rightarrow> time \<Rightarrow> time \<Rightarrow> int list \<Rightarrow> 'r list \<Rightarrow> 'r list" where
  "between_rows col start stop limit rows =
     (let hits = filter (\<lambda>r. text_less_eq start (col r) \<and> text_less_eq (col r) stop) rows
      in case limit of
           [] \<Rightarrow> order_asc col hits
         | l # _ \<Rightarrow> if 0 < l then order_asc col (rev (take (nat l) (order_desc col hits)))
                    else order_asc col hits)"

definition sql_range ::
    "string \<Rightarrow> ('r \<Rightarrow> time) \<Rightarrow> time \<Rightarrow> time \<Rightarrow> int list \<Rightarrow> ('r tbl, 'r list) op" where
  "sql_range msg col start stop limit =
     bindE (wrapE msg (db_stmt (\<lambda>t. (between_rows col start stop limit (db_rows t), t)))) rows_err"

lemma sql_limit_Nil [simp]: "sql_limit [] xs = xs"
  by (simp add: sql_limit_def)

lemma order_desc_props [simp]:
  "set (order_desc f xs) = set xs" "length (order_desc f xs) = length xs" "mset (order_desc f xs) = mset xs"
  "order_desc f xs = [] \<longleftrightarrow> xs = []"
  by (simp_all add: order_desc_def) (metis length_0_conv length_rev length_sort)

lemma order_desc_last:
  assumes "x \<in> set xs" shows "text_less_eq (f (List.last (order_desc f xs))) (f x)"
proof -
  let ?g = "\<lambda>r. text_key (f r)"
  have ne: "sort_key ?g xs \<noteq> []" using assms by (metis empty_iff empty_set set_sort)
  then have "List.last (order_desc f xs) = hd (sort_key ?g xs)" by (simp add: order_desc_def last_rev)
  moreover have "sorted (map ?g (sort_key ?g xs))" by simp
  moreover have "x \<in> set (sort_key ?g xs)" using assms by simp
  ultimately show ?thesis using ne
    by (cases "sort_key ?g xs") (auto simp: text_less_eq_def)
qed

lemma order_desc_sorted: "sorted (rev (map (\<lambda>r. text_key (f r)) (order_desc f xs)))"
  by (simp add: order_desc_def rev_map)

lemma run_sql_history:
  "healthy t \<Longrightarrow> sql_history msg P limit t = (Inr (sql_limit limit (order_desc cyc_start (filter P (db_rows t)))), t)"
  by (simp add: sql_history_def rows_err_def runs run_db_stmt)

lemma run_sql_latest:
  "healthy t \<Longrightarrow> sql_latest msg col t = (Inr (case order_desc col (db_rows t) of [] \<Rightarrow> None | r # _ \<Rightarrow> Some r), t)"
  by (simp add: sql_latest_def runs run_db_stmt)

subsection \<open>Well-formed tables\<close>

definition wf_cycles :: "('k, 'v, 'r) cycles \<Rightarrow> bool" where
  "wf_cycles t \<longleftrightarrow>
     (\<forall>k. length (filter (is_active k) (db_rows t)) \<le> 1) \<and>
     distinct (map cyc_id (db_rows t)) \<and>
     (\<forall>c \<in> set (db_rows t). 0 < cyc_id c \<and> cyc_id c \<le> db_seq t) \<and> 0 \<le> db_seq t"

definition same_data :: "'r tbl \<Rightarrow> 'r tbl \<Rightarrow> bool" where
  "same_data t t' \<longleftrightarrow> db_rows t' = db_rows t \<and> db_seq t' = db_seq t"

lemma same_data_refl [simp]: "same_data t t"
  by (simp add: same_data_def)

lemma same_data_faults [simp]: "same_data t (t\<lparr>db_faults := fs\<rparr>)" "same_data (t\<lparr>db_faults := fs\<rparr>) t"
  by (simp_all add: same_data_def)

named_theorems tbl_defs
lemmas [tbl_defs] = add_cycle_def update_where_def set_stats_def set_reset_def end_cycle_def expire_cycle_def

lemma same_data_upd [simp]:
  "same_data (add_cycle k s r p d t) (add_cycle k s r p d (t\<lparr>db_faults := fs\<rparr>))"
  "same_data (update_where P f t) (update_where P f (t\<lparr>db_faults := fs\<rparr>))"
  by (simp_all add: same_data_def tbl_defs)

lemma find_filter: "find P xs = (case filter P xs of [] \<Rightarrow> None | x # _ \<Rightarrow> Some x)"
  by (induction xs) auto

lemma active_None_iff: "active k t = None \<longleftrightarrow> (\<forall>c \<in> set (db_rows t). \<not> is_active k c)"
  by (auto simp: active_def find_None_iff)

lemma active_Some: "active k t = Some c \<Longrightarrow> c \<in> set (db_rows t) \<and> cyc_key c = k \<and> cyc_end c = None"
  by (auto simp: active_def find_Some_iff is_active_def)

lemma active_same: "same_data t t' \<Longrightarrow> active k t' = active k t"
  by (simp add: active_def same_data_def)

lemma wf_same: "same_data t t' \<Longrightarrow> wf_cycles t' = wf_cycles t"
  by (simp add: wf_cycles_def same_data_def)

lemma wf_empty [simp]: "wf_cycles empty_tbl"
  by (simp add: wf_cycles_def empty_tbl_def)

lemma filter_active_None: "active k t = None \<Longrightarrow> filter (is_active k) (db_rows t) = []"
  by (simp add: active_None_iff filter_empty_conv)

text \<open>On a well-formed table the newest active cycle is the only one.\<close>

lemma active_latest:
  assumes "wf_cycles t"
  shows "(case order_desc cyc_start (filter (is_active k) (db_rows t)) of [] \<Rightarrow> None | c # _ \<Rightarrow> Some c) = active k t"
proof -
  have "length (filter (is_active k) (db_rows t)) \<le> 1" using assms by (simp add: wf_cycles_def)
  then consider "filter (is_active k) (db_rows t) = []"
    | c where "filter (is_active k) (db_rows t) = [c]"
    by (cases "filter (is_active k) (db_rows t)") auto
  then show ?thesis
    by cases (simp_all add: active_def find_filter order_desc_def)
qed

subsection \<open>The changes of a table\<close>

inductive cyc_step :: "('k, 'v, 'r) cycles \<Rightarrow> ('k, 'v, 'r) cycles \<Rightarrow> bool" where
  idle: "same_data t t' \<Longrightarrow> cyc_step t t'"
| open_cycle: "active k t = None \<Longrightarrow> same_data (add_cycle k s r p d t) t' \<Longrightarrow> cyc_step t t'"
| tick: "same_data (set_stats k p d t) t' \<Longrightarrow> cyc_step t t'"
| reschedule: "same_data (set_reset k r t) t' \<Longrightarrow> cyc_step t t'"
| expire: "same_data (expire_cycle k e t) t' \<Longrightarrow> cyc_step t t'"
| finish: "same_data (end_cycle k e p d t) t' \<Longrightarrow> cyc_step t t'"

abbreviation evolves :: "('k, 'v, 'r) cycles \<Rightarrow> ('k, 'v, 'r) cycles \<Rightarrow> bool" where
  "evolves \<equiv> cyc_step\<^sup>*\<^sup>*"

text \<open>Updates of rows that keep id, key and start and do not reopen a cycle.\<close>

definition row_keeping :: "(('k, 'v, 'r) cycle \<Rightarrow> ('k, 'v, 'r) cycle) \<Rightarrow> bool" where
  "row_keeping f \<longleftrightarrow> (\<forall>c. cyc_id (f c) = cyc_id c \<and> cyc_key (f c) = cyc_key c \<and>
     cyc_start (f c) = cyc_start c \<and> (cyc_end c \<noteq> None \<longrightarrow> cyc_end (f c) \<noteq> None))"

lemma row_keeping_stats [simp]:
  "row_keeping (\<lambda>c. c\<lparr>cyc_peak := p, cyc_delta := d\<rparr>)"
  "row_keeping (\<lambda>c. c\<lparr>cyc_reset := r\<rparr>)"
  "row_keeping (\<lambda>c. c\<lparr>cyc_end := Some e, cyc_peak := p, cyc_delta := d\<rparr>)"
  "row_keeping (\<lambda>c. c\<lparr>cyc_end := Some e\<rparr>)"
  by (simp_all add: row_keeping_def)

lemma filter_map_length_le:
  "(\<And>x. P (f x) \<Longrightarrow> P x) \<Longrightarrow> length (filter P (map f xs)) \<le> length (filter P xs)"
  by (induction xs) (auto intro: le_SucI)

lemma wf_update_where:
  assumes "row_keeping f" "wf_cycles t" shows "wf_cycles (update_where P f t)"
proof -
  let ?g = "\<lambda>c. if P c then f c else c"
  have id: "map cyc_id (map ?g (db_rows t)) = map cyc_id (db_rows t)"
    using assms(1) by (auto simp: row_keeping_def)
  have "length (filter (is_active k) (map ?g (db_rows t))) \<le> length (filter (is_active k) (db_rows t))" for k
    using assms(1) by (intro filter_map_length_le) (auto simp: is_active_def row_keeping_def split: if_splits)
  then have "length (filter (is_active k) (map ?g (db_rows t))) \<le> 1" for k
    using assms(2) unfolding wf_cycles_def by (meson le_trans)
  moreover have "\<forall>c \<in> set (map ?g (db_rows t)). 0 < cyc_id c \<and> cyc_id c \<le> db_seq t"
    using assms by (auto simp: row_keeping_def wf_cycles_def)
  ultimately show ?thesis
    using assms(2) id by (simp add: wf_cycles_def update_where_def del: map_map filter_map)
qed

lemma wf_add_cycle:
  assumes "wf_cycles t" "active k t = None" shows "wf_cycles (add_cycle k s r p d t)"
proof -
  have "length (filter (is_active j) (db_rows (add_cycle k s r p d t))) \<le> 1" for j
    using assms filter_active_None [OF assms(2)]
    by (cases "j = k") (auto simp: wf_cycles_def add_cycle_def is_active_def [of j "cycle.make _ _ _ _ _ _ _"] is_active_def)
  then show ?thesis
    using assms(1) by (force simp: wf_cycles_def add_cycle_def)
qed

lemma cyc_step_wf: "cyc_step t t' \<Longrightarrow> wf_cycles t \<Longrightarrow> wf_cycles t'"
  by (induction rule: cyc_step.induct)
     (auto simp: wf_same set_stats_def set_reset_def end_cycle_def expire_cycle_def intro: wf_update_where wf_add_cycle)

lemma evolves_wf: "evolves t t' \<Longrightarrow> wf_cycles t \<Longrightarrow> wf_cycles t'"
  by (induction rule: rtranclp_induct) (auto intro: cyc_step_wf)

text \<open>Closed cycles are final, and no cycle is ever deleted, renumbered or moved.\<close>

lemma update_active_closed:
  "c \<in> set (db_rows t) \<Longrightarrow> cyc_end c = Some e \<Longrightarrow> c \<in> set (db_rows (update_where (is_active k) f t))"
  by (force simp: update_where_def is_active_def)

lemma cyc_step_closed:
  "cyc_step t t' \<Longrightarrow> c \<in> set (db_rows t) \<Longrightarrow> cyc_end c \<noteq> None \<Longrightarrow> c \<in> set (db_rows t')"
  by (induction rule: cyc_step.induct)
     (auto simp: same_data_def add_cycle_def set_stats_def set_reset_def end_cycle_def expire_cycle_def
        intro: update_active_closed)

lemma evolves_closed:
  "evolves t t' \<Longrightarrow> c \<in> set (db_rows t) \<Longrightarrow> cyc_end c \<noteq> None \<Longrightarrow> c \<in> set (db_rows t')"
  by (induction rule: rtranclp_induct) (auto intro: cyc_step_closed)

abbreviation (input) header :: "('k, 'v, 'r) cycle \<Rightarrow> int \<times> 'k \<times> time" where
  "header c \<equiv> (cyc_id c, cyc_key c, cyc_start c)"

lemma update_where_header:
  "row_keeping f \<Longrightarrow> map header (db_rows (update_where P f t)) = map header (db_rows t)"
  by (auto simp: update_where_def row_keeping_def)

lemma cyc_step_header:
  "cyc_step t t' \<Longrightarrow> \<exists>hs. map header (db_rows t') = map header (db_rows t) @ hs"
proof (induction rule: cyc_step.induct)
  case (open_cycle k t s r p d t')
  then show ?case by (auto simp: same_data_def add_cycle_def)
qed (auto simp: same_data_def set_stats_def set_reset_def end_cycle_def expire_cycle_def update_where_header simp del: map_eq_conv)

lemma evolves_header: "evolves t t' \<Longrightarrow> \<exists>hs. map header (db_rows t') = map header (db_rows t) @ hs"
proof (induction rule: rtranclp_induct)
  case (step y z)
  then show ?case using cyc_step_header by fastforce
qed simp

lemma evolves_unique_active:
  assumes "evolves t t'" "wf_cycles t" "c \<in> set (db_rows t')" "c' \<in> set (db_rows t')"
    and "cyc_end c = None" "cyc_end c' = None" "cyc_key c = cyc_key c'"
  shows "c = c'"
proof -
  have "length (filter (is_active (cyc_key c)) (db_rows t')) \<le> 1"
    using evolves_wf [OF assms(1,2)] by (simp add: wf_cycles_def)
  moreover have "{c, c'} \<subseteq> set (filter (is_active (cyc_key c)) (db_rows t'))"
    using assms by (auto simp: is_active_def)
  ultimately show ?thesis
    by (cases "filter (is_active (cyc_key c)) (db_rows t')") auto
qed

subsection \<open>The active cycle after a change\<close>

lemma active_update_where:
  assumes "\<And>c. is_active k (if P c then f c else c) = is_active k c"
  shows "active k (update_where P f t) = map_option (\<lambda>c. if P c then f c else c) (active k t)"
  unfolding active_def update_where_def
  using assms by (simp add: find_filter filter_map o_def split: list.split)

lemma active_set_stats [simp]:
  "active j (set_stats k p d t) =
     (if j = k then map_option (\<lambda>c. c\<lparr>cyc_peak := p, cyc_delta := d\<rparr>) (active k t) else active j t)"
proof -
  have "active j (set_stats k p d t) = map_option (\<lambda>c. if is_active k c then c\<lparr>cyc_peak := p, cyc_delta := d\<rparr> else c) (active j t)"
    unfolding set_stats_def by (rule active_update_where) (simp add: is_active_def)
  then show ?thesis
    using active_Some [of j t] by (cases "active j t") (auto simp: is_active_def)
qed

lemma active_set_reset [simp]:
  "active j (set_reset k r t) =
     (if j = k then map_option (\<lambda>c. c\<lparr>cyc_reset := r\<rparr>) (active k t) else active j t)"
proof -
  have "active j (set_reset k r t) = map_option (\<lambda>c. if is_active k c then c\<lparr>cyc_reset := r\<rparr> else c) (active j t)"
    unfolding set_reset_def by (rule active_update_where) (simp add: is_active_def)
  then show ?thesis
    using active_Some [of j t] by (cases "active j t") (auto simp: is_active_def)
qed

lemma active_add_cycle [simp]:
  "active j (add_cycle k s r p d t) =
     (case active j t of Some c \<Rightarrow> Some c
      | None \<Rightarrow> if j = k then Some \<lparr>cyc_id = db_seq t + 1, cyc_key = k, cyc_start = s, cyc_end = None,
                                     cyc_reset = r, cyc_peak = p, cyc_delta = d\<rparr> else None)"
  by (auto simp: active_def find_filter add_cycle_def is_active_def split: list.split)

lemma is_active_inj: "is_active j c \<Longrightarrow> is_active k c \<Longrightarrow> j = k"
  by (simp add: is_active_def)

lemma filter_end_other:
  assumes "\<And>c. cyc_end (g c) \<noteq> None"
  shows "filter (is_active j) (map (\<lambda>c. if is_active k c then g c else c) xs) =
     (if j = k then [] else filter (is_active j) xs)"
proof -
  have n: "\<not> is_active j (g c)" for c using assms [of c] by (simp add: is_active_def)
  show ?thesis by (induction xs) (auto simp: n dest: is_active_inj)
qed

lemma active_end_cycle [simp]:
  "active j (end_cycle k e p d t) = (if j = k then None else active j t)"
  by (simp add: active_def find_filter end_cycle_def update_where_def filter_end_other)

lemma active_expire_cycle [simp]:
  "active j (expire_cycle k e t) = (if j = k then None else active j t)"
  by (simp add: active_def find_filter expire_cycle_def update_where_def filter_end_other)

subsection \<open>The history after a change\<close>

lemma closed_set_stats [simp]: "closed_cycles j (set_stats k p d t) = closed_cycles j t"
proof -
  have "filter (is_closed j) (map (\<lambda>c. if is_active k c then c\<lparr>cyc_peak := p, cyc_delta := d\<rparr> else c) xs)
      = filter (is_closed j) xs" for xs
    by (induction xs) (auto simp: is_closed_def is_active_def)
  then show ?thesis by (simp add: closed_cycles_def set_stats_def update_where_def)
qed

lemma closed_set_reset [simp]: "closed_cycles j (set_reset k r t) = closed_cycles j t"
proof -
  have "filter (is_closed j) (map (\<lambda>c. if is_active k c then c\<lparr>cyc_reset := r\<rparr> else c) xs)
      = filter (is_closed j) xs" for xs
    by (induction xs) (auto simp: is_closed_def is_active_def)
  then show ?thesis by (simp add: closed_cycles_def set_reset_def update_where_def)
qed

lemma closed_add_cycle [simp]: "closed_cycles j (add_cycle k s r p d t) = closed_cycles j t"
  by (simp add: closed_cycles_def add_cycle_def is_closed_def)

lemma db_seq_upd [simp]:
  "db_seq (set_stats k p d t) = db_seq t" "db_seq (set_reset k r t) = db_seq t"
  "db_seq (end_cycle k e p d t) = db_seq t" "db_seq (expire_cycle k e t) = db_seq t"
  "db_seq (add_cycle k s r p d t) = db_seq t + 1"
  by (simp_all add: tbl_defs expire_cycle_def)

lemma healthy_upd [simp]:
  "healthy (set_stats k p d t) = healthy t" "healthy (set_reset k r t) = healthy t"
  "healthy (end_cycle k e p d t) = healthy t" "healthy (expire_cycle k e t) = healthy t"
  "healthy (add_cycle k s r p d t) = healthy t"
  by (simp_all add: tbl_defs expire_cycle_def healthy_def)

subsection \<open>The interface of a provider's table\<close>

text \<open>
  What the trackers call: the query of the active cycle of a quota, the creation of a cycle, the
  update of the statistics of the active cycle and its closing. \<open>canon\<close> maps the key a caller
  gives to the key of the row (account 0 stands for the default account). Each law comes in two
  forms: with statements that may fail, after which the table has either not changed or, when only
  the driver's answer failed, has the change; and the exact result on a healthy table.
\<close>

locale cycle_store =
  fixes canon :: "'q \<Rightarrow> 'k" and zero :: 'v
    and query :: "'q \<Rightarrow> (('k, 'v, 'r) cycles, ('k, 'v, 'r) cycle option) op"
    and create :: "'q \<Rightarrow> time \<Rightarrow> 'r \<Rightarrow> (('k, 'v, 'r) cycles, int) op"
    and update :: "'q \<Rightarrow> 'v \<Rightarrow> 'v \<Rightarrow> (('k, 'v, 'r) cycles, unit) op"
    and close :: "'q \<Rightarrow> time \<Rightarrow> 'v \<Rightarrow> 'v \<Rightarrow> (('k, 'v, 'r) cycles, unit) op"
  assumes query_law: "wf_cycles t \<Longrightarrow>
      wp (query q) (\<lambda>r t'. same_data t t' \<and> r = active (canon q) t) (\<lambda>_ t'. same_data t t') t"
    and query_run: "healthy t \<Longrightarrow> wf_cycles t \<Longrightarrow> query q t = (Inr (active (canon q) t), t)"
    and create_law: "active (canon q) t = None \<Longrightarrow>
      wp (create q s r) (\<lambda>_ t'. same_data (add_cycle (canon q) s r zero zero t) t')
        (\<lambda>_ t'. same_data t t' \<or> same_data (add_cycle (canon q) s r zero zero t) t') t"
    and create_run: "healthy t \<Longrightarrow> active (canon q) t = None \<Longrightarrow>
      create q s r t = (Inr (db_seq t + 1), add_cycle (canon q) s r zero zero t)"
    and update_law: "wp (update q p d) (\<lambda>_ t'. same_data (set_stats (canon q) p d t) t') (\<lambda>_ t'. same_data t t') t"
    and update_run: "healthy t \<Longrightarrow> update q p d t = (Inr (), set_stats (canon q) p d t)"
    and close_law: "wp (close q e p d) (\<lambda>_ t'. same_data (end_cycle (canon q) e p d t) t') (\<lambda>_ t'. same_data t t') t"
    and close_run: "healthy t \<Longrightarrow> close q e p d t = (Inr (), end_cycle (canon q) e p d t)"

text \<open>Tables whose active cycle can also be given a new reset time.\<close>

locale resettable_cycle_store = cycle_store canon zero query create update close
  for canon :: "'q \<Rightarrow> 'k" and zero :: 'v
    and query :: "'q \<Rightarrow> (('k, 'v, 'r) cycles, ('k, 'v, 'r) cycle option) op"
    and create update close +
  fixes reset :: "'q \<Rightarrow> 'r \<Rightarrow> (('k, 'v, 'r) cycles, unit) op"
  assumes reset_law: "wp (reset q r) (\<lambda>_ t'. same_data (set_reset (canon q) r t) t') (\<lambda>_ t'. same_data t t') t"
    and reset_run: "healthy t \<Longrightarrow> reset q r t = (Inr (), set_reset (canon q) r t)"

text \<open>The laws hold of the statements, whatever the error texts.\<close>

named_theorems sql_laws

lemma sql_active_law [sql_laws]:
  "wp (sql_active msg k) (\<lambda>r t'. same_data t t' \<and> r = active k t) (\<lambda>_ t'. same_data t t') t"
  unfolding sql_active_def wp_wrapE by (rule wp_db_stmt) (simp_all add: active_same)

lemma sql_active_run [sql_laws]: "healthy t \<Longrightarrow> sql_active msg k t = (Inr (active k t), t)"
  by (simp add: sql_active_def runs run_db_stmt)

lemma sql_active_latest_law [sql_laws]:
  "wf_cycles t \<Longrightarrow>
   wp (sql_active_latest msg k) (\<lambda>r t'. same_data t t' \<and> r = active k t) (\<lambda>_ t'. same_data t t') t"
  unfolding sql_active_latest_def wp_wrapE by (rule wp_db_stmt) (simp_all add: active_latest)

lemma sql_active_latest_run [sql_laws]:
  "healthy t \<Longrightarrow> wf_cycles t \<Longrightarrow> sql_active_latest msg k t = (Inr (active k t), t)"
  by (simp add: sql_active_latest_def runs run_db_stmt active_latest)

lemma sql_create_law [sql_laws]:
  "wp (sql_create msg idmsg k s r p d) (\<lambda>_ t'. same_data (add_cycle k s r p d t) t')
     (\<lambda>_ t'. same_data t t' \<or> same_data (add_cycle k s r p d t) t') t"
  unfolding sql_create_def wp_bindE wp_wrapE
  by (rule wp_db_stmt, simp, rule wp_db_stmt) (simp_all add: same_data_def tbl_defs)

lemma sql_create_run [sql_laws]:
  "healthy t \<Longrightarrow> sql_create msg idmsg k s r p d t = (Inr (db_seq t + 1), add_cycle k s r p d t)"
  by (simp add: sql_create_def runs run_db_stmt)

lemma sql_exec_law:
  assumes "\<And>fs. same_data (f t) (f (t\<lparr>db_faults := fs\<rparr>))"
  shows "wp (sql_exec msg f) (\<lambda>_ t'. same_data (f t) t') (\<lambda>_ t'. same_data t t') t"
  unfolding sql_exec_def wp_wrapE by (rule wp_db_stmt) (simp_all add: assms)

lemma sql_exec_laws [sql_laws]:
  "wp (sql_exec msg (set_stats k p d)) (\<lambda>_ t'. same_data (set_stats k p d t) t') (\<lambda>_ t'. same_data t t') t"
  "wp (sql_exec msg (set_reset k r)) (\<lambda>_ t'. same_data (set_reset k r t) t') (\<lambda>_ t'. same_data t t') t"
  "wp (sql_exec msg (end_cycle k e p d)) (\<lambda>_ t'. same_data (end_cycle k e p d t) t') (\<lambda>_ t'. same_data t t') t"
  "wp (sql_exec msg (expire_cycle k e)) (\<lambda>_ t'. same_data (expire_cycle k e t) t') (\<lambda>_ t'. same_data t t') t"
  by (rule sql_exec_law, simp add: set_stats_def set_reset_def end_cycle_def expire_cycle_def)+

lemma sql_exec_run [sql_laws]: "healthy t \<Longrightarrow> sql_exec msg f t = (Inr (), f t)"
  by (simp add: sql_exec_def runs run_db_stmt)

end
