(* ===== verification/ProviderStores.thy ===== *)
theory ProviderStores
  imports CycleStore
begin

text \<open>
  The cycle functions of the per-provider stores (\<open>internal/store/*_store.go\<close> and the Synthetic ones
  in \<open>store.go\<close>): one definition per Go function, over that provider's table, with the texts the Go code
  wraps the driver's error in. A key is what the \<open>WHERE\<close> clause compares: the quota name, with the
  account id where the table has one. Each provider's functions are shown to satisfy the interface
  \<open>cycle_store\<close>.
\<close>

text \<open>A function \<open>UPDATE ... WHERE <key> AND cycle_end IS NULL\<close> is \<^const>\<open>sql_exec\<close> of the
  corresponding change; times parse back to what was formatted, so the parse errors of the readers
  cannot occur on rows these functions wrote and are not modelled.\<close>

definition since_filter :: "time \<Rightarrow> ('k, 'v, 'r) cycle \<Rightarrow> bool" where
  "since_filter since c \<longleftrightarrow> text_less_eq since (cyc_start c)"

subsection \<open>Synthetic (store.go)\<close>

type_synonym SyntheticCycles = "(string, f64, time) cycles"
type_synonym SyntheticResetCycle = "(string, f64, time) cycle"

definition CreateCycle :: "string \<Rightarrow> time \<Rightarrow> time \<Rightarrow> (SyntheticCycles, int) op" where
  "CreateCycle quotaType s r =
     sql_create ''failed to create cycle: '' ''failed to get cycle ID: '' quotaType s r 0 0"

definition CloseCycle :: "string \<Rightarrow> time \<Rightarrow> f64 \<Rightarrow> f64 \<Rightarrow> (SyntheticCycles, unit) op" where
  "CloseCycle quotaType e p d = sql_exec ''failed to close cycle: '' (end_cycle quotaType e p d)"

definition UpdateCycle :: "string \<Rightarrow> f64 \<Rightarrow> f64 \<Rightarrow> (SyntheticCycles, unit) op" where
  "UpdateCycle quotaType p d = sql_exec ''failed to update cycle: '' (set_stats quotaType p d)"

definition QueryActiveCycle :: "string \<Rightarrow> (SyntheticCycles, SyntheticResetCycle option) op" where
  "QueryActiveCycle quotaType = sql_active ''failed to query active cycle: '' quotaType"

definition QueryCycleHistory :: "string \<Rightarrow> int list \<Rightarrow> (SyntheticCycles, SyntheticResetCycle list) op" where
  "QueryCycleHistory quotaType limit = sql_history ''failed to query cycles: '' (is_closed quotaType) limit"

definition QueryCyclesSince :: "string \<Rightarrow> time \<Rightarrow> (SyntheticCycles, SyntheticResetCycle list) op" where
  "QueryCyclesSince quotaType since =
     sql_history ''failed to query cycles since: ''
       (\<lambda>c. cyc_key c = quotaType \<and> since_filter since c) []"

interpretation synthetic_store: cycle_store "\<lambda>k. k" "0 :: f64"
    QueryActiveCycle CreateCycle UpdateCycle CloseCycle
  by unfold_locales (auto simp: QueryActiveCycle_def CreateCycle_def UpdateCycle_def CloseCycle_def sql_laws split: prod.split)

subsection \<open>Anthropic\<close>

type_synonym AnthropicCycles = "(string, f64, time option) cycles"
type_synonym AnthropicResetCycle = "(string, f64, time option) cycle"

definition CreateAnthropicCycle :: "string \<Rightarrow> time \<Rightarrow> time option \<Rightarrow> (AnthropicCycles, int) op" where
  "CreateAnthropicCycle quotaName s r =
     sql_create ''failed to create anthropic cycle: '' ''failed to get cycle ID: '' quotaName s r 0 0"

definition CloseAnthropicCycle :: "string \<Rightarrow> time \<Rightarrow> f64 \<Rightarrow> f64 \<Rightarrow> (AnthropicCycles, unit) op" where
  "CloseAnthropicCycle quotaName e p d = sql_exec ''failed to close anthropic cycle: '' (end_cycle quotaName e p d)"

definition UpdateAnthropicCycle :: "string \<Rightarrow> f64 \<Rightarrow> f64 \<Rightarrow> (AnthropicCycles, unit) op" where
  "UpdateAnthropicCycle quotaName p d = sql_exec ''failed to update anthropic cycle: '' (set_stats quotaName p d)"

definition QueryActiveAnthropicCycle :: "string \<Rightarrow> (AnthropicCycles, AnthropicResetCycle option) op" where
  "QueryActiveAnthropicCycle quotaName = sql_active ''failed to query active anthropic cycle: '' quotaName"

definition QueryAnthropicCycleHistory :: "string \<Rightarrow> int list \<Rightarrow> (AnthropicCycles, AnthropicResetCycle list) op" where
  "QueryAnthropicCycleHistory quotaName limit = sql_history ''failed to query anthropic cycles: '' (is_closed quotaName) limit"

definition QueryAnthropicCyclesSince :: "string \<Rightarrow> time \<Rightarrow> (AnthropicCycles, AnthropicResetCycle list) op" where
  "QueryAnthropicCyclesSince quotaName since =
     sql_history ''failed to query anthropic cycles since: ''
       (\<lambda>c. is_closed quotaName c \<and> since_filter since c) []"

interpretation anthropic_store: cycle_store "\<lambda>k. k" "0 :: f64"
    QueryActiveAnthropicCycle CreateAnthropicCycle UpdateAnthropicCycle CloseAnthropicCycle
  by unfold_locales (auto simp: QueryActiveAnthropicCycle_def CreateAnthropicCycle_def UpdateAnthropicCycle_def CloseAnthropicCycle_def sql_laws split: prod.split)

subsection \<open>Cursor\<close>

type_synonym CursorCycles = "(string, f64, time option) cycles"
type_synonym CursorResetCycle = "(string, f64, time option) cycle"

definition CreateCursorCycle :: "string \<Rightarrow> time \<Rightarrow> time option \<Rightarrow> (CursorCycles, int) op" where
  "CreateCursorCycle quotaName s r =
     sql_create ''failed to create cursor cycle: '' ''failed to get cycle ID: '' quotaName s r 0 0"

definition CloseCursorCycle :: "string \<Rightarrow> time \<Rightarrow> f64 \<Rightarrow> f64 \<Rightarrow> (CursorCycles, unit) op" where
  "CloseCursorCycle quotaName e p d = sql_exec ''failed to close cursor cycle: '' (end_cycle quotaName e p d)"

definition UpdateCursorCycle :: "string \<Rightarrow> f64 \<Rightarrow> f64 \<Rightarrow> (CursorCycles, unit) op" where
  "UpdateCursorCycle quotaName p d = sql_exec ''failed to update cursor cycle: '' (set_stats quotaName p d)"

definition QueryActiveCursorCycle :: "string \<Rightarrow> (CursorCycles, CursorResetCycle option) op" where
  "QueryActiveCursorCycle quotaName = sql_active ''failed to query active cursor cycle: '' quotaName"

definition QueryCursorCycleHistory :: "string \<Rightarrow> int list \<Rightarrow> (CursorCycles, CursorResetCycle list) op" where
  "QueryCursorCycleHistory quotaName limit = sql_history ''failed to query cursor cycles: '' (is_closed quotaName) limit"

definition QueryCursorCyclesSince :: "string \<Rightarrow> time \<Rightarrow> (CursorCycles, CursorResetCycle list) op" where
  "QueryCursorCyclesSince quotaName since =
     sql_history ''failed to query cursor cycles since: ''
       (\<lambda>c. is_closed quotaName c \<and> since_filter since c) []"

interpretation cursor_store: cycle_store "\<lambda>k. k" "0 :: f64"
    QueryActiveCursorCycle CreateCursorCycle UpdateCursorCycle CloseCursorCycle
  by unfold_locales (auto simp: QueryActiveCursorCycle_def CreateCursorCycle_def UpdateCursorCycle_def CloseCursorCycle_def sql_laws split: prod.split)

subsection \<open>OpenCode Go\<close>

type_synonym OpenCodeCycles = "(string, f64, time option) cycles"
type_synonym OpenCodeResetCycle = "(string, f64, time option) cycle"

definition CreateOpenCodeCycle :: "string \<Rightarrow> time \<Rightarrow> time option \<Rightarrow> (OpenCodeCycles, int) op" where
  "CreateOpenCodeCycle quotaName s r =
     sql_create ''failed to create opencode cycle: '' ''failed to get cycle ID: '' quotaName s r 0 0"

definition CloseOpenCodeCycle :: "string \<Rightarrow> time \<Rightarrow> f64 \<Rightarrow> f64 \<Rightarrow> (OpenCodeCycles, unit) op" where
  "CloseOpenCodeCycle quotaName e p d = sql_exec ''failed to close opencode cycle: '' (end_cycle quotaName e p d)"

definition UpdateOpenCodeCycle :: "string \<Rightarrow> f64 \<Rightarrow> f64 \<Rightarrow> (OpenCodeCycles, unit) op" where
  "UpdateOpenCodeCycle quotaName p d = sql_exec ''failed to update opencode cycle: '' (set_stats quotaName p d)"

definition QueryActiveOpenCodeCycle :: "string \<Rightarrow> (OpenCodeCycles, OpenCodeResetCycle option) op" where
  "QueryActiveOpenCodeCycle quotaName = sql_active ''failed to query active opencode cycle: '' quotaName"

definition QueryOpenCodeCycleHistory :: "string \<Rightarrow> int list \<Rightarrow> (OpenCodeCycles, OpenCodeResetCycle list) op" where
  "QueryOpenCodeCycleHistory quotaName limit = sql_history ''failed to query opencode cycles: '' (is_closed quotaName) limit"

definition QueryOpenCodeCyclesSince :: "string \<Rightarrow> time \<Rightarrow> (OpenCodeCycles, OpenCodeResetCycle list) op" where
  "QueryOpenCodeCyclesSince quotaName since =
     sql_history ''failed to query opencode cycles since: ''
       (\<lambda>c. is_closed quotaName c \<and> since_filter since c) []"

interpretation opencode_store: cycle_store "\<lambda>k. k" "0 :: f64"
    QueryActiveOpenCodeCycle CreateOpenCodeCycle UpdateOpenCodeCycle CloseOpenCodeCycle
  by unfold_locales (auto simp: QueryActiveOpenCodeCycle_def CreateOpenCodeCycle_def UpdateOpenCodeCycle_def CloseOpenCodeCycle_def sql_laws split: prod.split)

subsection \<open>Copilot\<close>

type_synonym CopilotCycles = "(string, int, time option) cycles"
type_synonym CopilotResetCycle = "(string, int, time option) cycle"

definition CreateCopilotCycle :: "string \<Rightarrow> time \<Rightarrow> time option \<Rightarrow> (CopilotCycles, int) op" where
  "CreateCopilotCycle quotaName s r =
     sql_create ''failed to create copilot cycle: '' ''failed to get cycle ID: '' quotaName s r 0 0"

definition CloseCopilotCycle :: "string \<Rightarrow> time \<Rightarrow> int \<Rightarrow> int \<Rightarrow> (CopilotCycles, unit) op" where
  "CloseCopilotCycle quotaName e p d = sql_exec ''failed to close copilot cycle: '' (end_cycle quotaName e p d)"

definition UpdateCopilotCycle :: "string \<Rightarrow> int \<Rightarrow> int \<Rightarrow> (CopilotCycles, unit) op" where
  "UpdateCopilotCycle quotaName p d = sql_exec ''failed to update copilot cycle: '' (set_stats quotaName p d)"

definition QueryActiveCopilotCycle :: "string \<Rightarrow> (CopilotCycles, CopilotResetCycle option) op" where
  "QueryActiveCopilotCycle quotaName = sql_active ''failed to query active copilot cycle: '' quotaName"

definition QueryCopilotCycleHistory :: "string \<Rightarrow> int list \<Rightarrow> (CopilotCycles, CopilotResetCycle list) op" where
  "QueryCopilotCycleHistory quotaName limit = sql_history ''failed to query copilot cycles: '' (is_closed quotaName) limit"

definition QueryCopilotCyclesSince :: "string \<Rightarrow> time \<Rightarrow> (CopilotCycles, CopilotResetCycle list) op" where
  "QueryCopilotCyclesSince quotaName since =
     sql_history ''failed to query copilot cycles since: ''
       (\<lambda>c. is_closed quotaName c \<and> since_filter since c) []"

interpretation copilot_store: cycle_store "\<lambda>k. k" "0 :: int"
    QueryActiveCopilotCycle CreateCopilotCycle UpdateCopilotCycle CloseCopilotCycle
  by unfold_locales (auto simp: QueryActiveCopilotCycle_def CreateCopilotCycle_def UpdateCopilotCycle_def CloseCopilotCycle_def sql_laws split: prod.split)

subsection \<open>Codex (one account per row)\<close>

type_synonym CodexCycles = "(int \<times> string, f64, time option) cycles"
type_synonym CodexResetCycle = "(int \<times> string, f64, time option) cycle"

definition DefaultCodexAccountID :: int where "DefaultCodexAccountID = 1"

definition codex_key :: "int \<Rightarrow> string \<Rightarrow> int \<times> string" where
  "codex_key accountID quotaName =
     (if accountID = 0 then DefaultCodexAccountID else accountID, quotaName)"

definition CreateCodexCycle :: "int \<Rightarrow> string \<Rightarrow> time \<Rightarrow> time option \<Rightarrow> (CodexCycles, int) op" where
  "CreateCodexCycle accountID quotaName s r =
     sql_create ''failed to create codex cycle: '' ''failed to get cycle ID: '' (codex_key accountID quotaName) s r 0 0"

definition CloseCodexCycle :: "int \<Rightarrow> string \<Rightarrow> time \<Rightarrow> f64 \<Rightarrow> f64 \<Rightarrow> (CodexCycles, unit) op" where
  "CloseCodexCycle accountID quotaName e p d = sql_exec ''failed to close codex cycle: '' (end_cycle (codex_key accountID quotaName) e p d)"

definition UpdateCodexCycle :: "int \<Rightarrow> string \<Rightarrow> f64 \<Rightarrow> f64 \<Rightarrow> (CodexCycles, unit) op" where
  "UpdateCodexCycle accountID quotaName p d = sql_exec ''failed to update codex cycle: '' (set_stats (codex_key accountID quotaName) p d)"

definition UpdateCodexCycleResetsAt :: "int \<Rightarrow> string \<Rightarrow> time option \<Rightarrow> (CodexCycles, unit) op" where
  "UpdateCodexCycleResetsAt accountID quotaName r = sql_exec ''failed to update codex cycle resets_at: '' (set_reset (codex_key accountID quotaName) r)"

definition QueryActiveCodexCycle :: "int \<Rightarrow> string \<Rightarrow> (CodexCycles, CodexResetCycle option) op" where
  "QueryActiveCodexCycle accountID quotaName = sql_active ''failed to query active codex cycle: '' (codex_key accountID quotaName)"

definition QueryCodexCycleHistory :: "int \<Rightarrow> string \<Rightarrow> int list \<Rightarrow> (CodexCycles, CodexResetCycle list) op" where
  "QueryCodexCycleHistory accountID quotaName limit = sql_history ''failed to query codex cycles: '' (is_closed (codex_key accountID quotaName)) limit"

definition QueryCodexCyclesSince :: "int \<Rightarrow> string \<Rightarrow> time \<Rightarrow> (CodexCycles, CodexResetCycle list) op" where
  "QueryCodexCyclesSince accountID quotaName since =
     sql_history ''failed to query codex cycles since: ''
       (\<lambda>c. is_closed (codex_key accountID quotaName) c \<and> since_filter since c) []"

interpretation codex_store: resettable_cycle_store "\<lambda>(a, q). codex_key a q" "0 :: f64"
    "\<lambda>(a, q). QueryActiveCodexCycle a q" "\<lambda>(a, q). CreateCodexCycle a q" "\<lambda>(a, q). UpdateCodexCycle a q" "\<lambda>(a, q). CloseCodexCycle a q" "\<lambda>(a, q). UpdateCodexCycleResetsAt a q"
  by unfold_locales (auto simp: QueryActiveCodexCycle_def CreateCodexCycle_def UpdateCodexCycle_def CloseCodexCycle_def UpdateCodexCycleResetsAt_def sql_laws split: prod.split)

subsection \<open>Gemini\<close>

type_synonym GeminiCycles = "(string, f64, time option) cycles"
type_synonym GeminiResetCycle = "(string, f64, time option) cycle"

definition CreateGeminiCycle :: "string \<Rightarrow> time \<Rightarrow> time option \<Rightarrow> (GeminiCycles, int) op" where
  "CreateGeminiCycle modelID s r =
     sql_create ''failed to create gemini cycle: '' ''failed to get cycle ID: '' modelID s r 0 0"

definition CloseGeminiCycle :: "string \<Rightarrow> time \<Rightarrow> f64 \<Rightarrow> f64 \<Rightarrow> (GeminiCycles, unit) op" where
  "CloseGeminiCycle modelID e p d = sql_exec ''failed to close gemini cycle: '' (end_cycle modelID e p d)"

definition UpdateGeminiCycle :: "string \<Rightarrow> f64 \<Rightarrow> f64 \<Rightarrow> (GeminiCycles, unit) op" where
  "UpdateGeminiCycle modelID p d = sql_exec ''failed to update gemini cycle: '' (set_stats modelID p d)"

definition UpdateGeminiCycleResetTime :: "string \<Rightarrow> time option \<Rightarrow> (GeminiCycles, unit) op" where
  "UpdateGeminiCycleResetTime modelID r = sql_exec ''failed to update gemini cycle reset_time: '' (set_reset modelID r)"

definition QueryActiveGeminiCycle :: "string \<Rightarrow> (GeminiCycles, GeminiResetCycle option) op" where
  "QueryActiveGeminiCycle modelID = sql_active ''failed to query active gemini cycle: '' modelID"

definition QueryGeminiCycleHistory :: "string \<Rightarrow> int list \<Rightarrow> (GeminiCycles, GeminiResetCycle list) op" where
  "QueryGeminiCycleHistory modelID limit = sql_history ''failed to query gemini cycles: '' (is_closed modelID) limit"

interpretation gemini_store: resettable_cycle_store "\<lambda>k. k" "0 :: f64"
    QueryActiveGeminiCycle CreateGeminiCycle UpdateGeminiCycle CloseGeminiCycle UpdateGeminiCycleResetTime
  by unfold_locales (auto simp: QueryActiveGeminiCycle_def CreateGeminiCycle_def UpdateGeminiCycle_def CloseGeminiCycle_def UpdateGeminiCycleResetTime_def sql_laws split: prod.split)

subsection \<open>Antigravity\<close>

type_synonym AntigravityCycles = "(string, f64, time option) cycles"
type_synonym AntigravityResetCycle = "(string, f64, time option) cycle"

text \<open>The table has a unique index on the active rows of a model: a second active row is refused.\<close>

definition sql_create_unique ::
    "string \<Rightarrow> string \<Rightarrow> string \<Rightarrow> 'k \<Rightarrow> time \<Rightarrow> 'r \<Rightarrow> 'v \<Rightarrow> 'v \<Rightarrow> (('k, 'v, 'r) cycles, int) op" where
  "sql_create_unique uniq msg idmsg k s r p d t =
     (if active k t = None then sql_create msg idmsg k s r p d t
      else wrapE msg (bindE (db_stmt (\<lambda>t. ((), t))) (\<lambda>_. failE uniq)) t)"

lemma sql_create_unique_fresh:
  "active k t = None \<Longrightarrow> wp (sql_create_unique u msg idmsg k s r p d) Q E t = wp (sql_create msg idmsg k s r p d) Q E t"
  by (simp add: wp_def sql_create_unique_def)

definition CreateAntigravityCycle :: "string \<Rightarrow> time \<Rightarrow> time option \<Rightarrow> (AntigravityCycles, int) op" where
  "CreateAntigravityCycle modelID s r =
     sql_create_unique ''UNIQUE constraint failed: antigravity_reset_cycles.model_id'' ''failed to create antigravity cycle: '' ''failed to get cycle ID: '' modelID s r 0 0"

definition CloseAntigravityCycle :: "string \<Rightarrow> time \<Rightarrow> f64 \<Rightarrow> f64 \<Rightarrow> (AntigravityCycles, unit) op" where
  "CloseAntigravityCycle modelID e p d = sql_exec ''failed to close antigravity cycle: '' (end_cycle modelID e p d)"

definition UpdateAntigravityCycle :: "string \<Rightarrow> f64 \<Rightarrow> f64 \<Rightarrow> (AntigravityCycles, unit) op" where
  "UpdateAntigravityCycle modelID p d = sql_exec ''failed to update antigravity cycle: '' (set_stats modelID p d)"

definition QueryActiveAntigravityCycle :: "string \<Rightarrow> (AntigravityCycles, AntigravityResetCycle option) op" where
  "QueryActiveAntigravityCycle modelID = sql_active_latest ''failed to query active antigravity cycle: '' modelID"

definition QueryAntigravityCycleHistory :: "string \<Rightarrow> int list \<Rightarrow> (AntigravityCycles, AntigravityResetCycle list) op" where
  "QueryAntigravityCycleHistory modelID limit = sql_history ''failed to query antigravity cycles: '' (is_closed modelID) limit"

interpretation antigravity_store: cycle_store "\<lambda>k. k" "0 :: f64"
    QueryActiveAntigravityCycle CreateAntigravityCycle UpdateAntigravityCycle CloseAntigravityCycle
  by unfold_locales (auto simp: QueryActiveAntigravityCycle_def CreateAntigravityCycle_def UpdateAntigravityCycle_def CloseAntigravityCycle_def sql_create_unique_def sql_create_unique_fresh sql_laws split: prod.split)

subsection \<open>MiniMax (one account per row)\<close>

type_synonym MiniMaxCycles = "(int \<times> string, int, time option) cycles"
type_synonym MiniMaxResetCycle = "(int \<times> string, int, time option) cycle"

definition CreateMiniMaxCycle :: "string \<Rightarrow> time \<Rightarrow> time option \<Rightarrow> int \<Rightarrow> (MiniMaxCycles, int) op" where
  "CreateMiniMaxCycle modelName s r accountID =
     sql_create ''failed to create minimax cycle: '' ''failed to get minimax cycle ID: '' (accountID, modelName) s r 0 0"

definition CloseMiniMaxCycle :: "string \<Rightarrow> time \<Rightarrow> int \<Rightarrow> int \<Rightarrow> int \<Rightarrow> (MiniMaxCycles, unit) op" where
  "CloseMiniMaxCycle modelName e p d accountID = sql_exec ''failed to close minimax cycle: '' (end_cycle (accountID, modelName) e p d)"

definition UpdateMiniMaxCycle :: "string \<Rightarrow> int \<Rightarrow> int \<Rightarrow> int \<Rightarrow> (MiniMaxCycles, unit) op" where
  "UpdateMiniMaxCycle modelName p d accountID = sql_exec ''failed to update minimax cycle: '' (set_stats (accountID, modelName) p d)"

definition QueryActiveMiniMaxCycle :: "string \<Rightarrow> int \<Rightarrow> (MiniMaxCycles, MiniMaxResetCycle option) op" where
  "QueryActiveMiniMaxCycle modelName accountID = sql_active_latest ''failed to query active minimax cycle: '' (accountID, modelName)"

definition QueryMiniMaxCycleHistory :: "string \<Rightarrow> int \<Rightarrow> int list \<Rightarrow> (MiniMaxCycles, MiniMaxResetCycle list) op" where
  "QueryMiniMaxCycleHistory modelName accountID limit = sql_history ''failed to query minimax cycle history: '' (is_closed (accountID, modelName)) limit"

text \<open>\<open>CloseStaleMiniMaxCycles\<close>: the active models of the account that are not listed are closed, one
  statement each, keeping peak and delta; the count of closed ones is returned, also with an error.\<close>

definition go_quote :: "string \<Rightarrow> string" where
  "go_quote name = CHR 0x22 # name @ [CHR 0x22]"

fun close_stale :: "int \<Rightarrow> time \<Rightarrow> string list \<Rightarrow> (MiniMaxCycles, unit) op" where
  "close_stale accountID cycleEnd [] = returnE ()"
| "close_stale accountID cycleEnd (name # names) =
     thenE (sql_exec (''failed to close stale minimax cycle '' @ go_quote name @ '': '') (expire_cycle (accountID, name) cycleEnd))
       (close_stale accountID cycleEnd names)"

definition CloseStaleMiniMaxCycles :: "int \<Rightarrow> string list \<Rightarrow> time \<Rightarrow> (MiniMaxCycles, int) op" where
  "CloseStaleMiniMaxCycles accountID activeModels cycleEnd =
     bindE (wrapE ''failed to query active minimax cycles: ''
       (db_stmt (\<lambda>t. (map (\<lambda>c. snd (cyc_key c))
          (filter (\<lambda>c. fst (cyc_key c) = accountID \<and> cyc_end c = None) (db_rows t)), t))))
     (\<lambda>names. bindE (rows_err (filter (\<lambda>n. n \<notin> set activeModels) names))
     (\<lambda>stale. bindE (close_stale accountID cycleEnd stale)
     (\<lambda>_. returnE (int (length stale)))))"

interpretation minimax_store: cycle_store "\<lambda>k. k" "0 :: int"
    "\<lambda>(a, m). QueryActiveMiniMaxCycle m a" "\<lambda>(a, m) s r. CreateMiniMaxCycle m s r a"
    "\<lambda>(a, m) p d. UpdateMiniMaxCycle m p d a" "\<lambda>(a, m) e p d. CloseMiniMaxCycle m e p d a"
  by unfold_locales (auto simp: QueryActiveMiniMaxCycle_def CreateMiniMaxCycle_def UpdateMiniMaxCycle_def
    CloseMiniMaxCycle_def sql_laws split: prod.split)

subsection \<open>Z.ai (one account per row)\<close>

type_synonym ZaiCycles = "(int \<times> string, int, time option) cycles"
type_synonym ZaiResetCycle = "(int \<times> string, int, time option) cycle"

text \<open>
  \<open>dflt\<close> is the answer of \<open>DefaultZaiAccountID\<close>, the id of the default account in another table (0 when
  there is none or the query failed); an account id that is not positive stands for it.
\<close>

definition resolveZaiAccount :: "int \<Rightarrow> int \<Rightarrow> int" where
  "resolveZaiAccount dflt accountID =
     (if 0 < accountID then accountID else if 0 < dflt then dflt else accountID)"

definition CreateZaiCycle :: "int \<Rightarrow> string \<Rightarrow> time \<Rightarrow> time option \<Rightarrow> int \<Rightarrow> (ZaiCycles, int) op" where
  "CreateZaiCycle dflt quotaType s r accountID =
     sql_create ''failed to create zai cycle: '' ''failed to get cycle ID: '' (resolveZaiAccount dflt accountID, quotaType) s r 0 0"

definition CloseZaiCycle :: "int \<Rightarrow> string \<Rightarrow> time \<Rightarrow> int \<Rightarrow> int \<Rightarrow> int \<Rightarrow> (ZaiCycles, unit) op" where
  "CloseZaiCycle dflt quotaType e p d accountID = sql_exec ''failed to close zai cycle: '' (end_cycle (resolveZaiAccount dflt accountID, quotaType) e p d)"

definition UpdateZaiCycle :: "int \<Rightarrow> string \<Rightarrow> int \<Rightarrow> int \<Rightarrow> int \<Rightarrow> (ZaiCycles, unit) op" where
  "UpdateZaiCycle dflt quotaType p d accountID = sql_exec ''failed to update zai cycle: '' (set_stats (resolveZaiAccount dflt accountID, quotaType) p d)"

definition QueryActiveZaiCycle :: "int \<Rightarrow> string \<Rightarrow> int \<Rightarrow> (ZaiCycles, ZaiResetCycle option) op" where
  "QueryActiveZaiCycle dflt quotaType accountID = sql_active ''failed to query active zai cycle: '' (resolveZaiAccount dflt accountID, quotaType)"

definition QueryZaiCycleHistory :: "int \<Rightarrow> string \<Rightarrow> int \<Rightarrow> int list \<Rightarrow> (ZaiCycles, ZaiResetCycle list) op" where
  "QueryZaiCycleHistory dflt quotaType accountID limit = sql_history ''failed to query zai cycles: '' (is_closed (resolveZaiAccount dflt accountID, quotaType)) limit"

definition QueryZaiCyclesSince :: "int \<Rightarrow> string \<Rightarrow> time \<Rightarrow> int \<Rightarrow> (ZaiCycles, ZaiResetCycle list) op" where
  "QueryZaiCyclesSince dflt quotaType since accountID =
     sql_history ''failed to query zai cycles since: ''
       (\<lambda>c. cyc_key c = (resolveZaiAccount dflt accountID, quotaType) \<and> since_filter since c) []"

interpretation zai_store: cycle_store "\<lambda>(d, a, q). (resolveZaiAccount d a, q)" "0 :: int"
    "\<lambda>(d, a, q). QueryActiveZaiCycle d q a" "\<lambda>(d, a, q) s r. CreateZaiCycle d q s r a"
    "\<lambda>(d, a, q) p v. UpdateZaiCycle d q p v a" "\<lambda>(d, a, q) e p v. CloseZaiCycle d q e p v a"
  by unfold_locales (auto simp: QueryActiveZaiCycle_def CreateZaiCycle_def UpdateZaiCycle_def
    CloseZaiCycle_def sql_laws split: prod.split)

subsection \<open>DeepSeek\<close>

type_synonym DeepSeekCycles = "(string \<times> string, f64, unit) cycles"
type_synonym DeepSeekResetCycle = "(string \<times> string, f64, unit) cycle"

definition CreateDeepSeekCycle :: "string \<Rightarrow> string \<Rightarrow> time \<Rightarrow> (DeepSeekCycles, int) op" where
  "CreateDeepSeekCycle quotaType currency s =
     sql_create ''failed to create deepseek cycle: '' ''failed to get cycle ID: '' (quotaType, currency) s () 0 0"

definition CloseDeepSeekCycle :: "string \<Rightarrow> string \<Rightarrow> time \<Rightarrow> f64 \<Rightarrow> f64 \<Rightarrow> (DeepSeekCycles, unit) op" where
  "CloseDeepSeekCycle quotaType currency e p d = sql_exec ''failed to close deepseek cycle: '' (end_cycle (quotaType, currency) e p d)"

definition UpdateDeepSeekCycle :: "string \<Rightarrow> string \<Rightarrow> f64 \<Rightarrow> f64 \<Rightarrow> (DeepSeekCycles, unit) op" where
  "UpdateDeepSeekCycle quotaType currency p d = sql_exec ''failed to update deepseek cycle: '' (set_stats (quotaType, currency) p d)"

definition QueryActiveDeepSeekCycle :: "string \<Rightarrow> string \<Rightarrow> (DeepSeekCycles, DeepSeekResetCycle option) op" where
  "QueryActiveDeepSeekCycle quotaType currency = sql_active ''failed to query active deepseek cycle: '' (quotaType, currency)"

definition QueryDeepSeekCycleHistory :: "string \<Rightarrow> string \<Rightarrow> int list \<Rightarrow> (DeepSeekCycles, DeepSeekResetCycle list) op" where
  "QueryDeepSeekCycleHistory quotaType currency limit = sql_history ''failed to query deepseek cycles: '' (is_closed (quotaType, currency)) limit"

interpretation deepseek_store: cycle_store "\<lambda>k. k" "0 :: f64"
    "\<lambda>(q, c). QueryActiveDeepSeekCycle q c" "\<lambda>(q, c) s r. CreateDeepSeekCycle q c s" "\<lambda>(q, c). UpdateDeepSeekCycle q c" "\<lambda>(q, c). CloseDeepSeekCycle q c"
  by unfold_locales (auto simp: QueryActiveDeepSeekCycle_def CreateDeepSeekCycle_def UpdateDeepSeekCycle_def CloseDeepSeekCycle_def sql_laws split: prod.split)

subsection \<open>Moonshot\<close>

type_synonym MoonshotCycles = "(string, f64, unit) cycles"
type_synonym MoonshotResetCycle = "(string, f64, unit) cycle"

definition CreateMoonshotCycle :: "string \<Rightarrow> time \<Rightarrow> (MoonshotCycles, int) op" where
  "CreateMoonshotCycle quotaType s =
     sql_create ''failed to create moonshot cycle: '' ''failed to get cycle ID: '' quotaType s () 0 0"

definition CloseMoonshotCycle :: "string \<Rightarrow> time \<Rightarrow> f64 \<Rightarrow> f64 \<Rightarrow> (MoonshotCycles, unit) op" where
  "CloseMoonshotCycle quotaType e p d = sql_exec ''failed to close moonshot cycle: '' (end_cycle quotaType e p d)"

definition UpdateMoonshotCycle :: "string \<Rightarrow> f64 \<Rightarrow> f64 \<Rightarrow> (MoonshotCycles, unit) op" where
  "UpdateMoonshotCycle quotaType p d = sql_exec ''failed to update moonshot cycle: '' (set_stats quotaType p d)"

definition QueryActiveMoonshotCycle :: "string \<Rightarrow> (MoonshotCycles, MoonshotResetCycle option) op" where
  "QueryActiveMoonshotCycle quotaType = sql_active ''failed to query active moonshot cycle: '' quotaType"

definition QueryMoonshotCycleHistory :: "string \<Rightarrow> int list \<Rightarrow> (MoonshotCycles, MoonshotResetCycle list) op" where
  "QueryMoonshotCycleHistory quotaType limit = sql_history ''failed to query moonshot cycles: '' (is_closed quotaType) limit"

interpretation moonshot_store: cycle_store "\<lambda>k. k" "0 :: f64"
    QueryActiveMoonshotCycle "\<lambda>k s r. CreateMoonshotCycle k s" UpdateMoonshotCycle CloseMoonshotCycle
  by unfold_locales (auto simp: QueryActiveMoonshotCycle_def CreateMoonshotCycle_def UpdateMoonshotCycle_def CloseMoonshotCycle_def sql_laws split: prod.split)

subsection \<open>OpenRouter\<close>

type_synonym OpenRouterCycles = "(string, f64, unit) cycles"
type_synonym OpenRouterResetCycle = "(string, f64, unit) cycle"

definition CreateOpenRouterCycle :: "string \<Rightarrow> time \<Rightarrow> (OpenRouterCycles, int) op" where
  "CreateOpenRouterCycle quotaType s =
     sql_create ''failed to create openrouter cycle: '' ''failed to get cycle ID: '' quotaType s () 0 0"

definition CloseOpenRouterCycle :: "string \<Rightarrow> time \<Rightarrow> f64 \<Rightarrow> f64 \<Rightarrow> (OpenRouterCycles, unit) op" where
  "CloseOpenRouterCycle quotaType e p d = sql_exec ''failed to close openrouter cycle: '' (end_cycle quotaType e p d)"

definition UpdateOpenRouterCycle :: "string \<Rightarrow> f64 \<Rightarrow> f64 \<Rightarrow> (OpenRouterCycles, unit) op" where
  "UpdateOpenRouterCycle quotaType p d = sql_exec ''failed to update openrouter cycle: '' (set_stats quotaType p d)"

definition QueryActiveOpenRouterCycle :: "string \<Rightarrow> (OpenRouterCycles, OpenRouterResetCycle option) op" where
  "QueryActiveOpenRouterCycle quotaType = sql_active ''failed to query active openrouter cycle: '' quotaType"

definition QueryOpenRouterCycleHistory :: "string \<Rightarrow> int list \<Rightarrow> (OpenRouterCycles, OpenRouterResetCycle list) op" where
  "QueryOpenRouterCycleHistory quotaType limit = sql_history ''failed to query openrouter cycles: '' (is_closed quotaType) limit"

interpretation openrouter_store: cycle_store "\<lambda>k. k" "0 :: f64"
    QueryActiveOpenRouterCycle "\<lambda>k s r. CreateOpenRouterCycle k s" UpdateOpenRouterCycle CloseOpenRouterCycle
  by unfold_locales (auto simp: QueryActiveOpenRouterCycle_def CreateOpenRouterCycle_def UpdateOpenRouterCycle_def CloseOpenRouterCycle_def sql_laws split: prod.split)

subsection \<open>Grok and Kimi: cycles inserted whole and closed by id\<close>

text \<open>
  These two stores insert a complete row and close a cycle by its id; there is no function that updates
  the statistics of an active cycle.
\<close>

definition insert_row :: "('k, 'v, 'r) cycle \<Rightarrow> ('k, 'v, 'r) cycles \<Rightarrow> ('k, 'v, 'r) cycles" where
  "insert_row c t = t\<lparr>db_rows := db_rows t @ [c\<lparr>cyc_id := db_seq t + 1\<rparr>], db_seq := db_seq t + 1\<rparr>"

definition end_by_id :: "int \<Rightarrow> time \<Rightarrow> 'v \<Rightarrow> 'v \<Rightarrow> ('k, 'v, 'r) cycles \<Rightarrow> ('k, 'v, 'r) cycles" where
  "end_by_id i e p d =
     update_where (\<lambda>c. cyc_id c = i) (\<lambda>c. c\<lparr>cyc_end := Some e, cyc_peak := p, cyc_delta := d\<rparr>)"

locale cycle_store_by_id =
  fixes canon :: "'q \<Rightarrow> 'k"
    and query :: "'q \<Rightarrow> (('k, 'v, 'r) cycles, ('k, 'v, 'r) cycle option) op"
    and insert :: "'q \<Rightarrow> ('k, 'v, 'r) cycle \<Rightarrow> (('k, 'v, 'r) cycles, int) op"
    and close :: "int \<Rightarrow> time \<Rightarrow> 'v \<Rightarrow> 'v \<Rightarrow> (('k, 'v, 'r) cycles, unit) op"
  assumes query_law: "wf_cycles t \<Longrightarrow>
      wp (query q) (\<lambda>r t'. same_data t t' \<and> r = active (canon q) t) (\<lambda>_ t'. same_data t t') t"
    and query_run: "healthy t \<Longrightarrow> wf_cycles t \<Longrightarrow> query q t = (Inr (active (canon q) t), t)"
    and insert_law: "cyc_end c = None \<Longrightarrow>
      wp (insert q c) (\<lambda>_ t'. same_data (add_cycle (canon q) (cyc_start c) (cyc_reset c) (cyc_peak c) (cyc_delta c) t) t')
        (\<lambda>_ t'. same_data t t' \<or> same_data (add_cycle (canon q) (cyc_start c) (cyc_reset c) (cyc_peak c) (cyc_delta c) t) t') t"
    and insert_run: "healthy t \<Longrightarrow> cyc_end c = None \<Longrightarrow> insert q c t =
      (Inr (db_seq t + 1), add_cycle (canon q) (cyc_start c) (cyc_reset c) (cyc_peak c) (cyc_delta c) t)"
    and close_law: "wf_cycles t \<Longrightarrow> active k t = Some c \<Longrightarrow>
      wp (close (cyc_id c) e p d) (\<lambda>_ t'. same_data (end_cycle k e p d t) t') (\<lambda>_ t'. same_data t t') t"
    and close_run: "healthy t \<Longrightarrow> wf_cycles t \<Longrightarrow> active k t = Some c \<Longrightarrow>
      close (cyc_id c) e p d t = (Inr (), end_cycle k e p d t)"

lemma end_by_id_active:
  assumes "wf_cycles t" "active k t = Some c"
  shows "end_by_id (cyc_id c) e p d t = end_cycle k e p d t"
proof -
  have c: "c \<in> set (db_rows t)" "is_active k c"
    using active_Some [OF assms(2)] by (auto simp: is_active_def)
  have "(cyc_id c' = cyc_id c) = is_active k c'" if "c' \<in> set (db_rows t)" for c'
  proof
    assume "cyc_id c' = cyc_id c"
    then have "c' = c" using assms(1) that c(1) by (auto simp: wf_cycles_def distinct_map inj_on_def)
    with c show "is_active k c'" by simp
  next
    assume "is_active k c'"
    with c that show "cyc_id c' = cyc_id c"
      using evolves_unique_active [OF rtranclp.rtrancl_refl assms(1), of c' c] by (auto simp: is_active_def)
  qed
  then show ?thesis by (simp add: end_by_id_def end_cycle_def update_where_def)
qed

text \<open>\<open>INSERT\<close> of a whole row; the new id is read by a second call whose error is not wrapped.\<close>

definition sql_insert :: "string \<Rightarrow> ('k, 'v, 'r) cycle \<Rightarrow> (('k, 'v, 'r) cycles, int) op" where
  "sql_insert msg c =
     bindE (wrapE msg (db_stmt (\<lambda>t. (db_seq t + 1, insert_row c t)))) (\<lambda>i. db_stmt (\<lambda>t. (i, t)))"

lemma insert_row_add:
  "cyc_end c = None \<Longrightarrow> insert_row c t = add_cycle (cyc_key c) (cyc_start c) (cyc_reset c) (cyc_peak c) (cyc_delta c) t"
  by (simp add: insert_row_def add_cycle_def)

lemma sql_insert_law [sql_laws]:
  assumes "cyc_end c = None"
  shows "wp (sql_insert msg c)
     (\<lambda>_ t'. same_data (add_cycle (cyc_key c) (cyc_start c) (cyc_reset c) (cyc_peak c) (cyc_delta c) t) t')
     (\<lambda>_ t'. same_data t t' \<or> same_data (add_cycle (cyc_key c) (cyc_start c) (cyc_reset c) (cyc_peak c) (cyc_delta c) t) t') t"
  unfolding sql_insert_def wp_bindE wp_wrapE insert_row_add [OF assms]
  by (rule wp_db_stmt, simp, rule wp_db_stmt) (simp_all add: same_data_def tbl_defs)

lemma sql_insert_run [sql_laws]:
  "healthy t \<Longrightarrow> cyc_end c = None \<Longrightarrow> sql_insert msg c t =
     (Inr (db_seq t + 1), add_cycle (cyc_key c) (cyc_start c) (cyc_reset c) (cyc_peak c) (cyc_delta c) t)"
  by (simp add: sql_insert_def runs run_db_stmt insert_row_add)

lemma sql_close_id_law [sql_laws]:
  "wf_cycles t \<Longrightarrow> active k t = Some c \<Longrightarrow>
     wp (sql_exec msg (end_by_id (cyc_id c) e p d)) (\<lambda>_ t'. same_data (end_cycle k e p d t) t') (\<lambda>_ t'. same_data t t') t"
proof -
  assume wf: "wf_cycles t" "active k t = Some c"
  have "same_data (end_by_id (cyc_id c) e p d t) (end_by_id (cyc_id c) e p d (t\<lparr>db_faults := fs\<rparr>))" for fs
    by (simp add: end_by_id_def)
  from sql_exec_law [where f = "end_by_id (cyc_id c) e p d" and t = t and msg = msg, OF this] show ?thesis
    by (simp only: end_by_id_active [OF wf])
qed

lemma sql_insert_key_law [sql_laws]:
  "cyc_end c = None \<Longrightarrow> wp (sql_insert msg (c\<lparr>cyc_key := k\<rparr>))
     (\<lambda>_ t'. same_data (add_cycle k (cyc_start c) (cyc_reset c) (cyc_peak c) (cyc_delta c) t) t')
     (\<lambda>_ t'. same_data t t' \<or> same_data (add_cycle k (cyc_start c) (cyc_reset c) (cyc_peak c) (cyc_delta c) t) t') t"
  using sql_insert_law [of "c\<lparr>cyc_key := k\<rparr>" msg t] by simp

subsection \<open>Grok\<close>

type_synonym GrokCycles = "(int \<times> string, f64, time option) cycles"
type_synonym GrokResetCycle = "(int \<times> string, f64, time option) cycle"

definition DefaultGrokAccountID :: int where "DefaultGrokAccountID = 1"

definition grok_key :: "int \<Rightarrow> string \<Rightarrow> int \<times> string" where
  "grok_key accountID quotaName =
     (if accountID = 0 then DefaultGrokAccountID else accountID, quotaName)"

definition InsertGrokResetCycle :: "GrokResetCycle \<Rightarrow> (GrokCycles, int) op" where
  "InsertGrokResetCycle cycle =
     sql_insert ''failed to insert grok reset cycle: ''
       (cycle\<lparr>cyc_key := grok_key (fst (cyc_key cycle)) (snd (cyc_key cycle))\<rparr>)"

definition QueryActiveGrokResetCycle :: "int \<Rightarrow> string \<Rightarrow> (GrokCycles, GrokResetCycle option) op" where
  "QueryActiveGrokResetCycle accountID quotaName =
     sql_active_latest ''failed to query active grok cycle: '' (grok_key accountID quotaName)"

definition UpdateGrokResetCycleEnd :: "int \<Rightarrow> time \<Rightarrow> f64 \<Rightarrow> f64 \<Rightarrow> (GrokCycles, unit) op" where
  "UpdateGrokResetCycleEnd i e p d = sql_exec ''failed to close grok reset cycle: '' (end_by_id i e p d)"

text \<open>All cycles of the quota, also the active one; a limit that is not positive means 50.\<close>

definition QueryGrokCyclesForQuota :: "int \<Rightarrow> string \<Rightarrow> int \<Rightarrow> (GrokCycles, GrokResetCycle list) op" where
  "QueryGrokCyclesForQuota accountID quotaName limit =
     sql_history ''query grok cycles: '' (\<lambda>c. cyc_key c = grok_key accountID quotaName)
       [if limit \<le> 0 then 50 else limit]"

interpretation grok_store: cycle_store_by_id "\<lambda>(a, q). grok_key a q"
    "\<lambda>(a, q). QueryActiveGrokResetCycle a q"
    "\<lambda>(a, q) c. InsertGrokResetCycle (c\<lparr>cyc_key := (a, q)\<rparr>)" UpdateGrokResetCycleEnd
  by unfold_locales
     (auto simp: QueryActiveGrokResetCycle_def InsertGrokResetCycle_def UpdateGrokResetCycleEnd_def sql_laws
        end_by_id_active split: prod.split)

subsection \<open>Kimi\<close>

type_synonym KimiCycles = "(int \<times> string, f64, time option) cycles"
type_synonym KimiResetCycle = "(int \<times> string, f64, time option) cycle"

definition DefaultKimiAccountID :: int where "DefaultKimiAccountID = 1"

definition kimi_key :: "int \<Rightarrow> string \<Rightarrow> int \<times> string" where
  "kimi_key accountID quotaName =
     (if accountID = 0 then DefaultKimiAccountID else accountID, quotaName)"

definition InsertKimiResetCycle :: "KimiResetCycle \<Rightarrow> (KimiCycles, int) op" where
  "InsertKimiResetCycle cycle =
     sql_insert ''failed to insert kimi reset cycle: ''
       (cycle\<lparr>cyc_key := kimi_key (fst (cyc_key cycle)) (snd (cyc_key cycle))\<rparr>)"

definition QueryActiveKimiResetCycle :: "int \<Rightarrow> string \<Rightarrow> (KimiCycles, KimiResetCycle option) op" where
  "QueryActiveKimiResetCycle accountID quotaName =
     sql_active_latest ''failed to query active kimi cycle: '' (kimi_key accountID quotaName)"

definition UpdateKimiResetCycleEnd :: "int \<Rightarrow> time \<Rightarrow> f64 \<Rightarrow> f64 \<Rightarrow> (KimiCycles, unit) op" where
  "UpdateKimiResetCycleEnd i e p d = sql_exec ''failed to close kimi reset cycle: '' (end_by_id i e p d)"

text \<open>All cycles of the quota, also the active one; a limit that is not positive means 50.\<close>

definition QueryKimiCyclesForQuota :: "int \<Rightarrow> string \<Rightarrow> int \<Rightarrow> (KimiCycles, KimiResetCycle list) op" where
  "QueryKimiCyclesForQuota accountID quotaName limit =
     sql_history ''query kimi cycles: '' (\<lambda>c. cyc_key c = kimi_key accountID quotaName)
       [if limit \<le> 0 then 50 else limit]"

interpretation kimi_store: cycle_store_by_id "\<lambda>(a, q). kimi_key a q"
    "\<lambda>(a, q). QueryActiveKimiResetCycle a q"
    "\<lambda>(a, q) c. InsertKimiResetCycle (c\<lparr>cyc_key := (a, q)\<rparr>)" UpdateKimiResetCycleEnd
  by unfold_locales
     (auto simp: QueryActiveKimiResetCycle_def InsertKimiResetCycle_def UpdateKimiResetCycleEnd_def sql_laws
        end_by_id_active split: prod.split)

end
