(* ===== verification/QuotaSpec.thy ===== *)
theory QuotaSpec
  imports ProviderStores "HOL-Library.Multiset"
begin

text \<open>
  The abstract account of one quota. A quota is its open cycle, the bag of its finished cycles and the
  last value seen; a reading either opens the first cycle, updates the open one, or finishes it and
  opens the next. A reading's value is what the API reports, which need not be what the table stores (a
  remaining fraction against a usage). The trackers differ in the policy: the statistics a cycle begins with, when a cycle is over, which time it is given as
  its end, how the statistics change and whether the stored reset time follows the reported one. A tracker is correct when its store, seen quota by quota,
  makes exactly these steps; what the steps amount to over a whole run is proved here once: the
  readings are cut into consecutive segments, one cycle each.
\<close>

record ('x, 'r) reading =
  rd_at :: time
  rd_value :: 'x
  rd_reset :: 'r

record ('k, 'x, 'v, 'r) quota =
  qt_open :: "('k, 'v, 'r) cycle option"
  qt_done :: "('k, 'v, 'r) cycle multiset"
  qt_last :: "'x option"

record ('k, 'x, 'v, 'r) policy =
  pol_init :: "'x \<Rightarrow> 'v \<times> 'v"
  pol_over :: "('k, 'v, 'r) cycle \<Rightarrow> 'x option \<Rightarrow> ('x, 'r) reading \<Rightarrow> bool"
  pol_end :: "('k, 'v, 'r) cycle \<Rightarrow> ('x, 'r) reading \<Rightarrow> time"
  pol_close :: "'x option \<Rightarrow> 'x \<Rightarrow> 'v \<times> 'v \<Rightarrow> 'v \<times> 'v"
  pol_tick :: "'x option \<Rightarrow> 'x \<Rightarrow> 'v \<times> 'v \<Rightarrow> 'v \<times> 'v"
  pol_reset :: "'r \<Rightarrow> 'r \<Rightarrow> 'r"

definition empty_quota :: "('k, 'x, 'v, 'r) quota" where
  "empty_quota = \<lparr>qt_open = None, qt_done = {#}, qt_last = None\<rparr>"

definition open_at :: "'k \<Rightarrow> ('x, 'r) reading \<Rightarrow> 'v \<times> 'v \<Rightarrow> ('k, 'v, 'r) cycle" where
  "open_at k rd st = \<lparr>cyc_id = 0, cyc_key = k, cyc_start = rd_at rd, cyc_end = None,
     cyc_reset = rd_reset rd, cyc_peak = fst st, cyc_delta = snd st\<rparr>"

definition with_stats :: "'v \<times> 'v \<Rightarrow> ('k, 'v, 'r) cycle \<Rightarrow> ('k, 'v, 'r) cycle" where
  "with_stats st c = c\<lparr>cyc_peak := fst st, cyc_delta := snd st\<rparr>"

definition finish_at :: "time \<Rightarrow> 'v \<times> 'v \<Rightarrow> ('k, 'v, 'r) cycle \<Rightarrow> ('k, 'v, 'r) cycle" where
  "finish_at e st c = c\<lparr>cyc_end := Some e, cyc_peak := fst st, cyc_delta := snd st\<rparr>"

definition tick_cycle ::
    "('k, 'x, 'v, 'r) policy \<Rightarrow> 'x option \<Rightarrow> ('x, 'r) reading \<Rightarrow> ('k, 'v, 'r) cycle \<Rightarrow> ('k, 'v, 'r) cycle" where
  "tick_cycle P lst rd c = with_stats (pol_tick P lst (rd_value rd) (cyc_peak c, cyc_delta c))
     (c\<lparr>cyc_reset := pol_reset P (cyc_reset c) (rd_reset rd)\<rparr>)"

definition end_by ::
    "('k, 'x, 'v, 'r) policy \<Rightarrow> 'x option \<Rightarrow> ('x, 'r) reading \<Rightarrow> ('k, 'v, 'r) cycle \<Rightarrow> ('k, 'v, 'r) cycle" where
  "end_by P lst rd c = finish_at (pol_end P c rd) (pol_close P lst (rd_value rd) (cyc_peak c, cyc_delta c)) c"

definition quota_step ::
    "('k, 'x, 'v, 'r) policy \<Rightarrow> 'k \<Rightarrow> ('x, 'r) reading \<Rightarrow> ('k, 'x, 'v, 'r) quota \<Rightarrow> ('k, 'x, 'v, 'r) quota" where
  "quota_step P k rd q =
     (case qt_open q of
        None \<Rightarrow> q\<lparr>qt_open := Some (open_at k rd (pol_init P (rd_value rd))), qt_last := Some (rd_value rd)\<rparr>
      | Some c \<Rightarrow>
          if pol_over P c (qt_last q) rd then
            q\<lparr>qt_open := Some (open_at k rd (pol_init P (rd_value rd))),
              qt_done := add_mset (end_by P (qt_last q) rd c) (qt_done q), qt_last := Some (rd_value rd)\<rparr>
          else q\<lparr>qt_open := Some (tick_cycle P (qt_last q) rd c), qt_last := Some (rd_value rd)\<rparr>)"

subsection \<open>The quota of a table\<close>

definition anon :: "('k, 'v, 'r) cycle \<Rightarrow> ('k, 'v, 'r) cycle" where
  "anon c = c\<lparr>cyc_id := 0\<rparr>"

definition quota_view :: "'k \<Rightarrow> 'x option \<Rightarrow> ('k, 'v, 'r) cycles \<Rightarrow> ('k, 'x, 'v, 'r) quota" where
  "quota_view k lst t = \<lparr>qt_open = map_option anon (active k t),
     qt_done = image_mset anon (mset (closed_cycles k t)), qt_last = lst\<rparr>"

lemma anon_sel [simp]:
  "cyc_key (anon c) = cyc_key c" "cyc_start (anon c) = cyc_start c" "cyc_end (anon c) = cyc_end c"
  "cyc_reset (anon c) = cyc_reset c" "cyc_peak (anon c) = cyc_peak c" "cyc_delta (anon c) = cyc_delta c"
  by (simp_all add: anon_def)

lemma anon_upd [simp]:
  "anon (c\<lparr>cyc_peak := p, cyc_delta := d\<rparr>) = with_stats (p, d) (anon c)"
  "with_stats (p, d) (anon (c\<lparr>cyc_end := Some e\<rparr>)) = finish_at e (p, d) (anon c)"
  "anon \<lparr>cyc_id = i, cyc_key = k, cyc_start = b, cyc_end = None, cyc_reset = r, cyc_peak = p, cyc_delta = d\<rparr> =
     \<lparr>cyc_id = 0, cyc_key = k, cyc_start = b, cyc_end = None, cyc_reset = r, cyc_peak = p, cyc_delta = d\<rparr>"
  by (cases c; simp add: anon_def with_stats_def finish_at_def open_at_def)+

lemma closed_end_cycle:
  assumes "wf_cycles t"
  shows "mset (closed_cycles j (end_cycle k e p d t)) = mset (closed_cycles j t) +
    (case active k t of Some c \<Rightarrow> if j = k then {#c\<lparr>cyc_end := Some e, cyc_peak := p, cyc_delta := d\<rparr>#} else {#} | None \<Rightarrow> {#})"
proof -
  let ?f = "\<lambda>c. c\<lparr>cyc_end := Some e, cyc_peak := p, cyc_delta := d\<rparr>"
  have *: "mset (filter (is_closed j) (map (\<lambda>c. if is_active k c then ?f c else c) xs)) =
      mset (filter (is_closed j) xs) + (if j = k then mset (map ?f (filter (is_active k) xs)) else {#})" for xs
    by (induction xs) (auto simp: is_active_def is_closed_def)
  have "length (filter (is_active k) (db_rows t)) \<le> 1" using assms by (simp add: wf_cycles_def)
  then have "mset (map ?f (filter (is_active k) (db_rows t))) =
      (case active k t of Some c \<Rightarrow> {#?f c#} | None \<Rightarrow> {#})"
    by (cases "filter (is_active k) (db_rows t)") (auto simp: active_def find_filter)
  moreover have "closed_cycles j (end_cycle k e p d t) = filter (is_closed j) (map (\<lambda>c. if is_active k c then ?f c else c) (db_rows t))"
    by (simp add: closed_cycles_def end_cycle_def update_where_def)
  ultimately show ?thesis
    unfolding closed_cycles_def [of j t] by (simp only: *) (auto split: option.split)
qed

lemma view_other [simp]:
  "j \<noteq> k \<Longrightarrow> quota_view j l (set_stats k p d t) = quota_view j l t"
  "j \<noteq> k \<Longrightarrow> quota_view j l (set_reset k r t) = quota_view j l t"
  "j \<noteq> k \<Longrightarrow> quota_view j l (add_cycle k s r p d t) = quota_view j l t"
  "j \<noteq> k \<Longrightarrow> wf_cycles t \<Longrightarrow> quota_view j l (end_cycle k e p d t) = quota_view j l t"
  by (auto simp: quota_view_def closed_end_cycle split: option.split)

text \<open>Unfolded on both sides, a step of the table and a step of the abstract quota are the same record.\<close>

named_theorems quota_simps

lemmas anon_fields = anon_def with_stats_def finish_at_def

lemma with_stats_open [quota_simps]:
  "with_stats st \<lparr>cyc_id = 0, cyc_key = k, cyc_start = b, cyc_end = None, cyc_reset = r, cyc_peak = p, cyc_delta = d\<rparr> =
     \<lparr>cyc_id = 0, cyc_key = k, cyc_start = b, cyc_end = None, cyc_reset = r, cyc_peak = fst st, cyc_delta = snd st\<rparr>"
  by (simp add: with_stats_def)

lemma with_stats_anon [quota_simps]: "with_stats (cyc_peak c, cyc_delta c) (anon c) = anon c"
  by (cases c) (simp add: with_stats_def anon_def)

lemma finish_anon [quota_simps]: "finish_at e (cyc_peak c, cyc_delta c) (anon c) = anon (c\<lparr>cyc_end := Some e\<rparr>)"
  by (cases c) (simp add: finish_at_def anon_def)

lemmas [quota_simps] = quota_step_def tick_cycle_def end_by_def quota_view_def open_at_def closed_end_cycle

subsection \<open>Whole runs\<close>

text \<open>A list cut into consecutive segments: \<open>ov seg x\<close> tells whether \<open>x\<close> ends the segment so far.\<close>

fun split_segs :: "('a list \<Rightarrow> 'a \<Rightarrow> bool) \<Rightarrow> 'a list \<Rightarrow> 'a list \<Rightarrow> 'a list list" where
  "split_segs ov seg [] = [seg]"
| "split_segs ov seg (x # xs) =
     (if ov seg x then seg # split_segs ov [x] xs else split_segs ov (seg @ [x]) xs)"

fun segments :: "('a list \<Rightarrow> 'a \<Rightarrow> bool) \<Rightarrow> 'a list \<Rightarrow> 'a list list" where
  "segments ov [] = []"
| "segments ov (x # xs) = split_segs ov [x] xs"

lemma concat_split_segs: "concat (split_segs ov seg xs) = seg @ xs"
  by (induction xs arbitrary: seg) auto

lemma concat_segments: "concat (segments ov xs) = xs"
  by (cases xs) (simp_all add: concat_split_segs)

lemma split_segs_ne [simp]: "split_segs ov seg xs \<noteq> []"
  by (induction xs arbitrary: seg) auto

lemma split_segs_hd: "seg \<noteq> [] \<Longrightarrow> hd (hd (split_segs ov seg xs)) = hd seg"
  by (induction xs arbitrary: seg) auto

lemma split_segs_mem: "seg \<noteq> [] \<Longrightarrow> ys \<in> set (split_segs ov seg xs) \<Longrightarrow> ys \<noteq> []"
  by (induction xs arbitrary: seg) (auto split: if_splits)

lemma segments_ne: "segments ov xs = [] \<longleftrightarrow> xs = []"
  by (cases xs) simp_all

lemma segment_ne: "ys \<in> set (segments ov xs) \<Longrightarrow> ys \<noteq> []"
  by (cases xs) (auto dest: split_segs_mem [rotated])

lemma split_segs_cong:
  assumes "seg \<noteq> []" "\<And>zs x. zs \<noteq> [] \<Longrightarrow> ov zs x = ov' zs x"
  shows "split_segs ov seg xs = split_segs ov' seg xs"
  using assms(1) by (induction xs arbitrary: seg) (simp_all add: assms(2))

lemma segments_cong: "(\<And>zs x. zs \<noteq> [] \<Longrightarrow> ov zs x = ov' zs x) \<Longrightarrow> segments ov xs = segments ov' xs"
  by (cases xs) (auto intro: split_segs_cong)

text \<open>The open cycle of a segment and the closed cycle it becomes.\<close>

definition open_seg :: "('k, 'x, 'v, 'r) policy \<Rightarrow> 'k \<Rightarrow> ('x, 'r) reading list \<Rightarrow> ('k, 'v, 'r) cycle" where
  "open_seg P k xs = snd (fold (\<lambda>rd (l, c). (rd_value rd, tick_cycle P (Some l) rd c)) (tl xs)
     (rd_value (hd xs), open_at k (hd xs) (pol_init P (rd_value (hd xs)))))"

definition done_seg ::
    "('k, 'x, 'v, 'r) policy \<Rightarrow> 'k \<Rightarrow> ('x, 'r) reading list \<Rightarrow> ('x, 'r) reading \<Rightarrow> ('k, 'v, 'r) cycle" where
  "done_seg P k xs next_rd = end_by P (Some (rd_value (List.last xs))) next_rd (open_seg P k xs)"

fun done_segs :: "('k, 'x, 'v, 'r) policy \<Rightarrow> 'k \<Rightarrow> ('x, 'r) reading list list \<Rightarrow> ('k, 'v, 'r) cycle list" where
  "done_segs P k (xs # ys # rest) = done_seg P k xs (hd ys) # done_segs P k (ys # rest)"
| "done_segs P k _ = []"

definition quota_of_segments ::
    "('k, 'x, 'v, 'r) policy \<Rightarrow> 'k \<Rightarrow> ('x, 'r) reading list list \<Rightarrow> ('k, 'x, 'v, 'r) quota" where
  "quota_of_segments P k segs =
     \<lparr>qt_open = (if segs = [] then None else Some (open_seg P k (List.last segs))),
      qt_done = mset (done_segs P k segs),
      qt_last = (if segs = [] then None else Some (rd_value (List.last (List.last segs))))\<rparr>"

text \<open>The rule a policy gives for cutting: what it decides for the open cycle of the segment so far.\<close>

definition policy_over :: "('k, 'x, 'v, 'r) policy \<Rightarrow> 'k \<Rightarrow> ('x, 'r) reading list \<Rightarrow> ('x, 'r) reading \<Rightarrow> bool" where
  "policy_over P k seg rd \<longleftrightarrow> pol_over P (open_seg P k seg) (Some (rd_value (List.last seg))) rd"

lemma fst_seg_fold:
  "fst (fold (\<lambda>rd (l, c). (val rd, f l rd c)) ys (l, c)) = (if ys = [] then l else val (List.last ys))"
  by (induction ys arbitrary: l c) auto

lemma open_seg_single [simp]: "open_seg P k [x] = open_at k x (pol_init P (rd_value x))"
  by (simp add: open_seg_def)

lemma open_seg_snoc:
  assumes "seg \<noteq> []"
  shows "open_seg P k (seg @ [y]) = tick_cycle P (Some (rd_value (List.last seg))) y (open_seg P k seg)"
proof -
  obtain x xs where seg: "seg = x # xs" using assms by (cases seg) auto
  let ?f = "\<lambda>rd (l, c). (rd_value rd, tick_cycle P (Some l) rd c)"
  obtain l c where f: "fold ?f xs (rd_value x, open_at k x (pol_init P (rd_value x))) = (l, c)" by force
  then have "l = rd_value (List.last seg)"
    using fst_seg_fold [of rd_value "\<lambda>l rd. tick_cycle P (Some l) rd" xs "rd_value x" "open_at k x (pol_init P (rd_value x))"]
    by (simp add: seg)
  with f show ?thesis by (simp add: seg open_seg_def)
qed

lemma run_from_open:
  assumes "seg \<noteq> []"
  shows "fold (quota_step P k) xs
      \<lparr>qt_open = Some (open_seg P k seg), qt_done = D, qt_last = Some (rd_value (List.last seg))\<rparr> =
    (let q = quota_of_segments P k (split_segs (policy_over P k) seg xs) in q\<lparr>qt_done := qt_done q + D\<rparr>)"
  using assms
proof (induction xs arbitrary: seg D)
  case Nil
  then show ?case by (simp add: quota_of_segments_def)
next
  case (Cons y ys)
  show ?case
  proof (cases "policy_over P k seg y")
    case True
    have "fold (quota_step P k) (y # ys)
        \<lparr>qt_open = Some (open_seg P k seg), qt_done = D, qt_last = Some (rd_value (List.last seg))\<rparr> =
      fold (quota_step P k) ys \<lparr>qt_open = Some (open_seg P k [y]),
         qt_done = add_mset (done_seg P k seg y) D, qt_last = Some (rd_value (List.last [y]))\<rparr>"
      using True by (simp add: quota_step_def policy_over_def done_seg_def)
    also have "\<dots> = (let q = quota_of_segments P k (split_segs (policy_over P k) [y] ys)
        in q\<lparr>qt_done := qt_done q + add_mset (done_seg P k seg y) D\<rparr>)"
      by (rule Cons.IH) simp
    also have "\<dots> = (let q = quota_of_segments P k (split_segs (policy_over P k) seg (y # ys)) in q\<lparr>qt_done := qt_done q + D\<rparr>)"
      using True split_segs_hd [of "[y]" "policy_over P k" ys]
      by (cases "split_segs (policy_over P k) [y] ys") (simp_all add: quota_of_segments_def)
    finally show ?thesis .
  next
    case False
    have "fold (quota_step P k) (y # ys)
        \<lparr>qt_open = Some (open_seg P k seg), qt_done = D, qt_last = Some (rd_value (List.last seg))\<rparr> =
      fold (quota_step P k) ys \<lparr>qt_open = Some (open_seg P k (seg @ [y])), qt_done = D,
         qt_last = Some (rd_value (List.last (seg @ [y])))\<rparr>"
      using False Cons.prems by (simp add: quota_step_def policy_over_def open_seg_snoc)
    also have "\<dots> = (let q = quota_of_segments P k (split_segs (policy_over P k) (seg @ [y]) ys) in q\<lparr>qt_done := qt_done q + D\<rparr>)"
      by (rule Cons.IH) simp
    finally show ?thesis using False by simp
  qed
qed

lemma quota_run_segments:
  "fold (quota_step P k) rds empty_quota = quota_of_segments P k (segments (policy_over P k) rds)"
proof (cases rds)
  case Nil
  then show ?thesis by (simp add: quota_of_segments_def empty_quota_def)
next
  case (Cons x xs)
  then show ?thesis
    using run_from_open [of "[x]" P k xs "{#}"] by (simp add: quota_step_def empty_quota_def)
qed

subsection \<open>What a segment's cycle holds\<close>

lemma open_seg_fields:
  "seg \<noteq> [] \<Longrightarrow> cyc_start (open_seg P k seg) = rd_at (hd seg) \<and> cyc_key (open_seg P k seg) = k \<and>
     cyc_end (open_seg P k seg) = None \<and> cyc_id (open_seg P k seg) = 0"
proof (induction seg rule: rev_induct)
  case (snoc y seg)
  then show ?case
    by (cases "seg = []") (simp_all add: open_seg_snoc tick_cycle_def with_stats_def open_at_def)
qed simp

text \<open>With the keeping policy the stored reset time is the one of the first reading; with the following one
  it is the last one that was reported.\<close>

lemma open_seg_reset_kept:
  "pol_reset P = (\<lambda>r r'. r) \<Longrightarrow> seg \<noteq> [] \<Longrightarrow> cyc_reset (open_seg P k seg) = rd_reset (hd seg)"
proof (induction seg rule: rev_induct)
  case (snoc y seg)
  then show ?case
    by (cases "seg = []") (simp_all add: open_seg_snoc tick_cycle_def with_stats_def open_at_def)
qed simp

definition follow_reset :: "'r option \<Rightarrow> 'r option \<Rightarrow> 'r option" where
  "follow_reset r r' = (case r' of Some t \<Rightarrow> Some t | None \<Rightarrow> r)"

lemma open_seg_reset_follows:
  "pol_reset P = follow_reset \<Longrightarrow> seg \<noteq> [] \<Longrightarrow>
   cyc_reset (open_seg P k seg) = foldl follow_reset None (map rd_reset seg)"
proof (induction seg rule: rev_induct)
  case (snoc y seg)
  then show ?case
    by (cases "seg = []")
       (simp_all add: open_seg_snoc tick_cycle_def with_stats_def open_at_def, simp add: follow_reset_def split: option.split)
qed simp

text \<open>Read back from the abstract quota: the open cycle of a table after a run is the newest segment.\<close>

lemma view_open_seg:
  assumes "quota_view k l t = quota_of_segments P k (segments ov rds)" "rds \<noteq> []"
  obtains c where "active k t = Some c" "anon c = open_seg P k (List.last (segments ov rds))"
    "List.last (segments ov rds) \<noteq> []"
  using assms segments_ne [of ov rds] segment_ne [OF last_in_set, of ov rds]
  by (auto simp: quota_view_def quota_of_segments_def)

subsection \<open>Remembered reset times\<close>

text \<open>
  Some trackers also remember the last reset time that was reported for a quota, across readings without one.
  The value of a reading is then paired with that time.
\<close>

definition dress :: "time option \<Rightarrow> ('x, time option) reading \<Rightarrow> ('x \<times> time option, time option) reading" where
  "dress m rd = \<lparr>rd_at = rd_at rd, rd_value = (rd_value rd, follow_reset m (rd_reset rd)), rd_reset = rd_reset rd\<rparr>"

fun carry :: "time option \<Rightarrow> ('x, time option) reading list \<Rightarrow> ('x \<times> time option, time option) reading list" where
  "carry m [] = []"
| "carry m (rd # rds) = dress m rd # carry (follow_reset m (rd_reset rd)) rds"

definition remembered :: "('k, 'x \<times> time option, 'v, 'r) quota \<Rightarrow> time option" where
  "remembered q = (case qt_last q of Some (_, m) \<Rightarrow> m | None \<Rightarrow> None)"

definition carry_step ::
    "('k, 'x \<times> time option, 'v, time option) policy \<Rightarrow> 'k \<Rightarrow> ('x, time option) reading \<Rightarrow>
     ('k, 'x \<times> time option, 'v, time option) quota \<Rightarrow> ('k, 'x \<times> time option, 'v, time option) quota" where
  "carry_step P k rd q = quota_step P k (dress (remembered q) rd) q"

lemma qt_last_step [simp]: "qt_last (quota_step P k rd q) = Some (rd_value rd)"
  by (simp add: quota_step_def split: option.split)

lemma remembered_step [simp]: "remembered (carry_step P k rd q) = follow_reset (remembered q) (rd_reset rd)"
  by (simp add: remembered_def carry_step_def dress_def)

lemma fold_carry_step:
  "fold (carry_step P k) rds q = fold (quota_step P k) (carry (remembered q) rds) q"
  by (induction rds arbitrary: q) (simp_all, simp add: carry_step_def)

end
