(* ===== verification/SnapshotStore.thy ===== *)
theory SnapshotStore
  imports CycleStore
begin

text \<open>
  The snapshot tables of the providers: a header row with the capture time and, in a second table, one
  row per quota value. Here a header and its values form one row; the insertion is the transaction the
  stores run, statement by statement, and reading a snapshot takes one statement for the header and one
  for its values. Shown once for all providers: an insertion is all or nothing, whatever statement
  fails, and the newest snapshot is read back as it was inserted.
\<close>

record ('m, 'q) snap =
  snap_ID :: int
  snap_CapturedAt :: time
  snap_meta :: 'm
  snap_Quotas :: "'q list"

type_synonym ('m, 'q) snaps = "('m, 'q) snap tbl"

subsection \<open>Transactions\<close>

text \<open>\<open>tx, err := db.Begin(); defer tx.Rollback(); ...; tx.Commit()\<close>: when anything fails the tables are what they were.\<close>

definition sql_tx :: "string \<Rightarrow> string \<Rightarrow> ('r tbl, 'a) op \<Rightarrow> ('r tbl, 'a) op" where
  "sql_tx bmsg cmsg body =
     thenE (wrapE bmsg (db_stmt (\<lambda>t. ((), t))))
       (\<lambda>t0. case bindE body (\<lambda>x. thenE (wrapE cmsg (db_stmt (\<lambda>t. ((), t)))) (returnE x)) t0 of
          (Inl e, t) \<Rightarrow> (Inl e, t\<lparr>db_rows := db_rows t0, db_seq := db_seq t0\<rparr>)
        | (Inr x, t) \<Rightarrow> (Inr x, t))"

lemma wp_db_skip: "(\<And>fs. Q x (t\<lparr>db_faults := fs\<rparr>)) \<Longrightarrow> (\<And>e fs. E e (t\<lparr>db_faults := fs\<rparr>)) \<Longrightarrow> wp (db_stmt (\<lambda>t. (x, t))) Q E t"
  by (rule wp_db_stmt) simp_all

lemma wp_sql_tx:
  assumes "\<And>t'. same_data t t' \<Longrightarrow> wp body (\<lambda>x t''. \<forall>fs. Q x (t''\<lparr>db_faults := fs\<rparr>)) (\<lambda>_ _. True) t'"
    and "\<And>e t'. same_data t t' \<Longrightarrow> E e t'"
  shows "wp (sql_tx bmsg cmsg body) Q E t"
proof -
  let ?full = "bindE body (\<lambda>x. thenE (wrapE cmsg (db_stmt (\<lambda>t. ((), t)))) (returnE x))"
  have full: "wp ?full Q (\<lambda>_ _. True) t'" if "same_data t t'" for t'
    unfolding wp_bindE wp_thenE wp_wrapE wp_returnE
    by (rule wp_mono [OF assms(1) [OF that]]) (auto intro: wp_db_skip)
  have body: "wp (\<lambda>t0. case ?full t0 of
          (Inl e, t) \<Rightarrow> (Inl e, t\<lparr>db_rows := db_rows t0, db_seq := db_seq t0\<rparr>)
        | (Inr x, t) \<Rightarrow> (Inr x, t)) Q E t'" if "same_data t t'" for t'
    using full [OF that] assms(2) that
    by (auto simp: wp_def same_data_def split: prod.splits sum.splits)
  show ?thesis
    unfolding sql_tx_def wp_thenE wp_wrapE
    by (rule wp_db_skip) (auto intro: body assms(2))
qed

subsection \<open>Insertion\<close>

definition add_snap :: "('m, 'q) snap \<Rightarrow> ('m, 'q) snaps \<Rightarrow> ('m, 'q) snaps" where
  "add_snap sn t = t\<lparr>db_rows := db_rows t @ [sn\<lparr>snap_ID := db_seq t + 1, snap_Quotas := []\<rparr>], db_seq := db_seq t + 1\<rparr>"

definition add_value :: "int \<Rightarrow> 'q \<Rightarrow> ('m, 'q) snaps \<Rightarrow> ('m, 'q) snaps" where
  "add_value i q t = t\<lparr>db_rows :=
     map (\<lambda>r. if snap_ID r = i then r\<lparr>snap_Quotas := snap_Quotas r @ [q]\<rparr> else r) (db_rows t)\<rparr>"

definition sql_insert_snap ::
    "string \<Rightarrow> ('q \<Rightarrow> string) \<Rightarrow> ('m, 'q) snap \<Rightarrow> (('m, 'q) snaps, int) op" where
  "sql_insert_snap msg vmsg sn =
     sql_tx ''failed to begin transaction: '' ''failed to commit: ''
       (bindE (wrapE msg (db_stmt (\<lambda>t. (db_seq t + 1, add_snap sn t)))) (\<lambda>i.
        bindE (wrapE ''failed to get snapshot ID: '' (db_stmt (\<lambda>t. (i, t)))) (\<lambda>i.
        thenE (forE (\<lambda>q. wrapE (vmsg q) (db_stmt (\<lambda>t. ((), add_value i q t)))) (snap_Quotas sn))
          (returnE i))))"

definition wf_snaps :: "('m, 'q) snaps \<Rightarrow> bool" where
  "wf_snaps t \<longleftrightarrow> distinct (map snap_ID (db_rows t)) \<and> (\<forall>r \<in> set (db_rows t). snap_ID r \<le> db_seq t)"

lemma add_values:
  assumes "\<forall>r \<in> set rs. snap_ID r < i" "snap_ID sn = i"
    and "db_rows t = rs @ [sn\<lparr>snap_Quotas := qs\<rparr>]" "db_seq t = n"
  shows "wp (forE (\<lambda>q. wrapE (vmsg q) (db_stmt (\<lambda>t. ((), add_value i q t)))) qs')
    (\<lambda>_ t'. db_rows t' = rs @ [sn\<lparr>snap_Quotas := qs @ qs'\<rparr>] \<and> db_seq t' = n) (\<lambda>_ _. True) t"
  using assms(3,4)
proof (induction qs' arbitrary: qs t)
  case (Cons q qs')
  have keep: "map (\<lambda>r. if snap_ID r = i then f r else r) rs = rs" for f :: "('a, 'b) snap \<Rightarrow> ('a, 'b) snap"
    using assms(1) by (intro map_idI) auto
  show ?case
    unfolding forE.simps wp_thenE wp_wrapE
    by (rule wp_db_stmt, rule wp_mono [OF Cons.IH [where qs = "qs @ [q]"]])
       (use Cons.prems keep assms(2) in \<open>auto simp: add_value_def\<close>)
qed (use assms in \<open>simp add: wps\<close>)

lemma sql_insert_snap_law:
  assumes "wf_snaps t"
  shows "wp (sql_insert_snap msg vmsg sn)
    (\<lambda>i t'. i = db_seq t + 1 \<and> db_rows t' = db_rows t @ [sn\<lparr>snap_ID := i\<rparr>] \<and> db_seq t' = i)
    (\<lambda>_ t'. same_data t t') t"
  unfolding sql_insert_snap_def
proof (rule wp_sql_tx)
  fix t' assume same: "same_data t t'"
  have lt: "\<forall>r \<in> set (db_rows t'). snap_ID r < db_seq t' + 1"
    using assms same by (auto simp: wf_snaps_def same_data_def)
  show "wp (bindE (wrapE msg (db_stmt (\<lambda>t. (db_seq t + 1, add_snap sn t)))) (\<lambda>i.
        bindE (wrapE ''failed to get snapshot ID: '' (db_stmt (\<lambda>t. (i, t)))) (\<lambda>i.
        thenE (forE (\<lambda>q. wrapE (vmsg q) (db_stmt (\<lambda>t. ((), add_value i q t)))) (snap_Quotas sn))
          (returnE i))))
     (\<lambda>i t''. \<forall>fs. i = db_seq t + 1 \<and> db_rows (t''\<lparr>db_faults := fs\<rparr>) = db_rows t @ [sn\<lparr>snap_ID := i\<rparr>] \<and>
        db_seq (t''\<lparr>db_faults := fs\<rparr>) = i) (\<lambda>_ _. True) t'"
    unfolding wp_bindE wp_wrapE wp_thenE wp_returnE
  proof (rule wp_db_stmt)
    fix fs
    let ?t = "t'\<lparr>db_faults := fs\<rparr>"
    have "wp (forE (\<lambda>q. wrapE (vmsg q) (db_stmt (\<lambda>t. ((), add_value (db_seq t' + 1) q t)))) (snap_Quotas sn))
       (\<lambda>_ t''. \<forall>fs. db_seq t' + 1 = db_seq t + 1 \<and>
          db_rows (t''\<lparr>db_faults := fs\<rparr>) = db_rows t @ [sn\<lparr>snap_ID := db_seq t' + 1\<rparr>] \<and>
          db_seq (t''\<lparr>db_faults := fs\<rparr>) = db_seq t' + 1) (\<lambda>_ _. True) (add_snap sn ?t\<lparr>db_faults := fs'\<rparr>)" for fs'
      by (rule wp_mono [OF add_values [OF lt, where sn = "sn\<lparr>snap_ID := db_seq t' + 1\<rparr>" and qs = "[]" and n = "db_seq t' + 1"]])
         (use same in \<open>auto simp: add_snap_def same_data_def\<close>)
    then show "wp (db_stmt (\<lambda>t. (fst (db_seq ?t + 1, add_snap sn ?t), t)))
        (\<lambda>i. wp (forE (\<lambda>q. wrapE (vmsg q) (db_stmt (\<lambda>t. ((), add_value i q t)))) (snap_Quotas sn))
          (\<lambda>_ t''. \<forall>fs. i = db_seq t + 1 \<and> db_rows (t''\<lparr>db_faults := fs\<rparr>) = db_rows t @ [sn\<lparr>snap_ID := i\<rparr>] \<and>
             db_seq (t''\<lparr>db_faults := fs\<rparr>) = i) (\<lambda>_ _. True)) (\<lambda>_ _. True) (snd (db_seq ?t + 1, add_snap sn ?t))"
      by (simp, intro wp_db_skip) simp_all
  qed simp
qed (auto simp: same_data_def)

lemma db_faults_add_values:
  "healthy t \<Longrightarrow> wp (forE (\<lambda>q. wrapE (vmsg q) (db_stmt (\<lambda>t. ((), add_value i q t)))) qs) (\<lambda>_. healthy) (\<lambda>_ _. False) t"
proof (induction qs arbitrary: t)
  case (Cons q qs)
  have "healthy (add_value i q t)" using Cons.prems by (simp add: add_value_def healthy_def)
  then show ?case using Cons by (simp add: wps wp_db_healthy)
qed (simp add: wps)

lemma sql_insert_snap_healthy:
  assumes "healthy t" "wf_snaps t"
  shows "\<exists>i t'. sql_insert_snap msg vmsg sn t = (Inr i, t') \<and> healthy t' \<and> i = db_seq t + 1 \<and>
    db_rows t' = db_rows t @ [sn\<lparr>snap_ID := i\<rparr>]"
proof -
  have roll: "wp (\<lambda>t0. case m t0 of (Inl e, t) \<Rightarrow> (Inl e, t\<lparr>db_rows := db_rows t0, db_seq := db_seq t0\<rparr>)
      | (Inr x, t) \<Rightarrow> (Inr x, t)) Q E t = wp m Q (\<lambda>e t'. E e (t'\<lparr>db_rows := db_rows t, db_seq := db_seq t\<rparr>)) t"
    for m :: "('c tbl, 'd) op" and Q E t
    by (auto simp: wp_def split: prod.split sum.split)
  have "healthy (add_snap sn t)" using assms(1) by (simp add: add_snap_def healthy_def)
  from db_faults_add_values [OF this, of vmsg "db_seq t + 1" "snap_Quotas sn"]
  have "wp (sql_insert_snap msg vmsg sn) (\<lambda>_. healthy) (\<lambda>_ _. False) t"
    using assms(1) \<open>healthy (add_snap sn t)\<close>
    by (simp add: sql_insert_snap_def sql_tx_def wps wp_db_healthy roll)
       (erule wp_mono, simp_all add: wps wp_db_healthy)
  then show ?thesis
    using sql_insert_snap_law [OF assms(2), of msg vmsg sn]
    by (auto simp: wp_def split: prod.splits sum.splits)
qed

lemma wf_snaps_insert:
  "wf_snaps t \<Longrightarrow> db_rows t' = db_rows t @ [sn\<lparr>snap_ID := db_seq t + 1\<rparr>] \<Longrightarrow> db_seq t' = db_seq t + 1 \<Longrightarrow> wf_snaps t'"
  by (force simp: wf_snaps_def)

subsection \<open>Reading\<close>

text \<open>
  The newest header (\<open>ORDER BY captured_at DESC LIMIT 1\<close>), then its values ordered by name; the reader
  skips the values \<open>keep\<close> rejects. \<open>look\<close> is what the header statement selects: columns it does not
  name are left at Go's zero value.
\<close>

definition snap_values :: "('q \<Rightarrow> string) \<Rightarrow> int \<Rightarrow> ('m, 'q) snap list \<Rightarrow> 'q list" where
  "snap_values name i rows = sort_key name (concat (map snap_Quotas (filter (\<lambda>r. snap_ID r = i) rows)))"

definition sql_latest_snap ::
    "string \<Rightarrow> string \<Rightarrow> ('m \<Rightarrow> bool) \<Rightarrow> ('m \<Rightarrow> 'm) \<Rightarrow> ('q \<Rightarrow> string) \<Rightarrow> ('q \<Rightarrow> bool) \<Rightarrow>
     (('m, 'q) snaps, ('m, 'q) snap option) op" where
  "sql_latest_snap msg vmsg sel look name keep =
     bindE (wrapE msg (db_stmt (\<lambda>t.
       (case order_desc snap_CapturedAt (filter (\<lambda>r. sel (snap_meta r)) (db_rows t)) of
          [] \<Rightarrow> None | r # _ \<Rightarrow> Some r, t))))
     (\<lambda>r. case r of
        None \<Rightarrow> returnE None
      | Some h \<Rightarrow> bindE (wrapE vmsg (db_stmt (\<lambda>t. (snap_values name (snap_ID h) (db_rows t), t))))
          (\<lambda>vs. rows_err (Some (h\<lparr>snap_meta := look (snap_meta h), snap_Quotas := filter keep vs\<rparr>))))"

definition latest_snap ::
    "('m \<Rightarrow> bool) \<Rightarrow> ('m \<Rightarrow> 'm) \<Rightarrow> ('q \<Rightarrow> string) \<Rightarrow> ('q \<Rightarrow> bool) \<Rightarrow> ('m, 'q) snaps \<Rightarrow> ('m, 'q) snap option" where
  "latest_snap sel look name keep t =
     (case order_desc snap_CapturedAt (filter (\<lambda>r. sel (snap_meta r)) (db_rows t)) of
        [] \<Rightarrow> None
      | h # _ \<Rightarrow> Some (h\<lparr>snap_meta := look (snap_meta h),
                         snap_Quotas := filter keep (snap_values name (snap_ID h) (db_rows t))\<rparr>))"

lemma sql_latest_snap_run:
  "healthy t \<Longrightarrow> sql_latest_snap msg vmsg sel look name keep t = (Inr (latest_snap sel look name keep t), t)"
  by (cases "order_desc snap_CapturedAt (filter (\<lambda>r. sel (snap_meta r)) (db_rows t))")
     (simp_all add: sql_latest_snap_def latest_snap_def rows_err_def runs run_db_stmt del: order_desc_props(4))

lemma sql_latest_snap_same:
  "wp (sql_latest_snap msg vmsg sel look name keep) (\<lambda>_ t'. same_data t t') (\<lambda>_ t'. same_data t t') t"
  unfolding sql_latest_snap_def wp_bindE wp_wrapE
  by (rule wp_db_stmt)
     (auto simp: wps rows_err_def same_data_def intro!: wp_db_stmt split: list.split)

lemma order_desc_newest:
  assumes "\<forall>y \<in> set xs. text_less_eq (f y) (f x)"
  shows "order_desc f (xs @ [x]) = x # order_desc f xs"
proof -
  let ?g = "\<lambda>r. text_key (f r)"
  have ins: "insort_key ?g y (zs @ [x]) = insort_key ?g y zs @ [x]" if "?g y \<le> ?g x" for y zs
    using that by (induction zs) auto
  have "sort_key ?g (xs @ [x]) = sort_key ?g xs @ [x]"
    using assms by (induction xs) (auto simp: sort_key_def text_less_eq_def ins)
  then show ?thesis by (simp add: order_desc_def)
qed

text \<open>What is read back after an insertion that is not older than what is stored.\<close>

lemma latest_after_insert:
  assumes "wf_snaps t" "db_rows t' = db_rows t @ [sn\<lparr>snap_ID := db_seq t + 1\<rparr>]" "sel (snap_meta sn)"
    and "\<forall>r \<in> set (db_rows t). text_less_eq (snap_CapturedAt r) (snap_CapturedAt sn)"
  shows "latest_snap sel look name keep t' =
    Some (sn\<lparr>snap_ID := db_seq t + 1, snap_meta := look (snap_meta sn),
             snap_Quotas := filter keep (sort_key name (snap_Quotas sn))\<rparr>)"
proof -
  let ?sn = "sn\<lparr>snap_ID := db_seq t + 1\<rparr>"
  have "order_desc snap_CapturedAt (filter (\<lambda>r. sel (snap_meta r)) (db_rows t')) =
      ?sn # order_desc snap_CapturedAt (filter (\<lambda>r. sel (snap_meta r)) (db_rows t))"
    using assms(3,4) unfolding assms(2) by (simp add: order_desc_newest)
  moreover have "filter (\<lambda>r. snap_ID r = db_seq t + 1) (db_rows t) = []"
    using assms(1) by (force simp: wf_snaps_def filter_empty_conv)
  ultimately show ?thesis
    by (simp add: latest_snap_def snap_values_def assms(2))
qed

end
