(* ===== verification/TrackerBase.thy ===== *)
theory TrackerBase
  imports QuotaSpec SnapshotStore
begin

text \<open>
  What the fourteen quota trackers (\<open>internal/tracker\<close>) share: the part of their state every one of
  them has (the store, whether a reset callback is registered, the calls made to it), the arithmetic of
  the running statistics, the reasoning rules for calls of the store, and the runs of a tracker over a
  sequence of snapshots. Each tracker extends the record below by its own fields.
\<close>

record ('k, 'v, 'r) trk =
  trk_store :: "('k, 'v, 'r) cycles"
  trk_onReset :: bool
  trk_resets :: "string list"

definition onStore :: "(('k, 'v, 'r) cycles, 'a) op \<Rightarrow> (('k, 'v, 'r, 'z) trk_scheme, 'a) op" where
  "onStore m s = (case m (trk_store s) of (r, t) \<Rightarrow> (r, s\<lparr>trk_store := t\<rparr>))"

definition withE :: "('s \<Rightarrow> ('s, 'a) op) \<Rightarrow> ('s, 'a) op" where
  "withE f s = f s s"

text \<open>\<open>if t.onReset != nil { t.onReset(name) }\<close>\<close>

definition fireReset :: "string \<Rightarrow> ('k, 'v, 'r, 'z) trk_scheme \<Rightarrow> ('k, 'v, 'r, 'z) trk_scheme" where
  "fireReset name s = (if trk_onReset s then s\<lparr>trk_resets := trk_resets s @ [name]\<rparr> else s)"

lemma trk_store_fireReset [simp]: "trk_store (fireReset n s) = trk_store s"
  by (simp add: fireReset_def)

lemma wp_onStore:
  "wp (onStore m) Q E s = wp m (\<lambda>x t. Q x (s\<lparr>trk_store := t\<rparr>)) (\<lambda>e t. E e (s\<lparr>trk_store := t\<rparr>)) (trk_store s)"
  by (simp add: wp_def onStore_def split: prod.split)

lemma wp_withE [wps]: "wp (withE f) Q E s = wp (f s) Q E s"
  by (simp add: wp_def withE_def)

lemma run_withE [simp]: "withE f s = f s s"
  by (simp add: withE_def)

lemma run_onStore: "m (trk_store s) = (r, t) \<Longrightarrow> onStore m s = (r, s\<lparr>trk_store := t\<rparr>)"
  by (simp add: onStore_def)

subsection \<open>Running statistics\<close>

text \<open>\<open>delta := current - last; if delta > 0 { total += delta }\<close> and \<open>if current > peak { peak = current }\<close>\<close>

definition add_delta :: "f64 \<Rightarrow> f64 \<Rightarrow> f64 \<Rightarrow> f64" where
  "add_delta tot lst cur = (let delta = fsub cur lst in if 0 < delta then fadd tot delta else tot)"

definition raise_peak :: "'a::linorder \<Rightarrow> 'a \<Rightarrow> 'a" where
  "raise_peak peak cur = (if peak < cur then cur else peak)"

lemma raise_peak_max: "raise_peak p c = max p c"
  by (auto simp: raise_peak_def max_def)

lemma add_delta_ge: "is_f64 tot \<Longrightarrow> tot \<le> add_delta tot lst cur"
  by (auto simp: add_delta_def Let_def intro: fadd_ge)

lemma add_delta_f64 [intro]: "is_f64 tot \<Longrightarrow> is_f64 (add_delta tot lst cur)"
  by (simp add: add_delta_def Let_def)

lemma add_delta_drop: "cur \<le> lst \<Longrightarrow> add_delta tot lst cur = tot"
  using fsub_nonpos_of_le [of cur lst] by (simp add: add_delta_def Let_def)

lemma add_delta_int:
  assumes "\<bar>c - l\<bar> \<le> 2 ^ 53" "0 \<le> t" "t + max 0 (c - l) \<le> 2 ^ 53"
  shows "add_delta (of_int t) (of_int l) (of_int c) = of_int (t + max 0 (c - l))"
proof -
  have "fsub (of_int c) (of_int l) = of_int (c - l)" using assms(1) by (rule fsub_int)
  moreover have "0 < c - l \<Longrightarrow> fadd (of_int t) (of_int (c - l)) = of_int (t + (c - l))"
    using assms by (intro fadd_int) auto
  ultimately show ?thesis by (auto simp: add_delta_def Let_def max_def simp del: of_int_diff of_int_add)
qed

text \<open>The end of a cycle that is found to be over: its announced reset time when that has passed,
  otherwise the time of the reading.\<close>

definition cycle_end_time :: "time \<Rightarrow> time option \<Rightarrow> time" where
  "cycle_end_time capturedAt reset =
     (case reset of Some r \<Rightarrow> if time_After capturedAt r then r else capturedAt | None \<Rightarrow> capturedAt)"

definition reset_passed :: "time \<Rightarrow> time option \<Rightarrow> bool" where
  "reset_passed capturedAt reset =
     (case reset of Some r \<Rightarrow> time_After capturedAt (time_Add r (2 * Minute)) | None \<Rightarrow> False)"

subsection \<open>The usual statistics\<close>

text \<open>
  Within a cycle the peak is the maximum and the delta the sum of the increases, from the second reading
  on; a tracker that has just started has no previous value and only raises the peak.
\<close>

definition standard_tick :: "f64 option \<Rightarrow> f64 \<Rightarrow> f64 \<times> f64 \<Rightarrow> f64 \<times> f64" where
  "standard_tick lst v st = (raise_peak (fst st) v, case lst of Some l \<Rightarrow> add_delta (snd st) l v | None \<Rightarrow> snd st)"

text \<open>A policy with these statistics on a measure of the reported value (the value itself, or the usage
  that belongs to a remaining fraction).\<close>

definition measured :: "('x \<Rightarrow> f64) \<Rightarrow> ('k, 'x, f64, 'r) policy \<Rightarrow> bool" where
  "measured m P \<longleftrightarrow> pol_init P = (\<lambda>v. (m v, 0)) \<and> pol_tick P = (\<lambda>lst v. standard_tick (map_option m lst) (m v))"

lemma measured_peak:
  "measured m P \<Longrightarrow> seg \<noteq> [] \<Longrightarrow> cyc_peak (open_seg P k seg) = Max ((\<lambda>rd. m (rd_value rd)) ` set seg)"
proof (induction seg rule: rev_induct)
  case (snoc y seg)
  then show ?case
    by (cases "seg = []")
       (simp_all add: measured_def open_seg_snoc tick_cycle_def with_stats_def standard_tick_def raise_peak_max open_at_def max.commute)
qed simp

fun rises :: "f64 list \<Rightarrow> f64 \<Rightarrow> f64" where
  "rises (x # y # zs) d = rises (y # zs) (add_delta d x y)"
| "rises _ d = d"

lemma rises_snoc: "xs \<noteq> [] \<Longrightarrow> rises (xs @ [y]) d = add_delta (rises xs d) (List.last xs) y"
  by (induction xs d rule: rises.induct) auto

lemma measured_delta:
  "measured m P \<Longrightarrow> seg \<noteq> [] \<Longrightarrow> cyc_delta (open_seg P k seg) = rises (map (\<lambda>rd. m (rd_value rd)) seg) 0"
proof (induction seg rule: rev_induct)
  case (snoc y seg)
  then show ?case
    by (cases "seg = []")
       (simp_all add: measured_def open_seg_snoc tick_cycle_def with_stats_def standard_tick_def open_at_def rises_snoc last_map)
qed simp

lemma rises_mono: "is_f64 d \<Longrightarrow> d \<le> rises xs d"
proof (induction xs d rule: rises.induct)
  case (1 x y zs d)
  then show ?case using add_delta_ge [of d x y] add_delta_f64 [of d x y] by (auto intro: order_trans)
qed auto

subsection \<open>Summaries of a history\<close>

text \<open>
  \<open>for _, cycle := range history { totalDelta += cycle.TotalDelta; if v > peak { peak = v } }\<close>, and
  \<open>history[len(history)-1].CycleStart\<close>.
\<close>

definition history_total :: "('k, f64, 'r) cycle list \<Rightarrow> f64" where
  "history_total cs = foldl (\<lambda>a c. fadd a (cyc_delta c)) 0 cs"

definition history_peak :: "('c \<Rightarrow> f64) \<Rightarrow> 'c list \<Rightarrow> f64" where
  "history_peak f cs = foldl (\<lambda>a c. raise_peak a (f c)) 0 cs"

definition history_avg :: "('k, f64, 'r) cycle list \<Rightarrow> f64" where
  "history_avg cs = (if cs = [] then 0 else fdiv (history_total cs) (rnd (of_nat (length cs))))"

definition tracking_since :: "('k, 'v, 'r) cycle list \<Rightarrow> time" where
  "tracking_since cs = (if cs = [] then zero_time else cyc_start (List.last cs))"

lemma tracking_since_oldest:
  "c \<in> set xs \<Longrightarrow> text_less_eq (tracking_since (order_desc cyc_start xs)) (cyc_start c)"
  using order_desc_last [of c xs cyc_start] by (cases xs) (auto simp: tracking_since_def)

lemma foldl_raise_peak: "foldl (\<lambda>a c. raise_peak a (f c)) z cs = fold max (map f cs) z"
  by (induction cs arbitrary: z) (auto simp: raise_peak_max max.commute)

lemma history_peak_Max: "history_peak f cs = Max (insert 0 (f ` set cs))"
  unfolding history_peak_def foldl_raise_peak by (metis Max.set_eq_fold list.simps(15) set_map)

lemma foldl_fadd_ge:
  assumes "is_f64 z" "\<forall>x \<in> set xs. 0 \<le> f x"
  shows "z \<le> foldl (\<lambda>a x. fadd a (f x)) z xs"
  using assms
proof (induction xs arbitrary: z)
  case (Cons x xs)
  have "z \<le> fadd z (f x)" using Cons.prems by (auto intro: fadd_ge)
  also have "\<dots> \<le> foldl (\<lambda>a x. fadd a (f x)) (fadd z (f x)) xs"
    using Cons.prems by (intro Cons.IH) auto
  finally show ?case by simp
qed simp

lemma history_total_nonneg: "\<forall>c \<in> set cs. 0 \<le> cyc_delta c \<Longrightarrow> 0 \<le> history_total cs"
  unfolding history_total_def by (rule foldl_fadd_ge) (auto simp: is_f64_def)

subsection \<open>Reasoning about calls of the store\<close>

text \<open>
  \<open>keeps t0 t\<close>: the table is well-formed and has come from \<open>t0\<close> by changes of the allowed kinds. The
  rules below are what a proof about a tracker uses: a query keeps it and tells which cycle is active,
  a creation needs that none is, a closing leaves none.
\<close>

definition keeps :: "('k, 'v, 'r) cycles \<Rightarrow> ('k, 'v, 'r) cycles \<Rightarrow> bool" where
  "keeps t0 t \<longleftrightarrow> wf_cycles t \<and> evolves t0 t"

lemma keeps_refl: "wf_cycles t \<Longrightarrow> keeps t t"
  by (simp add: keeps_def)

lemma keeps_wf: "keeps t0 t \<Longrightarrow> wf_cycles t"
  by (simp add: keeps_def)

lemma keeps_step: "keeps t0 t \<Longrightarrow> cyc_step t t' \<Longrightarrow> keeps t0 t'"
  unfolding keeps_def by (meson cyc_step_wf rtranclp.rtrancl_into_rtrancl)

lemma keeps_trans: "keeps t0 t1 \<Longrightarrow> keeps t1 t2 \<Longrightarrow> keeps t0 t2"
  unfolding keeps_def by (meson rtranclp_trans)

lemma run_onStore_history:
  "healthy (trk_store s) \<Longrightarrow> wp (onStore (sql_history msg P limit)) Q E s =
     Q (sql_limit limit (order_desc cyc_start (filter P (db_rows (trk_store s))))) s"
  by (simp add: wp_def onStore_def run_sql_history)

lemmas keeps_same = keeps_step [OF _ idle]

lemmas keeps_steps =
  keeps_step [OF _ idle] keeps_step [OF _ open_cycle] keeps_step [OF _ tick]
  keeps_step [OF _ reschedule] keeps_step [OF _ finish] keeps_step [OF _ expire]

context cycle_store
begin

lemma wp_query:
  assumes "keeps t0 (trk_store s)"
    and "\<And>c t'. keeps t0 t' \<Longrightarrow> active (canon q) t' = c \<Longrightarrow> Q c (s\<lparr>trk_store := t'\<rparr>)"
    and "\<And>e t'. keeps t0 t' \<Longrightarrow> E e (s\<lparr>trk_store := t'\<rparr>)"
  shows "wp (onStore (query q)) Q E s"
  unfolding wp_onStore
  by (rule wp_mono [OF query_law [OF keeps_wf [OF assms(1)]]])
     (auto simp: active_same intro!: assms(2,3) keeps_same [OF assms(1)])

lemma wp_create:
  assumes "keeps t0 (trk_store s)" "active (canon q) (trk_store s) = None"
    and "\<And>i t'. keeps t0 t' \<Longrightarrow> Q i (s\<lparr>trk_store := t'\<rparr>)"
    and "\<And>e t'. keeps t0 t' \<Longrightarrow> E e (s\<lparr>trk_store := t'\<rparr>)"
  shows "wp (onStore (create q st r)) Q E s"
  unfolding wp_onStore
  by (rule wp_mono [OF create_law [OF assms(2)]])
     (auto intro!: assms(3,4) intro: keeps_same [OF assms(1)] keeps_step [OF assms(1) open_cycle, OF assms(2)])

lemma wp_update:
  assumes "keeps t0 (trk_store s)"
    and "\<And>t'. keeps t0 t' \<Longrightarrow> Q () (s\<lparr>trk_store := t'\<rparr>)"
    and "\<And>e t'. keeps t0 t' \<Longrightarrow> E e (s\<lparr>trk_store := t'\<rparr>)"
  shows "wp (onStore (update q p d)) Q E s"
  unfolding wp_onStore
  by (rule wp_mono [OF update_law])
     (auto intro!: assms(2,3) intro: keeps_same [OF assms(1)] keeps_step [OF assms(1) tick])

lemma wp_close:
  assumes "keeps t0 (trk_store s)"
    and "\<And>t'. keeps t0 t' \<Longrightarrow> active (canon q) t' = None \<Longrightarrow> Q () (s\<lparr>trk_store := t'\<rparr>)"
    and "\<And>e t'. keeps t0 t' \<Longrightarrow> E e (s\<lparr>trk_store := t'\<rparr>)"
  shows "wp (onStore (close q e p d)) Q E s"
  unfolding wp_onStore
  by (rule wp_mono [OF close_law])
     (auto simp: active_same intro!: assms(2,3) intro: keeps_same [OF assms(1)] keeps_step [OF assms(1) finish])

lemmas wp_calls = wp_query wp_create wp_update wp_close

text \<open>The exact results on a healthy table, for a tracker's state.\<close>

lemma run_query:
  "healthy (trk_store s) \<Longrightarrow> wf_cycles (trk_store s) \<Longrightarrow> onStore (query q) s = (Inr (active (canon q) (trk_store s)), s)"
  by (simp add: onStore_def query_run)

lemma run_create:
  "healthy (trk_store s) \<Longrightarrow> active (canon q) (trk_store s) = None \<Longrightarrow>
   onStore (create q st r) s =
     (Inr (db_seq (trk_store s) + 1), s\<lparr>trk_store := add_cycle (canon q) st r zero zero (trk_store s)\<rparr>)"
  by (simp add: onStore_def create_run)

lemma run_update:
  "healthy (trk_store s) \<Longrightarrow>
   onStore (update q p d) s = (Inr (), s\<lparr>trk_store := set_stats (canon q) p d (trk_store s)\<rparr>)"
  by (simp add: onStore_def update_run)

lemma run_close:
  "healthy (trk_store s) \<Longrightarrow>
   onStore (close q e p d) s = (Inr (), s\<lparr>trk_store := end_cycle (canon q) e p d (trk_store s)\<rparr>)"
  by (simp add: onStore_def close_run)

lemmas run_calls = run_query run_create run_update run_close

lemma healthy_wp:
  "healthy (trk_store s) \<Longrightarrow> wf_cycles (trk_store s) \<Longrightarrow>
     wp (onStore (query q)) Q E s = Q (active (canon q) (trk_store s)) s"
  "healthy (trk_store s) \<Longrightarrow> active (canon q) (trk_store s) = None \<Longrightarrow> wp (onStore (create q st r)) Q' E s =
     Q' (db_seq (trk_store s) + 1) (s\<lparr>trk_store := add_cycle (canon q) st r zero zero (trk_store s)\<rparr>)"
  "healthy (trk_store s) \<Longrightarrow> wp (onStore (update q p d)) Q'' E s =
     Q'' () (s\<lparr>trk_store := set_stats (canon q) p d (trk_store s)\<rparr>)"
  "healthy (trk_store s) \<Longrightarrow> wp (onStore (close q e p d)) Q'' E s =
     Q'' () (s\<lparr>trk_store := end_cycle (canon q) e p d (trk_store s)\<rparr>)"
  by (simp_all add: wp_def run_calls)

end

context resettable_cycle_store
begin

lemma wp_reset:
  assumes "keeps t0 (trk_store s)"
    and "\<And>t'. keeps t0 t' \<Longrightarrow> Q () (s\<lparr>trk_store := t'\<rparr>)"
    and "\<And>e t'. keeps t0 t' \<Longrightarrow> E e (s\<lparr>trk_store := t'\<rparr>)"
  shows "wp (onStore (reset q r)) Q E s"
  unfolding wp_onStore
  by (rule wp_mono [OF reset_law])
     (auto intro!: assms(2,3) intro: keeps_same [OF assms(1)] keeps_step [OF assms(1) reschedule])

lemma healthy_wp_reset:
  "healthy (trk_store s) \<Longrightarrow> wp (onStore (reset q r)) Q E s =
     Q () (s\<lparr>trk_store := set_reset (canon q) r (trk_store s)\<rparr>)"
  by (simp add: wp_def onStore_def reset_run)

lemma run_reset:
  "healthy (trk_store s) \<Longrightarrow>
   onStore (reset q r) s = (Inr (), s\<lparr>trk_store := set_reset (canon q) r (trk_store s)\<rparr>)"
  by (simp add: onStore_def reset_run)

end

context cycle_store_by_id
begin

lemma wp_query:
  assumes "keeps t0 (trk_store s)"
    and "\<And>c t'. keeps t0 t' \<Longrightarrow> active (canon q) t' = c \<Longrightarrow> Q c (s\<lparr>trk_store := t'\<rparr>)"
    and "\<And>e t'. keeps t0 t' \<Longrightarrow> E e (s\<lparr>trk_store := t'\<rparr>)"
  shows "wp (onStore (query q)) Q E s"
  unfolding wp_onStore
  by (rule wp_mono [OF query_law [OF keeps_wf [OF assms(1)]]])
     (auto simp: active_same intro!: assms(2,3) keeps_same [OF assms(1)])

lemma wp_insert:
  assumes "keeps t0 (trk_store s)" "active (canon q) (trk_store s) = None" "cyc_end c = None"
    and "\<And>i t'. keeps t0 t' \<Longrightarrow> Q i (s\<lparr>trk_store := t'\<rparr>)"
    and "\<And>e t'. keeps t0 t' \<Longrightarrow> E e (s\<lparr>trk_store := t'\<rparr>)"
  shows "wp (onStore (insert q c)) Q E s"
  unfolding wp_onStore
  by (rule wp_mono [OF insert_law [OF assms(3)]])
     (auto intro!: assms(4,5) intro: keeps_same [OF assms(1)] keeps_step [OF assms(1) open_cycle, OF assms(2)])

lemma wp_close:
  assumes "keeps t0 (trk_store s)" "active k (trk_store s) = Some c"
    and "\<And>t'. keeps t0 t' \<Longrightarrow> active k t' = None \<Longrightarrow> Q () (s\<lparr>trk_store := t'\<rparr>)"
    and "\<And>e t'. keeps t0 t' \<Longrightarrow> E e (s\<lparr>trk_store := t'\<rparr>)"
  shows "wp (onStore (close (cyc_id c) e p d)) Q E s"
proof -
  have wf: "wf_cycles (trk_store s)" using assms(1) by (simp add: keeps_def)
  show ?thesis
    unfolding wp_onStore
    by (rule wp_mono [OF close_law [OF wf assms(2)]])
       (auto simp: active_same intro!: assms(3,4) intro: keeps_same [OF assms(1)] keeps_step [OF assms(1) finish])
qed

lemma healthy_wp:
  "healthy (trk_store s) \<Longrightarrow> wf_cycles (trk_store s) \<Longrightarrow>
     wp (onStore (query q)) Q E s = Q (active (canon q) (trk_store s)) s"
  "healthy (trk_store s) \<Longrightarrow> cyc_end c = None \<Longrightarrow> wp (onStore (insert q c)) Q' E s =
     Q' (db_seq (trk_store s) + 1)
       (s\<lparr>trk_store := add_cycle (canon q) (cyc_start c) (cyc_reset c) (cyc_peak c) (cyc_delta c) (trk_store s)\<rparr>)"
  "healthy (trk_store s) \<Longrightarrow> wf_cycles (trk_store s) \<Longrightarrow> active k (trk_store s) = Some c \<Longrightarrow>
     wp (onStore (close (cyc_id c) e p d)) Q'' E s =
       Q'' () (s\<lparr>trk_store := end_cycle k e p d (trk_store s)\<rparr>)"
  by (simp_all add: wp_def onStore_def query_run insert_run close_run)

end

subsection \<open>Runs of a tracker\<close>

lemma wf_upd [simp]:
  "wf_cycles t \<Longrightarrow> wf_cycles (set_stats k p d t)" "wf_cycles t \<Longrightarrow> wf_cycles (set_reset k r t)"
  "wf_cycles t \<Longrightarrow> wf_cycles (end_cycle k e p d t)"
  "wf_cycles t \<Longrightarrow> active k t = None \<Longrightarrow> wf_cycles (add_cycle k s r p d t)"
  by (auto simp: set_stats_def set_reset_def end_cycle_def intro: wf_update_where wf_add_cycle)

text \<open>
  A polling agent hands every snapshot to its tracker and only logs an error. The interface of a tracker
  is therefore one operation and the promise that, whatever its statements do, it leaves a table that
  has come from the old one by allowed changes. The consequences for a whole run are proved once.
\<close>

definition poll_all :: "('x \<Rightarrow> ('s, unit) op) \<Rightarrow> 'x list \<Rightarrow> 's \<Rightarrow> 's" where
  "poll_all process xs s = fold (\<lambda>x. ignoreE (process x)) xs s"

text \<open>
  What a run must leave true of the table: at most one cycle of a quota is open, the cycles that were
  closed are unchanged, no cycle has been deleted, renumbered or moved, and ids are unique.
\<close>

definition safe_run :: "('k, 'v, 'r) cycles \<Rightarrow> ('k, 'v, 'r) cycles \<Rightarrow> bool" where
  "safe_run t t' \<longleftrightarrow>
     (\<forall>k. length (filter (is_active k) (db_rows t')) \<le> 1) \<and>
     {c \<in> set (db_rows t). cyc_end c \<noteq> None} \<subseteq> set (db_rows t') \<and>
     (\<exists>hs. map (\<lambda>c. (cyc_id c, cyc_key c, cyc_start c)) (db_rows t') =
            map (\<lambda>c. (cyc_id c, cyc_key c, cyc_start c)) (db_rows t) @ hs) \<and>
     distinct (map cyc_id (db_rows t'))"

lemma keeps_safe: "keeps t t' \<Longrightarrow> safe_run t t'"
  unfolding safe_run_def keeps_def using evolves_header [of t t']
  by (auto simp: wf_cycles_def intro: evolves_closed)

locale quota_tracker =
  fixes process :: "'x \<Rightarrow> (('k, 'v, 'r, 'z) trk_scheme, unit) op"
  assumes process_keeps: "keeps t0 (trk_store s) \<Longrightarrow>
    wp (process x) (\<lambda>_ s'. keeps t0 (trk_store s')) (\<lambda>_ s'. keeps t0 (trk_store s')) s"
begin

lemma ignore_keeps: "keeps t0 (trk_store s) \<Longrightarrow> keeps t0 (trk_store (ignoreE (process x) s))"
  using process_keeps [of t0 s x] by (auto intro: wp_ignore)

lemma run_keeps: "keeps t0 (trk_store s) \<Longrightarrow> keeps t0 (trk_store (poll_all process xs s))"
  by (induction xs arbitrary: s) (auto simp: poll_all_def intro: ignore_keeps)

lemma run_evolves: "wf_cycles (trk_store s) \<Longrightarrow> evolves (trk_store s) (trk_store (poll_all process xs s))"
  using run_keeps [OF keeps_refl] by (simp add: keeps_def)

lemma run_safe: "wf_cycles (trk_store s) \<Longrightarrow> safe_run (trk_store s) (trk_store (poll_all process xs s))"
  by (rule keeps_safe) (rule run_keeps [OF keeps_refl])

end

text \<open>
  On a table whose statements succeed a tracker makes, for each quota, the steps of the abstract account:
  \<open>view k\<close> is the quota \<open>k\<close> of a tracker's state and \<open>rd k x\<close> are the readings of \<open>k\<close> in the snapshot \<open>x\<close>.
\<close>

locale stepping_tracker =
  fixes process :: "'y \<Rightarrow> ('s, unit) op" and ok :: "'s \<Rightarrow> bool" and valid :: "'y \<Rightarrow> bool" and K :: "'q set"
    and view :: "'q \<Rightarrow> 's \<Rightarrow> 'w" and events :: "'q \<Rightarrow> 'y \<Rightarrow> 'e list" and step :: "'q \<Rightarrow> 'e \<Rightarrow> 'w \<Rightarrow> 'w"
  assumes process_steps: "ok s \<Longrightarrow> valid x \<Longrightarrow>
    wp (process x) (\<lambda>_ s'. ok s' \<and> (\<forall>k \<in> K. view k s' = fold (step k) (events k x) (view k s))) (\<lambda>_ _. False) s"
begin

lemma poll_all_steps:
  assumes "ok s" "\<forall>x \<in> set xs. valid x"
  shows "ok (poll_all process xs s) \<and>
    (\<forall>k \<in> K. view k (poll_all process xs s) = fold (step k) (concat (map (events k) xs)) (view k s))"
  using assms
proof (induction xs arbitrary: s)
  case (Cons x xs)
  let ?s = "ignoreE (process x) s"
  have 1: "ok ?s \<and> (\<forall>k \<in> K. view k ?s = fold (step k) (events k x) (view k s))"
    by (rule wp_ignore) (use process_steps [of s x] Cons.prems in \<open>auto intro: wp_mono\<close>)
  have eq: "poll_all process (x # xs) s = poll_all process xs ?s" by (simp add: poll_all_def)
  show ?case unfolding eq using 1 Cons.IH [of ?s] Cons.prems by simp
qed (simp add: poll_all_def)

lemma run_steps:
  "ok s \<Longrightarrow> \<forall>x \<in> set xs. valid x \<Longrightarrow> k \<in> K \<Longrightarrow>
   view k (poll_all process xs s) = fold (step k) (concat (map (events k) xs)) (view k s)"
  using poll_all_steps by blast

end

text \<open>The trackers whose abstract step is that of \<open>quota_step\<close>.\<close>

locale refining_tracker =
  fixes process :: "'y \<Rightarrow> ('s, unit) op" and ok :: "'s \<Rightarrow> bool" and valid :: "'y \<Rightarrow> bool"
    and K :: "'q set" and key :: "'q \<Rightarrow> 'k"
    and view :: "'q \<Rightarrow> 's \<Rightarrow> ('k, 'x, 'v, 'r) quota"
    and rd :: "'q \<Rightarrow> 'y \<Rightarrow> ('x, 'r) reading list" and P :: "('k, 'x, 'v, 'r) policy"
  assumes process_refines: "ok s \<Longrightarrow> valid x \<Longrightarrow>
    wp (process x) (\<lambda>_ s'. ok s' \<and> (\<forall>k \<in> K. view k s' = fold (quota_step P (key k)) (rd k x) (view k s)))
      (\<lambda>_ _. False) s"

sublocale refining_tracker \<subseteq> stepping_tracker process ok valid K view rd "\<lambda>k. quota_step P (key k)"
  by unfold_locales (rule process_refines)

context refining_tracker
begin

lemma run_segments:
  assumes "ok s" "\<forall>x \<in> set xs. valid x" "k \<in> K" "view k s = empty_quota"
  shows "view k (poll_all process xs s) =
    quota_of_segments P (key k) (segments (policy_over P (key k)) (concat (map (rd k) xs)))"
  using assms run_steps [OF assms(1-3)] quota_run_segments by simp

end

text \<open>Trackers that also remember the last reset time reported: their readings are those of the snapshots with
  that time carried along.\<close>

locale carrying_tracker =
  fixes process :: "'y \<Rightarrow> ('s, unit) op" and ok :: "'s \<Rightarrow> bool" and valid :: "'y \<Rightarrow> bool"
    and K :: "'q set" and key :: "'q \<Rightarrow> 'k"
    and view :: "'q \<Rightarrow> 's \<Rightarrow> ('k, 'x \<times> time option, 'v, time option) quota"
    and rd :: "'q \<Rightarrow> 'y \<Rightarrow> ('x, time option) reading list" and P :: "('k, 'x \<times> time option, 'v, time option) policy"
  assumes process_carries: "ok s \<Longrightarrow> valid x \<Longrightarrow>
    wp (process x) (\<lambda>_ s'. ok s' \<and> (\<forall>k \<in> K. view k s' = fold (carry_step P (key k)) (rd k x) (view k s)))
      (\<lambda>_ _. False) s"

sublocale carrying_tracker \<subseteq> stepping_tracker process ok valid K view rd "\<lambda>k. carry_step P (key k)"
  by unfold_locales (rule process_carries)

context carrying_tracker
begin

lemma run_segments:
  assumes "ok s" "\<forall>x \<in> set xs. valid x" "k \<in> K" "view k s = empty_quota"
  shows "view k (poll_all process xs s) =
    quota_of_segments P (key k) (segments (policy_over P (key k)) (carry None (concat (map (rd k) xs))))"
  using assms run_steps [OF assms(1-3)] quota_run_segments
  by (simp add: fold_carry_step remembered_def empty_quota_def)

end

text \<open>The loop over the quotas of a snapshot, when no two of them have the same key.\<close>

lemma wp_forE_views:
  assumes "\<And>q s. q \<in> set qs \<Longrightarrow> I s \<Longrightarrow> R (nm q) s \<Longrightarrow>
      wp (f q) (\<lambda>_ s'. I s' \<and> (\<forall>j. j \<noteq> nm q \<longrightarrow> R j s \<longrightarrow> R j s') \<and>
          view (nm q) s' = step (nm q) (rd q) (view (nm q) s) \<and>
          (\<forall>j. j \<noteq> nm q \<longrightarrow> view j s' = view j s)) (\<lambda>_ _. False) s"
    and "distinct (map nm qs)" "I s" "\<forall>q \<in> set qs. R (nm q) s"
  shows "wp (forE f qs) (\<lambda>_ s'. I s' \<and>
      (\<forall>j. view j s' = fold (step j) (map rd (filter (\<lambda>q. nm q = j) qs)) (view j s))) (\<lambda>_ _. False) s"
  using assms
proof (induction qs arbitrary: s)
  case (Cons q qs)
  show ?case
    unfolding forE.simps wp_thenE
  proof (rule wp_mono [OF Cons.prems(1)])
    fix x s'
    assume s': "I s' \<and> (\<forall>j. j \<noteq> nm q \<longrightarrow> R j s \<longrightarrow> R j s') \<and>
          view (nm q) s' = step (nm q) (rd q) (view (nm q) s) \<and>
          (\<forall>j. j \<noteq> nm q \<longrightarrow> view j s' = view j s)"
    have none: "filter (\<lambda>p. nm p = nm q) qs = []"
      using Cons.prems(2) by (auto simp: filter_empty_conv image_iff)
    have "wp (forE f qs) (\<lambda>_ s''. I s'' \<and>
        (\<forall>j. view j s'' = fold (step j) (map rd (filter (\<lambda>q. nm q = j) qs)) (view j s'))) (\<lambda>_ _. False) s'"
    proof (rule Cons.IH)
      show "\<forall>p \<in> set qs. R (nm p) s'"
      proof
        fix p assume "p \<in> set qs"
        then have "nm p \<noteq> nm q" "R (nm p) s" using Cons.prems(2,4) by (auto simp: image_iff)
        then show "R (nm p) s'" using s' by blast
      qed
    qed (use s' Cons.prems in auto)
    then show "wp (forE f qs) (\<lambda>_ s''. I s'' \<and>
        (\<forall>j. view j s'' = fold (step j) (map rd (filter (\<lambda>q. nm q = j) (q # qs))) (view j s))) (\<lambda>_ _. False) s'"
      by (rule wp_mono) (use s' none in auto)
  qed (use Cons.prems in auto)
qed (simp add: wps)

subsection \<open>Summaries of a utilization quota\<close>

text \<open>
  The trackers of providers that report a utilization in percent compute the same summary: totals of
  the history, the active cycle, the latest reading, and a rate with its projection to the reset, which
  is capped at 100. Each \<open>now\<close> argument is one reading of the clock.
\<close>

record util_summary =
  us_QuotaName :: string
  us_CurrentUtil :: f64
  us_ResetsAt :: "time option"
  us_TimeUntilReset :: duration
  us_CurrentRate :: f64
  us_ProjectedUtil :: f64
  us_CompletedCycles :: int
  us_AvgPerCycle :: f64
  us_PeakCycle :: f64
  us_TotalTracked :: f64
  us_TrackingSince :: time

definition util_summary_history :: "string \<Rightarrow> ('k, f64, 'r) cycle list \<Rightarrow> util_summary" where
  "util_summary_history quotaName history =
     \<lparr>us_QuotaName = quotaName, us_CurrentUtil = 0, us_ResetsAt = None, us_TimeUntilReset = 0,
      us_CurrentRate = 0, us_ProjectedUtil = 0, us_CompletedCycles = int (length history),
      us_AvgPerCycle = history_avg history, us_PeakCycle = history_peak cyc_peak history,
      us_TotalTracked = history_total history, us_TrackingSince = tracking_since history\<rparr>"

definition util_summary_active :: "time \<Rightarrow> ('k, f64, time option) cycle \<Rightarrow> util_summary \<Rightarrow> util_summary" where
  "util_summary_active now c sm =
     (let sm = sm\<lparr>us_TotalTracked := fadd (us_TotalTracked sm) (cyc_delta c),
                  us_PeakCycle := raise_peak (us_PeakCycle sm) (cyc_peak c)\<rparr>
      in case cyc_reset c of
           Some r \<Rightarrow> sm\<lparr>us_ResetsAt := Some r, us_TimeUntilReset := time_Sub r now\<rparr>
         | None \<Rightarrow> sm)"

definition util_summary_current ::
    "time \<Rightarrow> ('q \<Rightarrow> string) \<Rightarrow> ('q \<Rightarrow> f64) \<Rightarrow> ('q \<Rightarrow> time option) \<Rightarrow> string \<Rightarrow> 'q list \<Rightarrow> util_summary \<Rightarrow> util_summary" where
  "util_summary_current now nm util rst quotaName quotas sm =
     (case find (\<lambda>q. nm q = quotaName) quotas of
        None \<Rightarrow> sm
      | Some q \<Rightarrow>
          (let sm = sm\<lparr>us_CurrentUtil := util q\<rparr>
           in case (us_ResetsAt sm, rst q) of
                (None, Some r) \<Rightarrow> sm\<lparr>us_ResetsAt := Some r, us_TimeUntilReset := time_Sub r now\<rparr>
              | _ \<Rightarrow> sm))"

definition util_summary_rate :: "time \<Rightarrow> time \<Rightarrow> ('k, f64, 'r) cycle \<Rightarrow> util_summary \<Rightarrow> util_summary" where
  "util_summary_rate nowSince nowLeft c sm =
     (let elapsed = time_Sub nowSince (cyc_start c)
      in if 30 \<le> dur_Minutes elapsed \<and> 0 < cyc_delta c then
           (let sm = sm\<lparr>us_CurrentRate := fdiv (cyc_delta c) (dur_Hours elapsed)\<rparr>
            in case us_ResetsAt sm of
                 None \<Rightarrow> sm
               | Some r \<Rightarrow>
                   (let hoursLeft = dur_Hours (time_Sub r nowLeft)
                    in if 0 < hoursLeft then
                         (let projected = fadd (us_CurrentUtil sm) (fmul (us_CurrentRate sm) hoursLeft)
                          in sm\<lparr>us_ProjectedUtil := if 100 < projected then 100 else projected\<rparr>)
                       else sm))
         else sm)"

lemma util_summary_rate_bounds:
  assumes "us_ProjectedUtil sm = 0"
  shows "us_ProjectedUtil (util_summary_rate t1 t2 c sm) \<le> 100"
  using assms by (auto simp: util_summary_rate_def Let_def split: option.split)

lemma util_summary_rate_keeps [simp]:
  "us_CompletedCycles (util_summary_rate t1 t2 c sm) = us_CompletedCycles sm"
  "us_PeakCycle (util_summary_rate t1 t2 c sm) = us_PeakCycle sm"
  "us_TotalTracked (util_summary_rate t1 t2 c sm) = us_TotalTracked sm"
  "us_TrackingSince (util_summary_rate t1 t2 c sm) = us_TrackingSince sm"
  by (auto simp: util_summary_rate_def Let_def split: option.split)

lemma util_summary_current_keeps [simp]:
  "us_CompletedCycles (util_summary_current now nm u r n qs sm) = us_CompletedCycles sm"
  "us_PeakCycle (util_summary_current now nm u r n qs sm) = us_PeakCycle sm"
  "us_TotalTracked (util_summary_current now nm u r n qs sm) = us_TotalTracked sm"
  "us_TrackingSince (util_summary_current now nm u r n qs sm) = us_TrackingSince sm"
  "us_ProjectedUtil (util_summary_current now nm u r n qs sm) = us_ProjectedUtil sm"
  by (auto simp: util_summary_current_def Let_def split: option.split)

lemma util_summary_active_keeps [simp]:
  "us_CompletedCycles (util_summary_active now c sm) = us_CompletedCycles sm"
  "us_PeakCycle (util_summary_active now c sm) = max (us_PeakCycle sm) (cyc_peak c)"
  "us_TotalTracked (util_summary_active now c sm) = fadd (us_TotalTracked sm) (cyc_delta c)"
  "us_TrackingSince (util_summary_active now c sm) = us_TrackingSince sm"
  "us_ProjectedUtil (util_summary_active now c sm) = us_ProjectedUtil sm"
  by (auto simp: util_summary_active_def Let_def raise_peak_max split: option.split)

subsection \<open>Remaining fractions\<close>

text \<open>\<open>currentUsage := 1.0 - quota.RemainingFraction\<close>\<close>

definition usage_of :: "f64 \<Rightarrow> f64" where
  "usage_of fraction = fsub 1 fraction"

text \<open>The rate of the open cycle and its projection to the reset, at most 1; both 0 without half an hour of data.\<close>

definition usage_projection ::
    "time \<Rightarrow> time \<Rightarrow> (string, f64, time option) cycle \<Rightarrow> time option \<Rightarrow> f64 \<Rightarrow> f64 \<times> f64" where
  "usage_projection nowSince nowLeft c reset remaining =
     (let elapsed = time_Sub nowSince (cyc_start c)
      in if 30 \<le> dur_Minutes elapsed \<and> 0 < cyc_delta c then
           (let rate = fdiv (cyc_delta c) (dur_Hours elapsed)
            in case reset of
                 None \<Rightarrow> (rate, 0)
               | Some r \<Rightarrow>
                   (let hoursLeft = dur_Hours (time_Sub r nowLeft)
                    in if 0 < hoursLeft then
                         (let projected = fadd (usage_of remaining) (fmul rate hoursLeft)
                          in (rate, if 1 < projected then 1 else projected))
                       else (rate, 0)))
         else (0, 0))"

lemma usage_projection_le: "snd (usage_projection t1 t2 c r f) \<le> 1"
  by (auto simp: usage_projection_def Let_def split: option.split)

subsection \<open>Integer statistics\<close>

text \<open>\<open>if delta > 0 { total += delta }\<close> on 64-bit integers.\<close>

definition add_idelta :: "int \<Rightarrow> int \<Rightarrow> int \<Rightarrow> int" where
  "add_idelta tot lst cur = (let delta = i64 (cur - lst) in if 0 < delta then i64 (tot + delta) else tot)"

text \<open>\<open>int64(x)\<close> of a float: towards zero; out of range the result is the smallest integer, as on amd64.\<close>

definition to_i64 :: "f64 \<Rightarrow> int" where
  "to_i64 x = (let n = trunc x in if in_i64 n then n else - (2 ^ 63))"

definition float_of :: "int \<Rightarrow> f64" where
  "float_of n = rnd (of_int n)"

text \<open>Totals of a history of integer cycles; the sum wraps.\<close>

definition history_itotal :: "('k, int, 'r) cycle list \<Rightarrow> int" where
  "history_itotal cs = foldl (\<lambda>a c. i64 (a + cyc_delta c)) 0 cs"

definition history_ipeak :: "('c \<Rightarrow> int) \<Rightarrow> 'c list \<Rightarrow> int" where
  "history_ipeak f cs = foldl (\<lambda>a c. raise_peak a (f c)) 0 cs"

definition history_iavg :: "('k, int, 'r) cycle list \<Rightarrow> f64" where
  "history_iavg cs = (if cs = [] then 0 else fdiv (float_of (history_itotal cs)) (rnd (of_nat (length cs))))"

lemma foldl_raise_ipeak: "foldl (\<lambda>a c. raise_peak a (f c)) (z :: int) cs = fold max (map f cs) z"
  by (induction cs arbitrary: z) (auto simp: raise_peak_max max.commute)

lemma history_ipeak_Max: "history_ipeak f cs = Max (insert 0 (f ` set cs))"
  unfolding history_ipeak_def foldl_raise_ipeak by (metis Max.set_eq_fold list.simps(15) set_map)

lemma i64_add_left [simp]: "i64 (i64 a + b) = i64 (a + b)"
proof -
  have "(a + 2 ^ 63) mod 2 ^ 64 - 2 ^ 63 + b + 2 ^ 63 = (a + 2 ^ 63) mod 2 ^ 64 + b" by simp
  then have "i64 (i64 a + b) = ((a + 2 ^ 63) mod 2 ^ 64 + b) mod 2 ^ 64 - 2 ^ 63"
    unfolding i64_def by (simp only:)
  also have "\<dots> = (a + 2 ^ 63 + b) mod 2 ^ 64 - 2 ^ 63" by (simp only: mod_add_left_eq)
  also have "a + 2 ^ 63 + b = a + b + 2 ^ 63" by simp
  finally show ?thesis by (simp only: i64_def)
qed

lemma history_itotal_sum: "history_itotal cs = i64 (\<Sum>c \<leftarrow> cs. cyc_delta c)"
proof -
  have "foldl (\<lambda>a c. i64 (a + cyc_delta c)) (i64 z) cs = i64 (z + (\<Sum>c \<leftarrow> cs. cyc_delta c))" for z
  proof (induction cs arbitrary: z)
    case (Cons c cs)
    from Cons.IH [of "z + cyc_delta c"] show ?case by (simp add: add.assoc)
  qed simp
  from this [of 0] show ?thesis by (simp add: history_itotal_def i64_def)
qed

end
