(* ===== verification/SyntheticTracker.thy ===== *)
theory SyntheticTracker
  imports TrackerBase
begin

text \<open>
  The Synthetic tracker (\<open>internal/tracker/tracker.go\<close>) and the Synthetic snapshot table
  (\<open>store.go\<close>): three fixed quotas, a stored renewal time that is never NULL, and a renewal time that
  counts as changed when it lies in another hour.
\<close>

subsection \<open>Snapshots\<close>

record QuotaInfo =
  qi_Limit :: f64
  qi_Requests :: f64
  qi_RenewsAt :: time

record Snapshot =
  sn_ID :: int
  sn_CapturedAt :: time
  sn_Sub :: QuotaInfo
  sn_Search :: QuotaInfo
  sn_ToolCall :: QuotaInfo

definition InsertSnapshot :: "Snapshot \<Rightarrow> (Snapshot tbl, int) op" where
  "InsertSnapshot snapshot =
     sql_insert_snapshot ''failed to insert snapshot: '' ''failed to get last insert ID: ''
       (\<lambda>i. snapshot\<lparr>sn_ID := i\<rparr>)"

definition QueryLatest :: "(Snapshot tbl, Snapshot option) op" where
  "QueryLatest = sql_latest ''failed to query latest: '' sn_CapturedAt"

definition QueryRange :: "time \<Rightarrow> time \<Rightarrow> int list \<Rightarrow> (Snapshot tbl, Snapshot list) op" where
  "QueryRange start stop limit = sql_range ''failed to query range: '' sn_CapturedAt start stop limit"

subsection \<open>The tracker\<close>

record synthetic_tracker = "(string, f64, time) trk" +
  syn_snaps :: "Snapshot tbl"
  syn_lastSubRequests :: f64
  syn_lastSearchRequests :: f64
  syn_lastToolRequests :: f64
  syn_hasLastValues :: bool

text \<open>The pointer argument \<open>lastRequests *float64\<close> is one of the three fields.\<close>

datatype last_ref = LastSubRequests | LastSearchRequests | LastToolRequests

fun deref :: "last_ref \<Rightarrow> synthetic_tracker \<Rightarrow> f64" where
  "deref LastSubRequests s = syn_lastSubRequests s"
| "deref LastSearchRequests s = syn_lastSearchRequests s"
| "deref LastToolRequests s = syn_lastToolRequests s"

fun assign :: "last_ref \<Rightarrow> f64 \<Rightarrow> synthetic_tracker \<Rightarrow> synthetic_tracker" where
  "assign LastSubRequests v s = s\<lparr>syn_lastSubRequests := v\<rparr>"
| "assign LastSearchRequests v s = s\<lparr>syn_lastSearchRequests := v\<rparr>"
| "assign LastToolRequests v s = s\<lparr>syn_lastToolRequests := v\<rparr>"

definition renewal_changed :: "time \<Rightarrow> time \<Rightarrow> bool" where
  "renewal_changed stored new \<longleftrightarrow> time_Truncate stored Hour \<noteq> time_Truncate new Hour"

definition synthetic_resetDetected :: "time \<Rightarrow> QuotaInfo \<Rightarrow> SyntheticResetCycle \<Rightarrow> bool" where
  "synthetic_resetDetected capturedAt info c \<longleftrightarrow>
     time_After capturedAt (time_Add (cyc_reset c) (2 * Minute)) \<or>
     renewal_changed (cyc_reset c) (qi_RenewsAt info)"

text \<open>Creation of a cycle with the reading as its first peak.\<close>

definition synthetic_open :: "string \<Rightarrow> string \<Rightarrow> time \<Rightarrow> QuotaInfo \<Rightarrow> (synthetic_tracker, unit) op" where
  "synthetic_open msg quotaType capturedAt info =
     bindE (wrapE msg (onStore (CreateCycle quotaType capturedAt (qi_RenewsAt info))))
       (\<lambda>_. wrapE ''failed to set initial peak: '' (onStore (UpdateCycle quotaType (qi_Requests info) 0)))"

definition synthetic_rollover ::
    "string \<Rightarrow> time \<Rightarrow> QuotaInfo \<Rightarrow> last_ref \<Rightarrow> SyntheticResetCycle \<Rightarrow> (synthetic_tracker, unit) op" where
  "synthetic_rollover quotaType capturedAt info lastRequests c =
     withE (\<lambda>s.
       let cycleEndTime = (if time_After capturedAt (cyc_reset c) then cyc_reset c else capturedAt);
           delta = (if syn_hasLastValues s
                    then add_delta (cyc_delta c) (deref lastRequests s) (qi_Requests info) else cyc_delta c)
       in thenE (wrapE ''failed to close cycle: ''
                  (onStore (CloseCycle quotaType cycleEndTime (cyc_peak c) delta)))
            (thenE (synthetic_open ''failed to create new cycle: '' quotaType capturedAt info)
              (thenE (modifyE (assign lastRequests (qi_Requests info)))
                (modifyE (fireReset quotaType)))))"

definition synthetic_tick ::
    "string \<Rightarrow> QuotaInfo \<Rightarrow> last_ref \<Rightarrow> SyntheticResetCycle \<Rightarrow> (synthetic_tracker, unit) op" where
  "synthetic_tick quotaType info lastRequests c =
     thenE (withE (\<lambda>s.
       if syn_hasLastValues s then
         wrapE ''failed to update cycle: ''
           (onStore (UpdateCycle quotaType (raise_peak (cyc_peak c) (qi_Requests info))
             (add_delta (cyc_delta c) (deref lastRequests s) (qi_Requests info))))
       else if cyc_peak c < qi_Requests info then
         wrapE ''failed to update cycle: '' (onStore (UpdateCycle quotaType (qi_Requests info) (cyc_delta c)))
       else returnE ()))
     (modifyE (assign lastRequests (qi_Requests info)))"

definition synthetic_processQuota ::
    "string \<Rightarrow> time \<Rightarrow> QuotaInfo \<Rightarrow> last_ref \<Rightarrow> (synthetic_tracker, unit) op" where
  "synthetic_processQuota quotaType capturedAt info lastRequests =
     bindE (wrapE ''failed to query active cycle: '' (onStore (QueryActiveCycle quotaType)))
       (\<lambda>cycle. case cycle of
          None \<Rightarrow> thenE (synthetic_open ''failed to create cycle: '' quotaType capturedAt info)
                    (modifyE (assign lastRequests (qi_Requests info)))
        | Some c \<Rightarrow>
            if synthetic_resetDetected capturedAt info c
            then synthetic_rollover quotaType capturedAt info lastRequests c
            else synthetic_tick quotaType info lastRequests c)"

definition synthetic_Process :: "Snapshot \<Rightarrow> (synthetic_tracker, unit) op" where
  "synthetic_Process snapshot =
     thenE (wrapE ''tracker: subscription: ''
       (synthetic_processQuota ''subscription'' (sn_CapturedAt snapshot) (sn_Sub snapshot) LastSubRequests))
     (thenE (wrapE ''tracker: search: ''
       (synthetic_processQuota ''search'' (sn_CapturedAt snapshot) (sn_Search snapshot) LastSearchRequests))
     (thenE (wrapE ''tracker: toolcall: ''
       (synthetic_processQuota ''toolcall'' (sn_CapturedAt snapshot) (sn_ToolCall snapshot) LastToolRequests))
     (modifyE (\<lambda>s. s\<lparr>syn_hasLastValues := True\<rparr>))))"

subsection \<open>Summary\<close>

record Summary =
  sum_QuotaType :: string
  sum_CurrentUsage :: f64
  sum_CurrentLimit :: f64
  sum_UsagePercent :: f64
  sum_RenewsAt :: time
  sum_TimeUntilReset :: duration
  sum_CurrentRate :: f64
  sum_ProjectedUsage :: f64
  sum_CompletedCycles :: int
  sum_AvgPerCycle :: f64
  sum_PeakCycle :: f64
  sum_TotalTracked :: f64
  sum_TrackingSince :: time

definition synthetic_summary_history :: "string \<Rightarrow> SyntheticResetCycle list \<Rightarrow> Summary" where
  "synthetic_summary_history quotaType history =
     \<lparr>sum_QuotaType = quotaType, sum_CurrentUsage = 0, sum_CurrentLimit = 0, sum_UsagePercent = 0,
      sum_RenewsAt = zero_time, sum_TimeUntilReset = 0, sum_CurrentRate = 0, sum_ProjectedUsage = 0,
      sum_CompletedCycles = int (length history), sum_AvgPerCycle = history_avg history,
      sum_PeakCycle = history_peak cyc_delta history, sum_TotalTracked = history_total history,
      sum_TrackingSince = tracking_since history\<rparr>"

definition synthetic_summary_latest :: "string \<Rightarrow> Snapshot option \<Rightarrow> Summary \<Rightarrow> Summary" where
  "synthetic_summary_latest quotaType latest summary =
     (case latest of None \<Rightarrow> summary
      | Some sn \<Rightarrow>
          (let info = (if quotaType = ''subscription'' then Some (sn_Sub sn)
                       else if quotaType = ''search'' then Some (sn_Search sn)
                       else if quotaType = ''toolcall'' then Some (sn_ToolCall sn) else None);
               usage = (case info of Some i \<Rightarrow> qi_Requests i | None \<Rightarrow> sum_CurrentUsage summary);
               lim = (case info of Some i \<Rightarrow> qi_Limit i | None \<Rightarrow> sum_CurrentLimit summary)
           in summary\<lparr>sum_CurrentUsage := usage, sum_CurrentLimit := lim,
                sum_UsagePercent := if 0 < lim then fmul (fdiv usage lim) 100 else sum_UsagePercent summary\<rparr>))"

text \<open>\<open>now\<close> is the clock reading behind \<open>time.Until\<close>.\<close>

definition synthetic_UsageSummary :: "time \<Rightarrow> string \<Rightarrow> (synthetic_tracker, Summary) op" where
  "synthetic_UsageSummary now quotaType =
     bindE (wrapE ''failed to query active cycle: '' (onStore (QueryActiveCycle quotaType))) (\<lambda>activeCycle.
     bindE (wrapE ''failed to query cycle history: '' (onStore (QueryCycleHistory quotaType []))) (\<lambda>history.
       let summary = synthetic_summary_history quotaType history
       in case activeCycle of
            None \<Rightarrow> returnE summary
          | Some c \<Rightarrow>
              (let summary = summary\<lparr>sum_TotalTracked := fadd (sum_TotalTracked summary) (cyc_delta c),
                     sum_RenewsAt := cyc_reset c, sum_TimeUntilReset := time_Sub (cyc_reset c) now\<rparr>
               in bindE (wrapE ''failed to query latest: '' (liftE syn_snaps (\<lambda>t s. s\<lparr>syn_snaps := t\<rparr>) QueryLatest))
                    (\<lambda>latest. returnE (synthetic_summary_latest quotaType latest summary)))))"

subsection \<open>What every run keeps\<close>

lemma trk_store_assign [simp]: "trk_store (assign r v s) = trk_store s"
  by (cases r) simp_all

lemma synthetic_open_keeps:
  assumes "keeps t0 (trk_store s)" "active q (trk_store s) = None"
    and "\<And>s'. keeps t0 (trk_store s') \<Longrightarrow> Q () s'" "\<And>e s'. keeps t0 (trk_store s') \<Longrightarrow> E e s'"
  shows "wp (synthetic_open msg q cap info) Q E s"
  unfolding synthetic_open_def wp_bindE wp_wrapE
  by (rule synthetic_store.wp_create [OF assms(1,2)], rule synthetic_store.wp_update)
     (auto intro!: assms(3,4))

lemma synthetic_processQuota_keeps:
  "keeps t0 (trk_store s) \<Longrightarrow>
   wp (synthetic_processQuota q cap info r) (\<lambda>_ s'. keeps t0 (trk_store s')) (\<lambda>_ s'. keeps t0 (trk_store s')) s"
  unfolding synthetic_processQuota_def wp_bindE wp_wrapE
  apply (erule synthetic_store.wp_query)
  apply (auto simp: synthetic_rollover_def synthetic_tick_def wps Let_def fireReset_def intro!: synthetic_store.wp_calls synthetic_open_keeps
    split: option.split)
  done

interpretation synthetic_tracker: quota_tracker synthetic_Process
  by unfold_locales (auto simp: synthetic_Process_def wps
      intro!: wp_mono [OF synthetic_processQuota_keeps])

subsection \<open>What the tracker computes\<close>

definition synthetic_policy :: "(string, f64, f64, time) policy" where
  "synthetic_policy = \<lparr>
     pol_init = (\<lambda>v. (v, 0)),
     pol_over = (\<lambda>c _ rd. cyc_reset c + 2 * Minute < rd_at rd \<or>
                   time_Truncate (cyc_reset c) Hour \<noteq> time_Truncate (rd_reset rd) Hour),
     pol_end = (\<lambda>c rd. min (cyc_reset c) (rd_at rd)),
     pol_close = (\<lambda>lst v st. (fst st, case lst of Some l \<Rightarrow> add_delta (snd st) l v | None \<Rightarrow> snd st)),
     pol_tick = standard_tick, pol_reset = (\<lambda>r _. r)\<rparr>"

definition synthetic_reading :: "time \<Rightarrow> QuotaInfo \<Rightarrow> (f64, time) reading" where
  "synthetic_reading capturedAt info = \<lparr>rd_at = capturedAt, rd_value = qi_Requests info, rd_reset = qi_RenewsAt info\<rparr>"

definition synthetic_last :: "last_ref \<Rightarrow> synthetic_tracker \<Rightarrow> f64 option" where
  "synthetic_last r s = (if syn_hasLastValues s then Some (deref r s) else None)"

lemma deref_simps [simp]:
  "deref r (s\<lparr>trk_store := t\<rparr>) = deref r s"
  "deref r (s\<lparr>syn_hasLastValues := b\<rparr>) = deref r s" "deref r (assign r v s) = v"
  "r' \<noteq> r \<Longrightarrow> deref r' (assign r v s) = deref r' s" "deref r (fireReset q s) = deref r s"
  "syn_hasLastValues (assign r v s) = syn_hasLastValues s"
  "syn_hasLastValues (fireReset q s) = syn_hasLastValues s"
  by (cases r; cases r'; simp add: fireReset_def)+

declare deref.simps [simp del]

lemma synthetic_processQuota_refines:
  assumes "healthy (trk_store s)" "wf_cycles (trk_store s)"
  shows "wp (synthetic_processQuota q cap info r) (\<lambda>_ s'.
     healthy (trk_store s') \<and> wf_cycles (trk_store s') \<and>
     syn_hasLastValues s' = syn_hasLastValues s \<and> (\<forall>r'. r' \<noteq> r \<longrightarrow> deref r' s' = deref r' s) \<and>
     quota_view q (Some (deref r s')) (trk_store s') =
       quota_step synthetic_policy q (synthetic_reading cap info) (quota_view q (synthetic_last r s) (trk_store s)) \<and>
     (\<forall>j (l :: f64 option). j \<noteq> q \<longrightarrow> quota_view j l (trk_store s') = quota_view j l (trk_store s))) (\<lambda>_ _. False) s"
  using assms
  apply (simp add: synthetic_processQuota_def wps synthetic_store.healthy_wp)
  apply (auto split: option.split simp: synthetic_open_def wps synthetic_store.healthy_wp synthetic_rollover_def synthetic_tick_def)
  apply (simp_all add: quota_simps synthetic_policy_def synthetic_reading_def synthetic_last_def synthetic_resetDetected_def renewal_changed_def time_defs standard_tick_def raise_peak_def)
  apply (auto intro!: cycle.equality simp: anon_fields)
  done

fun synthetic_ref :: "string \<Rightarrow> last_ref" where
  "synthetic_ref q = (if q = ''subscription'' then LastSubRequests
     else if q = ''search'' then LastSearchRequests else LastToolRequests)"

fun synthetic_info :: "string \<Rightarrow> Snapshot \<Rightarrow> QuotaInfo" where
  "synthetic_info q sn = (if q = ''subscription'' then sn_Sub sn
     else if q = ''search'' then sn_Search sn else sn_ToolCall sn)"

abbreviation synthetic_quotas :: "string set" where
  "synthetic_quotas \<equiv> {''subscription'', ''search'', ''toolcall''}"

definition synthetic_view :: "string \<Rightarrow> synthetic_tracker \<Rightarrow> (string, f64, f64, time) quota" where
  "synthetic_view q s = quota_view q (synthetic_last (synthetic_ref q) s) (trk_store s)"

definition synthetic_readings :: "string \<Rightarrow> Snapshot \<Rightarrow> (f64, time) reading list" where
  "synthetic_readings q sn = [synthetic_reading (sn_CapturedAt sn) (synthetic_info q sn)]"

definition synthetic_over :: "(f64, time) reading \<Rightarrow> (f64, time) reading \<Rightarrow> bool" where
  "synthetic_over first rd \<longleftrightarrow> rd_reset first + 2 * Minute < rd_at rd \<or>
     time_Truncate (rd_reset first) Hour \<noteq> time_Truncate (rd_reset rd) Hour"

lemma synthetic_policy_over:
  "seg \<noteq> [] \<Longrightarrow> policy_over synthetic_policy k seg rd = synthetic_over (hd seg) rd"
  by (simp add: policy_over_def synthetic_policy_def synthetic_over_def open_seg_reset_kept)

definition synthetic_ok :: "synthetic_tracker \<Rightarrow> bool" where
  "synthetic_ok s \<longleftrightarrow> healthy (trk_store s) \<and> wf_cycles (trk_store s)"

interpretation synthetic_refinement: refining_tracker synthetic_Process synthetic_ok "\<lambda>_. True"
    synthetic_quotas "\<lambda>q. q" synthetic_view synthetic_readings synthetic_policy
proof unfold_locales
  fix s sn
  assume "synthetic_ok s"
  then show "wp (synthetic_Process sn) (\<lambda>_ s'. synthetic_ok s' \<and> (\<forall>q \<in> synthetic_quotas.
      synthetic_view q s' = fold (quota_step synthetic_policy q) (synthetic_readings q sn) (synthetic_view q s)))
    (\<lambda>_ _. False) s"
    unfolding synthetic_ok_def synthetic_Process_def wp_thenE wp_wrapE
    by (intro wp_mono [OF synthetic_processQuota_refines])
       (simp_all add: wps synthetic_view_def synthetic_readings_def synthetic_last_def)
qed

subsection \<open>What a summary shows\<close>

lemma synthetic_UsageSummary_healthy:
  assumes "healthy (trk_store s)" "wf_cycles (trk_store s)" "healthy (syn_snaps s)"
  shows "\<exists>sm. synthetic_UsageSummary now q s = (Inr sm, s) \<and>
    sum_CompletedCycles sm = int (length (closed_cycles q (trk_store s))) \<and>
    sum_PeakCycle sm = Max (insert 0 (cyc_delta ` set (closed_cycles q (trk_store s)))) \<and>
    (\<forall>c \<in> set (closed_cycles q (trk_store s)). text_less_eq (sum_TrackingSince sm) (cyc_start c)) \<and>
    (\<forall>c. active q (trk_store s) = Some c \<longrightarrow> sum_RenewsAt sm = cyc_reset c)"
proof -
  have "wp (synthetic_UsageSummary now q) (\<lambda>sm s'. s' = s \<and>
    sum_CompletedCycles sm = int (length (closed_cycles q (trk_store s))) \<and>
    sum_PeakCycle sm = Max (insert 0 (cyc_delta ` set (closed_cycles q (trk_store s)))) \<and>
    (\<forall>c \<in> set (closed_cycles q (trk_store s)). text_less_eq (sum_TrackingSince sm) (cyc_start c)) \<and>
    (\<forall>c. active q (trk_store s) = Some c \<longrightarrow> sum_RenewsAt sm = cyc_reset c)) (\<lambda>_ _. False) s"
    unfolding synthetic_UsageSummary_def QueryCycleHistory_def
    using assms
    apply (simp add: wps Let_def synthetic_store.healthy_wp run_onStore_history)
    apply (auto simp: wps synthetic_summary_history_def history_peak_Max tracking_since_oldest closed_cycles_def
        synthetic_summary_latest_def QueryLatest_def wp_liftE_run run_sql_latest Let_def
       split: option.split)
    done
  then show ?thesis by (auto simp: wp_def split: prod.splits sum.splits)
qed

subsection \<open>Properties\<close>

definition synthetic_cycles :: "string \<Rightarrow> Snapshot list \<Rightarrow> (string, f64, f64, time) quota" where
  "synthetic_cycles q sns = quota_of_segments synthetic_policy q
     (segments (\<lambda>seg. synthetic_over (hd seg)) (concat (map (synthetic_readings q) sns)))"

lemma synthetic_run_cycles:
  assumes "synthetic_ok s" "synthetic_view q s = empty_quota" "q \<in> {''subscription'', ''search'', ''toolcall''}"
  shows "synthetic_view q (poll_all synthetic_Process sns s) = synthetic_cycles q sns"
  unfolding synthetic_cycles_def
  by (subst segments_cong [OF synthetic_policy_over, symmetric], assumption)
     (rule synthetic_refinement.run_segments, use assms in auto)

text \<open>C3: from an empty table, each of the three quotas has exactly the cycles of its readings: a new
  segment starts when the renewal time of the segment's first reading has passed by two minutes or
  another hour is announced; each earlier segment is a closed cycle, the newest the open one.\<close>

theorem synthetic_history:
  assumes "synthetic_ok s" "synthetic_view q s = empty_quota" "q \<in> {''subscription'', ''search'', ''toolcall''}"
  shows "synthetic_view q (poll_all synthetic_Process sns s) =
    quota_of_segments synthetic_policy q
      (segments (\<lambda>seg. synthetic_over (hd seg)) (concat (map (synthetic_readings q) sns)))"
  using synthetic_run_cycles [OF assms] by (simp add: synthetic_cycles_def)

definition fresh_synthetic :: synthetic_tracker where
  "fresh_synthetic = \<lparr>trk_store = empty_tbl, trk_onReset = True, trk_resets = [], syn_snaps = empty_tbl,
     syn_lastSubRequests = 0, syn_lastSearchRequests = 0, syn_lastToolRequests = 0, syn_hasLastValues = False\<rparr>"

lemma fresh_synthetic_ok: "synthetic_ok fresh_synthetic" "synthetic_view q fresh_synthetic = empty_quota"
  by (simp_all add: synthetic_ok_def fresh_synthetic_def healthy_def empty_tbl_def wf_empty [unfolded empty_tbl_def]
      synthetic_view_def synthetic_last_def quota_view_def active_def closed_cycles_def empty_quota_def)

definition synthetic_poll :: "time \<Rightarrow> f64 \<Rightarrow> time \<Rightarrow> Snapshot" where
  "synthetic_poll t v r = \<lparr>sn_ID = 0, sn_CapturedAt = t,
     sn_Sub = \<lparr>qi_Limit = 135, qi_Requests = v, qi_RenewsAt = r\<rparr>,
     sn_Search = \<lparr>qi_Limit = 250, qi_Requests = 0, qi_RenewsAt = r\<rparr>,
     sn_ToolCall = \<lparr>qi_Limit = 500, qi_Requests = 0, qi_RenewsAt = r\<rparr>\<rparr>"

text \<open>The last reading of the old cycle and the first of the new: the drop does not enter the delta.\<close>

theorem synthetic_history_witness:
  "synthetic_view ''subscription'' (poll_all synthetic_Process
      [synthetic_poll Hour 10 (5 * Hour), synthetic_poll (2 * Hour) 30 (5 * Hour + Minute),
       synthetic_poll (6 * Hour) 4 (10 * Hour)] fresh_synthetic) =
     \<lparr>qt_open = Some \<lparr>cyc_id = 0, cyc_key = ''subscription'', cyc_start = 6 * Hour, cyc_end = None,
        cyc_reset = 10 * Hour, cyc_peak = 4, cyc_delta = 0\<rparr>,
      qt_done = {#\<lparr>cyc_id = 0, cyc_key = ''subscription'', cyc_start = Hour, cyc_end = Some (5 * Hour),
        cyc_reset = 5 * Hour, cyc_peak = 30, cyc_delta = 20\<rparr>#},
      qt_last = Some 4\<rparr>"
  by (subst synthetic_history [OF fresh_synthetic_ok])
     (simp_all add: synthetic_poll_def synthetic_readings_def synthetic_reading_def synthetic_over_def time_Truncate_def zero_time_def
        quota_of_segments_def open_seg_def done_seg_def tick_cycle_def end_by_def with_stats_def synthetic_policy_def
        standard_tick_def add_delta_def raise_peak_def fsub_def fadd_def open_at_def finish_at_def)

text \<open>Whatever statements fail in a run of polls, at most one cycle per quota is open, the
  closed cycles are unchanged, and none has been deleted, renumbered or moved.\<close>

theorem synthetic_run_safe:
  assumes "wf_cycles (trk_store s)"
  shows "safe_run (trk_store s) (trk_store (poll_all synthetic_Process sns s))"
  using assms by (rule synthetic_tracker.run_safe)

theorem synthetic_run_safe_witness:
  "safe_run (empty_tbl\<lparr>db_faults := [None, Some ''disk full'']\<rparr>)
     (trk_store (poll_all synthetic_Process [synthetic_poll Hour 10 (5 * Hour), synthetic_poll (6 * Hour) 4 (10 * Hour)]
       (fresh_synthetic\<lparr>trk_store := empty_tbl\<lparr>db_faults := [None, Some ''disk full'']\<rparr>\<rparr>)))"
  using synthetic_run_safe [where s = "fresh_synthetic\<lparr>trk_store := empty_tbl\<lparr>db_faults := [None, Some ''disk full'']\<rparr>\<rparr>"]
  by (simp add: wf_cycles_def empty_tbl_def)

text \<open>On a store that answers, the summary of a quota counts its closed cycles, its peak is
  the largest delta of a closed cycle, no closed cycle began before its starting point, it announces
  the renewal time of the open cycle, and computing it changes nothing.\<close>

theorem synthetic_summary:
  assumes "healthy (trk_store s)" "wf_cycles (trk_store s)" "healthy (syn_snaps s)"
  shows "\<exists>sm. synthetic_UsageSummary now q s = (Inr sm, s) \<and>
    sum_CompletedCycles sm = int (length (closed_cycles q (trk_store s))) \<and>
    sum_PeakCycle sm = Max (insert 0 (cyc_delta ` set (closed_cycles q (trk_store s)))) \<and>
    (\<forall>c \<in> set (closed_cycles q (trk_store s)). text_less_eq (sum_TrackingSince sm) (cyc_start c)) \<and>
    (\<forall>c. active q (trk_store s) = Some c \<longrightarrow> sum_RenewsAt sm = cyc_reset c)"
  using assms by (rule synthetic_UsageSummary_healthy)

definition searched :: synthetic_tracker where
  "searched = fresh_synthetic\<lparr>trk_store := \<lparr>db_rows =
       [\<lparr>cyc_id = 1, cyc_key = ''search'', cyc_start = 3, cyc_end = Some 5, cyc_reset = 5, cyc_peak = 9, cyc_delta = 7\<rparr>,
        \<lparr>cyc_id = 2, cyc_key = ''search'', cyc_start = 6, cyc_end = None, cyc_reset = 8, cyc_peak = 2, cyc_delta = 1\<rparr>],
       db_seq = 2, db_faults = []\<rparr>\<rparr>"

theorem synthetic_summary_witness:
  "\<exists>sm. synthetic_UsageSummary 0 ''search'' searched = (Inr sm, searched) \<and>
     sum_CompletedCycles sm = 1 \<and> sum_PeakCycle sm = 7 \<and> sum_RenewsAt sm = 8"
proof -
  have "healthy (trk_store searched)" "wf_cycles (trk_store searched)" "healthy (syn_snaps searched)"
    "map cyc_delta (closed_cycles ''search'' (trk_store searched)) = [7]"
    "map_option cyc_reset (active ''search'' (trk_store searched)) = Some 8"
    by (simp_all add: searched_def fresh_synthetic_def healthy_def empty_tbl_def wf_cycles_def active_def is_active_def
        closed_cycles_def is_closed_def)
  then show ?thesis
    using synthetic_summary [of searched 0 "''search''"]
    by (auto simp: map_eq_Cons_conv map_option_eq_Some)
qed

end
