(* ===== verification/UtilTracker.thy ===== *)
theory UtilTracker
  imports TrackerBase
begin

text \<open>
  The trackers of the providers that report each quota as a utilization in percent with an optional
  reset time: Anthropic, Cursor and OpenCode (\<open>internal/tracker\<close>). Their Go code is the same but for the
  store functions they call, the texts of their errors and the rule that detects a reset, which are
  therefore the parameters here; each provider's own theory instantiates them.
\<close>

subsection \<open>The operations\<close>

record util_quota =
  uq_Name :: string
  uq_Utilization :: f64
  uq_ResetsAt :: "time option"

type_synonym util_cycle = "(string, f64, time option) cycle"
type_synonym util_cycles = "(string, f64, time option) cycles"

text \<open>The functions of the store a tracker calls.\<close>

record util_iface =
  uf_query :: "string \<Rightarrow> (util_cycles, util_cycle option) op"
  uf_create :: "string \<Rightarrow> time \<Rightarrow> time option \<Rightarrow> (util_cycles, int) op"
  uf_update :: "string \<Rightarrow> f64 \<Rightarrow> f64 \<Rightarrow> (util_cycles, unit) op"
  uf_close :: "string \<Rightarrow> time \<Rightarrow> f64 \<Rightarrow> f64 \<Rightarrow> (util_cycles, unit) op"

text \<open>\<open>lastResets\<close> holds the formatted reset times; the text determines the time.\<close>

record util_tracker = "(string, f64, time option) trk" +
  ut_lastValues :: "string \<Rightarrow> f64 option"
  ut_lastResets :: "string \<Rightarrow> time option"
  ut_hasLast :: bool

text \<open>A reset rule sees the stored reset time, the time of the reading and the reset time it reports.\<close>

type_synonym reset_rule = "time option \<Rightarrow> time \<Rightarrow> time option \<Rightarrow> bool"

definition util_remember :: "'q util_quota_scheme \<Rightarrow> 'z util_tracker_scheme \<Rightarrow> 'z util_tracker_scheme" where
  "util_remember quota s =
     s\<lparr>ut_lastValues := (ut_lastValues s)(uq_Name quota \<mapsto> uq_Utilization quota),
       ut_lastResets := (case uq_ResetsAt quota of
          Some r \<Rightarrow> (ut_lastResets s)(uq_Name quota \<mapsto> r) | None \<Rightarrow> ut_lastResets s)\<rparr>"

definition util_open :: "util_iface \<Rightarrow> string \<Rightarrow> 'q util_quota_scheme \<Rightarrow> time \<Rightarrow> ('z util_tracker_scheme, unit) op" where
  "util_open F msg quota capturedAt =
     bindE (wrapE msg (onStore (uf_create F (uq_Name quota) capturedAt (uq_ResetsAt quota))))
       (\<lambda>_. wrapE ''failed to set initial peak: ''
              (onStore (uf_update F (uq_Name quota) (uq_Utilization quota) 0)))"

text \<open>The last value of a quota is used only once a whole snapshot has been processed.\<close>

definition util_last :: "'z util_tracker_scheme \<Rightarrow> string \<Rightarrow> f64 option" where
  "util_last s n = (if ut_hasLast s then ut_lastValues s n else None)"

text \<open>The end of the old cycle: its final statistics take in the reading that opens the next one.\<close>

definition util_rollover ::
    "util_iface \<Rightarrow> 'q util_quota_scheme \<Rightarrow> time \<Rightarrow> util_cycle \<Rightarrow> ('z util_tracker_scheme, unit) op" where
  "util_rollover F quota capturedAt c =
     withE (\<lambda>s.
       let cycleEndTime = (case cyc_reset c of
             Some r \<Rightarrow> if time_After capturedAt r then r else capturedAt | None \<Rightarrow> capturedAt);
           (peak, delta) = (case util_last s (uq_Name quota) of
             Some lastUtil \<Rightarrow> (raise_peak (cyc_peak c) (uq_Utilization quota),
                             add_delta (cyc_delta c) lastUtil (uq_Utilization quota))
           | None \<Rightarrow> (cyc_peak c, cyc_delta c))
       in thenE (wrapE ''failed to close cycle: ''
                  (onStore (uf_close F (uq_Name quota) cycleEndTime peak delta)))
            (thenE (util_open F ''failed to create new cycle: '' quota capturedAt)
              (thenE (modifyE (util_remember quota)) (modifyE (fireReset (uq_Name quota))))))"

definition util_tick ::
    "util_iface \<Rightarrow> 'q util_quota_scheme \<Rightarrow> util_cycle \<Rightarrow> ('z util_tracker_scheme, unit) op" where
  "util_tick F quota c =
     thenE (withE (\<lambda>s.
       case util_last s (uq_Name quota) of
         Some lastUtil \<Rightarrow>
           wrapE ''failed to update cycle: ''
             (onStore (uf_update F (uq_Name quota) (raise_peak (cyc_peak c) (uq_Utilization quota))
               (add_delta (cyc_delta c) lastUtil (uq_Utilization quota))))
       | None \<Rightarrow>
           if cyc_peak c < uq_Utilization quota then
             wrapE ''failed to update cycle: ''
               (onStore (uf_update F (uq_Name quota) (uq_Utilization quota) (cyc_delta c)))
           else returnE ()))
     (modifyE (util_remember quota))"

definition util_processQuota ::
    "util_iface \<Rightarrow> reset_rule \<Rightarrow> 'q util_quota_scheme \<Rightarrow> time \<Rightarrow> ('z util_tracker_scheme, unit) op" where
  "util_processQuota F resetDetected quota capturedAt =
     bindE (wrapE ''failed to query active cycle: '' (onStore (uf_query F (uq_Name quota))))
       (\<lambda>cycle. case cycle of
          None \<Rightarrow> thenE (util_open F ''failed to create cycle: '' quota capturedAt)
                    (modifyE (util_remember quota))
        | Some c \<Rightarrow>
            if resetDetected (cyc_reset c) capturedAt (uq_ResetsAt quota)
            then util_rollover F quota capturedAt c
            else util_tick F quota c)"

definition util_Process ::
    "util_iface \<Rightarrow> reset_rule \<Rightarrow> string \<Rightarrow> ('m, 'q util_quota_scheme) snap \<Rightarrow> ('z util_tracker_scheme, unit) op" where
  "util_Process F resetDetected prefix snapshot =
     thenE (forE (\<lambda>quota. wrapE (prefix @ uq_Name quota @ '': '')
                   (util_processQuota F resetDetected quota (snap_CapturedAt snapshot))) (snap_Quotas snapshot))
       (modifyE (\<lambda>s. s\<lparr>ut_hasLast := True\<rparr>))"

definition util_UsageSummary ::
    "util_iface \<Rightarrow> (string \<Rightarrow> int list \<Rightarrow> (util_cycles, util_cycle list) op) \<Rightarrow>
     ('z util_tracker_scheme, ('m, 'q util_quota_scheme) snap option) op \<Rightarrow>
     time \<Rightarrow> time \<Rightarrow> time \<Rightarrow> time \<Rightarrow> string \<Rightarrow> ('z util_tracker_scheme, util_summary) op" where
  "util_UsageSummary F queryHistory queryLatest now1 now2 now3 now4 quotaName =
     bindE (wrapE ''failed to query active cycle: '' (onStore (uf_query F quotaName))) (\<lambda>activeCycle.
     bindE (wrapE ''failed to query cycle history: '' (onStore (queryHistory quotaName []))) (\<lambda>history.
       case activeCycle of
         None \<Rightarrow> returnE (util_summary_history quotaName history)
       | Some c \<Rightarrow>
           bindE (wrapE ''failed to query latest: '' queryLatest) (\<lambda>latest.
           let sm = util_summary_active now1 c (util_summary_history quotaName history)
           in returnE (case latest of
                None \<Rightarrow> sm
              | Some sn \<Rightarrow> util_summary_rate now3 now4 c
                  (util_summary_current now2 uq_Name uq_Utilization uq_ResetsAt quotaName (snap_Quotas sn) sm)))))"

lemma util_remember_simps [simp]:
  "trk_store (util_remember q s) = trk_store s"
  "ut_lastValues (util_remember q s) = (ut_lastValues s)(uq_Name q \<mapsto> uq_Utilization q)"
  "ut_hasLast (util_remember q s) = ut_hasLast s"
  by (simp_all add: util_remember_def)

lemma ut_fireReset [simp]:
  "ut_lastValues (fireReset n s) = ut_lastValues s" "ut_hasLast (fireReset n s) = ut_hasLast s"
  by (simp_all add: fireReset_def)

lemmas util_defs = util_processQuota_def util_open_def util_rollover_def util_tick_def

subsection \<open>The abstract account\<close>

definition util_policy :: "reset_rule \<Rightarrow> (string, f64, f64, time option) policy" where
  "util_policy ov = \<lparr>
     pol_init = (\<lambda>v. (v, 0)),
     pol_over = (\<lambda>c _ rd. ov (cyc_reset c) (rd_at rd) (rd_reset rd)),
     pol_end = (\<lambda>c rd. case cyc_reset c of Some r \<Rightarrow> min r (rd_at rd) | None \<Rightarrow> rd_at rd),
     pol_close = (\<lambda>lst v st. case lst of Some _ \<Rightarrow> standard_tick lst v st | None \<Rightarrow> st),
     pol_tick = standard_tick, pol_reset = (\<lambda>r _. r)\<rparr>"

text \<open>A segment ends when the rule fires for the reset time of its first reading.\<close>

definition util_over :: "reset_rule \<Rightarrow> (f64, time option) reading list \<Rightarrow> (f64, time option) reading \<Rightarrow> bool" where
  "util_over ov seg rd \<longleftrightarrow> ov (rd_reset (hd seg)) (rd_at rd) (rd_reset rd)"

definition util_reading :: "time \<Rightarrow> 'q util_quota_scheme \<Rightarrow> (f64, time option) reading" where
  "util_reading capturedAt q = \<lparr>rd_at = capturedAt, rd_value = uq_Utilization q, rd_reset = uq_ResetsAt q\<rparr>"

definition util_readings :: "string \<Rightarrow> ('m, 'q util_quota_scheme) snap \<Rightarrow> (f64, time option) reading list" where
  "util_readings n sn = map (util_reading (snap_CapturedAt sn)) (filter (\<lambda>q. uq_Name q = n) (snap_Quotas sn))"

definition util_view :: "string \<Rightarrow> 'z util_tracker_scheme \<Rightarrow> (string, f64, f64, time option) quota" where
  "util_view n s = quota_view n (ut_lastValues s n) (trk_store s)"

text \<open>A state between two calls of \<open>Process\<close> on a table whose statements succeed, and a snapshot that names
  no quota twice.\<close>

definition util_ok :: "'z util_tracker_scheme \<Rightarrow> bool" where
  "util_ok s \<longleftrightarrow> healthy (trk_store s) \<and> wf_cycles (trk_store s) \<and> (ut_hasLast s \<or> ut_lastValues s = Map.empty)"

definition util_valid :: "('m, 'q util_quota_scheme) snap \<Rightarrow> bool" where
  "util_valid sn \<longleftrightarrow> distinct (map uq_Name (snap_Quotas sn))"

lemma util_policy_over:
  "seg \<noteq> [] \<Longrightarrow> policy_over (util_policy ov) k seg rd = util_over ov seg rd"
  by (simp add: policy_over_def util_policy_def util_over_def open_seg_reset_kept)

lemma util_measured: "measured (\<lambda>v. v) (util_policy ov)"
  by (simp add: measured_def util_policy_def option.map_ident)

text \<open>The cycles of an empty start: what the abstract account makes of all readings of a quota.\<close>

definition util_cycles_of ::
    "reset_rule \<Rightarrow> string \<Rightarrow> ('m, 'q util_quota_scheme) snap list \<Rightarrow> (string, f64, f64, time option) quota" where
  "util_cycles_of ov n sns =
     quota_of_segments (util_policy ov) n (segments (util_over ov) (concat (map (util_readings n) sns)))"

subsection \<open>Correctness, for any store that keeps the laws\<close>

locale util_provider = cycle_store "\<lambda>k. k" "0 :: f64" "uf_query F" "uf_create F" "uf_update F" "uf_close F"
  for F :: util_iface +
  fixes resetDetected :: reset_rule and prefix :: string
begin

lemma processQuota_keeps:
  "keeps t0 (trk_store s) \<Longrightarrow>
   wp (util_processQuota F resetDetected q cap) (\<lambda>_ s'. keeps t0 (trk_store s')) (\<lambda>_ s'. keeps t0 (trk_store s')) s"
  unfolding util_processQuota_def wp_bindE wp_wrapE
  by (erule wp_query) (auto simp: util_defs wps Let_def intro!: wp_calls split: option.split)

lemma Process_keeps:
  "keeps t0 (trk_store s) \<Longrightarrow>
   wp (util_Process F resetDetected prefix sn) (\<lambda>_ s'. keeps t0 (trk_store s')) (\<lambda>_ s'. keeps t0 (trk_store s')) s"
  by (auto simp: util_Process_def wps intro!: wp_mono [OF wp_forE_inv] processQuota_keeps)

lemma processQuota_refines:
  assumes "healthy (trk_store s)" "wf_cycles (trk_store s)" "ut_hasLast s \<or> ut_lastValues s (uq_Name q) = None"
  shows "wp (util_processQuota F resetDetected q cap) (\<lambda>_ s'.
     healthy (trk_store s') \<and> wf_cycles (trk_store s') \<and> ut_hasLast s' = ut_hasLast s \<and>
     ut_lastValues s' = (ut_lastValues s)(uq_Name q \<mapsto> uq_Utilization q) \<and>
     util_view (uq_Name q) s' =
       quota_step (util_policy resetDetected) (uq_Name q) (util_reading cap q) (util_view (uq_Name q) s) \<and>
     (\<forall>j. j \<noteq> uq_Name q \<longrightarrow> util_view j s' = util_view j s)) (\<lambda>_ _. False) s"
  using assms
  apply (simp add: util_processQuota_def wps healthy_wp)
  apply (auto split: option.split simp: util_defs util_last_def wps healthy_wp util_view_def Let_def)
  apply (simp_all add: quota_simps util_policy_def util_reading_def time_defs standard_tick_def raise_peak_def split: option.splits)
  apply (auto intro!: cycle.equality simp: anon_fields split: option.splits)
  done

lemma Process_refines:
  fixes s :: "'z util_tracker_scheme" and sn :: "('m, 'q util_quota_scheme) snap"
  assumes "util_ok s" "util_valid sn"
  shows "wp (util_Process F resetDetected prefix sn) (\<lambda>_ s'. util_ok s' \<and> (\<forall>n \<in> UNIV.
      util_view n s' = fold (quota_step (util_policy resetDetected) n) (util_readings n sn) (util_view n s)))
    (\<lambda>_ _. False) s"
proof -
  let ?I = "\<lambda>s'. healthy (trk_store s') \<and> wf_cycles (trk_store s') \<and> ut_hasLast s' = ut_hasLast s"
  have "wp (forE (\<lambda>quota. wrapE (prefix @ uq_Name quota @ '': '')
                   (util_processQuota F resetDetected quota (snap_CapturedAt sn))) (snap_Quotas sn))
    (\<lambda>_ s'. ?I s' \<and> (\<forall>j. util_view j s' = fold (quota_step (util_policy resetDetected) j)
       (map (util_reading (snap_CapturedAt sn)) (filter (\<lambda>q. uq_Name q = j) (snap_Quotas sn))) (util_view j s)))
    (\<lambda>_ _. False) s"
    by (rule wp_forE_views [where R = "\<lambda>n s. ut_hasLast s \<or> ut_lastValues s n = None"])
       (use assms in \<open>auto simp: wps util_ok_def util_valid_def intro!: wp_mono [OF processQuota_refines]\<close>)
  then show ?thesis
    unfolding util_Process_def wp_thenE
    by (rule wp_mono) (auto simp: wps util_ok_def util_view_def util_readings_def)
qed

end

text \<open>Such a tracker keeps what every tracker keeps and makes the steps of the abstract account.\<close>

sublocale util_provider \<subseteq> run: quota_tracker "util_Process F resetDetected prefix"
  by unfold_locales (rule Process_keeps)

sublocale util_provider \<subseteq> ref: refining_tracker "util_Process F resetDetected prefix" util_ok util_valid
    "UNIV :: string set" "\<lambda>n. n" util_view util_readings "util_policy resetDetected"
  by unfold_locales (rule Process_refines)

context util_provider
begin

lemma history:
  "util_ok s \<Longrightarrow> \<forall>sn \<in> set sns. util_valid sn \<Longrightarrow> util_view n s = empty_quota \<Longrightarrow>
   util_view n (poll_all (util_Process F resetDetected prefix) sns s) = util_cycles_of resetDetected n sns"
  unfolding util_cycles_of_def
  by (subst segments_cong [OF util_policy_over, symmetric]) (auto intro: ref.run_segments)

end

context util_provider
begin

lemma open_cycle:
  assumes "util_ok s" "\<forall>sn \<in> set sns. util_valid sn" "util_view n s = empty_quota"
    and "concat (map (util_readings n) sns) \<noteq> []"
    and "seg = List.last (segments (util_over resetDetected) (concat (map (util_readings n) sns)))"
  shows "\<exists>c. active n (trk_store (poll_all (util_Process F resetDetected prefix) sns s)) = Some c \<and>
    cyc_start c = rd_at (hd seg) \<and> cyc_reset c = rd_reset (hd seg) \<and>
    cyc_peak c = Max (rd_value ` set seg) \<and> cyc_delta c = rises (map rd_value seg) 0"
proof -
  have "quota_view n (ut_lastValues (poll_all (util_Process F resetDetected prefix) sns s) n)
      (trk_store (poll_all (util_Process F resetDetected prefix) sns s)) =
    quota_of_segments (util_policy resetDetected) n (segments (util_over resetDetected) (concat (map (util_readings n) sns)))"
    using history [OF assms(1-3)] by (simp add: util_view_def util_cycles_of_def)
  then obtain c where c: "active n (trk_store (poll_all (util_Process F resetDetected prefix) sns s)) = Some c"
      "anon c = open_seg (util_policy resetDetected) n seg" "seg \<noteq> []"
    using assms(4,5) by (auto elim!: view_open_seg)
  have "cyc_start (anon c) = rd_at (hd seg)" "cyc_reset (anon c) = rd_reset (hd seg)"
      "cyc_peak (anon c) = Max (rd_value ` set seg)" "cyc_delta (anon c) = rises (map rd_value seg) 0"
    unfolding c(2) using measured_peak [OF util_measured c(3)] measured_delta [OF util_measured c(3)]
    by (simp_all add: open_seg_fields open_seg_reset_kept util_policy_def c(3))
  with c(1) show ?thesis by simp
qed

lemma summary:
  assumes "healthy (trk_store s)" "wf_cycles (trk_store s)" "queryLatest s = (Inr latest, s)"
    and hist: "queryHistory = (\<lambda>n. sql_history msg (is_closed n))"
  shows "\<exists>sm. util_UsageSummary F queryHistory queryLatest now1 now2 now3 now4 n s = (Inr sm, s) \<and>
    us_CompletedCycles sm = int (length (closed_cycles n (trk_store s))) \<and>
    us_PeakCycle sm = Max (insert 0 (cyc_peak ` {c \<in> set (db_rows (trk_store s)). cyc_key c = n})) \<and>
    (\<forall>c \<in> set (closed_cycles n (trk_store s)). text_less_eq (us_TrackingSince sm) (cyc_start c)) \<and>
    us_ProjectedUtil sm \<le> 100"
proof -
  let ?hist = "order_desc cyc_start (filter (is_closed n) (db_rows (trk_store s)))"
  let ?Q = "\<lambda>sm s'. s' = s \<and>
    us_CompletedCycles sm = int (length (closed_cycles n (trk_store s))) \<and>
    us_PeakCycle sm = Max (insert 0 (cyc_peak ` {c \<in> set (db_rows (trk_store s)). cyc_key c = n})) \<and>
    (\<forall>c \<in> set (closed_cycles n (trk_store s)). text_less_eq (us_TrackingSince sm) (cyc_start c)) \<and>
    us_ProjectedUtil sm \<le> 100"
  have latest: "wp queryLatest Q E s = Q latest s" for Q E by (simp add: wp_def assms(3))
  have rows: "{c \<in> set (db_rows (trk_store s)). cyc_key c = n} =
      set (closed_cycles n (trk_store s)) \<union> {c. active n (trk_store s) = Some c}"
    using active_None_iff [of n "trk_store s"] active_Some [of n "trk_store s"] assms(2)
    by (cases "active n (trk_store s)")
       (auto simp: closed_cycles_def is_closed_def is_active_def
          dest: evolves_unique_active [OF rtranclp.rtrancl_refl assms(2)])
  have peak: "Max (insert 0 (cyc_peak ` {c \<in> set (db_rows (trk_store s)). cyc_key c = n})) =
      (case active n (trk_store s) of None \<Rightarrow> history_peak cyc_peak ?hist
       | Some c \<Rightarrow> max (history_peak cyc_peak ?hist) (cyc_peak c))"
  proof (cases "active n (trk_store s)")
    case (Some c)
    let ?A = "cyc_peak ` {x \<in> set (db_rows (trk_store s)). is_closed n x}"
    have "Max (insert 0 (insert (cyc_peak c) ?A)) = max (Max (insert 0 ?A)) (cyc_peak c)"
      by (simp add: insert_commute [of 0 "cyc_peak c"] Max_insert [of "insert 0 ?A"] max.commute del: Max_insert)
    then show ?thesis unfolding rows Some by (simp add: history_peak_Max closed_cycles_def del: Max_insert)
  qed (unfold rows, simp add: history_peak_Max closed_cycles_def)
  have "wp (util_UsageSummary F queryHistory queryLatest now1 now2 now3 now4 n) ?Q (\<lambda>_ _. False) s"
    unfolding peak util_UsageSummary_def hist using assms(1,2)
    by (simp add: wps Let_def healthy_wp run_onStore_history)
       (auto simp: wps latest util_summary_history_def tracking_since_oldest closed_cycles_def Let_def
          intro!: util_summary_rate_bounds split: option.split)
  then show ?thesis by (auto simp: wp_def split: prod.splits sum.splits)
qed

end

end
