(* ===== verification/AnthropicTracker.thy ===== *)
theory AnthropicTracker
  imports UtilTracker
begin

text \<open>
  Anthropic (\<open>internal/tracker/anthropic_tracker.go\<close>, \<open>internal/store/anthropic_store.go\<close>): the
  utilization tracker with a tolerance of ten minutes for the jitter of \<open>resets_at\<close>, and the snapshot
  tables, whose readers hide quota names that are not in the white list.
\<close>

subsection \<open>Snapshots\<close>

type_synonym anthropic_snapshot = "(string, util_quota) snap"

definition IsKnownAnthropicQuota :: "string \<Rightarrow> bool" where
  "IsKnownAnthropicQuota key \<longleftrightarrow>
     key \<in> {''five_hour'', ''seven_day'', ''seven_day_sonnet'', ''monthly_limit'', ''extra_usage''}"

definition InsertAnthropicSnapshot :: "anthropic_snapshot \<Rightarrow> (anthropic_snapshot tbl, int) op" where
  "InsertAnthropicSnapshot snapshot = sql_insert_snap ''failed to insert anthropic snapshot: ''
     (\<lambda>q. ''failed to insert quota value '' @ uq_Name q @ '': '') snapshot"

definition QueryLatestAnthropic :: "(anthropic_snapshot tbl, anthropic_snapshot option) op" where
  "QueryLatestAnthropic = sql_latest_snap ''failed to query latest anthropic: '' ''failed to query quota values: ''
     (\<lambda>_. True) (\<lambda>_. '''') uq_Name (\<lambda>q. IsKnownAnthropicQuota (uq_Name q))"

subsection \<open>The tracker\<close>

record anthropic_tracker = util_tracker +
  ant_snaps :: "anthropic_snapshot tbl"

definition anthropic_iface :: util_iface where
  "anthropic_iface = \<lparr>uf_query = QueryActiveAnthropicCycle, uf_create = CreateAnthropicCycle,
     uf_update = UpdateAnthropicCycle, uf_close = CloseAnthropicCycle\<rparr>"

definition anthropic_resetDetected :: reset_rule where
  "anthropic_resetDetected stored capturedAt reported \<longleftrightarrow>
     (case stored of
        Some r \<Rightarrow> time_After capturedAt (time_Add r (2 * Minute)) \<or>
          (case reported of Some r' \<Rightarrow> 10 * Minute < dur_abs (time_Sub r' r) | None \<Rightarrow> False)
      | None \<Rightarrow> reported \<noteq> None)"

definition anthropic_processQuota :: "util_quota \<Rightarrow> time \<Rightarrow> (anthropic_tracker, unit) op" where
  "anthropic_processQuota = util_processQuota anthropic_iface anthropic_resetDetected"

definition anthropic_Process :: "anthropic_snapshot \<Rightarrow> (anthropic_tracker, unit) op" where
  "anthropic_Process = util_Process anthropic_iface anthropic_resetDetected ''anthropic tracker: ''"

definition anthropic_UsageSummary ::
    "time \<Rightarrow> time \<Rightarrow> time \<Rightarrow> time \<Rightarrow> string \<Rightarrow> (anthropic_tracker, util_summary) op" where
  "anthropic_UsageSummary = util_UsageSummary anthropic_iface QueryAnthropicCycleHistory
     (liftE ant_snaps (\<lambda>t s. s\<lparr>ant_snaps := t\<rparr>) QueryLatestAnthropic)"

interpretation anthropic: util_provider anthropic_iface anthropic_resetDetected "''anthropic tracker: ''"
  unfolding anthropic_iface_def util_provider_def by simp (rule anthropic_store.cycle_store_axioms)

subsection \<open>Properties\<close>

text \<open>C2: from an empty table, and whatever snapshots without repeated quota names are polled,
  the table holds for every quota exactly the cycles of its readings: the readings are cut into
  consecutive segments at the detected resets, each segment but the newest is a closed cycle with its
  start, end, peak and delta, the newest is the open one.\<close>

theorem anthropic_history:
  assumes "util_ok s" "util_view n s = empty_quota" "\<forall>sn \<in> set sns. util_valid sn"
  shows "util_view n (poll_all anthropic_Process sns s) = util_cycles_of anthropic_resetDetected n sns"
  unfolding anthropic_Process_def using assms by (intro anthropic.history)

definition fresh_anthropic :: anthropic_tracker where
  "fresh_anthropic = \<lparr>trk_store = empty_tbl, trk_onReset = True, trk_resets = [],
     ut_lastValues = Map.empty, ut_lastResets = Map.empty, ut_hasLast = False, ant_snaps = empty_tbl\<rparr>"

lemma fresh_anthropic_ok: "util_ok fresh_anthropic" "util_view n fresh_anthropic = empty_quota"
  by (simp_all add: util_ok_def fresh_anthropic_def healthy_def empty_tbl_def wf_empty [unfolded empty_tbl_def]
      util_view_def quota_view_def active_def closed_cycles_def empty_quota_def)

text \<open>Three polls of one quota, the last one after the announced reset.\<close>

definition five_hour :: "time \<Rightarrow> f64 \<Rightarrow> time \<Rightarrow> anthropic_snapshot" where
  "five_hour t v r = \<lparr>snap_ID = 0, snap_CapturedAt = t, snap_meta = '''',
     snap_Quotas = [\<lparr>uq_Name = ''five_hour'', uq_Utilization = v, uq_ResetsAt = Some r\<rparr>]\<rparr>"

definition three_polls :: "anthropic_snapshot list" where
  "three_polls = [five_hour Hour 10 (5 * Hour), five_hour (2 * Hour) 30 (5 * Hour), five_hour (6 * Hour) 4 (10 * Hour)]"

lemma three_polls_valid: "\<forall>sn \<in> set three_polls. util_valid sn"
  by (simp add: three_polls_def five_hour_def util_valid_def)

lemma three_polls_readings:
  "concat (map (util_readings ''five_hour'') three_polls) =
     [\<lparr>rd_at = Hour, rd_value = 10, rd_reset = Some (5 * Hour)\<rparr>,
      \<lparr>rd_at = 2 * Hour, rd_value = 30, rd_reset = Some (5 * Hour)\<rparr>,
      \<lparr>rd_at = 6 * Hour, rd_value = 4, rd_reset = Some (10 * Hour)\<rparr>]"
  by (simp add: three_polls_def five_hour_def util_readings_def util_reading_def)

lemma three_polls_segments:
  "segments (util_over anthropic_resetDetected) (concat (map (util_readings ''five_hour'') three_polls)) =
     [[\<lparr>rd_at = Hour, rd_value = 10, rd_reset = Some (5 * Hour)\<rparr>,
       \<lparr>rd_at = 2 * Hour, rd_value = 30, rd_reset = Some (5 * Hour)\<rparr>],
      [\<lparr>rd_at = 6 * Hour, rd_value = 4, rd_reset = Some (10 * Hour)\<rparr>]]"
  unfolding three_polls_readings
  by (simp add: util_over_def anthropic_resetDetected_def time_defs time_Sub_def dur_abs_def)

text \<open>The two cycles of the three polls, as the theorem gives them: the first ends at its reset time with
  the peak and the increase of its readings.\<close>

theorem anthropic_history_witness:
  "util_view ''five_hour'' (poll_all anthropic_Process three_polls fresh_anthropic) =
     \<lparr>qt_open = Some \<lparr>cyc_id = 0, cyc_key = ''five_hour'', cyc_start = 6 * Hour, cyc_end = None,
        cyc_reset = Some (10 * Hour), cyc_peak = 4, cyc_delta = 0\<rparr>,
      qt_done = {#\<lparr>cyc_id = 0, cyc_key = ''five_hour'', cyc_start = Hour, cyc_end = Some (5 * Hour),
        cyc_reset = Some (5 * Hour), cyc_peak = 30, cyc_delta = 20\<rparr>#},
      qt_last = Some 4\<rparr>"
  by (subst anthropic_history [OF fresh_anthropic_ok three_polls_valid])
     (simp add: util_cycles_of_def three_polls_segments quota_of_segments_def open_seg_def done_seg_def tick_cycle_def end_by_def with_stats_def
        util_policy_def standard_tick_def add_delta_def raise_peak_def fsub_def fadd_def open_at_def finish_at_def)

text \<open>After such polls the open cycle of a quota starts with the first reading of the
  newest segment, carries that reading's reset time, its peak is the largest reading of the segment and
  its delta the sum of the increases between neighbouring readings.\<close>

theorem anthropic_open_cycle:
  assumes "util_ok s" "\<forall>sn \<in> set sns. util_valid sn" "util_view n s = empty_quota"
    and "concat (map (util_readings n) sns) \<noteq> []"
    and "seg = List.last (segments (util_over anthropic_resetDetected) (concat (map (util_readings n) sns)))"
  shows "\<exists>c. active n (trk_store (poll_all anthropic_Process sns s)) = Some c \<and>
    cyc_start c = rd_at (hd seg) \<and> cyc_reset c = rd_reset (hd seg) \<and>
    cyc_peak c = Max (rd_value ` set seg) \<and> cyc_delta c = rises (map rd_value seg) 0"
  unfolding anthropic_Process_def using assms by (rule anthropic.open_cycle)

theorem anthropic_open_cycle_witness:
  "\<exists>c. active ''five_hour'' (trk_store (poll_all anthropic_Process three_polls fresh_anthropic)) = Some c \<and>
    cyc_start c = 6 * Hour \<and> cyc_reset c = Some (10 * Hour) \<and> cyc_peak c = 4 \<and> cyc_delta c = 0"
  using anthropic_open_cycle [where n = "''five_hour''", OF fresh_anthropic_ok(1) three_polls_valid fresh_anthropic_ok(2) _ refl]
  unfolding three_polls_segments by (simp add: three_polls_readings)

text \<open>C8: whatever statements of the store fail in a run of polls, at most one cycle of a
  quota is open afterwards, the cycles already closed are unchanged, no cycle has been deleted,
  renumbered or moved, and no two have the same id.\<close>

theorem anthropic_run_safe:
  assumes "wf_cycles (trk_store s)"
  shows "safe_run (trk_store s) (trk_store (poll_all anthropic_Process sns s))"
  unfolding anthropic_Process_def using assms by (rule anthropic.run.run_safe)

text \<open>A store whose closing succeeds and whose next creation fails.\<close>

theorem anthropic_run_safe_witness:
  "safe_run (empty_tbl\<lparr>db_faults := [None, Some ''disk full'']\<rparr>)
     (trk_store (poll_all anthropic_Process three_polls
       (fresh_anthropic\<lparr>trk_store := empty_tbl\<lparr>db_faults := [None, Some ''disk full'']\<rparr>\<rparr>)))"
  using anthropic_run_safe [where s = "fresh_anthropic\<lparr>trk_store := empty_tbl\<lparr>db_faults := [None, Some ''disk full'']\<rparr>\<rparr>"]
  by (simp add: wf_cycles_def empty_tbl_def)

text \<open>A reading taken before the announced reset (with the two minutes of grace) whose own
  reset time differs from the stored one by at most ten minutes never ends the cycle, and one whose
  reset time lies further off always does.\<close>

theorem anthropic_jitter:
  assumes "capturedAt \<le> r + 2 * Minute" "\<bar>r' - r\<bar> < 2 ^ 63"
  shows "anthropic_resetDetected (Some r) capturedAt (Some r') \<longleftrightarrow> 10 * Minute < \<bar>r' - r\<bar>"
  using assms dur_abs_gt_iff [of "10 * Minute" r' r]
  by (simp add: anthropic_resetDetected_def time_defs)

theorem anthropic_jitter_witness:
  "\<not> anthropic_resetDetected (Some (5 * Hour)) Hour (Some (5 * Hour + Second))"
  by (subst anthropic_jitter) simp_all

text \<open>When the API keeps reporting a reset time that passed more than two minutes ago,
  and the open cycle was itself opened after it, a poll closes that cycle with an end before its start
  and opens another cycle of the same kind, so that the next poll does it again.\<close>

theorem anthropic_stale_reset:
  assumes "healthy (trk_store s)" "wf_cycles (trk_store s)" "active (uq_Name q) (trk_store s) = Some c"
    and "cyc_reset c = Some r" "uq_ResetsAt q = Some r" "r < cyc_start c" "r + 2 * Minute < capturedAt"
  shows "\<exists>s' c' c2. anthropic_processQuota q capturedAt s = (Inr (), s') \<and>
    c' \<in> set (db_rows (trk_store s')) \<and> cyc_id c' = cyc_id c \<and> cyc_end c' = Some r \<and> r < cyc_start c' \<and>
    active (uq_Name q) (trk_store s') = Some c2 \<and> cyc_reset c2 = Some r \<and> r < cyc_start c2"
proof -
  have mem: "c \<in> set (db_rows (trk_store s))" and act: "is_active (uq_Name q) c"
    using active_Some [OF assms(3)] by (auto simp: is_active_def)
  have "c\<lparr>cyc_end := Some e, cyc_peak := p, cyc_delta := d\<rparr> \<in> set (db_rows (end_cycle (uq_Name q) e p d (trk_store s)))" for e p d
    using mem act by (force simp: end_cycle_def update_where_def)
  then have ended: "\<exists>c'. c' \<in> set (db_rows (set_stats (uq_Name q) p' d' (add_cycle (uq_Name q) b r' z z' (end_cycle (uq_Name q) e p d (trk_store s))))) \<and>
      cyc_id c' = cyc_id c \<and> cyc_end c' = Some e \<and> e < cyc_start c'" if "e < cyc_start c" for e p d p' d' b r' z z'
    using that
    by (intro exI [where x = "c\<lparr>cyc_end := Some e, cyc_peak := p, cyc_delta := d\<rparr>"])
       (auto simp: set_stats_def update_where_def add_cycle_def image_iff is_active_def
          intro!: exI [where x = "c\<lparr>cyc_end := Some e, cyc_peak := p, cyc_delta := d\<rparr>"])
  have "wp (anthropic_processQuota q capturedAt) (\<lambda>_ s'. \<exists>c' c2.
    c' \<in> set (db_rows (trk_store s')) \<and> cyc_id c' = cyc_id c \<and> cyc_end c' = Some r \<and> r < cyc_start c' \<and>
    active (uq_Name q) (trk_store s') = Some c2 \<and> cyc_reset c2 = Some r \<and> r < cyc_start c2) (\<lambda>_ _. False) s"
    using assms
    apply (simp add: anthropic_processQuota_def util_processQuota_def wps anthropic.healthy_wp anthropic_resetDetected_def time_defs)
    apply (auto simp: util_rollover_def util_open_def wps anthropic.healthy_wp Let_def time_defs intro: ended split: option.split)
    done
  then show ?thesis by (auto simp: wp_def split: prod.splits sum.splits)
qed

definition stale_state :: anthropic_tracker where
  "stale_state = fresh_anthropic\<lparr>trk_store := \<lparr>db_rows = [\<lparr>cyc_id = 1, cyc_key = ''five_hour'', cyc_start = 6 * Hour,
     cyc_end = None, cyc_reset = Some (5 * Hour), cyc_peak = 3, cyc_delta = 0\<rparr>], db_seq = 1, db_faults = []\<rparr>\<rparr>"

theorem anthropic_stale_reset_witness:
  "\<exists>s' c' c2. anthropic_processQuota \<lparr>uq_Name = ''five_hour'', uq_Utilization = 3, uq_ResetsAt = Some (5 * Hour)\<rparr> (7 * Hour) stale_state = (Inr (), s') \<and>
    c' \<in> set (db_rows (trk_store s')) \<and> cyc_id c' = 1 \<and> cyc_end c' = Some (5 * Hour) \<and> 5 * Hour < cyc_start c' \<and>
    active ''five_hour'' (trk_store s') = Some c2 \<and> cyc_reset c2 = Some (5 * Hour) \<and> 5 * Hour < cyc_start c2"
  using anthropic_stale_reset [where s = stale_state and capturedAt = "7 * Hour" and r = "5 * Hour"
      and q = "\<lparr>uq_Name = ''five_hour'', uq_Utilization = 3, uq_ResetsAt = Some (5 * Hour)\<rparr>"
      and c = "\<lparr>cyc_id = 1, cyc_key = ''five_hour'', cyc_start = 6 * Hour, cyc_end = None, cyc_reset = Some (5 * Hour), cyc_peak = 3, cyc_delta = 0\<rparr>"]
  by (simp add: stale_state_def healthy_def wf_cycles_def active_def is_active_def)

text \<open>C9: storing a snapshot is all or nothing, whichever of its statements fails: on success the
  new snapshot with all its quota values is appended under the next id, on any error the table is as
  before.\<close>

theorem anthropic_snapshot_atomic:
  assumes "wf_snaps t"
  shows "case InsertAnthropicSnapshot sn t of
      (Inr i, t') \<Rightarrow> i = db_seq t + 1 \<and> db_rows t' = db_rows t @ [sn\<lparr>snap_ID := i\<rparr>] \<and> db_seq t' = i
    | (Inl _, t') \<Rightarrow> db_rows t' = db_rows t \<and> db_seq t' = db_seq t"
  using sql_insert_snap_law [OF assms, of "''failed to insert anthropic snapshot: ''"
      "\<lambda>q. ''failed to insert quota value '' @ uq_Name q @ '': ''" sn]
  by (auto simp: InsertAnthropicSnapshot_def wp_def same_data_def split: prod.splits sum.splits)

text \<open>A table on which the insertion of the first quota value fails: begin, header and id succeed.\<close>

theorem anthropic_snapshot_atomic_witness:
  "case InsertAnthropicSnapshot (five_hour Hour 10 (5 * Hour)) (empty_tbl\<lparr>db_faults := [None, None, None, Some ''locked'']\<rparr>) of
      (Inr i, t') \<Rightarrow> i = 1 \<and> db_rows t' = [five_hour Hour 10 (5 * Hour)\<lparr>snap_ID := i\<rparr>] \<and> db_seq t' = i
    | (Inl _, t') \<Rightarrow> db_rows t' = [] \<and> db_seq t' = 0"
  using anthropic_snapshot_atomic [of "empty_tbl\<lparr>db_faults := [None, None, None, Some ''locked'']\<rparr>" "five_hour Hour 10 (5 * Hour)"]
  by (simp add: wf_snaps_def empty_tbl_def case_prod_beta cong: sum.case_cong)

text \<open>C10: a snapshot that is not older than the stored ones is what \<open>QueryLatestAnthropic\<close>
  returns right after it was inserted: its known quotas, ordered by name.\<close>

theorem anthropic_snapshot_roundtrip:
  assumes "healthy t" "wf_snaps t"
    and "\<forall>r \<in> set (db_rows t). text_less_eq (snap_CapturedAt r) (snap_CapturedAt sn)"
  shows "\<exists>i t'. InsertAnthropicSnapshot sn t = (Inr i, t') \<and>
    QueryLatestAnthropic t' = (Inr (Some (sn\<lparr>snap_ID := i, snap_meta := '''',
      snap_Quotas := filter (\<lambda>q. IsKnownAnthropicQuota (uq_Name q)) (sort_key uq_Name (snap_Quotas sn))\<rparr>)), t')"
proof -
  obtain i t' where ins: "InsertAnthropicSnapshot sn t = (Inr i, t')" "healthy t'"
      "i = db_seq t + 1" "db_rows t' = db_rows t @ [sn\<lparr>snap_ID := i\<rparr>]"
    unfolding InsertAnthropicSnapshot_def using sql_insert_snap_healthy [OF assms(1,2)] by blast
  then show ?thesis
    using latest_after_insert [OF assms(2) ins(4) [unfolded ins(3)], where sel = "\<lambda>_. True"] assms(3)
    by (simp add: QueryLatestAnthropic_def sql_latest_snap_run)
qed

theorem anthropic_snapshot_roundtrip_witness:
  "\<exists>i t'. InsertAnthropicSnapshot (five_hour Hour 10 (5 * Hour)) empty_tbl = (Inr i, t') \<and>
    QueryLatestAnthropic t' = (Inr (Some (five_hour Hour 10 (5 * Hour)\<lparr>snap_ID := i\<rparr>)), t')"
  using anthropic_snapshot_roundtrip [of empty_tbl "five_hour Hour 10 (5 * Hour)"]
  by (simp add: healthy_def wf_snaps_def empty_tbl_def five_hour_def IsKnownAnthropicQuota_def)

text \<open>On a store that answers, the summary counts the closed cycles of the quota, its peak is
  the largest peak of any cycle of the quota, no closed cycle began before its starting point, the
  projection never exceeds 100, and computing it changes nothing.\<close>

theorem anthropic_summary:
  assumes "healthy (trk_store s)" "wf_cycles (trk_store s)" "healthy (ant_snaps s)"
  shows "\<exists>sm. anthropic_UsageSummary now1 now2 now3 now4 n s = (Inr sm, s) \<and>
    us_CompletedCycles sm = int (length (closed_cycles n (trk_store s))) \<and>
    us_PeakCycle sm = Max (insert 0 (cyc_peak ` {c \<in> set (db_rows (trk_store s)). cyc_key c = n})) \<and>
    (\<forall>c \<in> set (closed_cycles n (trk_store s)). text_less_eq (us_TrackingSince sm) (cyc_start c)) \<and>
    us_ProjectedUtil sm \<le> 100"
  unfolding anthropic_UsageSummary_def
  by (rule anthropic.summary [where latest = "latest_snap (\<lambda>_. True) (\<lambda>_. '''') uq_Name (\<lambda>q. IsKnownAnthropicQuota (uq_Name q)) (ant_snaps s)"
        and msg = "''failed to query anthropic cycles: ''"])
     (use assms in \<open>simp_all add: liftE_def QueryLatestAnthropic_def sql_latest_snap_run QueryAnthropicCycleHistory_def fun_eq_iff\<close>)

theorem anthropic_summary_witness:
  "\<exists>sm. anthropic_UsageSummary 0 0 0 0 ''five_hour'' stale_state = (Inr sm, stale_state) \<and>
    us_CompletedCycles sm = 0 \<and> us_PeakCycle sm = 3 \<and> us_ProjectedUtil sm \<le> 100"
  using anthropic_summary [of stale_state 0 0 0 0 "''five_hour''"]
  by (simp add: stale_state_def fresh_anthropic_def healthy_def wf_cycles_def is_active_def closed_cycles_def
      is_closed_def empty_tbl_def)

end
