(* ===== verification/PlanTrackers.thy ===== *)
theory PlanTrackers
  imports UtilTracker
begin

text \<open>
  Cursor and OpenCode (\<open>internal/tracker\<close>, \<open>internal/store\<close>): utilization trackers whose snapshots carry
  the account type and the plan, and whose quotas carry the used amount, the limit and its format.
\<close>

record plan_quota = util_quota +
  pq_Used :: f64
  pq_Limit :: f64
  pq_Format :: string

record plan_meta =
  pm_RawJSON :: string
  pm_AccountType :: string
  pm_PlanName :: string

type_synonym plan_snapshot = "(plan_meta, plan_quota) snap"

definition plan_columns :: "plan_meta \<Rightarrow> plan_meta" where
  "plan_columns m = m\<lparr>pm_RawJSON := []\<rparr>"

record plan_tracker = util_tracker +
  pt_snaps :: "plan_snapshot tbl"

section \<open>Cursor\<close>

definition InsertCursorSnapshot :: "plan_snapshot \<Rightarrow> (plan_snapshot tbl, int) op" where
  "InsertCursorSnapshot snapshot = sql_insert_snap ''failed to insert cursor snapshot: ''
     (\<lambda>q. ''failed to insert quota value '' @ uq_Name q @ '': '') snapshot"

definition QueryLatestCursor :: "(plan_snapshot tbl, plan_snapshot option) op" where
  "QueryLatestCursor = sql_latest_snap ''failed to query latest cursor: '' ''failed to query quota values: ''
     (\<lambda>_. True) plan_columns uq_Name (\<lambda>_. True)"

definition cursor_iface :: util_iface where
  "cursor_iface = \<lparr>uf_query = QueryActiveCursorCycle, uf_create = CreateCursorCycle,
     uf_update = UpdateCursorCycle, uf_close = CloseCursorCycle\<rparr>"

definition cursor_resetDetected :: reset_rule where
  "cursor_resetDetected stored capturedAt reported \<longleftrightarrow>
     (case stored of
        Some r \<Rightarrow> time_After capturedAt (time_Add r (2 * Minute)) \<or>
          (case reported of Some r' \<Rightarrow> 10 * Minute < dur_abs (time_Sub r' r) | None \<Rightarrow> False)
      | None \<Rightarrow> reported \<noteq> None)"

definition cursor_processQuota :: "plan_quota \<Rightarrow> time \<Rightarrow> (plan_tracker, unit) op" where
  "cursor_processQuota = util_processQuota cursor_iface cursor_resetDetected"

definition cursor_Process :: "plan_snapshot \<Rightarrow> (plan_tracker, unit) op" where
  "cursor_Process = util_Process cursor_iface cursor_resetDetected ''cursor tracker: ''"

definition cursor_UsageSummary ::
    "time \<Rightarrow> time \<Rightarrow> time \<Rightarrow> time \<Rightarrow> string \<Rightarrow> (plan_tracker, util_summary) op" where
  "cursor_UsageSummary = util_UsageSummary cursor_iface QueryCursorCycleHistory
     (liftE pt_snaps (\<lambda>t s. s\<lparr>pt_snaps := t\<rparr>) QueryLatestCursor)"

interpretation cursor: util_provider cursor_iface cursor_resetDetected "''cursor tracker: ''"
  unfolding cursor_iface_def util_provider_def by simp (rule cursor_store.cycle_store_axioms)

definition fresh_plan :: plan_tracker where
  "fresh_plan = \<lparr>trk_store = empty_tbl, trk_onReset = True, trk_resets = [],
     ut_lastValues = Map.empty, ut_lastResets = Map.empty, ut_hasLast = False, pt_snaps = empty_tbl\<rparr>"

lemma fresh_plan_ok: "util_ok fresh_plan" "util_view n fresh_plan = empty_quota"
  by (simp_all add: util_ok_def fresh_plan_def healthy_def empty_tbl_def wf_empty [unfolded empty_tbl_def]
      util_view_def quota_view_def active_def closed_cycles_def empty_quota_def)

definition plan_poll :: "time \<Rightarrow> f64 \<Rightarrow> time \<Rightarrow> plan_snapshot" where
  "plan_poll t v r = \<lparr>snap_ID = 0, snap_CapturedAt = t,
     snap_meta = \<lparr>pm_RawJSON = [], pm_AccountType = ''individual'', pm_PlanName = ''pro''\<rparr>,
     snap_Quotas = [\<lparr>uq_Name = ''total'', uq_Utilization = v, uq_ResetsAt = Some r,
                     pq_Used = 1, pq_Limit = 100, pq_Format = ''percent''\<rparr>]\<rparr>"

text \<open>From an empty table the Cursor tracker keeps, for every quota, the cycles of its
  readings, cut into segments at the detected resets.\<close>

theorem cursor_history:
  assumes "util_ok s" "util_view n s = empty_quota" "\<forall>sn \<in> set sns. util_valid sn"
  shows "util_view n (poll_all cursor_Process sns s) = util_cycles_of cursor_resetDetected n sns"
  unfolding cursor_Process_def using assms by (intro cursor.history)

theorem cursor_history_witness:
  "util_view ''total'' (poll_all cursor_Process [plan_poll Hour 10 (5 * Hour), plan_poll (6 * Hour) 4 (10 * Hour)] fresh_plan) =
     \<lparr>qt_open = Some \<lparr>cyc_id = 0, cyc_key = ''total'', cyc_start = 6 * Hour, cyc_end = None,
        cyc_reset = Some (10 * Hour), cyc_peak = 4, cyc_delta = 0\<rparr>,
      qt_done = {#\<lparr>cyc_id = 0, cyc_key = ''total'', cyc_start = Hour, cyc_end = Some (5 * Hour),
        cyc_reset = Some (5 * Hour), cyc_peak = 10, cyc_delta = 0\<rparr>#},
      qt_last = Some 4\<rparr>"
  by (subst cursor_history [OF fresh_plan_ok])
     (simp_all add: plan_poll_def util_valid_def util_cycles_of_def util_readings_def util_reading_def util_over_def
        cursor_resetDetected_def time_defs time_Sub_def dur_abs_def quota_of_segments_def open_seg_def done_seg_def tick_cycle_def end_by_def with_stats_def
        util_policy_def standard_tick_def add_delta_def raise_peak_def fsub_def fadd_def open_at_def finish_at_def)

text \<open>Whatever statements fail in a run of polls, the table of Cursor cycles stays well-formed: at most
  one open cycle per quota, the closed cycles unchanged, nothing deleted or renumbered.\<close>

theorem cursor_run_safe:
  "wf_cycles (trk_store s) \<Longrightarrow> safe_run (trk_store s) (trk_store (poll_all cursor_Process sns s))"
  unfolding cursor_Process_def by (rule cursor.run.run_safe)

theorem cursor_run_safe_witness:
  "safe_run (empty_tbl\<lparr>db_faults := [None, None, Some ''locked'']\<rparr>)
     (trk_store (poll_all cursor_Process [plan_poll Hour 10 (5 * Hour), plan_poll (6 * Hour) 4 (10 * Hour)]
        (fresh_plan\<lparr>trk_store := empty_tbl\<lparr>db_faults := [None, None, Some ''locked'']\<rparr>\<rparr>)))"
  using cursor_run_safe [where s = "fresh_plan\<lparr>trk_store := empty_tbl\<lparr>db_faults := [None, None, Some ''locked'']\<rparr>\<rparr>"]
  by (simp add: wf_cycles_def empty_tbl_def)

section \<open>OpenCode\<close>

definition InsertOpenCodeSnapshot :: "plan_snapshot \<Rightarrow> (plan_snapshot tbl, int) op" where
  "InsertOpenCodeSnapshot snapshot = sql_insert_snap ''failed to insert opencode snapshot: ''
     (\<lambda>q. ''failed to insert quota value '' @ uq_Name q @ '': '') snapshot"

definition QueryLatestOpenCode :: "(plan_snapshot tbl, plan_snapshot option) op" where
  "QueryLatestOpenCode = sql_latest_snap ''failed to query latest opencode: '' ''failed to query quota values: ''
     (\<lambda>_. True) plan_columns uq_Name (\<lambda>_. True)"

definition opencode_iface :: util_iface where
  "opencode_iface = \<lparr>uf_query = QueryActiveOpenCodeCycle, uf_create = CreateOpenCodeCycle,
     uf_update = UpdateOpenCodeCycle, uf_close = CloseOpenCodeCycle\<rparr>"

definition opencode_resetDetected :: reset_rule where
  "opencode_resetDetected stored capturedAt reported \<longleftrightarrow>
     (let storedResetPassed = (case stored of Some r \<Rightarrow> time_After capturedAt (time_Add r (2 * Minute)) | None \<Rightarrow> False);
          currentResetIsFuture = (case reported of Some r' \<Rightarrow> time_After r' capturedAt | None \<Rightarrow> False)
      in storedResetPassed \<and> \<not> currentResetIsFuture \<or>
         (case (stored, reported) of
            (Some r, Some r') \<Rightarrow> 90 * Minute < dur_abs (time_Sub r' r)
          | (None, Some _) \<Rightarrow> True
          | (_, None) \<Rightarrow> False))"

definition opencode_processQuota :: "plan_quota \<Rightarrow> time \<Rightarrow> (plan_tracker, unit) op" where
  "opencode_processQuota = util_processQuota opencode_iface opencode_resetDetected"

definition opencode_Process :: "plan_snapshot \<Rightarrow> (plan_tracker, unit) op" where
  "opencode_Process = util_Process opencode_iface opencode_resetDetected ''opencode tracker: ''"

definition opencode_UsageSummary ::
    "time \<Rightarrow> time \<Rightarrow> time \<Rightarrow> time \<Rightarrow> string \<Rightarrow> (plan_tracker, util_summary) op" where
  "opencode_UsageSummary = util_UsageSummary opencode_iface QueryOpenCodeCycleHistory
     (liftE pt_snaps (\<lambda>t s. s\<lparr>pt_snaps := t\<rparr>) QueryLatestOpenCode)"

interpretation opencode: util_provider opencode_iface opencode_resetDetected "''opencode tracker: ''"
  unfolding opencode_iface_def util_provider_def by simp (rule opencode_store.cycle_store_axioms)

text \<open>From an empty table the OpenCode tracker keeps, for every quota, the cycles of its
  readings, cut into segments at the detected resets.\<close>

theorem opencode_history:
  assumes "util_ok s" "util_view n s = empty_quota" "\<forall>sn \<in> set sns. util_valid sn"
  shows "util_view n (poll_all opencode_Process sns s) = util_cycles_of opencode_resetDetected n sns"
  unfolding opencode_Process_def using assms by (intro opencode.history)

theorem opencode_history_witness:
  "util_view ''total'' (poll_all opencode_Process [plan_poll Hour 10 (5 * Hour), plan_poll (6 * Hour) 40 (61 * Hour div 10)] fresh_plan) =
     \<lparr>qt_open = Some \<lparr>cyc_id = 0, cyc_key = ''total'', cyc_start = Hour, cyc_end = None,
        cyc_reset = Some (5 * Hour), cyc_peak = 40, cyc_delta = 30\<rparr>,
      qt_done = {#}, qt_last = Some 40\<rparr>"
  by (subst opencode_history [OF fresh_plan_ok])
     (simp_all add: plan_poll_def util_valid_def util_cycles_of_def util_readings_def util_reading_def util_over_def
        opencode_resetDetected_def time_defs time_Sub_def dur_abs_def quota_of_segments_def open_seg_def done_seg_def tick_cycle_def end_by_def with_stats_def
        util_policy_def standard_tick_def add_delta_def raise_peak_def fsub_def fadd_def open_at_def finish_at_def)

text \<open>A reading that announces a reset still to come ends the cycle only if that reset lies more
  than ninety minutes from the stored one, even when the stored reset time has passed.\<close>

theorem opencode_drift:
  assumes "capturedAt < r'" "\<bar>r' - r\<bar> < 2 ^ 63"
  shows "opencode_resetDetected (Some r) capturedAt (Some r') \<longleftrightarrow> 90 * Minute < \<bar>r' - r\<bar>"
  using assms dur_abs_gt_iff [of "90 * Minute" r' r]
  by (simp add: opencode_resetDetected_def time_defs)

theorem opencode_drift_witness:
  "\<not> opencode_resetDetected (Some (5 * Hour)) (6 * Hour) (Some (61 * Hour div 10))"
  by (subst opencode_drift) simp_all

end
