(* ===== verification/CodexTracker.thy ===== *)
theory CodexTracker
  imports TrackerBase
begin

text \<open>
  Codex (\<open>internal/tracker/codex_tracker.go\<close>, \<open>internal/store/codex_store.go\<close>): one set of quotas per
  account. The reported reset time rolls on with every answer, so the stored one follows it, and a
  jump of the reset time counts as a reset only together with a drop of the utilization.
\<close>

subsection \<open>Snapshots\<close>

record codex_quota =
  cq_Name :: string
  cq_Utilization :: f64
  cq_ResetsAt :: "time option"
  cq_Status :: string

record codex_meta =
  cm_AccountID :: int
  cm_PlanType :: string
  cm_CreditsBalance :: "f64 option"
  cm_RawJSON :: string

type_synonym codex_snapshot = "(codex_meta, codex_quota) snap"

definition resolve_account :: "int \<Rightarrow> int" where
  "resolve_account accountID = (if accountID = 0 then DefaultCodexAccountID else accountID)"

definition InsertCodexSnapshot :: "codex_snapshot \<Rightarrow> (codex_snapshot tbl, int) op" where
  "InsertCodexSnapshot snapshot = sql_insert_snap ''failed to insert codex snapshot: ''
     (\<lambda>q. ''failed to insert codex quota value '' @ cq_Name q @ '': '')
     (snapshot\<lparr>snap_meta := snap_meta snapshot\<lparr>cm_AccountID := resolve_account (cm_AccountID (snap_meta snapshot))\<rparr>\<rparr>)"

definition QueryLatestCodex :: "int \<Rightarrow> (codex_snapshot tbl, codex_snapshot option) op" where
  "QueryLatestCodex accountID =
     sql_latest_snap ''failed to query latest codex: '' ''failed to query codex quota values: ''
       (\<lambda>m. cm_AccountID m = resolve_account accountID) (\<lambda>m. m\<lparr>cm_RawJSON := []\<rparr>) cq_Name (\<lambda>_. True)"

subsection \<open>The tracker\<close>

text \<open>An account without an inner map has no last values.\<close>

record codex_tracker = "(int \<times> string, f64, time option) trk" +
  cx_snaps :: "codex_snapshot tbl"
  cx_lastValues :: "int \<Rightarrow> string \<Rightarrow> f64 option"
  cx_lastResets :: "int \<Rightarrow> string \<Rightarrow> time option"
  cx_hasLast :: "int \<Rightarrow> bool"

definition codex_set_value :: "int \<Rightarrow> codex_quota \<Rightarrow> codex_tracker \<Rightarrow> codex_tracker" where
  "codex_set_value a quota s =
     s\<lparr>cx_lastValues := (cx_lastValues s)(a := (cx_lastValues s a)(cq_Name quota \<mapsto> cq_Utilization quota))\<rparr>"

definition codex_set_reset :: "int \<Rightarrow> codex_quota \<Rightarrow> codex_tracker \<Rightarrow> codex_tracker" where
  "codex_set_reset a quota s =
     (case cq_ResetsAt quota of
        Some r \<Rightarrow> s\<lparr>cx_lastResets := (cx_lastResets s)(a := (cx_lastResets s a)(cq_Name quota \<mapsto> r))\<rparr>
      | None \<Rightarrow> s)"

definition codex_open :: "string \<Rightarrow> int \<Rightarrow> codex_quota \<Rightarrow> time \<Rightarrow> (codex_tracker, unit) op" where
  "codex_open msg a quota capturedAt =
     bindE (wrapE msg (onStore (CreateCodexCycle a (cq_Name quota) capturedAt (cq_ResetsAt quota))))
       (\<lambda>_. wrapE ''failed to set initial peak: ''
              (onStore (UpdateCodexCycle a (cq_Name quota) (cq_Utilization quota) 0)))"

text \<open>The result of the detection: \<open>resetDetected\<close> and \<open>updateCycleResetAt\<close>.\<close>

definition codex_detect :: "int \<Rightarrow> codex_quota \<Rightarrow> time \<Rightarrow> CodexResetCycle \<Rightarrow> codex_tracker \<Rightarrow> bool \<times> bool" where
  "codex_detect a quota capturedAt c s =
     (if (case cyc_reset c of Some r \<Rightarrow> time_After capturedAt (time_Add r (2 * Minute)) | None \<Rightarrow> False)
      then (True, False)
      else case (cq_ResetsAt quota, cyc_reset c) of
        (Some r', Some r) \<Rightarrow>
          (let refReset = (case cx_lastResets s a (cq_Name quota) of Some l \<Rightarrow> l | None \<Rightarrow> r);
               diff = dur_abs (time_Sub r' refReset);
               reset = (60 * Minute < diff \<and> cx_hasLast s a \<and>
                 (case cx_lastValues s a (cq_Name quota) of
                    Some lastUtil \<Rightarrow> fadd (cq_Utilization quota) 2 < lastUtil | None \<Rightarrow> False))
           in (reset, \<not> reset))
      | (Some _, None) \<Rightarrow> (False, True)
      | (None, _) \<Rightarrow> (False, False))"

definition codex_last :: "codex_tracker \<Rightarrow> int \<Rightarrow> string \<Rightarrow> f64 option" where
  "codex_last s a n = (if cx_hasLast s a then cx_lastValues s a n else None)"

definition codex_rollover ::
    "int \<Rightarrow> codex_quota \<Rightarrow> time \<Rightarrow> CodexResetCycle \<Rightarrow> (codex_tracker, unit) op" where
  "codex_rollover a quota capturedAt c =
     withE (\<lambda>s.
       let cycleEndTime = (case cyc_reset c of
             Some r \<Rightarrow> if time_After capturedAt r then r else capturedAt | None \<Rightarrow> capturedAt);
           (peak, delta) = (case codex_last s a (cq_Name quota) of
             Some lastUtil \<Rightarrow> (raise_peak (cyc_peak c) (cq_Utilization quota),
                             add_delta (cyc_delta c) lastUtil (cq_Utilization quota))
           | None \<Rightarrow> (cyc_peak c, cyc_delta c))
       in thenE (wrapE ''failed to close cycle: ''
                  (onStore (CloseCodexCycle a (cq_Name quota) cycleEndTime peak delta)))
            (thenE (codex_open ''failed to create new cycle: '' a quota capturedAt)
              (thenE (modifyE (codex_set_value a quota))
                (thenE (modifyE (codex_set_reset a quota)) (modifyE (fireReset (cq_Name quota)))))))"

text \<open>With a snapshot processed but no last value of this quota nothing is written.\<close>

definition codex_tick ::
    "bool \<Rightarrow> int \<Rightarrow> codex_quota \<Rightarrow> CodexResetCycle \<Rightarrow> (codex_tracker, unit) op" where
  "codex_tick updateCycleResetAt a quota c =
     thenE (if updateCycleResetAt then
              thenE (wrapE ''failed to update cycle reset timestamp: ''
                      (onStore (UpdateCodexCycleResetsAt a (cq_Name quota) (cq_ResetsAt quota))))
                (modifyE (codex_set_reset a quota))
            else returnE ())
    (thenE (withE (\<lambda>s.
       if cx_hasLast s a then
         (case cx_lastValues s a (cq_Name quota) of
            Some lastUtil \<Rightarrow>
              wrapE ''failed to update cycle: ''
                (onStore (UpdateCodexCycle a (cq_Name quota) (raise_peak (cyc_peak c) (cq_Utilization quota))
                  (add_delta (cyc_delta c) lastUtil (cq_Utilization quota))))
          | None \<Rightarrow> returnE ())
       else if cyc_peak c < cq_Utilization quota then
         wrapE ''failed to update cycle: ''
           (onStore (UpdateCodexCycle a (cq_Name quota) (cq_Utilization quota) (cyc_delta c)))
       else returnE ()))
     (modifyE (codex_set_value a quota)))"

definition codex_processQuota :: "int \<Rightarrow> codex_quota \<Rightarrow> time \<Rightarrow> (codex_tracker, unit) op" where
  "codex_processQuota a quota capturedAt =
     bindE (wrapE ''failed to query active cycle: '' (onStore (QueryActiveCodexCycle a (cq_Name quota))))
       (\<lambda>cycle. case cycle of
          None \<Rightarrow> thenE (codex_open ''failed to create cycle: '' a quota capturedAt)
                    (thenE (modifyE (codex_set_value a quota)) (modifyE (codex_set_reset a quota)))
        | Some c \<Rightarrow> withE (\<lambda>s.
            case codex_detect a quota capturedAt c s of (resetDetected, updateCycleResetAt) \<Rightarrow>
              if resetDetected then codex_rollover a quota capturedAt c
              else codex_tick updateCycleResetAt a quota c))"

definition codex_Process :: "codex_snapshot \<Rightarrow> (codex_tracker, unit) op" where
  "codex_Process snapshot =
     (let a = resolve_account (cm_AccountID (snap_meta snapshot))
      in thenE (forE (\<lambda>quota. wrapE (''codex tracker: '' @ cq_Name quota @ '': '')
                   (codex_processQuota a quota (snap_CapturedAt snapshot))) (snap_Quotas snapshot))
           (modifyE (\<lambda>s. s\<lparr>cx_hasLast := (cx_hasLast s)(a := True)\<rparr>)))"

definition codex_UsageSummary ::
    "time \<Rightarrow> time \<Rightarrow> time \<Rightarrow> time \<Rightarrow> int \<Rightarrow> string \<Rightarrow> (codex_tracker, util_summary) op" where
  "codex_UsageSummary now1 now2 now3 now4 accountID quotaName =
     (let a = resolve_account accountID
      in bindE (wrapE ''failed to query active cycle: '' (onStore (QueryActiveCodexCycle a quotaName))) (\<lambda>activeCycle.
         bindE (wrapE ''failed to query cycle history: '' (onStore (QueryCodexCycleHistory a quotaName []))) (\<lambda>history.
           case activeCycle of
             None \<Rightarrow> returnE (util_summary_history quotaName history)
           | Some c \<Rightarrow>
               bindE (wrapE ''failed to query latest: ''
                 (liftE cx_snaps (\<lambda>t s. s\<lparr>cx_snaps := t\<rparr>) (QueryLatestCodex a))) (\<lambda>latest.
               let sm = util_summary_active now1 c (util_summary_history quotaName history)
               in returnE (case latest of
                    None \<Rightarrow> sm
                  | Some sn \<Rightarrow> util_summary_rate now3 now4 c
                      (util_summary_current now2 cq_Name cq_Utilization cq_ResetsAt quotaName (snap_Quotas sn) sm))))))"

subsection \<open>What every run keeps\<close>

lemma codex_state [simp]:
  "trk_store (codex_set_value a q s) = trk_store s" "trk_store (codex_set_reset a q s) = trk_store s"
  "cx_hasLast (codex_set_value a q s) = cx_hasLast s" "cx_hasLast (codex_set_reset a q s) = cx_hasLast s"
  "cx_lastValues (codex_set_reset a q s) = cx_lastValues s" "cx_lastResets (codex_set_value a q s) = cx_lastResets s"
  "cx_lastValues (codex_set_value a q s) = (cx_lastValues s)(a := (cx_lastValues s a)(cq_Name q \<mapsto> cq_Utilization q))"
  "cx_lastResets (codex_set_reset a q s) = (case cq_ResetsAt q of
      Some r \<Rightarrow> (cx_lastResets s)(a := (cx_lastResets s a)(cq_Name q \<mapsto> r)) | None \<Rightarrow> cx_lastResets s)"
  "cx_hasLast (fireReset n s) = cx_hasLast s" "cx_lastValues (fireReset n s) = cx_lastValues s"
  "cx_lastResets (fireReset n s) = cx_lastResets s"
  by (auto simp: codex_set_value_def codex_set_reset_def fireReset_def split: option.split)

lemmas codex_wp_query = codex_store.wp_query [where q = "(a, n)", simplified] for a n
lemmas codex_wp_calls =
  codex_store.wp_create [where q = "(a, n)", simplified] codex_store.wp_update [where q = "(a, n)", simplified]
  codex_store.wp_close [where q = "(a, n)", simplified] codex_store.wp_reset [where q = "(a, n)", simplified] for a n
lemmas codex_healthy_wp =
  codex_store.healthy_wp(1) [where q = "(a, n)", simplified] codex_store.healthy_wp(2) [where q = "(a, n)", simplified]
  codex_store.healthy_wp(3) [where q = "(a, n)", simplified] codex_store.healthy_wp(4) [where q = "(a, n)", simplified]
  codex_store.healthy_wp_reset [where q = "(a, n)", simplified] for a n

lemmas codex_defs = codex_processQuota_def codex_open_def codex_rollover_def codex_tick_def

lemma codex_rollover_keeps:
  "keeps t0 (trk_store s) \<Longrightarrow>
   wp (codex_rollover a q cap c) (\<lambda>_ s'. keeps t0 (trk_store s')) (\<lambda>_ s'. keeps t0 (trk_store s')) s"
  by (auto simp: codex_rollover_def codex_open_def wps Let_def intro!: codex_wp_calls split: option.split)

lemma codex_tick_keeps:
  "keeps t0 (trk_store s) \<Longrightarrow>
   wp (codex_tick u a q c) (\<lambda>_ s'. keeps t0 (trk_store s')) (\<lambda>_ s'. keeps t0 (trk_store s')) s"
  by (cases u) (auto simp: codex_tick_def wps intro!: codex_wp_calls split: option.split)

lemma codex_processQuota_keeps:
  "keeps t0 (trk_store s) \<Longrightarrow>
   wp (codex_processQuota a q cap) (\<lambda>_ s'. keeps t0 (trk_store s')) (\<lambda>_ s'. keeps t0 (trk_store s')) s"
  unfolding codex_processQuota_def wp_bindE wp_wrapE
  by (erule codex_wp_query)
     (auto simp: codex_open_def wps intro!: codex_wp_calls codex_rollover_keeps codex_tick_keeps split: option.split prod.split)

interpretation codex_tracker: quota_tracker codex_Process
  by unfold_locales
     (auto simp: codex_Process_def Let_def wps intro!: wp_mono [OF wp_forE_inv] codex_processQuota_keeps)

subsection \<open>What the tracker computes\<close>

definition codex_policy :: "(int \<times> string, f64, f64, time option) policy" where
  "codex_policy = \<lparr>
     pol_init = (\<lambda>v. (v, 0)),
     pol_over = (\<lambda>c lst rd. case cyc_reset c of
         Some r \<Rightarrow> r + 2 * Minute < rd_at rd \<or>
           (case (rd_reset rd, lst) of
              (Some r', Some l) \<Rightarrow> 60 * Minute < dur_abs (time_Sub r' r) \<and> fadd (rd_value rd) 2 < l
            | _ \<Rightarrow> False)
       | None \<Rightarrow> False),
     pol_end = (\<lambda>c rd. case cyc_reset c of Some r \<Rightarrow> min r (rd_at rd) | None \<Rightarrow> rd_at rd),
     pol_close = (\<lambda>lst v st. case lst of Some _ \<Rightarrow> standard_tick lst v st | None \<Rightarrow> st),
     pol_tick = standard_tick, pol_reset = follow_reset\<rparr>"

definition codex_reading :: "time \<Rightarrow> codex_quota \<Rightarrow> (f64, time option) reading" where
  "codex_reading capturedAt q = \<lparr>rd_at = capturedAt, rd_value = cq_Utilization q, rd_reset = cq_ResetsAt q\<rparr>"

definition codex_readings :: "int \<times> string \<Rightarrow> codex_snapshot \<Rightarrow> (f64, time option) reading list" where
  "codex_readings k sn = map (codex_reading (snap_CapturedAt sn))
     (filter (\<lambda>q. (resolve_account (cm_AccountID (snap_meta sn)), cq_Name q) = k) (snap_Quotas sn))"

definition codex_view :: "int \<times> string \<Rightarrow> codex_tracker \<Rightarrow> (int \<times> string, f64, f64, time option) quota" where
  "codex_view k s = quota_view k (cx_lastValues s (fst k) (snd k)) (trk_store s)"

text \<open>Every open cycle was opened by this tracker: its quota has a last value, and a remembered reset time is
  the stored one.\<close>

definition codex_inv :: "codex_tracker \<Rightarrow> bool" where
  "codex_inv s \<longleftrightarrow> healthy (trk_store s) \<and> wf_cycles (trk_store s) \<and>
     (\<forall>a n c. active (a, n) (trk_store s) = Some c \<longrightarrow> cx_lastValues s a n \<noteq> None \<and>
        (cyc_reset c = None \<or> cx_lastResets s a n = None \<or> cx_lastResets s a n = cyc_reset c))"

definition codex_ok :: "codex_tracker \<Rightarrow> bool" where
  "codex_ok s \<longleftrightarrow> codex_inv s \<and> (\<forall>a. cx_hasLast s a \<or> cx_lastValues s a = Map.empty)"

lemma codex_key_nonzero [simp]: "a \<noteq> 0 \<Longrightarrow> codex_key a n = (a, n)"
  by (simp add: codex_key_def)

lemma codex_detect_policy:
  assumes "cx_hasLast s a" "cx_lastValues s a (cq_Name q) = Some l"
    and "cyc_reset c = None \<or> cx_lastResets s a (cq_Name q) = None \<or> cx_lastResets s a (cq_Name q) = cyc_reset c"
  shows "codex_detect a q cap c s =
    (let over = pol_over codex_policy (anon c) (Some l) (codex_reading cap q) in (over, \<not> over \<and> cq_ResetsAt q \<noteq> None))"
  using assms
  by (auto simp: codex_detect_def codex_policy_def codex_reading_def time_defs Let_def split: option.splits)

lemma codex_policy_sel:
  "pol_end codex_policy c rd = (case cyc_reset c of Some r \<Rightarrow> min r (rd_at rd) | None \<Rightarrow> rd_at rd)"
  "pol_close codex_policy lst v st = (case lst of Some _ \<Rightarrow> standard_tick lst v st | None \<Rightarrow> st)"
  "pol_init codex_policy v = (v, 0)" "pol_tick codex_policy = standard_tick" "pol_reset codex_policy = follow_reset"
  by (simp_all add: codex_policy_def)

definition codex_post :: "codex_tracker \<Rightarrow> int \<Rightarrow> codex_quota \<Rightarrow> time \<Rightarrow> codex_tracker \<Rightarrow> bool" where
  "codex_post s a q cap s' \<longleftrightarrow> codex_inv s' \<and> cx_hasLast s' = cx_hasLast s \<and>
     cx_lastValues s' = (cx_lastValues s)(a := (cx_lastValues s a)(cq_Name q \<mapsto> cq_Utilization q)) \<and>
     codex_view (a, cq_Name q) s' =
       quota_step codex_policy (a, cq_Name q) (codex_reading cap q) (codex_view (a, cq_Name q) s) \<and>
     (\<forall>j. j \<noteq> (a, cq_Name q) \<longrightarrow> codex_view j s' = codex_view j s)"

lemmas codex_steps = codex_post_def codex_inv_def codex_view_def quota_simps codex_reading_def codex_policy_sel
  standard_tick_def follow_reset_def time_defs

lemma codex_first_refines:
  assumes "codex_inv s" "a \<noteq> 0" "active (a, cq_Name q) (trk_store s) = None"
  shows "wp (codex_processQuota a q cap) (\<lambda>_. codex_post s a q cap) (\<lambda>_ _. False) s"
  using assms
  by (simp add: codex_processQuota_def codex_open_def wps codex_healthy_wp codex_inv_def)
     (auto simp: codex_steps split: option.splits)

lemma codex_rollover_refines:
  assumes "codex_inv s" "a \<noteq> 0" "active (a, cq_Name q) (trk_store s) = Some c"
    and "cx_hasLast s a" "cx_lastValues s a (cq_Name q) = Some l"
    and "pol_over codex_policy (anon c) (Some l) (codex_reading cap q)"
  shows "wp (codex_rollover a q cap c) (\<lambda>_. codex_post s a q cap) (\<lambda>_ _. False) s"
  using assms
  by (simp add: codex_rollover_def codex_open_def wps codex_healthy_wp codex_inv_def codex_last_def Let_def)
     (auto simp: codex_steps split: option.splits)

lemma codex_tick_refines:
  assumes "codex_inv s" "a \<noteq> 0" "active (a, cq_Name q) (trk_store s) = Some c"
    and "cx_hasLast s a" "cx_lastValues s a (cq_Name q) = Some l"
    and "\<not> pol_over codex_policy (anon c) (Some l) (codex_reading cap q)"
  shows "wp (codex_tick (cq_ResetsAt q \<noteq> None) a q c) (\<lambda>_. codex_post s a q cap) (\<lambda>_ _. False) s"
  using assms
  apply (cases "cq_ResetsAt q")
  apply (simp_all add: codex_tick_def wps codex_healthy_wp codex_inv_def)
  apply (auto simp: codex_steps split: option.splits)
  apply (auto intro!: cycle.equality simp: anon_fields)
  done

lemma codex_processQuota_refines:
  assumes "codex_inv s" "a \<noteq> 0" "cx_hasLast s a \<or> cx_lastValues s a (cq_Name q) = None"
  shows "wp (codex_processQuota a q cap) (\<lambda>_. codex_post s a q cap) (\<lambda>_ _. False) s"
proof (cases "active (a, cq_Name q) (trk_store s)")
  case None
  with assms show ?thesis by (intro codex_first_refines)
next
  case (Some c)
  then have known: "cx_lastValues s a (cq_Name q) \<noteq> None \<and>
      (cyc_reset c = None \<or> cx_lastResets s a (cq_Name q) = None \<or> cx_lastResets s a (cq_Name q) = cyc_reset c)"
    using assms(1) unfolding codex_inv_def by blast
  then obtain l where l: "cx_lastValues s a (cq_Name q) = Some l" "cx_hasLast s a"
      "cyc_reset c = None \<or> cx_lastResets s a (cq_Name q) = None \<or> cx_lastResets s a (cq_Name q) = cyc_reset c"
    using assms(3) by auto
  have "healthy (trk_store s)" "wf_cycles (trk_store s)" using assms(1) by (auto simp: codex_inv_def)
  then show ?thesis
    using codex_rollover_refines [OF assms(1,2) Some l(2,1), of cap] codex_tick_refines [OF assms(1,2) Some l(2,1), of cap]
    by (simp add: codex_processQuota_def wps codex_healthy_wp assms(2) Some codex_detect_policy [OF l(2,1,3)] Let_def)
qed

interpretation codex_refinement: refining_tracker codex_Process codex_ok
    "\<lambda>sn. distinct (map cq_Name (snap_Quotas sn))" "{k :: int \<times> string. fst k \<noteq> 0}" "\<lambda>k. k" codex_view codex_readings codex_policy
proof unfold_locales
  fix s :: codex_tracker and sn :: codex_snapshot
  assume ok: "codex_ok s" and dist: "distinct (map cq_Name (snap_Quotas sn))"
  define a where "a = resolve_account (cm_AccountID (snap_meta sn))"
  have a: "a \<noteq> 0" by (simp add: a_def resolve_account_def DefaultCodexAccountID_def)
  let ?I = "\<lambda>s'. codex_inv s' \<and> cx_hasLast s' = cx_hasLast s \<and> (\<forall>b. b \<noteq> a \<longrightarrow> cx_lastValues s' b = cx_lastValues s b)"
  have "wp (forE (\<lambda>quota. wrapE (''codex tracker: '' @ cq_Name quota @ '': '')
                   (codex_processQuota a quota (snap_CapturedAt sn))) (snap_Quotas sn))
    (\<lambda>_ s'. ?I s' \<and> (\<forall>j. codex_view j s' = fold (quota_step codex_policy j)
       (map (codex_reading (snap_CapturedAt sn)) (filter (\<lambda>q. (a, cq_Name q) = j) (snap_Quotas sn))) (codex_view j s)))
    (\<lambda>_ _. False) s"
  proof (rule wp_forE_views [where R = "\<lambda>k s. cx_hasLast s (fst k) \<or> cx_lastValues s (fst k) (snd k) = None"])
    show "distinct (map (\<lambda>q. (a, cq_Name q)) (snap_Quotas sn))"
      using dist by (simp add: distinct_map inj_on_def)
  qed (use ok a in \<open>auto simp: wps codex_ok_def codex_post_def intro!: wp_mono [OF codex_processQuota_refines] split: if_splits\<close>)
  then show "wp (codex_Process sn) (\<lambda>_ s'. codex_ok s' \<and> (\<forall>k \<in> {k. fst k \<noteq> 0}.
      codex_view k s' = fold (quota_step codex_policy k) (codex_readings k sn) (codex_view k s)))
    (\<lambda>_ _. False) s"
    unfolding codex_Process_def Let_def a_def [symmetric] wp_thenE
    by (rule wp_mono) (use ok in \<open>auto simp: wps codex_ok_def codex_inv_def codex_view_def codex_readings_def a_def\<close>)
qed

text \<open>A segment of Codex readings ends two minutes after the last reset time it reported, or when the reset time
  jumps by more than an hour and the utilization drops by more than two points.\<close>

definition codex_over :: "(f64, time option) reading list \<Rightarrow> (f64, time option) reading \<Rightarrow> bool" where
  "codex_over seg rd \<longleftrightarrow> (case foldl follow_reset None (map rd_reset seg) of
       Some r \<Rightarrow> r + 2 * Minute < rd_at rd \<or>
         (case rd_reset rd of
            Some r' \<Rightarrow> 60 * Minute < dur_abs (time_Sub r' r) \<and> fadd (rd_value rd) 2 < rd_value (List.last seg)
          | None \<Rightarrow> False)
     | None \<Rightarrow> False)"

lemma codex_policy_over: "seg \<noteq> [] \<Longrightarrow> policy_over codex_policy k seg rd = codex_over seg rd"
  using open_seg_reset_follows [of codex_policy seg k]
  by (auto simp: policy_over_def codex_over_def codex_policy_sel) (auto simp: codex_policy_def split: option.splits)

subsection \<open>Properties\<close>

text \<open>C4: from an empty table, for every account and quota, the Codex tracker keeps exactly the cycles
  of the segments of that quota's readings; accounts do not mix.\<close>

theorem codex_history:
  assumes "codex_ok s" "codex_view (a, n) s = empty_quota" "a \<noteq> 0"
    and "\<forall>sn \<in> set sns. distinct (map cq_Name (snap_Quotas sn))"
  shows "codex_view (a, n) (poll_all codex_Process sns s) =
    quota_of_segments codex_policy (a, n) (segments codex_over (concat (map (codex_readings (a, n)) sns)))"
  by (subst segments_cong [OF codex_policy_over, symmetric], assumption)
     (rule codex_refinement.run_segments, use assms in auto)

definition fresh_codex :: codex_tracker where
  "fresh_codex = \<lparr>trk_store = empty_tbl, trk_onReset = True, trk_resets = [], cx_snaps = empty_tbl,
     cx_lastValues = \<lambda>_. Map.empty, cx_lastResets = \<lambda>_. Map.empty, cx_hasLast = \<lambda>_. False\<rparr>"

lemma fresh_codex_ok: "codex_ok fresh_codex" "codex_view k fresh_codex = empty_quota"
  by (simp_all add: codex_ok_def codex_inv_def fresh_codex_def healthy_def empty_tbl_def wf_empty [unfolded empty_tbl_def]
      codex_view_def quota_view_def active_def closed_cycles_def empty_quota_def)

definition codex_poll :: "int \<Rightarrow> time \<Rightarrow> f64 \<Rightarrow> time \<Rightarrow> codex_snapshot" where
  "codex_poll a t v r = \<lparr>snap_ID = 0, snap_CapturedAt = t,
     snap_meta = \<lparr>cm_AccountID = a, cm_PlanType = ''plus'', cm_CreditsBalance = None, cm_RawJSON = []\<rparr>,
     snap_Quotas = [\<lparr>cq_Name = ''five_hour'', cq_Utilization = v, cq_ResetsAt = Some r, cq_Status = []\<rparr>]\<rparr>"

text \<open>Two accounts; on the first the reset time rolls on for two readings, then jumps as the utilization drops.\<close>

theorem codex_history_witness:
  "codex_view (1, ''five_hour'') (poll_all codex_Process [codex_poll 0 Hour 10 (6 * Hour), codex_poll 2 Hour 70 (3 * Hour),
      codex_poll 0 (2 * Hour) 30 (7 * Hour), codex_poll 0 (3 * Hour) 4 (12 * Hour)] fresh_codex) =
     \<lparr>qt_open = Some \<lparr>cyc_id = 0, cyc_key = (1, ''five_hour''), cyc_start = 3 * Hour, cyc_end = None,
        cyc_reset = Some (12 * Hour), cyc_peak = 4, cyc_delta = 0\<rparr>,
      qt_done = {#\<lparr>cyc_id = 0, cyc_key = (1, ''five_hour''), cyc_start = Hour, cyc_end = Some (3 * Hour),
        cyc_reset = Some (7 * Hour), cyc_peak = 30, cyc_delta = 20\<rparr>#},
      qt_last = Some 4\<rparr>"
  by (subst codex_history [OF fresh_codex_ok])
     (simp_all add: codex_poll_def codex_readings_def codex_reading_def resolve_account_def DefaultCodexAccountID_def codex_over_def
        follow_reset_def time_Sub_def dur_abs_def quota_of_segments_def open_seg_def done_seg_def tick_cycle_def end_by_def
        with_stats_def codex_policy_sel standard_tick_def add_delta_def raise_peak_def fsub_def fadd_def open_at_def finish_at_def)

text \<open>Whatever statements fail in a run of polls, the table of Codex cycles stays well-formed: at
  most one open cycle per account and quota, closed cycles unchanged, nothing deleted or renumbered.\<close>

theorem codex_run_safe:
  "wf_cycles (trk_store s) \<Longrightarrow> safe_run (trk_store s) (trk_store (poll_all codex_Process sns s))"
  by (rule codex_tracker.run_safe)

theorem codex_run_safe_witness:
  "safe_run (empty_tbl\<lparr>db_faults := [None, None, None, Some ''locked'']\<rparr>)
     (trk_store (poll_all codex_Process [codex_poll 0 Hour 10 (6 * Hour), codex_poll 0 (3 * Hour) 4 (12 * Hour)]
        (fresh_codex\<lparr>trk_store := empty_tbl\<lparr>db_faults := [None, None, None, Some ''locked'']\<rparr>\<rparr>)))"
  using codex_run_safe [where s = "fresh_codex\<lparr>trk_store := empty_tbl\<lparr>db_faults := [None, None, None, Some ''locked'']\<rparr>\<rparr>"]
  by (simp add: wf_cycles_def empty_tbl_def)

text \<open>A quota that an earlier cycle of the store holds but that the tracker has no last value of,
  once it has processed some snapshot of the account, is not written on its next reading within the
  cycle: a utilization above the stored peak does not raise it.\<close>

theorem codex_peak_skipped:
  assumes "healthy (trk_store s)" "wf_cycles (trk_store s)" "a \<noteq> 0" "active (a, cq_Name q) (trk_store s) = Some c"
    and "cx_hasLast s a" "cx_lastValues s a (cq_Name q) = None" "cq_ResetsAt q = None" "cyc_reset c = None"
  shows "\<exists>s'. codex_processQuota a q cap s = (Inr (), s') \<and> active (a, cq_Name q) (trk_store s') = Some c \<and>
    cx_lastValues s' a (cq_Name q) = Some (cq_Utilization q)"
proof -
  have "wp (codex_processQuota a q cap) (\<lambda>_ s'. active (a, cq_Name q) (trk_store s') = Some c \<and>
      cx_lastValues s' a (cq_Name q) = Some (cq_Utilization q)) (\<lambda>_ _. False) s"
    using assms by (simp add: codex_processQuota_def wps codex_healthy_wp codex_detect_def codex_tick_def)
  then show ?thesis by (auto simp: wp_def split: prod.splits sum.splits)
qed

text \<open>After a restart the store holds an open cycle with peak 10; a first snapshot without the quota sets the
  account's flag; the next reading, 90, leaves the peak at 10.\<close>

definition restarted_codex :: codex_tracker where
  "restarted_codex = fresh_codex\<lparr>trk_store := empty_tbl\<lparr>db_rows := [\<lparr>cyc_id = 1, cyc_key = (1, ''five_hour''), cyc_start = Hour,
     cyc_end = None, cyc_reset = None, cyc_peak = 10, cyc_delta = 0\<rparr>], db_seq := 1\<rparr>, cx_hasLast := (\<lambda>_. False)(1 := True)\<rparr>"

theorem codex_peak_skipped_witness:
  "\<exists>s'. codex_processQuota 1 \<lparr>cq_Name = ''five_hour'', cq_Utilization = 90, cq_ResetsAt = None, cq_Status = []\<rparr> (2 * Hour)
     restarted_codex = (Inr (), s') \<and> map_option cyc_peak (active (1, ''five_hour'') (trk_store s')) = Some 10"
proof -
  let ?q = "\<lparr>cq_Name = ''five_hour'', cq_Utilization = 90, cq_ResetsAt = None, cq_Status = []\<rparr>"
  let ?c = "hd (db_rows (trk_store restarted_codex))"
  have "active (1, cq_Name ?q) (trk_store restarted_codex) = Some ?c" "cyc_reset ?c = None" "cyc_peak ?c = 10"
    "healthy (trk_store restarted_codex)" "wf_cycles (trk_store restarted_codex)"
    "cx_hasLast restarted_codex 1" "cx_lastValues restarted_codex 1 (cq_Name ?q) = None"
    by (simp_all add: restarted_codex_def fresh_codex_def healthy_def wf_cycles_def empty_tbl_def active_def is_active_def)
  then show ?thesis
    using codex_peak_skipped [of restarted_codex 1 ?q ?c "2 * Hour"] by auto
qed

end
