(* ===== verification/GeminiTracker.thy ===== *)
theory GeminiTracker
  imports TrackerBase
begin

text \<open>
  Gemini (\<open>internal/tracker/gemini_tracker.go\<close>, \<open>internal/api/gemini_types.go\<close>,
  \<open>internal/store/gemini_store.go\<close>): the API reports a remaining fraction per model; models are pooled in
  families first and the tracker keeps one cycle per family, in terms of the usage, one minus the
  fraction. Reset times roll on and are followed, as for Codex.
\<close>

subsection \<open>Models and families\<close>

record gemini_quota =
  gq_ModelID :: string
  gq_RemainingFraction :: f64
  gq_UsagePercent :: f64
  gq_ResetTime :: "time option"
  gq_TimeUntilReset :: duration

record gemini_family =
  gf_FamilyID :: string
  gf_DisplayName :: string
  gf_Members :: "string list"
  gf_RemainingFraction :: f64
  gf_UsagePercent :: f64
  gf_ResetTime :: "time option"
  gf_TimeUntilReset :: duration

text \<open>\<open>strings.Contains\<close>, and \<open>strings.ToLower\<close> on the letters that can make a difference to it here.\<close>

fun contains :: "string \<Rightarrow> string \<Rightarrow> bool" where
  "contains sub [] = (sub = [])"
| "contains sub (c # cs) = (take (length sub) (c # cs) = sub \<or> contains sub cs)"

definition to_lower :: "string \<Rightarrow> string" where
  "to_lower = map (\<lambda>c. let n = of_char c :: nat in if 65 \<le> n \<and> n \<le> 90 then char_of (n + 32) else c)"

definition GeminiModelFamily :: "string \<Rightarrow> string" where
  "GeminiModelFamily modelID =
     (let lower = to_lower modelID;
          hasFlash = contains ''flash'' lower;
          hasLite = contains ''lite'' lower;
          hasPro = contains ''pro'' lower
      in if hasFlash \<and> hasLite then ''flash_lite''
         else if hasPro then ''pro''
         else if hasFlash then ''flash''
         else modelID)"

definition GeminiFamilyDisplayName :: "string \<Rightarrow> string" where
  "GeminiFamilyDisplayName family =
     (if family = ''pro'' then ''Gemini Pro'' else if family = ''flash'' then ''Gemini Flash''
      else if family = ''flash_lite'' then ''Gemini Flash Lite'' else family)"

definition GeminiDisplayName :: "string \<Rightarrow> string" where
  "GeminiDisplayName modelID =
     (case map_of
        [(''gemini-2.5-pro'', ''Gemini 2.5 Pro''), (''gemini-2.5-flash'', ''Gemini 2.5 Flash''),
         (''gemini-2.5-flash-lite'', ''Gemini 2.5 Flash Lite''), (''gemini-3-pro-preview'', ''Gemini 3 Pro''),
         (''gemini-3-flash-preview'', ''Gemini 3 Flash''),
         (''gemini-3.1-flash-lite-preview'', ''Gemini 3.1 Flash Lite'')] modelID of
        Some name \<Rightarrow> name | None \<Rightarrow> modelID)"

text \<open>A family not in the table has the zero value of the map, the place of \<open>pro\<close>.\<close>

definition geminiFamilySortOrder :: "string \<Rightarrow> int" where
  "geminiFamilySortOrder f = (if f = ''flash'' then 1 else if f = ''flash_lite'' then 2 else 0)"

text \<open>The first model of a family gives its numbers; of the later ones only an earlier reset time counts.\<close>

definition new_family :: "gemini_quota \<Rightarrow> gemini_family" where
  "new_family q =
     \<lparr>gf_FamilyID = GeminiModelFamily (gq_ModelID q),
      gf_DisplayName = GeminiFamilyDisplayName (GeminiModelFamily (gq_ModelID q)),
      gf_Members = [GeminiDisplayName (gq_ModelID q)], gf_RemainingFraction = gq_RemainingFraction q,
      gf_UsagePercent = gq_UsagePercent q, gf_ResetTime = gq_ResetTime q,
      gf_TimeUntilReset = gq_TimeUntilReset q\<rparr>"

definition join_family :: "gemini_quota \<Rightarrow> gemini_family \<Rightarrow> gemini_family" where
  "join_family q a =
     (let a = a\<lparr>gf_Members := gf_Members a @ [GeminiDisplayName (gq_ModelID q)]\<rparr>
      in case gq_ResetTime q of
           Some r \<Rightarrow>
             if (case gf_ResetTime a of None \<Rightarrow> True | Some old \<Rightarrow> time_Before r old)
             then a\<lparr>gf_ResetTime := Some r, gf_TimeUntilReset := gq_TimeUntilReset q\<rparr>
             else a
         | None \<Rightarrow> a)"

fun add_member :: "gemini_quota \<Rightarrow> gemini_family list \<Rightarrow> gemini_family list" where
  "add_member q [] = [new_family q]"
| "add_member q (a # as) =
     (if gf_FamilyID a = GeminiModelFamily (gq_ModelID q) then join_family q a # as else a # add_member q as)"

text \<open>Go iterates over its map in no fixed order; the final sort is by a key that is unique per family.\<close>

definition AggregateGeminiByFamily :: "gemini_quota list \<Rightarrow> gemini_family list" where
  "AggregateGeminiByFamily quotas =
     sort_key (\<lambda>f. (geminiFamilySortOrder (gf_FamilyID f), gf_FamilyID f)) (fold add_member quotas [])"

lemma join_family_id [simp]: "gf_FamilyID (join_family q a) = gf_FamilyID a"
  by (simp add: join_family_def Let_def split: option.split)

lemma new_family_id [simp]: "gf_FamilyID (new_family q) = GeminiModelFamily (gq_ModelID q)"
  by (simp add: new_family_def)

lemma add_member_ids:
  "map gf_FamilyID (add_member q fs) =
     (if GeminiModelFamily (gq_ModelID q) \<in> set (map gf_FamilyID fs) then map gf_FamilyID fs
      else map gf_FamilyID fs @ [GeminiModelFamily (gq_ModelID q)])"
  by (induction fs) auto

lemma fold_add_member_distinct:
  "distinct (map gf_FamilyID fs) \<Longrightarrow> distinct (map gf_FamilyID (fold add_member quotas fs))"
proof (induction quotas arbitrary: fs)
  case (Cons q quotas)
  have "distinct (map gf_FamilyID (add_member q fs))"
    unfolding add_member_ids using Cons.prems by simp
  then show ?case using Cons.IH by simp
qed simp

lemma aggregate_distinct: "distinct (map gf_FamilyID (AggregateGeminiByFamily quotas))"
  using fold_add_member_distinct [of "[]" quotas]
  by (subst mset_eq_imp_distinct_iff [where ys = "map gf_FamilyID (fold add_member quotas [])"])
     (simp_all add: AggregateGeminiByFamily_def)

lemma mem_add_member:
  assumes "f \<in> set (add_member q fs)" "distinct (map gf_FamilyID fs)"
  shows "f \<in> set fs \<and> gf_FamilyID f \<noteq> GeminiModelFamily (gq_ModelID q) \<or>
    (\<exists>a \<in> set fs. gf_FamilyID a = GeminiModelFamily (gq_ModelID q) \<and> f = join_family q a) \<or>
    GeminiModelFamily (gq_ModelID q) \<notin> gf_FamilyID ` set fs \<and> f = new_family q"
  using assms by (induction fs) (auto split: if_splits intro: rev_image_eqI)

lemma join_family_fields [simp]:
  "gf_RemainingFraction (join_family q a) = gf_RemainingFraction a"
  "gf_UsagePercent (join_family q a) = gf_UsagePercent a"
  "gf_ResetTime (join_family q a) = (case gq_ResetTime q of None \<Rightarrow> gf_ResetTime a
     | Some r \<Rightarrow> (case gf_ResetTime a of None \<Rightarrow> Some r | Some old \<Rightarrow> Some (min old r)))"
  by (auto simp: join_family_def Let_def time_defs min_def split: option.split)

text \<open>The models of a family among the quotas, and the reset times they report.\<close>

definition members_of :: "string \<Rightarrow> gemini_quota list \<Rightarrow> gemini_quota list" where
  "members_of f quotas = filter (\<lambda>q. GeminiModelFamily (gq_ModelID q) = f) quotas"

definition reset_times :: "gemini_quota list \<Rightarrow> time set" where
  "reset_times qs = {r. \<exists>q \<in> set qs. gq_ResetTime q = Some r}"

lemma reset_times_simps [simp]:
  "reset_times [] = {}" "reset_times (qs @ rs) = reset_times qs \<union> reset_times rs"
  "reset_times [q] = (case gq_ResetTime q of Some r \<Rightarrow> {r} | None \<Rightarrow> {})" "finite (reset_times qs)"
proof -
  have "reset_times qs = (\<lambda>q. the (gq_ResetTime q)) ` {q \<in> set qs. gq_ResetTime q \<noteq> None}"
    by (force simp: reset_times_def)
  then show "finite (reset_times qs)" by simp
qed (auto simp: reset_times_def split: option.split)

lemma family_in:
  "gf_FamilyID ` set (fold add_member quotas []) = (\<lambda>q. GeminiModelFamily (gq_ModelID q)) ` set quotas"
proof (induction quotas rule: rev_induct)
  case (snoc q quotas)
  have "gf_FamilyID ` set (add_member q fs) = insert (GeminiModelFamily (gq_ModelID q)) (gf_FamilyID ` set fs)" for fs
    using arg_cong [OF add_member_ids [of q fs], of set] by auto
  with snoc show ?case by simp
qed simp

lemma family_values:
  assumes "f \<in> set (fold add_member quotas [])"
  shows "members_of (gf_FamilyID f) quotas \<noteq> [] \<and>
    gf_RemainingFraction f = gq_RemainingFraction (hd (members_of (gf_FamilyID f) quotas)) \<and>
    gf_UsagePercent f = gq_UsagePercent (hd (members_of (gf_FamilyID f) quotas)) \<and>
    gf_ResetTime f = (let rs = reset_times (members_of (gf_FamilyID f) quotas) in if rs = {} then None else Some (Min rs))"
  using assms
proof (induction quotas arbitrary: f rule: rev_induct)
  case (snoc q quotas)
  let ?fs = "fold add_member quotas []" and ?g = "GeminiModelFamily (gq_ModelID q)"
  have "distinct (map gf_FamilyID ?fs)" by (rule fold_add_member_distinct) simp
  then consider "f \<in> set ?fs" "gf_FamilyID f \<noteq> ?g" | a where "a \<in> set ?fs" "gf_FamilyID a = ?g" "f = join_family q a"
    | "?g \<notin> gf_FamilyID ` set ?fs" "f = new_family q"
    using mem_add_member [of f q ?fs] snoc.prems by auto
  then show ?case
  proof cases
    case 1
    with snoc.IH [of f] show ?thesis by (simp add: members_of_def)
  next
    case 2
    then have ms: "members_of (gf_FamilyID f) (quotas @ [q]) = members_of ?g quotas @ [q]" "members_of ?g quotas \<noteq> []"
      using snoc.IH [of a] by (simp_all add: members_of_def)
    have "gf_ResetTime f = (let rs = reset_times (members_of ?g quotas @ [q]) in if rs = {} then None else Some (Min rs))"
      using snoc.IH [of a] 2 by (cases "gq_ResetTime q") (simp_all add: Let_def min.commute)
    then show ?thesis unfolding ms(1) using snoc.IH [of a] 2 ms(2) by simp
  next
    case 3
    then have "members_of ?g quotas = []"
      unfolding family_in by (auto simp: members_of_def filter_empty_conv image_iff dest: sym)
    with 3 show ?thesis by (simp add: members_of_def new_family_def split: option.split)
  qed
qed simp

subsection \<open>Snapshots\<close>

record gemini_meta =
  gm_Tier :: string
  gm_ProjectID :: string
  gm_RawJSON :: string

type_synonym gemini_snapshot = "(gemini_meta, gemini_quota) snap"

text \<open>The time until the reset is not stored.\<close>

definition InsertGeminiSnapshot :: "gemini_snapshot \<Rightarrow> (gemini_snapshot tbl, int) op" where
  "InsertGeminiSnapshot snapshot = sql_insert_snap ''failed to insert gemini snapshot: ''
     (\<lambda>q. ''failed to insert gemini quota value '' @ gq_ModelID q @ '': '')
     (snapshot\<lparr>snap_Quotas := map (\<lambda>q. q\<lparr>gq_TimeUntilReset := 0\<rparr>) (snap_Quotas snapshot)\<rparr>)"

definition QueryLatestGemini :: "(gemini_snapshot tbl, gemini_snapshot option) op" where
  "QueryLatestGemini =
     sql_latest_snap ''failed to query latest gemini: '' ''failed to query gemini quota values: ''
       (\<lambda>_. True) (\<lambda>m. m\<lparr>gm_RawJSON := []\<rparr>) gq_ModelID (\<lambda>_. True)"

subsection \<open>The tracker\<close>

record gemini_tracker = "(string, f64, time option) trk" +
  gem_snaps :: "gemini_snapshot tbl"
  gem_lastFractions :: "string \<Rightarrow> f64 option"
  gem_lastResetTimes :: "string \<Rightarrow> time option"
  gem_hasLastValues :: bool

definition gemini_set_fraction :: "gemini_quota \<Rightarrow> gemini_tracker \<Rightarrow> gemini_tracker" where
  "gemini_set_fraction quota s =
     s\<lparr>gem_lastFractions := (gem_lastFractions s)(gq_ModelID quota \<mapsto> gq_RemainingFraction quota)\<rparr>"

definition gemini_set_reset :: "gemini_quota \<Rightarrow> gemini_tracker \<Rightarrow> gemini_tracker" where
  "gemini_set_reset quota s =
     (case gq_ResetTime quota of
        Some r \<Rightarrow> s\<lparr>gem_lastResetTimes := (gem_lastResetTimes s)(gq_ModelID quota \<mapsto> r)\<rparr>
      | None \<Rightarrow> s)"

definition gemini_open :: "string \<Rightarrow> gemini_quota \<Rightarrow> time \<Rightarrow> (gemini_tracker, unit) op" where
  "gemini_open msg quota capturedAt =
     bindE (wrapE msg (onStore (CreateGeminiCycle (gq_ModelID quota) capturedAt (gq_ResetTime quota))))
       (\<lambda>_. wrapE ''failed to set initial peak: ''
              (onStore (UpdateGeminiCycle (gq_ModelID quota) (usage_of (gq_RemainingFraction quota)) 0)))"

definition gemini_detect :: "gemini_quota \<Rightarrow> time \<Rightarrow> GeminiResetCycle \<Rightarrow> gemini_tracker \<Rightarrow> bool \<times> bool" where
  "gemini_detect quota capturedAt c s =
     (if (case cyc_reset c of Some r \<Rightarrow> time_After capturedAt (time_Add r (2 * Minute)) | None \<Rightarrow> False)
      then (True, False)
      else case (gq_ResetTime quota, cyc_reset c) of
        (Some r', Some r) \<Rightarrow>
          (let refReset = (case gem_lastResetTimes s (gq_ModelID quota) of Some l \<Rightarrow> l | None \<Rightarrow> r);
               diff = dur_abs (time_Sub r' refReset);
               reset = (60 * Minute < diff \<and> gem_hasLastValues s \<and>
                 (case gem_lastFractions s (gq_ModelID quota) of
                    Some lastFraction \<Rightarrow> fadd lastFraction (rnd (2 / 100)) < gq_RemainingFraction quota
                  | None \<Rightarrow> False))
           in (reset, \<not> reset))
      | (Some _, None) \<Rightarrow> (False, True)
      | (None, _) \<Rightarrow> (False, False))"

definition gemini_last :: "gemini_tracker \<Rightarrow> string \<Rightarrow> f64 option" where
  "gemini_last s n = (if gem_hasLastValues s then gem_lastFractions s n else None)"

definition gemini_rollover ::
    "gemini_quota \<Rightarrow> time \<Rightarrow> GeminiResetCycle \<Rightarrow> (gemini_tracker, unit) op" where
  "gemini_rollover quota capturedAt c =
     withE (\<lambda>s.
       let currentUsage = usage_of (gq_RemainingFraction quota);
           cycleEndTime = (case cyc_reset c of
             Some r \<Rightarrow> if time_After capturedAt r then r else capturedAt | None \<Rightarrow> capturedAt);
           (peak, delta) = (case gemini_last s (gq_ModelID quota) of
             Some lastFraction \<Rightarrow> (raise_peak (cyc_peak c) currentUsage,
                                 add_delta (cyc_delta c) (usage_of lastFraction) currentUsage)
           | None \<Rightarrow> (cyc_peak c, cyc_delta c))
       in thenE (wrapE ''failed to close cycle: ''
                  (onStore (CloseGeminiCycle (gq_ModelID quota) cycleEndTime peak delta)))
            (thenE (gemini_open ''failed to create new cycle: '' quota capturedAt)
              (thenE (modifyE (gemini_set_fraction quota))
                (thenE (modifyE (gemini_set_reset quota)) (modifyE (fireReset (gq_ModelID quota)))))))"

definition gemini_tick ::
    "bool \<Rightarrow> gemini_quota \<Rightarrow> GeminiResetCycle \<Rightarrow> (gemini_tracker, unit) op" where
  "gemini_tick updateCycleResetTime quota c =
     (let currentUsage = usage_of (gq_RemainingFraction quota) in
     thenE (if updateCycleResetTime then
              thenE (wrapE ''failed to update cycle reset time: ''
                      (onStore (UpdateGeminiCycleResetTime (gq_ModelID quota) (gq_ResetTime quota))))
                (modifyE (gemini_set_reset quota))
            else returnE ())
    (thenE (withE (\<lambda>s.
       if gem_hasLastValues s then
         (case gem_lastFractions s (gq_ModelID quota) of
            Some lastFraction \<Rightarrow>
              wrapE ''failed to update cycle: ''
                (onStore (UpdateGeminiCycle (gq_ModelID quota) (raise_peak (cyc_peak c) currentUsage)
                  (add_delta (cyc_delta c) (usage_of lastFraction) currentUsage)))
          | None \<Rightarrow> returnE ())
       else if cyc_peak c < currentUsage then
         wrapE ''failed to update cycle: ''
           (onStore (UpdateGeminiCycle (gq_ModelID quota) currentUsage (cyc_delta c)))
       else returnE ()))
     (modifyE (gemini_set_fraction quota))))"

definition gemini_processModel :: "gemini_quota \<Rightarrow> time \<Rightarrow> (gemini_tracker, unit) op" where
  "gemini_processModel quota capturedAt =
     bindE (wrapE ''failed to query active cycle: '' (onStore (QueryActiveGeminiCycle (gq_ModelID quota))))
       (\<lambda>cycle. case cycle of
          None \<Rightarrow> thenE (gemini_open ''failed to create cycle: '' quota capturedAt)
                    (thenE (modifyE (gemini_set_fraction quota)) (modifyE (gemini_set_reset quota)))
        | Some c \<Rightarrow> withE (\<lambda>s.
            case gemini_detect quota capturedAt c s of (resetDetected, updateCycleResetTime) \<Rightarrow>
              if resetDetected then gemini_rollover quota capturedAt c
              else gemini_tick updateCycleResetTime quota c))"

definition quota_of_family :: "gemini_family \<Rightarrow> gemini_quota" where
  "quota_of_family fq = \<lparr>gq_ModelID = gf_FamilyID fq, gq_RemainingFraction = gf_RemainingFraction fq,
     gq_UsagePercent = gf_UsagePercent fq, gq_ResetTime = gf_ResetTime fq, gq_TimeUntilReset = gf_TimeUntilReset fq\<rparr>"

definition gemini_Process :: "gemini_snapshot \<Rightarrow> (gemini_tracker, unit) op" where
  "gemini_Process snapshot =
     thenE (forE (\<lambda>q. wrapE (''gemini tracker: '' @ gq_ModelID q @ '': '')
                   (gemini_processModel q (snap_CapturedAt snapshot)))
              (map quota_of_family (AggregateGeminiByFamily (snap_Quotas snapshot))))
       (modifyE (\<lambda>s. s\<lparr>gem_hasLastValues := True\<rparr>))"

subsection \<open>What every run keeps\<close>

lemma gemini_state [simp]:
  "trk_store (gemini_set_fraction q s) = trk_store s" "trk_store (gemini_set_reset q s) = trk_store s"
  "gem_hasLastValues (gemini_set_fraction q s) = gem_hasLastValues s" "gem_hasLastValues (gemini_set_reset q s) = gem_hasLastValues s"
  "gem_lastFractions (gemini_set_reset q s) = gem_lastFractions s"
  "gem_lastResetTimes (gemini_set_fraction q s) = gem_lastResetTimes s"
  "gem_lastFractions (gemini_set_fraction q s) = (gem_lastFractions s)(gq_ModelID q \<mapsto> gq_RemainingFraction q)"
  "gem_lastResetTimes (gemini_set_reset q s) = (case gq_ResetTime q of
      Some r \<Rightarrow> (gem_lastResetTimes s)(gq_ModelID q \<mapsto> r) | None \<Rightarrow> gem_lastResetTimes s)"
  "gem_hasLastValues (fireReset n s) = gem_hasLastValues s" "gem_lastFractions (fireReset n s) = gem_lastFractions s"
  "gem_lastResetTimes (fireReset n s) = gem_lastResetTimes s"
  by (auto simp: gemini_set_fraction_def gemini_set_reset_def fireReset_def split: option.split)

lemmas gemini_wp_calls = gemini_store.wp_create gemini_store.wp_update gemini_store.wp_close gemini_store.wp_reset
lemmas gemini_healthy_wp = gemini_store.healthy_wp gemini_store.healthy_wp_reset

lemma gemini_rollover_keeps:
  "keeps t0 (trk_store s) \<Longrightarrow>
   wp (gemini_rollover q cap c) (\<lambda>_ s'. keeps t0 (trk_store s')) (\<lambda>_ s'. keeps t0 (trk_store s')) s"
  by (auto simp: gemini_rollover_def gemini_open_def wps Let_def intro!: gemini_wp_calls split: option.split)

lemma gemini_tick_keeps:
  "keeps t0 (trk_store s) \<Longrightarrow>
   wp (gemini_tick u q c) (\<lambda>_ s'. keeps t0 (trk_store s')) (\<lambda>_ s'. keeps t0 (trk_store s')) s"
  by (cases u) (auto simp: gemini_tick_def wps Let_def intro!: gemini_wp_calls split: option.split)

lemma gemini_processModel_keeps:
  "keeps t0 (trk_store s) \<Longrightarrow>
   wp (gemini_processModel q cap) (\<lambda>_ s'. keeps t0 (trk_store s')) (\<lambda>_ s'. keeps t0 (trk_store s')) s"
  unfolding gemini_processModel_def wp_bindE wp_wrapE
  by (erule gemini_store.wp_query)
     (auto simp: gemini_open_def wps intro!: gemini_wp_calls gemini_rollover_keeps gemini_tick_keeps split: option.split prod.split)

interpretation gemini_tracker: quota_tracker gemini_Process
  by unfold_locales
     (auto simp: gemini_Process_def wps intro!: wp_mono [OF wp_forE_inv] gemini_processModel_keeps)

subsection \<open>What the tracker computes\<close>

definition gemini_policy :: "(string, f64, f64, time option) policy" where
  "gemini_policy = \<lparr>
     pol_init = (\<lambda>v. (usage_of v, 0)),
     pol_over = (\<lambda>c lst rd. case cyc_reset c of
         Some r \<Rightarrow> r + 2 * Minute < rd_at rd \<or>
           (case (rd_reset rd, lst) of
              (Some r', Some l) \<Rightarrow> 60 * Minute < dur_abs (time_Sub r' r) \<and> fadd l (rnd (2 / 100)) < rd_value rd
            | _ \<Rightarrow> False)
       | None \<Rightarrow> False),
     pol_end = (\<lambda>c rd. case cyc_reset c of Some r \<Rightarrow> min r (rd_at rd) | None \<Rightarrow> rd_at rd),
     pol_close = (\<lambda>lst v st. case lst of Some l \<Rightarrow> standard_tick (Some (usage_of l)) (usage_of v) st | None \<Rightarrow> st),
     pol_tick = (\<lambda>lst v. standard_tick (map_option usage_of lst) (usage_of v)), pol_reset = follow_reset\<rparr>"

definition gemini_reading :: "time \<Rightarrow> gemini_quota \<Rightarrow> (f64, time option) reading" where
  "gemini_reading capturedAt q = \<lparr>rd_at = capturedAt, rd_value = gq_RemainingFraction q, rd_reset = gq_ResetTime q\<rparr>"

definition gemini_readings :: "string \<Rightarrow> gemini_snapshot \<Rightarrow> (f64, time option) reading list" where
  "gemini_readings f sn = map (gemini_reading (snap_CapturedAt sn))
     (filter (\<lambda>q. gq_ModelID q = f) (map quota_of_family (AggregateGeminiByFamily (snap_Quotas sn))))"

definition gemini_view :: "string \<Rightarrow> gemini_tracker \<Rightarrow> (string, f64, f64, time option) quota" where
  "gemini_view f s = quota_view f (gem_lastFractions s f) (trk_store s)"

definition gemini_inv :: "gemini_tracker \<Rightarrow> bool" where
  "gemini_inv s \<longleftrightarrow> healthy (trk_store s) \<and> wf_cycles (trk_store s) \<and>
     (\<forall>n c. active n (trk_store s) = Some c \<longrightarrow> gem_lastFractions s n \<noteq> None \<and>
        (cyc_reset c = None \<or> gem_lastResetTimes s n = None \<or> gem_lastResetTimes s n = cyc_reset c))"

definition gemini_ok :: "gemini_tracker \<Rightarrow> bool" where
  "gemini_ok s \<longleftrightarrow> gemini_inv s \<and> (gem_hasLastValues s \<or> gem_lastFractions s = Map.empty)"

lemma gemini_detect_policy:
  assumes "gem_hasLastValues s" "gem_lastFractions s (gq_ModelID q) = Some l"
    and "cyc_reset c = None \<or> gem_lastResetTimes s (gq_ModelID q) = None \<or> gem_lastResetTimes s (gq_ModelID q) = cyc_reset c"
  shows "gemini_detect q cap c s =
    (let over = pol_over gemini_policy (anon c) (Some l) (gemini_reading cap q) in (over, \<not> over \<and> gq_ResetTime q \<noteq> None))"
  using assms
  by (auto simp: gemini_detect_def gemini_policy_def gemini_reading_def time_defs Let_def split: option.splits)

lemma gemini_policy_sel:
  "pol_end gemini_policy c rd = (case cyc_reset c of Some r \<Rightarrow> min r (rd_at rd) | None \<Rightarrow> rd_at rd)"
  "pol_close gemini_policy lst v st = (case lst of Some l \<Rightarrow> standard_tick (Some (usage_of l)) (usage_of v) st | None \<Rightarrow> st)"
  "pol_init gemini_policy v = (usage_of v, 0)"
  "pol_tick gemini_policy lst v = standard_tick (map_option usage_of lst) (usage_of v)"
  "pol_reset gemini_policy = follow_reset"
  by (simp_all add: gemini_policy_def)

definition gemini_post :: "gemini_tracker \<Rightarrow> gemini_quota \<Rightarrow> time \<Rightarrow> gemini_tracker \<Rightarrow> bool" where
  "gemini_post s q cap s' \<longleftrightarrow> gemini_inv s' \<and> gem_hasLastValues s' = gem_hasLastValues s \<and>
     gem_lastFractions s' = (gem_lastFractions s)(gq_ModelID q \<mapsto> gq_RemainingFraction q) \<and>
     gemini_view (gq_ModelID q) s' =
       quota_step gemini_policy (gq_ModelID q) (gemini_reading cap q) (gemini_view (gq_ModelID q) s) \<and>
     (\<forall>j. j \<noteq> gq_ModelID q \<longrightarrow> gemini_view j s' = gemini_view j s)"

lemmas gemini_steps = gemini_post_def gemini_inv_def gemini_view_def quota_simps gemini_reading_def gemini_policy_sel
  standard_tick_def follow_reset_def time_defs

lemma gemini_first_refines:
  assumes "gemini_inv s" "active (gq_ModelID q) (trk_store s) = None"
  shows "wp (gemini_processModel q cap) (\<lambda>_. gemini_post s q cap) (\<lambda>_ _. False) s"
  using assms
  by (simp add: gemini_processModel_def gemini_open_def wps gemini_healthy_wp gemini_inv_def)
     (auto simp: gemini_steps split: option.splits)

lemma gemini_rollover_refines:
  assumes "gemini_inv s" "active (gq_ModelID q) (trk_store s) = Some c"
    and "gem_hasLastValues s" "gem_lastFractions s (gq_ModelID q) = Some l"
    and "pol_over gemini_policy (anon c) (Some l) (gemini_reading cap q)"
  shows "wp (gemini_rollover q cap c) (\<lambda>_. gemini_post s q cap) (\<lambda>_ _. False) s"
  using assms
  by (simp add: gemini_rollover_def gemini_open_def wps gemini_healthy_wp gemini_inv_def gemini_last_def Let_def)
     (auto simp: gemini_steps split: option.splits)

lemma gemini_tick_refines:
  assumes "gemini_inv s" "active (gq_ModelID q) (trk_store s) = Some c"
    and "gem_hasLastValues s" "gem_lastFractions s (gq_ModelID q) = Some l"
    and "\<not> pol_over gemini_policy (anon c) (Some l) (gemini_reading cap q)"
  shows "wp (gemini_tick (gq_ResetTime q \<noteq> None) q c) (\<lambda>_. gemini_post s q cap) (\<lambda>_ _. False) s"
  using assms
  apply (cases "gq_ResetTime q")
  apply (simp_all add: gemini_tick_def wps gemini_healthy_wp gemini_inv_def Let_def)
  apply (auto simp: gemini_steps split: option.splits)
  apply (auto intro!: cycle.equality simp: anon_fields)
  done

lemma gemini_processModel_refines:
  assumes "gemini_inv s" "gem_hasLastValues s \<or> gem_lastFractions s (gq_ModelID q) = None"
  shows "wp (gemini_processModel q cap) (\<lambda>_. gemini_post s q cap) (\<lambda>_ _. False) s"
proof (cases "active (gq_ModelID q) (trk_store s)")
  case None
  with assms show ?thesis by (intro gemini_first_refines)
next
  case (Some c)
  then have known: "gem_lastFractions s (gq_ModelID q) \<noteq> None \<and>
      (cyc_reset c = None \<or> gem_lastResetTimes s (gq_ModelID q) = None \<or> gem_lastResetTimes s (gq_ModelID q) = cyc_reset c)"
    using assms(1) unfolding gemini_inv_def by blast
  then obtain l where l: "gem_lastFractions s (gq_ModelID q) = Some l" "gem_hasLastValues s"
      "cyc_reset c = None \<or> gem_lastResetTimes s (gq_ModelID q) = None \<or> gem_lastResetTimes s (gq_ModelID q) = cyc_reset c"
    using assms(2) by auto
  have "healthy (trk_store s)" "wf_cycles (trk_store s)" using assms(1) by (auto simp: gemini_inv_def)
  then show ?thesis
    using gemini_rollover_refines [OF assms(1) Some l(2,1), of cap] gemini_tick_refines [OF assms(1) Some l(2,1), of cap]
    by (simp add: gemini_processModel_def wps gemini_healthy_wp Some gemini_detect_policy [OF l(2,1,3)] Let_def)
qed

interpretation gemini_refinement: refining_tracker gemini_Process gemini_ok "\<lambda>_. True" "UNIV :: string set" "\<lambda>n. n"
    gemini_view gemini_readings gemini_policy
proof unfold_locales
  fix s :: gemini_tracker and sn :: gemini_snapshot
  assume ok: "gemini_ok s"
  let ?qs = "map quota_of_family (AggregateGeminiByFamily (snap_Quotas sn))"
  let ?I = "\<lambda>s'. gemini_inv s' \<and> gem_hasLastValues s' = gem_hasLastValues s"
  have dist: "distinct (map gq_ModelID ?qs)"
    using aggregate_distinct [of "snap_Quotas sn"] by (simp add: quota_of_family_def o_def)
  have "wp (forE (\<lambda>q. wrapE (''gemini tracker: '' @ gq_ModelID q @ '': '') (gemini_processModel q (snap_CapturedAt sn))) ?qs)
    (\<lambda>_ s'. ?I s' \<and> (\<forall>j. gemini_view j s' = fold (quota_step gemini_policy j)
       (map (gemini_reading (snap_CapturedAt sn)) (filter (\<lambda>q. gq_ModelID q = j) ?qs)) (gemini_view j s)))
    (\<lambda>_ _. False) s"
    by (rule wp_forE_views [where R = "\<lambda>n s. gem_hasLastValues s \<or> gem_lastFractions s n = None"])
       (use ok dist in \<open>auto simp: wps gemini_ok_def gemini_post_def intro!: wp_mono [OF gemini_processModel_refines] split: if_splits\<close>)
  then show "wp (gemini_Process sn) (\<lambda>_ s'. gemini_ok s' \<and> (\<forall>n \<in> UNIV.
      gemini_view n s' = fold (quota_step gemini_policy n) (gemini_readings n sn) (gemini_view n s)))
    (\<lambda>_ _. False) s"
    unfolding gemini_Process_def wp_thenE
    by (rule wp_mono) (auto simp: wps gemini_ok_def gemini_inv_def gemini_view_def gemini_readings_def)
qed

subsection \<open>Summary\<close>

record gemini_summary =
  gs_ModelID :: string
  gs_RemainingFraction :: f64
  gs_UsagePercent :: f64
  gs_ResetTime :: "time option"
  gs_TimeUntilReset :: duration
  gs_CurrentRate :: f64
  gs_ProjectedUsage :: f64
  gs_CompletedCycles :: int
  gs_AvgPerCycle :: f64
  gs_PeakCycle :: f64
  gs_TotalTracked :: f64
  gs_TrackingSince :: time

definition gemini_UsageSummary ::
    "time \<Rightarrow> time \<Rightarrow> time \<Rightarrow> time \<Rightarrow> string \<Rightarrow> (gemini_tracker, gemini_summary) op" where
  "gemini_UsageSummary now1 now2 now3 now4 familyID =
     bindE (wrapE ''failed to query active cycle: '' (onStore (QueryActiveGeminiCycle familyID))) (\<lambda>activeCycle.
     bindE (wrapE ''failed to query cycle history: '' (onStore (QueryGeminiCycleHistory familyID []))) (\<lambda>history.
       let sm = \<lparr>gs_ModelID = familyID, gs_RemainingFraction = 0, gs_UsagePercent = 0, gs_ResetTime = None,
                 gs_TimeUntilReset = 0, gs_CurrentRate = 0, gs_ProjectedUsage = 0,
                 gs_CompletedCycles = int (length history), gs_AvgPerCycle = history_avg history,
                 gs_PeakCycle = history_peak cyc_peak history, gs_TotalTracked = history_total history,
                 gs_TrackingSince = tracking_since history\<rparr>
       in case activeCycle of
            None \<Rightarrow> returnE sm
          | Some c \<Rightarrow>
              (let sm = sm\<lparr>gs_TotalTracked := fadd (gs_TotalTracked sm) (cyc_delta c),
                          gs_PeakCycle := raise_peak (gs_PeakCycle sm) (cyc_peak c)\<rparr>;
                   sm = (case cyc_reset c of
                           Some r \<Rightarrow> sm\<lparr>gs_ResetTime := Some r, gs_TimeUntilReset := time_Sub r now1\<rparr>
                         | None \<Rightarrow> sm)
               in bindE (wrapE ''failed to query latest: '' (liftE gem_snaps (\<lambda>t s. s\<lparr>gem_snaps := t\<rparr>) QueryLatestGemini))
                    (\<lambda>latest. returnE (case latest of
                       None \<Rightarrow> sm
                     | Some sn \<Rightarrow>
                         (let sm = (case find (\<lambda>fq. gf_FamilyID fq = familyID) (AggregateGeminiByFamily (snap_Quotas sn)) of
                                      None \<Rightarrow> sm
                                    | Some fq \<Rightarrow>
                                        (let sm = sm\<lparr>gs_RemainingFraction := gf_RemainingFraction fq, gs_UsagePercent := gf_UsagePercent fq\<rparr>
                                         in case (gs_ResetTime sm, gf_ResetTime fq) of
                                              (None, Some r) \<Rightarrow> sm\<lparr>gs_ResetTime := Some r, gs_TimeUntilReset := time_Sub r now2\<rparr>
                                            | _ \<Rightarrow> sm));
                              (rate, projected) = usage_projection now3 now4 c (gs_ResetTime sm) (gs_RemainingFraction sm)
                          in sm\<lparr>gs_CurrentRate := rate, gs_ProjectedUsage := projected\<rparr>))))))"

subsection \<open>Properties\<close>

text \<open>Pooling the models of a snapshot gives one entry per family that occurs; the entry has the
  fraction and the percentage of the family's first model and the earliest of the reset times its models
  report, none if no model reports one.\<close>

theorem gemini_family:
  "distinct (map gf_FamilyID (AggregateGeminiByFamily quotas)) \<and>
   gf_FamilyID ` set (AggregateGeminiByFamily quotas) = (\<lambda>q. GeminiModelFamily (gq_ModelID q)) ` set quotas \<and>
   (\<forall>f \<in> set (AggregateGeminiByFamily quotas).
      gf_RemainingFraction f = gq_RemainingFraction (hd (members_of (gf_FamilyID f) quotas)) \<and>
      gf_UsagePercent f = gq_UsagePercent (hd (members_of (gf_FamilyID f) quotas)) \<and>
      gf_ResetTime f = (let rs = reset_times (members_of (gf_FamilyID f) quotas) in if rs = {} then None else Some (Min rs)))"
proof (intro conjI ballI)
  show "distinct (map gf_FamilyID (AggregateGeminiByFamily quotas))" by (rule aggregate_distinct)
  show "gf_FamilyID ` set (AggregateGeminiByFamily quotas) = (\<lambda>q. GeminiModelFamily (gq_ModelID q)) ` set quotas"
    using family_in by (simp add: AggregateGeminiByFamily_def)
qed (use family_values in \<open>auto simp: AggregateGeminiByFamily_def\<close>)

definition three_models :: "gemini_quota list" where
  "three_models =
     [\<lparr>gq_ModelID = ''gemini-2.5-flash'', gq_RemainingFraction = 1, gq_UsagePercent = 0, gq_ResetTime = Some 9, gq_TimeUntilReset = 0\<rparr>,
      \<lparr>gq_ModelID = ''gemini-2.5-pro'', gq_RemainingFraction = 1 / 2, gq_UsagePercent = 50, gq_ResetTime = None, gq_TimeUntilReset = 0\<rparr>,
      \<lparr>gq_ModelID = ''gemini-3-flash-preview'', gq_RemainingFraction = 1 / 4, gq_UsagePercent = 75, gq_ResetTime = Some 7, gq_TimeUntilReset = 0\<rparr>]"

text \<open>The two flash models are one family with the fraction of the first and the reset time of the second.\<close>

theorem gemini_family_witness:
  "\<exists>f \<in> set (AggregateGeminiByFamily three_models).
     gf_FamilyID f = ''flash'' \<and> gf_RemainingFraction f = 1 \<and> gf_ResetTime f = Some 7"
proof -
  have "''flash'' \<in> (\<lambda>q. GeminiModelFamily (gq_ModelID q)) ` set three_models"
    by (simp add: three_models_def GeminiModelFamily_def to_lower_def)
  then have "''flash'' \<in> gf_FamilyID ` set (AggregateGeminiByFamily three_models)"
    using gemini_family [of three_models] by (elim conjE) (simp only:)
  then obtain f where f: "f \<in> set (AggregateGeminiByFamily three_models)" "gf_FamilyID f = ''flash''"
    by (elim imageE) simp
  moreover have ms: "members_of ''flash'' three_models = [three_models ! 0, three_models ! 2]"
    by (simp add: three_models_def members_of_def GeminiModelFamily_def to_lower_def)
  moreover have "reset_times [three_models ! 0, three_models ! 2] = {9, 7}"
    by (auto simp: three_models_def reset_times_def)
  ultimately show ?thesis
    using gemini_family [of three_models] by (intro bexI [of _ f]) (auto simp: three_models_def)
qed

definition gemini_over :: "(f64, time option) reading list \<Rightarrow> (f64, time option) reading \<Rightarrow> bool" where
  "gemini_over seg rd \<longleftrightarrow> (case foldl follow_reset None (map rd_reset seg) of
       Some r \<Rightarrow> r + 2 * Minute < rd_at rd \<or>
         (case rd_reset rd of
            Some r' \<Rightarrow> 60 * Minute < dur_abs (time_Sub r' r) \<and>
              fadd (rd_value (List.last seg)) (rnd (2 / 100)) < rd_value rd
          | None \<Rightarrow> False)
     | None \<Rightarrow> False)"

lemma gemini_policy_over: "seg \<noteq> [] \<Longrightarrow> policy_over gemini_policy k seg rd = gemini_over seg rd"
  using open_seg_reset_follows [of gemini_policy seg k]
  by (auto simp: policy_over_def gemini_over_def gemini_policy_sel) (auto simp: gemini_policy_def split: option.splits)

text \<open>C5: from an empty table the Gemini tracker keeps, for every family, the cycles of the segments of
  the family's readings, in terms of usage.\<close>

theorem gemini_history:
  assumes "gemini_ok s" "gemini_view f s = empty_quota"
  shows "gemini_view f (poll_all gemini_Process sns s) =
    quota_of_segments gemini_policy f (segments gemini_over (concat (map (gemini_readings f) sns)))"
  by (subst segments_cong [OF gemini_policy_over, symmetric], assumption)
     (rule gemini_refinement.run_segments, use assms in auto)

definition fresh_gemini :: gemini_tracker where
  "fresh_gemini = \<lparr>trk_store = empty_tbl, trk_onReset = False, trk_resets = [], gem_snaps = empty_tbl,
     gem_lastFractions = Map.empty, gem_lastResetTimes = Map.empty, gem_hasLastValues = False\<rparr>"

lemma fresh_gemini_ok: "gemini_ok fresh_gemini" "gemini_view f fresh_gemini = empty_quota"
  by (simp_all add: gemini_ok_def gemini_inv_def fresh_gemini_def healthy_def empty_tbl_def wf_empty [unfolded empty_tbl_def]
      gemini_view_def quota_view_def active_def closed_cycles_def empty_quota_def)

definition gemini_poll :: "time \<Rightarrow> f64 \<Rightarrow> time \<Rightarrow> gemini_snapshot" where
  "gemini_poll t v r = \<lparr>snap_ID = 0, snap_CapturedAt = t,
     snap_meta = \<lparr>gm_Tier = [], gm_ProjectID = [], gm_RawJSON = []\<rparr>,
     snap_Quotas = [\<lparr>gq_ModelID = ''gemini-2.5-pro'', gq_RemainingFraction = v, gq_UsagePercent = 0,
                     gq_ResetTime = Some r, gq_TimeUntilReset = 0\<rparr>]\<rparr>"

lemma gemini_poll_readings:
  "gemini_readings ''pro'' (gemini_poll t v r) = [\<lparr>rd_at = t, rd_value = v, rd_reset = Some r\<rparr>]"
  by (simp add: gemini_poll_def gemini_readings_def gemini_reading_def AggregateGeminiByFamily_def new_family_def quota_of_family_def
      GeminiModelFamily_def to_lower_def)

theorem gemini_history_witness:
  "gemini_view ''pro'' (poll_all gemini_Process [gemini_poll Hour (3 / 4) (6 * Hour), gemini_poll (2 * Hour) (1 / 4) (7 * Hour),
      gemini_poll (3 * Hour) 1 (12 * Hour)] fresh_gemini) =
     \<lparr>qt_open = Some \<lparr>cyc_id = 0, cyc_key = ''pro'', cyc_start = 3 * Hour, cyc_end = None,
        cyc_reset = Some (12 * Hour), cyc_peak = 0, cyc_delta = 0\<rparr>,
      qt_done = {#\<lparr>cyc_id = 0, cyc_key = ''pro'', cyc_start = Hour, cyc_end = Some (3 * Hour),
        cyc_reset = Some (7 * Hour), cyc_peak = 3 / 4, cyc_delta = 1 / 2\<rparr>#},
      qt_last = Some 1\<rparr>"
proof -
  have v: "usage_of 1 = 0" "usage_of (3 / 4) = 1 / 4" "usage_of (1 / 4) = 3 / 4" "fadd (1 / 4) (rnd (1 / 50)) < 1"
    "rnd (1 / 2) = 1 / 2" "fadd 0 (1 / 2) = 1 / 2" "rnd (- (3 / 4)) = - (3 / 4)" "\<not> fadd (3 / 4) (rnd (1 / 50)) < 1 / 4"
    by code_simp+
  show ?thesis
    by (subst gemini_history [OF fresh_gemini_ok])
       (simp add: gemini_poll_readings gemini_over_def follow_reset_def time_Sub_def dur_abs_def v quota_of_segments_def open_seg_def
          done_seg_def tick_cycle_def end_by_def with_stats_def gemini_policy_sel standard_tick_def add_delta_def raise_peak_def
          fsub_def open_at_def finish_at_def)
qed

end
