(* ===== verification/BalanceTrackers.thy ===== *)
theory BalanceTrackers
  imports TrackerBase
begin

text \<open>
  Moonshot, DeepSeek and OpenRouter (\<open>internal/tracker\<close>, \<open>internal/store\<close>): one number per snapshot, a
  balance or the usage so far, with no announced reset. A new cycle starts when the number jumps: a
  balance that is topped up, a usage that drops. The Go code of the three is the same but for the
  store functions, the texts, the rule and the direction in which the number counts.
\<close>

subsection \<open>The operations\<close>

record 'k bal_iface =
  bf_query :: "'k \<Rightarrow> (('k, f64, unit) cycles, ('k, f64, unit) cycle option) op"
  bf_create :: "'k \<Rightarrow> time \<Rightarrow> (('k, f64, unit) cycles, int) op"
  bf_update :: "'k \<Rightarrow> f64 \<Rightarrow> f64 \<Rightarrow> (('k, f64, unit) cycles, unit) op"
  bf_close :: "'k \<Rightarrow> time \<Rightarrow> f64 \<Rightarrow> f64 \<Rightarrow> (('k, f64, unit) cycles, unit) op"

record 'k bal_tracker = "('k, f64, unit) trk" +
  bt_last :: f64
  bt_hasLastValues :: bool

text \<open>A rule sees the last and the current number; a tally adds what was spent between them.\<close>

type_synonym bal_rule = "f64 \<Rightarrow> f64 \<Rightarrow> bool"
type_synonym bal_tally = "f64 \<Rightarrow> f64 \<Rightarrow> f64 \<Rightarrow> f64"

definition bal_open :: "'k bal_iface \<Rightarrow> string \<Rightarrow> 'k \<Rightarrow> f64 \<Rightarrow> time \<Rightarrow> (('k, 'z) bal_tracker_scheme, unit) op" where
  "bal_open F msg k current capturedAt =
     bindE (wrapE msg (onStore (bf_create F k capturedAt)))
       (\<lambda>_. wrapE ''failed to set initial peak: '' (onStore (bf_update F k current 0)))"

definition bal_rollover ::
    "'k bal_iface \<Rightarrow> string \<Rightarrow> 'k \<Rightarrow> f64 \<Rightarrow> time \<Rightarrow> ('k, f64, unit) cycle \<Rightarrow> (('k, 'z) bal_tracker_scheme, unit) op" where
  "bal_rollover F quotaType k current capturedAt c =
     thenE (wrapE ''failed to close cycle: '' (onStore (bf_close F k capturedAt (cyc_peak c) (cyc_delta c))))
       (thenE (bal_open F ''failed to create new cycle: '' k current capturedAt)
         (thenE (modifyE (\<lambda>s. s\<lparr>bt_last := current\<rparr>)) (modifyE (fireReset quotaType))))"

definition bal_tick ::
    "'k bal_iface \<Rightarrow> bal_tally \<Rightarrow> 'k \<Rightarrow> f64 \<Rightarrow> ('k, f64, unit) cycle \<Rightarrow> (('k, 'z) bal_tracker_scheme, unit) op" where
  "bal_tick F tally k current c =
     thenE (withE (\<lambda>s.
       if bt_hasLastValues s then
         wrapE ''failed to update cycle: ''
           (onStore (bf_update F k (raise_peak (cyc_peak c) current) (tally (cyc_delta c) (bt_last s) current)))
       else if cyc_peak c < current then
         wrapE ''failed to update cycle: '' (onStore (bf_update F k current (cyc_delta c)))
       else returnE ()))
     (modifyE (\<lambda>s. s\<lparr>bt_last := current\<rparr>))"

definition bal_process ::
    "'k bal_iface \<Rightarrow> bal_rule \<Rightarrow> bal_tally \<Rightarrow> string \<Rightarrow> 'k \<Rightarrow> f64 \<Rightarrow> time \<Rightarrow> (('k, 'z) bal_tracker_scheme, unit) op" where
  "bal_process F rule tally quotaType k current capturedAt =
     bindE (wrapE ''failed to query active cycle: '' (onStore (bf_query F k)))
       (\<lambda>cycle. case cycle of
          None \<Rightarrow> thenE (bal_open F ''failed to create cycle: '' k current capturedAt)
                    (modifyE (\<lambda>s. s\<lparr>bt_last := current\<rparr>))
        | Some c \<Rightarrow> withE (\<lambda>s.
            if bt_hasLastValues s \<and> rule (bt_last s) current
            then bal_rollover F quotaType k current capturedAt c
            else bal_tick F tally k current c))"

definition bal_Process ::
    "'k bal_iface \<Rightarrow> bal_rule \<Rightarrow> bal_tally \<Rightarrow> string \<Rightarrow> string \<Rightarrow> ('x \<Rightarrow> 'k) \<Rightarrow> ('x \<Rightarrow> f64) \<Rightarrow> ('x \<Rightarrow> time) \<Rightarrow> 'x \<Rightarrow>
     (('k, 'z) bal_tracker_scheme, unit) op" where
  "bal_Process F rule tally prefix quotaType key val cap snapshot =
     thenE (wrapE prefix (bal_process F rule tally quotaType (key snapshot) (val snapshot) (cap snapshot)))
       (modifyE (\<lambda>s. s\<lparr>bt_hasLastValues := True\<rparr>))"

text \<open>The two rules and the two counts: a balance that grows by half, or from nothing, was topped up; a usage
  that falls below half was reset. What is spent is the drop of the balance, or the rise of the usage.\<close>

definition topped_up :: bal_rule where
  "topped_up lst current \<longleftrightarrow> (0 < lst \<and> fmul lst (3 / 2) \<le> current) \<or> (lst = 0 \<and> 0 < current)"

definition spent :: bal_tally where
  "spent tot lst current = add_delta tot current lst"

definition usage_dropped :: bal_rule where
  "usage_dropped lst current \<longleftrightarrow> 0 < lst \<and> current < fmul lst (1 / 2)"

subsection \<open>The abstract account\<close>

definition bal_policy :: "bal_rule \<Rightarrow> bal_tally \<Rightarrow> ('k, f64, f64, unit) policy" where
  "bal_policy rule tally = \<lparr>
     pol_init = (\<lambda>v. (v, 0)),
     pol_over = (\<lambda>_ lst rd. case lst of Some l \<Rightarrow> rule l (rd_value rd) | None \<Rightarrow> False),
     pol_end = (\<lambda>_ rd. rd_at rd), pol_close = (\<lambda>_ _ st. st),
     pol_tick = (\<lambda>lst v st. (raise_peak (fst st) v, case lst of Some l \<Rightarrow> tally (snd st) l v | None \<Rightarrow> snd st)),
     pol_reset = (\<lambda>r _. r)\<rparr>"

definition bal_view :: "'k \<Rightarrow> ('k, 'z) bal_tracker_scheme \<Rightarrow> ('k, f64, f64, unit) quota" where
  "bal_view k s = quota_view k (if bt_hasLastValues s then Some (bt_last s) else None) (trk_store s)"

definition bal_reading :: "f64 \<Rightarrow> time \<Rightarrow> (f64, unit) reading" where
  "bal_reading v t = \<lparr>rd_at = t, rd_value = v, rd_reset = ()\<rparr>"

definition bal_ok :: "('k, 'z) bal_tracker_scheme \<Rightarrow> bool" where
  "bal_ok s \<longleftrightarrow> healthy (trk_store s) \<and> wf_cycles (trk_store s)"

definition bal_over :: "bal_rule \<Rightarrow> (f64, unit) reading list \<Rightarrow> (f64, unit) reading \<Rightarrow> bool" where
  "bal_over rule seg rd \<longleftrightarrow> rule (rd_value (List.last seg)) (rd_value rd)"

lemma bal_policy_over: "policy_over (bal_policy rule tally) k seg rd = bal_over rule seg rd"
  by (simp add: policy_over_def bal_policy_def bal_over_def)

text \<open>What the cycles of an empty start are, from the pairs of number and time of the snapshots.\<close>

definition bal_cycles_of ::
    "bal_rule \<Rightarrow> bal_tally \<Rightarrow> 'k \<Rightarrow> (f64, unit) reading list \<Rightarrow> ('k, f64, f64, unit) quota" where
  "bal_cycles_of rule tally k rds =
     quota_of_segments (bal_policy rule tally) k (segments (bal_over rule) rds)"

lemma bt_fireReset [simp]:
  "bt_last (fireReset n s) = bt_last s" "bt_hasLastValues (fireReset n s) = bt_hasLastValues s"
  by (simp_all add: fireReset_def)

lemmas bal_defs = bal_process_def bal_open_def bal_rollover_def bal_tick_def

subsection \<open>Correctness, for any store that keeps the laws\<close>

locale bal_provider = cycle_store "\<lambda>k. k" "0 :: f64" "bf_query F" "\<lambda>k t (_ :: unit). bf_create F k t" "bf_update F" "bf_close F"
  for F :: "'k bal_iface" +
  fixes rule :: bal_rule and tally :: bal_tally and prefix :: string and quotaType :: string
    and key :: "'x \<Rightarrow> 'k" and val :: "'x \<Rightarrow> f64" and cap :: "'x \<Rightarrow> time" and k0 :: 'k
begin

lemmas healthy_bal = healthy_wp(1) healthy_wp(2) [where r = "()"] healthy_wp(3,4)

lemma process_keeps:
  "keeps t0 (trk_store s) \<Longrightarrow>
   wp (bal_process F rule tally q k v t) (\<lambda>_ s'. keeps t0 (trk_store s')) (\<lambda>_ s'. keeps t0 (trk_store s')) s"
  unfolding bal_process_def wp_bindE wp_wrapE
  by (erule wp_query) (auto simp: bal_defs wps Let_def intro!: wp_calls split: option.split)

lemma Process_keeps:
  "keeps t0 (trk_store s) \<Longrightarrow>
   wp (bal_Process F rule tally prefix quotaType key val cap sn) (\<lambda>_ s'. keeps t0 (trk_store s')) (\<lambda>_ s'. keeps t0 (trk_store s')) s"
  by (auto simp: bal_Process_def wps intro!: wp_mono [OF process_keeps])

lemma process_refines:
  assumes "healthy (trk_store s)" "wf_cycles (trk_store s)"
  shows "wp (bal_process F rule tally q k v t) (\<lambda>_ s'.
     healthy (trk_store s') \<and> wf_cycles (trk_store s') \<and>
     quota_view k (Some (bt_last s')) (trk_store s') =
       quota_step (bal_policy rule tally) k (bal_reading v t) (bal_view k s)) (\<lambda>_ _. False) s"
  using assms
  apply (simp add: bal_process_def wps healthy_bal)
  apply (auto split: option.split simp: bal_defs wps healthy_bal bal_view_def Let_def)
  apply (simp_all add: quota_simps bal_policy_def bal_reading_def raise_peak_def split: option.splits)
  apply (auto intro!: cycle.equality simp: anon_fields split: option.splits)
  done

lemma Process_refines:
  assumes "bal_ok s" "key sn = k0"
  shows "wp (bal_Process F rule tally prefix quotaType key val cap sn) (\<lambda>_ s'. bal_ok s' \<and> (\<forall>k \<in> {k0}.
      bal_view k s' = fold (quota_step (bal_policy rule tally) k) [bal_reading (val sn) (cap sn)] (bal_view k s)))
    (\<lambda>_ _. False) s"
  using assms unfolding bal_Process_def wp_thenE wp_wrapE bal_ok_def
  by (intro wp_mono [OF process_refines]) (simp_all add: wps bal_view_def)

end

sublocale bal_provider \<subseteq> run: quota_tracker "bal_Process F rule tally prefix quotaType key val cap"
  by unfold_locales (rule Process_keeps)

sublocale bal_provider \<subseteq> ref: refining_tracker "bal_Process F rule tally prefix quotaType key val cap" bal_ok "\<lambda>sn. key sn = k0"
    "{k0}" "\<lambda>k. k" bal_view "\<lambda>k sn. [bal_reading (val sn) (cap sn)]" "bal_policy rule tally"
  by unfold_locales (rule Process_refines)

context bal_provider
begin

lemma history:
  assumes "bal_ok s" "\<forall>sn \<in> set sns. key sn = k0" "bal_view k0 s = empty_quota"
  shows "bal_view k0 (poll_all (bal_Process F rule tally prefix quotaType key val cap) sns s) =
    bal_cycles_of rule tally k0 (map (\<lambda>sn. bal_reading (val sn) (cap sn)) sns)"
  using ref.run_segments [OF assms(1,2) _ assms(3)]
  by (simp add: bal_cycles_of_def bal_policy_over [abs_def])

end

subsection \<open>Summaries\<close>

record bal_summary =
  bs_QuotaType :: string
  bs_CurrentBalance :: f64
  bs_CurrentRate :: f64
  bs_CompletedCycles :: int
  bs_AvgPerCycle :: f64
  bs_PeakCycle :: f64
  bs_TotalTracked :: f64
  bs_TrackingSince :: time

definition bal_summary_history :: "string \<Rightarrow> ('k, f64, unit) cycle list \<Rightarrow> bal_summary" where
  "bal_summary_history quotaType history =
     \<lparr>bs_QuotaType = quotaType, bs_CurrentBalance = 0, bs_CurrentRate = 0, bs_CompletedCycles = int (length history),
      bs_AvgPerCycle = history_avg history, bs_PeakCycle = history_peak cyc_delta history,
      bs_TotalTracked = history_total history, bs_TrackingSince = tracking_since history\<rparr>"

text \<open>\<open>latest\<close> is the current balance and the amount the rate is taken of, when there is a latest snapshot; \<open>now\<close> is
  the clock behind \<open>time.Since\<close>.\<close>

definition bal_summary_latest ::
    "time \<Rightarrow> ('k, f64, unit) cycle \<Rightarrow> (f64 \<times> f64) option \<Rightarrow> bal_summary \<Rightarrow> bal_summary" where
  "bal_summary_latest now c latest sm =
     (case latest of
        None \<Rightarrow> sm
      | Some (balance, amount) \<Rightarrow>
          (let sm = sm\<lparr>bs_CurrentBalance := balance\<rparr>; elapsed = time_Sub now (cyc_start c)
           in if 0 < dur_Hours elapsed \<and> 0 < amount
              then sm\<lparr>bs_CurrentRate := fdiv amount (dur_Hours elapsed)\<rparr> else sm))"

definition bal_UsageSummary ::
    "'k bal_iface \<Rightarrow> ('k \<Rightarrow> int list \<Rightarrow> (('k, f64, unit) cycles, ('k, f64, unit) cycle list) op) \<Rightarrow>
     (('k, 'z) bal_tracker_scheme, 'x option) op \<Rightarrow> (('k, f64, unit) cycle \<Rightarrow> 'x option \<Rightarrow> (f64 \<times> f64) option) \<Rightarrow>
     time \<Rightarrow> string \<Rightarrow> 'k \<Rightarrow> (('k, 'z) bal_tracker_scheme, bal_summary) op" where
  "bal_UsageSummary F queryHistory queryLatest amounts now quotaType k =
     bindE (wrapE ''failed to query active cycle: '' (onStore (bf_query F k))) (\<lambda>activeCycle.
     bindE (wrapE ''failed to query cycle history: '' (onStore (queryHistory k []))) (\<lambda>history.
       let sm = bal_summary_history quotaType history
       in case activeCycle of
            None \<Rightarrow> returnE sm
          | Some c \<Rightarrow>
              bindE (wrapE ''failed to query latest: '' queryLatest) (\<lambda>latest.
                returnE (bal_summary_latest now c (amounts c latest)
                  (sm\<lparr>bs_TotalTracked := fadd (bs_TotalTracked sm) (cyc_delta c)\<rparr>)))))"

lemma bal_summary_latest_keeps [simp]:
  "bs_CompletedCycles (bal_summary_latest now c l sm) = bs_CompletedCycles sm"
  "bs_PeakCycle (bal_summary_latest now c l sm) = bs_PeakCycle sm"
  "bs_TrackingSince (bal_summary_latest now c l sm) = bs_TrackingSince sm"
  "bs_TotalTracked (bal_summary_latest now c l sm) = bs_TotalTracked sm"
  by (auto simp: bal_summary_latest_def Let_def split: option.split)

context bal_provider
begin

lemma summary:
  assumes "healthy (trk_store s)" "wf_cycles (trk_store s)" "queryLatest s = (Inr latest, s)"
    and hist: "queryHistory = (\<lambda>k. sql_history msg (is_closed k))"
  shows "\<exists>sm. bal_UsageSummary F queryHistory queryLatest amounts now n k s = (Inr sm, s) \<and>
    bs_CompletedCycles sm = int (length (closed_cycles k (trk_store s))) \<and>
    bs_PeakCycle sm = Max (insert 0 (cyc_delta ` set (closed_cycles k (trk_store s)))) \<and>
    (\<forall>c \<in> set (closed_cycles k (trk_store s)). text_less_eq (bs_TrackingSince sm) (cyc_start c))"
proof -
  have latest: "wp queryLatest Q E s = Q latest s" for Q E by (simp add: wp_def assms(3))
  have "wp (bal_UsageSummary F queryHistory queryLatest amounts now n k) (\<lambda>sm s'. s' = s \<and>
    bs_CompletedCycles sm = int (length (closed_cycles k (trk_store s))) \<and>
    bs_PeakCycle sm = Max (insert 0 (cyc_delta ` set (closed_cycles k (trk_store s)))) \<and>
    (\<forall>c \<in> set (closed_cycles k (trk_store s)). text_less_eq (bs_TrackingSince sm) (cyc_start c))) (\<lambda>_ _. False) s"
    unfolding bal_UsageSummary_def hist using assms(1,2)
    by (simp add: wps Let_def healthy_wp run_onStore_history)
       (auto simp: wps latest bal_summary_history_def history_peak_Max tracking_since_oldest closed_cycles_def Let_def
          split: option.split)
  then show ?thesis by (auto simp: wp_def split: prod.splits sum.splits)
qed

end

section \<open>Moonshot\<close>

record moonshot_snapshot =
  mo_ID :: int
  mo_CapturedAt :: time
  mo_AvailableBalance :: f64
  mo_VoucherBalance :: f64
  mo_CashBalance :: f64

definition InsertMoonshotSnapshot :: "moonshot_snapshot \<Rightarrow> (moonshot_snapshot tbl, int) op" where
  "InsertMoonshotSnapshot snapshot =
     sql_insert_snapshot ''failed to insert moonshot snapshot: '' ''failed to get last insert ID: ''
       (\<lambda>i. snapshot\<lparr>mo_ID := i\<rparr>)"

definition QueryLatestMoonshot :: "(moonshot_snapshot tbl, moonshot_snapshot option) op" where
  "QueryLatestMoonshot = sql_latest ''failed to query latest moonshot: '' mo_CapturedAt"

definition QueryMoonshotRange :: "time \<Rightarrow> time \<Rightarrow> int list \<Rightarrow> (moonshot_snapshot tbl, moonshot_snapshot list) op" where
  "QueryMoonshotRange start stop limit = sql_range ''failed to query moonshot range: '' mo_CapturedAt start stop limit"

record moonshot_tracker = "string bal_tracker" +
  mo_snaps :: "moonshot_snapshot tbl"

definition moonshot_iface :: "string bal_iface" where
  "moonshot_iface = \<lparr>bf_query = QueryActiveMoonshotCycle, bf_create = CreateMoonshotCycle,
     bf_update = UpdateMoonshotCycle, bf_close = CloseMoonshotCycle\<rparr>"

definition moonshot_processBalance :: "moonshot_snapshot \<Rightarrow> (moonshot_tracker, unit) op" where
  "moonshot_processBalance snapshot =
     bal_process moonshot_iface topped_up spent ''balance'' ''balance'' (mo_AvailableBalance snapshot) (mo_CapturedAt snapshot)"

definition moonshot_Process :: "moonshot_snapshot \<Rightarrow> (moonshot_tracker, unit) op" where
  "moonshot_Process = bal_Process moonshot_iface topped_up spent ''moonshot tracker: balance: '' ''balance''
     (\<lambda>_. ''balance'') mo_AvailableBalance mo_CapturedAt"

definition moonshot_UsageSummary :: "time \<Rightarrow> (moonshot_tracker, bal_summary) op" where
  "moonshot_UsageSummary now = bal_UsageSummary moonshot_iface QueryMoonshotCycleHistory
     (liftE mo_snaps (\<lambda>t s. s\<lparr>mo_snaps := t\<rparr>) QueryLatestMoonshot)
     (\<lambda>c. map_option (\<lambda>sn. (mo_AvailableBalance sn, cyc_delta c))) now ''balance'' ''balance''"

interpretation moonshot: bal_provider moonshot_iface topped_up spent "''moonshot tracker: balance: ''" "''balance''"
    "\<lambda>_. ''balance''" mo_AvailableBalance mo_CapturedAt "''balance''"
  unfolding moonshot_iface_def bal_provider_def by simp (rule moonshot_store.cycle_store_axioms)

section \<open>DeepSeek\<close>

record deepseek_snapshot =
  ds_ID :: int
  ds_CapturedAt :: time
  ds_IsAvailable :: bool
  ds_Currency :: string
  ds_TotalBalance :: f64
  ds_GrantedBalance :: f64
  ds_ToppedUpBalance :: f64

definition InsertDeepSeekSnapshot :: "deepseek_snapshot \<Rightarrow> (deepseek_snapshot tbl, int) op" where
  "InsertDeepSeekSnapshot snapshot =
     sql_insert_snapshot ''failed to insert deepseek snapshot: '' ''failed to get last insert ID: ''
       (\<lambda>i. snapshot\<lparr>ds_ID := i\<rparr>)"

definition QueryLatestDeepSeek :: "(deepseek_snapshot tbl, deepseek_snapshot option) op" where
  "QueryLatestDeepSeek = sql_latest ''failed to query latest deepseek: '' ds_CapturedAt"

definition QueryDeepSeekRange :: "time \<Rightarrow> time \<Rightarrow> int list \<Rightarrow> (deepseek_snapshot tbl, deepseek_snapshot list) op" where
  "QueryDeepSeekRange start stop limit = sql_range ''failed to query deepseek range: '' ds_CapturedAt start stop limit"

record deepseek_tracker = "(string \<times> string) bal_tracker" +
  ds_snaps :: "deepseek_snapshot tbl"

definition deepseek_iface :: "(string \<times> string) bal_iface" where
  "deepseek_iface = \<lparr>bf_query = (\<lambda>(q, c). QueryActiveDeepSeekCycle q c), bf_create = (\<lambda>(q, c). CreateDeepSeekCycle q c),
     bf_update = (\<lambda>(q, c). UpdateDeepSeekCycle q c), bf_close = (\<lambda>(q, c). CloseDeepSeekCycle q c)\<rparr>"

text \<open>There is a cycle per currency, but one last balance, whatever its currency was.\<close>

definition deepseek_processBalance :: "deepseek_snapshot \<Rightarrow> (deepseek_tracker, unit) op" where
  "deepseek_processBalance snapshot =
     bal_process deepseek_iface topped_up spent ''balance'' (''balance'', ds_Currency snapshot) (ds_TotalBalance snapshot)
       (ds_CapturedAt snapshot)"

definition deepseek_Process :: "deepseek_snapshot \<Rightarrow> (deepseek_tracker, unit) op" where
  "deepseek_Process = bal_Process deepseek_iface topped_up spent ''deepseek tracker: balance: '' ''balance''
     (\<lambda>sn. (''balance'', ds_Currency sn)) ds_TotalBalance ds_CapturedAt"

definition deepseek_UsageSummary :: "time \<Rightarrow> string \<Rightarrow> (deepseek_tracker, bal_summary) op" where
  "deepseek_UsageSummary now currency = bal_UsageSummary deepseek_iface (\<lambda>(q, c). QueryDeepSeekCycleHistory q c)
     (liftE ds_snaps (\<lambda>t s. s\<lparr>ds_snaps := t\<rparr>) QueryLatestDeepSeek)
     (\<lambda>c latest. case latest of
        Some sn \<Rightarrow> if ds_Currency sn = currency then Some (ds_TotalBalance sn, cyc_delta c) else None
      | None \<Rightarrow> None) now ''balance'' (''balance'', currency)"

interpretation deepseek: bal_provider deepseek_iface topped_up spent "''deepseek tracker: balance: ''" "''balance''"
    "\<lambda>sn. (''balance'', ds_Currency sn)" ds_TotalBalance ds_CapturedAt "(''balance'', currency)"
  for currency
  unfolding deepseek_iface_def bal_provider_def
  using deepseek_store.cycle_store_axioms by (simp add: case_prod_beta')

section \<open>OpenRouter\<close>

record openrouter_snapshot =
  or_ID :: int
  or_CapturedAt :: time
  or_Label :: string
  or_Usage :: f64
  or_UsageDaily :: f64
  or_UsageWeekly :: f64
  or_UsageMonthly :: f64
  or_Limit :: "f64 option"
  or_LimitRemaining :: "f64 option"
  or_IsFreeTier :: bool
  or_RateLimitRequests :: int
  or_RateLimitInterval :: string

definition InsertOpenRouterSnapshot :: "openrouter_snapshot \<Rightarrow> (openrouter_snapshot tbl, int) op" where
  "InsertOpenRouterSnapshot snapshot =
     sql_insert_snapshot ''failed to insert openrouter snapshot: '' ''failed to get last insert ID: ''
       (\<lambda>i. snapshot\<lparr>or_ID := i\<rparr>)"

definition QueryLatestOpenRouter :: "(openrouter_snapshot tbl, openrouter_snapshot option) op" where
  "QueryLatestOpenRouter = sql_latest ''failed to query latest openrouter: '' or_CapturedAt"

definition QueryOpenRouterRange :: "time \<Rightarrow> time \<Rightarrow> int list \<Rightarrow> (openrouter_snapshot tbl, openrouter_snapshot list) op" where
  "QueryOpenRouterRange start stop limit = sql_range ''failed to query openrouter range: '' or_CapturedAt start stop limit"

record openrouter_tracker = "string bal_tracker" +
  or_snaps :: "openrouter_snapshot tbl"

definition openrouter_iface :: "string bal_iface" where
  "openrouter_iface = \<lparr>bf_query = QueryActiveOpenRouterCycle, bf_create = CreateOpenRouterCycle,
     bf_update = UpdateOpenRouterCycle, bf_close = CloseOpenRouterCycle\<rparr>"

definition openrouter_processCredits :: "openrouter_snapshot \<Rightarrow> (openrouter_tracker, unit) op" where
  "openrouter_processCredits snapshot =
     bal_process openrouter_iface usage_dropped add_delta ''credits'' ''credits'' (or_Usage snapshot) (or_CapturedAt snapshot)"

definition openrouter_Process :: "openrouter_snapshot \<Rightarrow> (openrouter_tracker, unit) op" where
  "openrouter_Process = bal_Process openrouter_iface usage_dropped add_delta ''openrouter tracker: credits: '' ''credits''
     (\<lambda>_. ''credits'') or_Usage or_CapturedAt"

interpretation openrouter: bal_provider openrouter_iface usage_dropped add_delta "''openrouter tracker: credits: ''" "''credits''"
    "\<lambda>_. ''credits''" or_Usage or_CapturedAt "''credits''"
  unfolding openrouter_iface_def bal_provider_def by simp (rule openrouter_store.cycle_store_axioms)

text \<open>The fields of the summary that only OpenRouter has; the projection stays 0.\<close>

record openrouter_summary = bal_summary +
  os_CurrentLimit :: f64
  os_LimitRemaining :: "f64 option"
  os_UsagePercent :: f64
  os_IsFreeTier :: bool
  os_ProjectedUsage :: f64

definition with_limits :: "openrouter_snapshot option \<Rightarrow> bal_summary \<Rightarrow> openrouter_summary" where
  "with_limits latest sm = bal_summary.extend sm (case latest of
     None \<Rightarrow> openrouter_summary.fields 0 None 0 False 0
   | Some sn \<Rightarrow> (case or_Limit sn of
       Some l \<Rightarrow> if 0 < l
         then openrouter_summary.fields l (or_LimitRemaining sn) (fmul (fdiv (or_Usage sn) l) 100) (or_IsFreeTier sn) 0
         else openrouter_summary.fields 0 (or_LimitRemaining sn) 0 (or_IsFreeTier sn) 0
     | None \<Rightarrow> openrouter_summary.fields 0 (or_LimitRemaining sn) 0 (or_IsFreeTier sn) 0))"

definition openrouter_UsageSummary :: "time \<Rightarrow> (openrouter_tracker, openrouter_summary) op" where
  "openrouter_UsageSummary now =
     bindE (wrapE ''failed to query active cycle: '' (onStore (QueryActiveOpenRouterCycle ''credits''))) (\<lambda>activeCycle.
     bindE (wrapE ''failed to query cycle history: '' (onStore (QueryOpenRouterCycleHistory ''credits'' []))) (\<lambda>history.
       let sm = bal_summary_history ''credits'' history
       in case activeCycle of
            None \<Rightarrow> returnE (with_limits None sm)
          | Some c \<Rightarrow>
              bindE (wrapE ''failed to query latest: '' (liftE or_snaps (\<lambda>t s. s\<lparr>or_snaps := t\<rparr>) QueryLatestOpenRouter)) (\<lambda>latest.
                returnE (with_limits latest
                  (bal_summary_latest now c (map_option (\<lambda>sn. (or_Usage sn, or_Usage sn)) latest)
                    (sm\<lparr>bs_TotalTracked := fadd (bs_TotalTracked sm) (cyc_delta c)\<rparr>))))))"

section \<open>Properties\<close>

text \<open>From an empty table, the Moonshot tracker keeps exactly the cycles between the top-ups of the
  balance: a reading that is half again as large as the one before it, or the first positive one after an
  empty balance, starts a cycle; a cycle has the highest balance and the sum of the drops within it.\<close>

theorem moonshot_history:
  assumes "bal_ok s" "bal_view ''balance'' s = empty_quota"
  shows "bal_view ''balance'' (poll_all moonshot_Process sns s) =
    bal_cycles_of topped_up spent ''balance'' (map (\<lambda>sn. bal_reading (mo_AvailableBalance sn) (mo_CapturedAt sn)) sns)"
  unfolding moonshot_Process_def using assms by (intro moonshot.history) simp_all

definition fresh_moonshot :: moonshot_tracker where
  "fresh_moonshot = \<lparr>trk_store = empty_tbl, trk_onReset = True, trk_resets = [], bt_last = 0, bt_hasLastValues = False,
     mo_snaps = empty_tbl\<rparr>"

definition moonshot_poll :: "time \<Rightarrow> f64 \<Rightarrow> moonshot_snapshot" where
  "moonshot_poll t v = \<lparr>mo_ID = 0, mo_CapturedAt = t, mo_AvailableBalance = v, mo_VoucherBalance = 0, mo_CashBalance = v\<rparr>"

lemma fresh_moonshot_ok: "bal_ok fresh_moonshot" "bal_view k fresh_moonshot = empty_quota"
  by (simp_all add: bal_ok_def fresh_moonshot_def healthy_def empty_tbl_def wf_empty [unfolded empty_tbl_def]
      bal_view_def quota_view_def active_def closed_cycles_def empty_quota_def)

lemmas bal_eval = bal_cycles_of_def bal_reading_def bal_over_def quota_of_segments_def open_seg_def done_seg_def tick_cycle_def
  end_by_def with_stats_def bal_policy_def raise_peak_def open_at_def finish_at_def

text \<open>Twenty, fourteen, then a top-up to thirty.\<close>

theorem moonshot_history_witness:
  "bal_view ''balance'' (poll_all moonshot_Process [moonshot_poll Hour 20, moonshot_poll (2 * Hour) 14, moonshot_poll (3 * Hour) 30]
      fresh_moonshot) =
     \<lparr>qt_open = Some \<lparr>cyc_id = 0, cyc_key = ''balance'', cyc_start = 3 * Hour, cyc_end = None, cyc_reset = (), cyc_peak = 30, cyc_delta = 0\<rparr>,
      qt_done = {#\<lparr>cyc_id = 0, cyc_key = ''balance'', cyc_start = Hour, cyc_end = Some (3 * Hour), cyc_reset = (), cyc_peak = 20, cyc_delta = 6\<rparr>#},
      qt_last = Some 30\<rparr>"
  by (subst moonshot_history [OF fresh_moonshot_ok])
     (simp add: moonshot_poll_def topped_up_def spent_def add_delta_def fsub_def fadd_def fmul_def bal_eval)

text \<open>The DeepSeek tracker, while only one currency is reported, keeps exactly the cycles between
  the top-ups of that currency's balance.\<close>

theorem deepseek_history:
  assumes "bal_ok s" "bal_view (''balance'', currency) s = empty_quota" "\<forall>sn \<in> set sns. ds_Currency sn = currency"
  shows "bal_view (''balance'', currency) (poll_all deepseek_Process sns s) =
    bal_cycles_of topped_up spent (''balance'', currency) (map (\<lambda>sn. bal_reading (ds_TotalBalance sn) (ds_CapturedAt sn)) sns)"
  unfolding deepseek_Process_def using assms by (intro deepseek.history) simp_all

definition fresh_deepseek :: deepseek_tracker where
  "fresh_deepseek = \<lparr>trk_store = empty_tbl, trk_onReset = True, trk_resets = [], bt_last = 0, bt_hasLastValues = False,
     ds_snaps = empty_tbl\<rparr>"

definition deepseek_poll :: "string \<Rightarrow> time \<Rightarrow> f64 \<Rightarrow> deepseek_snapshot" where
  "deepseek_poll cur t v = \<lparr>ds_ID = 0, ds_CapturedAt = t, ds_IsAvailable = True, ds_Currency = cur, ds_TotalBalance = v,
     ds_GrantedBalance = 0, ds_ToppedUpBalance = v\<rparr>"

lemma fresh_deepseek_ok: "bal_ok fresh_deepseek" "bal_view k fresh_deepseek = empty_quota"
  by (simp_all add: bal_ok_def fresh_deepseek_def healthy_def empty_tbl_def wf_empty [unfolded empty_tbl_def]
      bal_view_def quota_view_def active_def closed_cycles_def empty_quota_def)

text \<open>A balance that runs out and is filled again.\<close>

theorem deepseek_history_witness:
  "bal_view (''balance'', ''CNY'') (poll_all deepseek_Process [deepseek_poll ''CNY'' Hour 20, deepseek_poll ''CNY'' (2 * Hour) 0,
      deepseek_poll ''CNY'' (3 * Hour) 5] fresh_deepseek) =
     \<lparr>qt_open = Some \<lparr>cyc_id = 0, cyc_key = (''balance'', ''CNY''), cyc_start = 3 * Hour, cyc_end = None, cyc_reset = (), cyc_peak = 5, cyc_delta = 0\<rparr>,
      qt_done = {#\<lparr>cyc_id = 0, cyc_key = (''balance'', ''CNY''), cyc_start = Hour, cyc_end = Some (3 * Hour), cyc_reset = (), cyc_peak = 20, cyc_delta = 20\<rparr>#},
      qt_last = Some 5\<rparr>"
  by (subst deepseek_history [OF fresh_deepseek_ok])
     (simp_all add: deepseek_poll_def topped_up_def spent_def add_delta_def fsub_def fadd_def fmul_def bal_eval)

lemma not_topped_up: "is_f64 l \<Longrightarrow> v < l \<Longrightarrow> 0 < v \<Longrightarrow> \<not> topped_up l v"
  using rnd_mono [of l "l * (3 / 2)"] by (auto simp: topped_up_def fmul_def is_f64_def)

text \<open>When a second currency is reported in between, the two readings of the first currency are not
  compared with each other: an unchanged balance \<open>u\<close> in dollars counts as spending of \<open>c - u\<close> after a
  balance \<open>c\<close> in yuan was seen.\<close>

theorem deepseek_currencies:
  assumes "0 < u" "u < c" "is_f64 c"
  shows "map_option cyc_delta (active (''balance'', ''USD'') (trk_store (poll_all deepseek_Process
    [deepseek_poll ''USD'' t1 u, deepseek_poll ''CNY'' t2 c, deepseek_poll ''USD'' t3 u] fresh_deepseek))) = Some (spent 0 c u)"
  using not_topped_up [OF assms(3,2,1)]
  by (simp add: poll_all_def ignoreE_def deepseek_Process_def bal_Process_def deepseek_poll_def bal_process_def bal_open_def bal_tick_def
    bal_rollover_def deepseek_iface_def fresh_deepseek_def onStore_def bindE_def thenE_def wrapE_def sql_active_def sql_create_def sql_exec_def db_stmt_def
    QueryActiveDeepSeekCycle_def CreateDeepSeekCycle_def UpdateDeepSeekCycle_def active_def is_active_def empty_tbl_def add_cycle_def set_stats_def
    update_where_def)

theorem deepseek_currencies_witness:
  "map_option cyc_delta (active (''balance'', ''USD'') (trk_store (poll_all deepseek_Process
    [deepseek_poll ''USD'' Hour 10, deepseek_poll ''CNY'' (2 * Hour) 100, deepseek_poll ''USD'' (3 * Hour) 10] fresh_deepseek))) = Some 90"
  by (subst deepseek_currencies) (simp_all add: spent_def add_delta_def fsub_def fadd_def)

text \<open>From an empty table, the OpenRouter tracker keeps exactly the cycles between the drops of the
  usage below half of the reading before.\<close>

theorem openrouter_history:
  assumes "bal_ok s" "bal_view ''credits'' s = empty_quota"
  shows "bal_view ''credits'' (poll_all openrouter_Process sns s) =
    bal_cycles_of usage_dropped add_delta ''credits'' (map (\<lambda>sn. bal_reading (or_Usage sn) (or_CapturedAt sn)) sns)"
  unfolding openrouter_Process_def using assms by (intro openrouter.history) simp_all

definition fresh_openrouter :: openrouter_tracker where
  "fresh_openrouter = \<lparr>trk_store = empty_tbl, trk_onReset = True, trk_resets = [], bt_last = 0, bt_hasLastValues = False,
     or_snaps = empty_tbl\<rparr>"

definition openrouter_poll :: "time \<Rightarrow> f64 \<Rightarrow> openrouter_snapshot" where
  "openrouter_poll t v = \<lparr>or_ID = 0, or_CapturedAt = t, or_Label = [], or_Usage = v, or_UsageDaily = 0, or_UsageWeekly = 0,
     or_UsageMonthly = 0, or_Limit = None, or_LimitRemaining = None, or_IsFreeTier = False, or_RateLimitRequests = 0,
     or_RateLimitInterval = []\<rparr>"

lemma fresh_openrouter_ok: "bal_ok fresh_openrouter" "bal_view k fresh_openrouter = empty_quota"
  by (simp_all add: bal_ok_def fresh_openrouter_def healthy_def empty_tbl_def wf_empty [unfolded empty_tbl_def]
      bal_view_def quota_view_def active_def closed_cycles_def empty_quota_def)

theorem openrouter_history_witness:
  "bal_view ''credits'' (poll_all openrouter_Process [openrouter_poll Hour 4, openrouter_poll (2 * Hour) 9, openrouter_poll (3 * Hour) 2]
      fresh_openrouter) =
     \<lparr>qt_open = Some \<lparr>cyc_id = 0, cyc_key = ''credits'', cyc_start = 3 * Hour, cyc_end = None, cyc_reset = (), cyc_peak = 2, cyc_delta = 0\<rparr>,
      qt_done = {#\<lparr>cyc_id = 0, cyc_key = ''credits'', cyc_start = Hour, cyc_end = Some (3 * Hour), cyc_reset = (), cyc_peak = 9, cyc_delta = 5\<rparr>#},
      qt_last = Some 2\<rparr>"
proof -
  have "fmul 9 (1 / 2) = 9 / 2" by code_simp
  then show ?thesis
    by (subst openrouter_history [OF fresh_openrouter_ok])
       (simp add: openrouter_poll_def usage_dropped_def add_delta_def fsub_def fadd_def fmul_def bal_eval)
qed

end
