(* ===== verification/AntigravityTracker.thy ===== *)
theory AntigravityTracker
  imports TrackerBase
begin

text \<open>
  Antigravity (\<open>internal/tracker/antigravity_tracker.go\<close>, \<open>internal/store/antigravity_store.go\<close>): a remaining
  fraction per model. A reset is told by a jump of the reported reset time against the one remembered in
  memory, by a rise of the fraction, or by any rise after the stored reset time has passed.
\<close>

subsection \<open>Snapshots\<close>

record antigravity_model =
  am_ModelID :: string
  am_Label :: string
  am_RemainingFraction :: f64
  am_RemainingPercent :: f64
  am_IsExhausted :: bool
  am_ResetTime :: "time option"
  am_TimeUntilReset :: duration

record antigravity_meta =
  ag_Email :: string
  ag_PlanName :: string
  ag_PromptCredits :: f64
  ag_MonthlyCredits :: int
  ag_RawJSON :: string
  ag_Source :: string

type_synonym antigravity_snapshot = "(antigravity_meta, antigravity_model) snap"

text \<open>The time until the reset is not stored; a snapshot without a source gets the source \<open>unknown\<close>.\<close>

definition InsertAntigravitySnapshot :: "antigravity_snapshot \<Rightarrow> (antigravity_snapshot tbl, int) op" where
  "InsertAntigravitySnapshot snapshot =
     (let m = snap_meta snapshot;
          source = (if ag_Source m = [] then ''unknown'' else ag_Source m)
      in sql_insert_snap ''failed to insert antigravity snapshot: ''
           (\<lambda>q. ''failed to insert antigravity model value '' @ am_ModelID q @ '': '')
           (snapshot\<lparr>snap_meta := m\<lparr>ag_Source := source\<rparr>,
              snap_Quotas := map (\<lambda>q. q\<lparr>am_TimeUntilReset := 0\<rparr>) (snap_Quotas snapshot)\<rparr>))"

text \<open>The reader fills in the time until the reset, not below zero; \<open>now\<close> is the clock.\<close>

definition time_left :: "time \<Rightarrow> time \<Rightarrow> duration" where
  "time_left now r = (let d = time_Sub r now in if d < 0 then 0 else d)"

definition QueryLatestAntigravity :: "time \<Rightarrow> (antigravity_snapshot tbl, antigravity_snapshot option) op" where
  "QueryLatestAntigravity now =
     bindE (sql_latest_snap ''failed to query latest antigravity: '' ''failed to query antigravity model values: ''
              (\<lambda>_. True) (\<lambda>m. m\<lparr>ag_RawJSON := []\<rparr>) am_ModelID (\<lambda>_. True))
       (\<lambda>latest. returnE (map_option (\<lambda>sn. sn\<lparr>snap_Quotas := map (\<lambda>q. case am_ResetTime q of
            Some r \<Rightarrow> q\<lparr>am_TimeUntilReset := time_left now r\<rparr> | None \<Rightarrow> q) (snap_Quotas sn)\<rparr>) latest))"

subsection \<open>The tracker\<close>

record antigravity_tracker = "(string, f64, time option) trk" +
  at_snaps :: "antigravity_snapshot tbl"
  at_lastFractions :: "string \<Rightarrow> f64 option"
  at_lastResetTimes :: "string \<Rightarrow> time option"
  at_hasLastValues :: bool

definition antigravity_remember :: "antigravity_model \<Rightarrow> antigravity_tracker \<Rightarrow> antigravity_tracker" where
  "antigravity_remember model s =
     s\<lparr>at_lastFractions := (at_lastFractions s)(am_ModelID model \<mapsto> am_RemainingFraction model),
       at_lastResetTimes := (case am_ResetTime model of
          Some r \<Rightarrow> (at_lastResetTimes s)(am_ModelID model \<mapsto> r) | None \<Rightarrow> at_lastResetTimes s)\<rparr>"

definition antigravity_open :: "string \<Rightarrow> antigravity_model \<Rightarrow> time \<Rightarrow> (antigravity_tracker, unit) op" where
  "antigravity_open msg model capturedAt =
     bindE (wrapE msg (onStore (CreateAntigravityCycle (am_ModelID model) capturedAt (am_ResetTime model))))
       (\<lambda>_. wrapE ''failed to set initial peak: ''
              (onStore (UpdateAntigravityCycle (am_ModelID model) (usage_of (am_RemainingFraction model)) 0)))"

definition antigravity_resetDetected ::
    "antigravity_model \<Rightarrow> time \<Rightarrow> AntigravityResetCycle \<Rightarrow> antigravity_tracker \<Rightarrow> bool" where
  "antigravity_resetDetected model capturedAt c s \<longleftrightarrow>
     (case (am_ResetTime model, at_lastResetTimes s (am_ModelID model)) of
        (Some r', Some lastReset) \<Rightarrow> 10 * Minute < dur_abs (time_Sub r' lastReset)
      | _ \<Rightarrow> False) \<or>
     (at_hasLastValues s \<and>
        (case at_lastFractions s (am_ModelID model) of
           Some lastFraction \<Rightarrow> fadd lastFraction (rnd (1 / 10)) < am_RemainingFraction model
         | None \<Rightarrow> False)) \<or>
     (case (cyc_reset c, at_lastFractions s (am_ModelID model)) of
        (Some r, Some lastFraction) \<Rightarrow> time_After capturedAt r \<and> lastFraction < am_RemainingFraction model
      | _ \<Rightarrow> False)"

definition antigravity_rollover ::
    "antigravity_model \<Rightarrow> time \<Rightarrow> AntigravityResetCycle \<Rightarrow> (antigravity_tracker, unit) op" where
  "antigravity_rollover model capturedAt c =
     (let cycleEndTime = (case cyc_reset c of
            Some r \<Rightarrow> if time_After capturedAt r then r else capturedAt | None \<Rightarrow> capturedAt)
      in thenE (wrapE ''failed to close cycle: ''
                 (onStore (CloseAntigravityCycle (am_ModelID model) cycleEndTime (cyc_peak c) (cyc_delta c))))
           (thenE (antigravity_open ''failed to create new cycle: '' model capturedAt)
             (thenE (modifyE (antigravity_remember model)) (modifyE (fireReset (am_ModelID model))))))"

text \<open>The delta is the decrease of the remaining fraction.\<close>

definition antigravity_tick :: "antigravity_model \<Rightarrow> AntigravityResetCycle \<Rightarrow> (antigravity_tracker, unit) op" where
  "antigravity_tick model c =
     (let currentUsage = usage_of (am_RemainingFraction model);
          raise = (if cyc_peak c < currentUsage then
              wrapE ''failed to update cycle: ''
                (onStore (UpdateAntigravityCycle (am_ModelID model) currentUsage (cyc_delta c)))
            else returnE ())
      in thenE (withE (\<lambda>s.
           if at_hasLastValues s then
             (case at_lastFractions s (am_ModelID model) of
                Some lastFraction \<Rightarrow>
                  wrapE ''failed to update cycle: ''
                    (onStore (UpdateAntigravityCycle (am_ModelID model) (raise_peak (cyc_peak c) currentUsage)
                      (add_delta (cyc_delta c) (am_RemainingFraction model) lastFraction)))
              | None \<Rightarrow> raise)
           else raise))
         (modifyE (antigravity_remember model)))"

definition antigravity_processModel :: "antigravity_model \<Rightarrow> time \<Rightarrow> (antigravity_tracker, unit) op" where
  "antigravity_processModel model capturedAt =
     (if am_ModelID model = [] then returnE ()
      else bindE (wrapE ''failed to query active cycle: '' (onStore (QueryActiveAntigravityCycle (am_ModelID model))))
       (\<lambda>cycle. case cycle of
          None \<Rightarrow> thenE (antigravity_open ''failed to create cycle: '' model capturedAt)
                    (modifyE (antigravity_remember model))
        | Some c \<Rightarrow> withE (\<lambda>s.
            if antigravity_resetDetected model capturedAt c s then antigravity_rollover model capturedAt c
            else antigravity_tick model c)))"

definition antigravity_Process :: "antigravity_snapshot \<Rightarrow> (antigravity_tracker, unit) op" where
  "antigravity_Process snapshot =
     thenE (forE (\<lambda>model. wrapE (''antigravity tracker: '' @ am_ModelID model @ '': '')
                   (antigravity_processModel model (snap_CapturedAt snapshot))) (snap_Quotas snapshot))
       (modifyE (\<lambda>s. s\<lparr>at_hasLastValues := True\<rparr>))"

subsection \<open>What every run keeps\<close>

lemma antigravity_state [simp]:
  "trk_store (antigravity_remember q s) = trk_store s"
  "at_hasLastValues (antigravity_remember q s) = at_hasLastValues s"
  "at_lastFractions (antigravity_remember q s) = (at_lastFractions s)(am_ModelID q \<mapsto> am_RemainingFraction q)"
  "at_lastResetTimes (antigravity_remember q s) = (case am_ResetTime q of
      Some r \<Rightarrow> (at_lastResetTimes s)(am_ModelID q \<mapsto> r) | None \<Rightarrow> at_lastResetTimes s)"
  "at_hasLastValues (fireReset n s) = at_hasLastValues s" "at_lastFractions (fireReset n s) = at_lastFractions s"
  "at_lastResetTimes (fireReset n s) = at_lastResetTimes s"
  by (auto simp: antigravity_remember_def fireReset_def split: option.split)

lemma antigravity_rollover_keeps:
  "keeps t0 (trk_store s) \<Longrightarrow>
   wp (antigravity_rollover q cap c) (\<lambda>_ s'. keeps t0 (trk_store s')) (\<lambda>_ s'. keeps t0 (trk_store s')) s"
  by (auto simp: antigravity_rollover_def antigravity_open_def wps Let_def intro!: antigravity_store.wp_calls split: option.split)

lemma antigravity_tick_keeps:
  "keeps t0 (trk_store s) \<Longrightarrow>
   wp (antigravity_tick q c) (\<lambda>_ s'. keeps t0 (trk_store s')) (\<lambda>_ s'. keeps t0 (trk_store s')) s"
  by (auto simp: antigravity_tick_def wps Let_def intro!: antigravity_store.wp_update split: option.split)

lemma antigravity_processModel_keeps:
  assumes "keeps t0 (trk_store s)"
  shows "wp (antigravity_processModel q cap) (\<lambda>_ s'. keeps t0 (trk_store s')) (\<lambda>_ s'. keeps t0 (trk_store s')) s"
proof (cases "am_ModelID q = []")
  case False
  have "wp (onStore (QueryActiveAntigravityCycle (am_ModelID q)))
     (\<lambda>x. wp (case x of
          None \<Rightarrow> thenE (antigravity_open ''failed to create cycle: '' q cap) (modifyE (antigravity_remember q))
        | Some c \<Rightarrow> withE (\<lambda>s. if antigravity_resetDetected q cap c s then antigravity_rollover q cap c else antigravity_tick q c))
       (\<lambda>_ s'. keeps t0 (trk_store s')) (\<lambda>_ s'. keeps t0 (trk_store s')))
     (\<lambda>_ s'. keeps t0 (trk_store s')) s"
    by (rule antigravity_store.wp_query [OF assms])
       (auto simp: antigravity_open_def wps intro!: antigravity_store.wp_create antigravity_store.wp_update
          antigravity_rollover_keeps antigravity_tick_keeps split: option.split)
  with False show ?thesis by (simp add: antigravity_processModel_def wp_bindE wp_wrapE)
qed (use assms in \<open>simp add: antigravity_processModel_def wps\<close>)

interpretation antigravity_tracker: quota_tracker antigravity_Process
  by unfold_locales
     (auto simp: antigravity_Process_def wps intro!: wp_mono [OF wp_forE_inv] antigravity_processModel_keeps)

subsection \<open>What the tracker computes\<close>

text \<open>The value of a reading is the fraction together with the last reset time reported so far.\<close>

definition antigravity_policy :: "(string, f64 \<times> time option, f64, time option) policy" where
  "antigravity_policy = \<lparr>
     pol_init = (\<lambda>v. (usage_of (fst v), 0)),
     pol_over = (\<lambda>c lst rd. case lst of
         Some (l, m) \<Rightarrow>
           (case (rd_reset rd, m) of (Some r', Some r) \<Rightarrow> 10 * Minute < dur_abs (time_Sub r' r) | _ \<Rightarrow> False) \<or>
           fadd l (rnd (1 / 10)) < fst (rd_value rd) \<or>
           (case cyc_reset c of Some r \<Rightarrow> r < rd_at rd \<and> l < fst (rd_value rd) | None \<Rightarrow> False)
       | None \<Rightarrow> False),
     pol_end = (\<lambda>c rd. case cyc_reset c of Some r \<Rightarrow> min r (rd_at rd) | None \<Rightarrow> rd_at rd),
     pol_close = (\<lambda>_ _ st. st),
     pol_tick = (\<lambda>lst v st. (raise_peak (fst st) (usage_of (fst v)),
                   case lst of Some (l, _) \<Rightarrow> add_delta (snd st) (fst v) l | None \<Rightarrow> snd st)),
     pol_reset = (\<lambda>r _. r)\<rparr>"

definition antigravity_reading :: "time \<Rightarrow> antigravity_model \<Rightarrow> (f64, time option) reading" where
  "antigravity_reading capturedAt q = \<lparr>rd_at = capturedAt, rd_value = am_RemainingFraction q, rd_reset = am_ResetTime q\<rparr>"

definition antigravity_readings :: "string \<Rightarrow> antigravity_snapshot \<Rightarrow> (f64, time option) reading list" where
  "antigravity_readings n sn =
     map (antigravity_reading (snap_CapturedAt sn)) (filter (\<lambda>q. am_ModelID q = n) (filter (\<lambda>q. am_ModelID q \<noteq> []) (snap_Quotas sn)))"

definition antigravity_last :: "string \<Rightarrow> antigravity_tracker \<Rightarrow> (f64 \<times> time option) option" where
  "antigravity_last n s = map_option (\<lambda>f. (f, at_lastResetTimes s n)) (at_lastFractions s n)"

definition antigravity_view :: "string \<Rightarrow> antigravity_tracker \<Rightarrow> (string, f64 \<times> time option, f64, time option) quota" where
  "antigravity_view n s = quota_view n (antigravity_last n s) (trk_store s)"

definition antigravity_inv :: "antigravity_tracker \<Rightarrow> bool" where
  "antigravity_inv s \<longleftrightarrow> healthy (trk_store s) \<and> wf_cycles (trk_store s) \<and>
     (\<forall>n. at_lastFractions s n = None \<longrightarrow> at_lastResetTimes s n = None)"

definition antigravity_ok :: "antigravity_tracker \<Rightarrow> bool" where
  "antigravity_ok s \<longleftrightarrow> antigravity_inv s \<and> (at_hasLastValues s \<or> at_lastFractions s = Map.empty)"

definition antigravity_valid :: "antigravity_snapshot \<Rightarrow> bool" where
  "antigravity_valid sn \<longleftrightarrow> distinct (map am_ModelID (filter (\<lambda>q. am_ModelID q \<noteq> []) (snap_Quotas sn)))"

lemma antigravity_policy_sel:
  "pol_end antigravity_policy c rd = (case cyc_reset c of Some r \<Rightarrow> min r (rd_at rd) | None \<Rightarrow> rd_at rd)"
  "pol_close antigravity_policy lst v st = st" "pol_init antigravity_policy v = (usage_of (fst v), 0)"
  "pol_tick antigravity_policy lst v st = (raise_peak (fst st) (usage_of (fst v)),
     case lst of Some (l, _) \<Rightarrow> add_delta (snd st) (fst v) l | None \<Rightarrow> snd st)"
  "pol_reset antigravity_policy r r' = r"
  by (simp_all add: antigravity_policy_def)

text \<open>What one model's step does to a state, given the value of the reading.\<close>

definition antigravity_post :: "antigravity_tracker \<Rightarrow> antigravity_model \<Rightarrow> time \<Rightarrow> antigravity_tracker \<Rightarrow> bool" where
  "antigravity_post s q cap s' \<longleftrightarrow> antigravity_inv s' \<and> at_hasLastValues s' = at_hasLastValues s \<and>
     (\<forall>n. n \<noteq> am_ModelID q \<longrightarrow> at_lastFractions s' n = at_lastFractions s n) \<and>
     antigravity_view (am_ModelID q) s' =
       carry_step antigravity_policy (am_ModelID q) (antigravity_reading cap q) (antigravity_view (am_ModelID q) s) \<and>
     (\<forall>j. j \<noteq> am_ModelID q \<longrightarrow> antigravity_view j s' = antigravity_view j s)"

lemmas antigravity_steps = antigravity_post_def antigravity_inv_def antigravity_view_def antigravity_last_def quota_simps
  antigravity_reading_def antigravity_policy_sel carry_step_def remembered_def dress_def follow_reset_def raise_peak_def time_defs

lemma antigravity_detect_policy:
  assumes "antigravity_inv s" "at_hasLastValues s \<or> at_lastFractions s (am_ModelID q) = None"
  shows "antigravity_resetDetected q cap c s =
    pol_over antigravity_policy (anon c) (antigravity_last (am_ModelID q) s)
      (dress (remembered (antigravity_view (am_ModelID q) s)) (antigravity_reading cap q))"
  using assms
  by (auto simp: antigravity_resetDetected_def antigravity_policy_def antigravity_last_def antigravity_reading_def
      antigravity_inv_def dress_def time_defs split: option.splits)

lemma antigravity_first_refines:
  assumes "antigravity_inv s" "am_ModelID q \<noteq> []" "active (am_ModelID q) (trk_store s) = None"
  shows "wp (antigravity_processModel q cap) (\<lambda>_. antigravity_post s q cap) (\<lambda>_ _. False) s"
  using assms
  by (simp add: antigravity_processModel_def antigravity_open_def wps antigravity_store.healthy_wp antigravity_inv_def)
     (auto simp: antigravity_steps split: option.splits)

lemma antigravity_rollover_refines:
  assumes "antigravity_inv s" "active (am_ModelID q) (trk_store s) = Some c"
    and "pol_over antigravity_policy (anon c) (antigravity_last (am_ModelID q) s)
      (dress (remembered (antigravity_view (am_ModelID q) s)) (antigravity_reading cap q))"
  shows "wp (antigravity_rollover q cap c) (\<lambda>_. antigravity_post s q cap) (\<lambda>_ _. False) s"
  using assms
  by (simp add: antigravity_rollover_def antigravity_open_def wps antigravity_store.healthy_wp antigravity_inv_def Let_def)
     (auto simp: antigravity_steps split: option.splits)

lemma antigravity_tick_refines:
  assumes "antigravity_inv s" "at_hasLastValues s \<or> at_lastFractions s (am_ModelID q) = None"
    and "active (am_ModelID q) (trk_store s) = Some c"
    and "\<not> pol_over antigravity_policy (anon c) (antigravity_last (am_ModelID q) s)
      (dress (remembered (antigravity_view (am_ModelID q) s)) (antigravity_reading cap q))"
  shows "wp (antigravity_tick q c) (\<lambda>_. antigravity_post s q cap) (\<lambda>_ _. False) s"
  using assms
  apply (simp add: antigravity_tick_def wps antigravity_store.healthy_wp antigravity_inv_def Let_def)
  apply (auto simp: antigravity_store.healthy_wp wps split: option.split)
  apply (simp_all add: antigravity_steps)
  apply (auto intro!: cycle.equality simp: anon_fields split: option.splits)
  done

lemma antigravity_processModel_refines:
  assumes "antigravity_inv s" "am_ModelID q \<noteq> []" "at_hasLastValues s \<or> at_lastFractions s (am_ModelID q) = None"
  shows "wp (antigravity_processModel q cap) (\<lambda>_. antigravity_post s q cap) (\<lambda>_ _. False) s"
proof (cases "active (am_ModelID q) (trk_store s)")
  case None
  with assms show ?thesis by (intro antigravity_first_refines)
next
  case (Some c)
  have "healthy (trk_store s)" "wf_cycles (trk_store s)" using assms(1) by (auto simp: antigravity_inv_def)
  then show ?thesis
    using antigravity_rollover_refines [OF assms(1) Some, of cap] antigravity_tick_refines [OF assms(1,3) Some, of cap]
    by (simp add: antigravity_processModel_def wps antigravity_store.healthy_wp assms(2) Some
        antigravity_detect_policy [OF assms(1,3)])
qed

interpretation antigravity_refinement: carrying_tracker antigravity_Process antigravity_ok antigravity_valid "UNIV :: string set"
    "\<lambda>n. n" antigravity_view antigravity_readings antigravity_policy
proof unfold_locales
  fix s :: antigravity_tracker and sn :: antigravity_snapshot
  assume ok: "antigravity_ok s" and valid: "antigravity_valid sn"
  let ?qs = "filter (\<lambda>q. am_ModelID q \<noteq> []) (snap_Quotas sn)"
  let ?f = "\<lambda>q. wrapE (''antigravity tracker: '' @ am_ModelID q @ '': '') (antigravity_processModel q (snap_CapturedAt sn))"
  let ?I = "\<lambda>s'. antigravity_inv s' \<and> at_hasLastValues s' = at_hasLastValues s"
  have skip: "forE ?f (snap_Quotas sn) = forE ?f ?qs"
    by (rule forE_filter) (auto simp: antigravity_processModel_def wrapE_def returnE_def fun_eq_iff)
  have "wp (forE ?f ?qs)
    (\<lambda>_ s'. ?I s' \<and> (\<forall>j. antigravity_view j s' = fold (carry_step antigravity_policy j)
       (map (antigravity_reading (snap_CapturedAt sn)) (filter (\<lambda>q. am_ModelID q = j) ?qs)) (antigravity_view j s)))
    (\<lambda>_ _. False) s"
    by (rule wp_forE_views [where R = "\<lambda>n s. at_hasLastValues s \<or> at_lastFractions s n = None"])
       (use ok valid in \<open>auto simp: wps antigravity_ok_def antigravity_valid_def antigravity_post_def
          intro!: wp_mono [OF antigravity_processModel_refines]\<close>)
  then show "wp (antigravity_Process sn) (\<lambda>_ s'. antigravity_ok s' \<and> (\<forall>n \<in> UNIV.
      antigravity_view n s' = fold (carry_step antigravity_policy n) (antigravity_readings n sn) (antigravity_view n s)))
    (\<lambda>_ _. False) s"
    unfolding antigravity_Process_def wp_thenE skip
    by (rule wp_mono)
       (auto simp: wps antigravity_ok_def antigravity_inv_def antigravity_view_def antigravity_last_def antigravity_readings_def)
qed

subsection \<open>Summary\<close>

record antigravity_summary =
  as_ModelID :: string
  as_Label :: string
  as_RemainingFraction :: f64
  as_UsagePercent :: f64
  as_IsExhausted :: bool
  as_ResetTime :: "time option"
  as_TimeUntilReset :: duration
  as_CurrentRate :: f64
  as_ProjectedUsage :: f64
  as_CompletedCycles :: int
  as_AvgPerCycle :: f64
  as_PeakCycle :: f64
  as_TotalTracked :: f64
  as_TrackingSince :: time

definition antigravity_summary_history :: "string \<Rightarrow> AntigravityResetCycle list \<Rightarrow> antigravity_summary" where
  "antigravity_summary_history modelID history =
     \<lparr>as_ModelID = modelID, as_Label = [], as_RemainingFraction = 0, as_UsagePercent = 0, as_IsExhausted = False,
      as_ResetTime = None, as_TimeUntilReset = 0, as_CurrentRate = 0, as_ProjectedUsage = 0,
      as_CompletedCycles = int (length history), as_AvgPerCycle = history_avg history,
      as_PeakCycle = history_peak cyc_peak history, as_TotalTracked = history_total history,
      as_TrackingSince = tracking_since history\<rparr>"

definition antigravity_summary_active :: "time \<Rightarrow> AntigravityResetCycle \<Rightarrow> antigravity_summary \<Rightarrow> antigravity_summary" where
  "antigravity_summary_active now c sm =
     (let sm = sm\<lparr>as_TotalTracked := fadd (as_TotalTracked sm) (cyc_delta c),
                  as_PeakCycle := raise_peak (as_PeakCycle sm) (cyc_peak c)\<rparr>
      in case cyc_reset c of
           Some r \<Rightarrow> sm\<lparr>as_ResetTime := Some r, as_TimeUntilReset := time_left now r\<rparr>
         | None \<Rightarrow> sm)"

definition antigravity_summary_current :: "time \<Rightarrow> antigravity_model list \<Rightarrow> antigravity_summary \<Rightarrow> antigravity_summary" where
  "antigravity_summary_current now models sm =
     (case find (\<lambda>m. am_ModelID m = as_ModelID sm) models of
        None \<Rightarrow> sm
      | Some m \<Rightarrow>
          (let sm = sm\<lparr>as_Label := am_Label m, as_RemainingFraction := am_RemainingFraction m,
                       as_UsagePercent := fmul (usage_of (am_RemainingFraction m)) 100, as_IsExhausted := am_IsExhausted m\<rparr>
           in case (as_ResetTime sm, am_ResetTime m) of
                (None, Some r) \<Rightarrow> sm\<lparr>as_ResetTime := Some r, as_TimeUntilReset := time_left now r\<rparr>
              | _ \<Rightarrow> sm))"

definition antigravity_UsageSummary ::
    "time \<Rightarrow> time \<Rightarrow> time \<Rightarrow> time \<Rightarrow> time \<Rightarrow> string \<Rightarrow> (antigravity_tracker, antigravity_summary) op" where
  "antigravity_UsageSummary now1 now2 now3 now4 now5 modelID =
     bindE (wrapE ''failed to query active cycle: '' (onStore (QueryActiveAntigravityCycle modelID))) (\<lambda>activeCycle.
     bindE (wrapE ''failed to query cycle history: '' (onStore (QueryAntigravityCycleHistory modelID []))) (\<lambda>history.
       case activeCycle of
         None \<Rightarrow> returnE (antigravity_summary_history modelID history)
       | Some c \<Rightarrow>
           bindE (wrapE ''failed to query latest: ''
             (liftE at_snaps (\<lambda>t s. s\<lparr>at_snaps := t\<rparr>) (QueryLatestAntigravity now2))) (\<lambda>latest.
             let sm = antigravity_summary_active now1 c (antigravity_summary_history modelID history)
             in returnE (case latest of
                  None \<Rightarrow> sm
                | Some sn \<Rightarrow>
                    (let sm = antigravity_summary_current now3 (snap_Quotas sn) sm;
                         (rate, projected) = usage_projection now4 now5 c (as_ResetTime sm) (as_RemainingFraction sm)
                     in sm\<lparr>as_CurrentRate := rate, as_ProjectedUsage := projected\<rparr>)))))"

subsection \<open>Properties\<close>

text \<open>A segment of Antigravity readings ends with a jump of the reset time by more than ten minutes against the last one
  reported, with a rise of the fraction by more than a tenth, or with any rise after the reset time of the
  segment's first reading.\<close>

definition antigravity_over ::
    "(f64 \<times> time option, time option) reading list \<Rightarrow> (f64 \<times> time option, time option) reading \<Rightarrow> bool" where
  "antigravity_over seg rd \<longleftrightarrow> (case rd_value (List.last seg) of (l, m) \<Rightarrow>
     (case (rd_reset rd, m) of (Some r', Some r) \<Rightarrow> 10 * Minute < dur_abs (time_Sub r' r) | _ \<Rightarrow> False) \<or>
     fadd l (rnd (1 / 10)) < fst (rd_value rd) \<or>
     (case rd_reset (hd seg) of Some r \<Rightarrow> r < rd_at rd \<and> l < fst (rd_value rd) | None \<Rightarrow> False))"

lemma antigravity_policy_over: "seg \<noteq> [] \<Longrightarrow> policy_over antigravity_policy k seg rd = antigravity_over seg rd"
  using open_seg_reset_kept [of antigravity_policy seg k]
  by (simp add: policy_over_def antigravity_over_def antigravity_policy_def split: prod.split)

text \<open>From an empty table, for every model, the Antigravity tracker keeps exactly the cycles of the
  segments of the model's readings, where each reading carries the last reset time reported so far;
  models without an id leave no trace.\<close>

theorem antigravity_history:
  assumes "antigravity_ok s" "antigravity_view n s = empty_quota" "\<forall>sn \<in> set sns. antigravity_valid sn"
  shows "antigravity_view n (poll_all antigravity_Process sns s) =
    quota_of_segments antigravity_policy n (segments antigravity_over (carry None (concat (map (antigravity_readings n) sns))))"
  by (subst segments_cong [OF antigravity_policy_over, symmetric], assumption)
     (rule antigravity_refinement.run_segments, use assms in auto)

definition fresh_antigravity :: antigravity_tracker where
  "fresh_antigravity = \<lparr>trk_store = empty_tbl, trk_onReset = True, trk_resets = [], at_snaps = empty_tbl,
     at_lastFractions = Map.empty, at_lastResetTimes = Map.empty, at_hasLastValues = False\<rparr>"

lemma fresh_antigravity_ok: "antigravity_ok fresh_antigravity" "antigravity_view n fresh_antigravity = empty_quota"
  by (simp_all add: antigravity_ok_def antigravity_inv_def fresh_antigravity_def healthy_def empty_tbl_def wf_empty [unfolded empty_tbl_def]
      antigravity_view_def antigravity_last_def quota_view_def active_def closed_cycles_def empty_quota_def)

definition antigravity_poll :: "time \<Rightarrow> f64 \<Rightarrow> time option \<Rightarrow> antigravity_snapshot" where
  "antigravity_poll t v r = \<lparr>snap_ID = 0, snap_CapturedAt = t,
     snap_meta = \<lparr>ag_Email = [], ag_PlanName = [], ag_PromptCredits = 0, ag_MonthlyCredits = 0, ag_RawJSON = [], ag_Source = ''ide''\<rparr>,
     snap_Quotas = [\<lparr>am_ModelID = ''gemini'', am_Label = [], am_RemainingFraction = v, am_RemainingPercent = 0,
                     am_IsExhausted = False, am_ResetTime = r, am_TimeUntilReset = 0\<rparr>]\<rparr>"

text \<open>The reset time is not reported by the second reading, and the third is compared with that of the first.\<close>

theorem antigravity_history_witness:
  "antigravity_view ''gemini'' (poll_all antigravity_Process [antigravity_poll Hour (3 / 4) (Some (6 * Hour)),
      antigravity_poll (2 * Hour) (1 / 2) None, antigravity_poll (3 * Hour) (1 / 2) (Some (9 * Hour))] fresh_antigravity) =
     \<lparr>qt_open = Some \<lparr>cyc_id = 0, cyc_key = ''gemini'', cyc_start = 3 * Hour, cyc_end = None,
        cyc_reset = Some (9 * Hour), cyc_peak = 1 / 2, cyc_delta = 0\<rparr>,
      qt_done = {#\<lparr>cyc_id = 0, cyc_key = ''gemini'', cyc_start = Hour, cyc_end = Some (3 * Hour),
        cyc_reset = Some (6 * Hour), cyc_peak = 1 / 2, cyc_delta = 1 / 4\<rparr>#},
      qt_last = Some (1 / 2, Some (9 * Hour))\<rparr>"
proof -
  have v: "usage_of (3 / 4) = 1 / 4" "usage_of (1 / 2) = 1 / 2" "\<not> fadd (3 / 4) (rnd (1 / 10)) * 2 < 1"
    "rnd (1 / 4) = 1 / 4" "fadd 0 (1 / 4) = 1 / 4" "fsub (3 / 4) (1 / 2) = 1 / 4"
    by code_simp+
  show ?thesis
    by (subst antigravity_history [OF fresh_antigravity_ok])
       (simp_all add: antigravity_poll_def antigravity_valid_def antigravity_readings_def antigravity_reading_def dress_def
          antigravity_over_def follow_reset_def time_Sub_def dur_abs_def v quota_of_segments_def open_seg_def
          done_seg_def tick_cycle_def end_by_def with_stats_def antigravity_policy_sel add_delta_def raise_peak_def
          open_at_def finish_at_def)
qed

end
