(* ===== verification/CopilotTracker.thy ===== *)
theory CopilotTracker
  imports TrackerBase
begin

text \<open>
  Copilot (\<open>internal/tracker/copilot_tracker.go\<close>, \<open>internal/store/copilot_store.go\<close>): integer quotas, an
  entitlement and what remains of it, and one reset date for all quotas of a snapshot. A reset is a
  change of the reset date, or any increase of the remainder after the stored date has passed. Amounts are
  64-bit integers.
\<close>

subsection \<open>Snapshots\<close>

record copilot_quota =
  cp_Name :: string
  cp_Entitlement :: int
  cp_Remaining :: int
  cp_PercentRemaining :: f64
  cp_Unlimited :: bool
  cp_OverageCount :: int

record copilot_meta =
  cp_ResetDate :: "time option"
  cp_CopilotPlan :: string
  cp_RawJSON :: string

type_synonym copilot_snapshot = "(copilot_meta, copilot_quota) snap"

definition InsertCopilotSnapshot :: "copilot_snapshot \<Rightarrow> (copilot_snapshot tbl, int) op" where
  "InsertCopilotSnapshot snapshot = sql_insert_snap ''failed to insert copilot snapshot: ''
     (\<lambda>q. ''failed to insert copilot quota value '' @ cp_Name q @ '': '') snapshot"

definition QueryLatestCopilot :: "(copilot_snapshot tbl, copilot_snapshot option) op" where
  "QueryLatestCopilot = sql_latest_snap ''failed to query latest copilot: '' ''failed to query copilot quota values: ''
     (\<lambda>_. True) (\<lambda>m. m\<lparr>cp_RawJSON := []\<rparr>) cp_Name (\<lambda>_. True)"

subsection \<open>The tracker\<close>

text \<open>\<open>lastResets\<close> holds the formatted date, the empty text for none; the date stands for its text, as the
  API reports all dates in UTC.\<close>

record copilot_tracker = "(string, int, time option) trk" +
  ct_snaps :: "copilot_snapshot tbl"
  ct_lastValues :: "string \<Rightarrow> int option"
  ct_lastResets :: "string \<Rightarrow> time option option"
  ct_hasLastValues :: bool

definition copilot_remember :: "copilot_quota \<Rightarrow> time option \<Rightarrow> copilot_tracker \<Rightarrow> copilot_tracker" where
  "copilot_remember quota resetDate s =
     s\<lparr>ct_lastValues := (ct_lastValues s)(cp_Name quota \<mapsto> cp_Remaining quota),
       ct_lastResets := (ct_lastResets s)(cp_Name quota \<mapsto> resetDate)\<rparr>"

definition used_of :: "copilot_quota \<Rightarrow> int" where
  "used_of quota = i64 (cp_Entitlement quota - cp_Remaining quota)"

definition copilot_open :: "string \<Rightarrow> copilot_quota \<Rightarrow> time \<Rightarrow> time option \<Rightarrow> (copilot_tracker, unit) op" where
  "copilot_open msg quota capturedAt resetDate =
     bindE (wrapE msg (onStore (CreateCopilotCycle (cp_Name quota) capturedAt resetDate)))
       (\<lambda>_. wrapE ''failed to set initial peak: '' (onStore (UpdateCopilotCycle (cp_Name quota) (used_of quota) 0)))"

definition copilot_resetDetected ::
    "copilot_quota \<Rightarrow> time \<Rightarrow> time option \<Rightarrow> CopilotResetCycle \<Rightarrow> copilot_tracker \<Rightarrow> bool" where
  "copilot_resetDetected quota capturedAt resetDate c s \<longleftrightarrow>
     (case (ct_lastResets s (cp_Name quota), resetDate) of
        (Some (Some lastReset), Some r) \<Rightarrow> r \<noteq> lastReset | _ \<Rightarrow> False) \<or>
     (case (cyc_reset c, ct_lastValues s (cp_Name quota)) of
        (Some r, Some lastRemaining) \<Rightarrow> time_After capturedAt r \<and> lastRemaining < cp_Remaining quota
      | _ \<Rightarrow> False)"

definition copilot_rollover ::
    "copilot_quota \<Rightarrow> time \<Rightarrow> time option \<Rightarrow> CopilotResetCycle \<Rightarrow> (copilot_tracker, unit) op" where
  "copilot_rollover quota capturedAt resetDate c =
     (let cycleEndTime = (case cyc_reset c of
            Some r \<Rightarrow> if time_After capturedAt r then r else capturedAt | None \<Rightarrow> capturedAt)
      in thenE (wrapE ''failed to close cycle: ''
                 (onStore (CloseCopilotCycle (cp_Name quota) cycleEndTime (cyc_peak c) (cyc_delta c))))
           (thenE (copilot_open ''failed to create new cycle: '' quota capturedAt resetDate)
             (thenE (modifyE (copilot_remember quota resetDate)) (modifyE (fireReset (cp_Name quota))))))"

definition copilot_tick :: "copilot_quota \<Rightarrow> time option \<Rightarrow> CopilotResetCycle \<Rightarrow> (copilot_tracker, unit) op" where
  "copilot_tick quota resetDate c =
     (let currentUsed = used_of quota;
          raise = (if cyc_peak c < currentUsed then
              wrapE ''failed to update cycle: '' (onStore (UpdateCopilotCycle (cp_Name quota) currentUsed (cyc_delta c)))
            else returnE ())
      in thenE (withE (\<lambda>s.
           if ct_hasLastValues s then
             (case ct_lastValues s (cp_Name quota) of
                Some lastRemaining \<Rightarrow>
                  wrapE ''failed to update cycle: ''
                    (onStore (UpdateCopilotCycle (cp_Name quota) (raise_peak (cyc_peak c) currentUsed)
                      (add_idelta (cyc_delta c) (cp_Remaining quota) lastRemaining)))
              | None \<Rightarrow> raise)
           else raise))
         (modifyE (copilot_remember quota resetDate)))"

definition copilot_processQuota :: "copilot_quota \<Rightarrow> time \<Rightarrow> time option \<Rightarrow> (copilot_tracker, unit) op" where
  "copilot_processQuota quota capturedAt resetDate =
     bindE (wrapE ''failed to query active cycle: '' (onStore (QueryActiveCopilotCycle (cp_Name quota))))
       (\<lambda>cycle. case cycle of
          None \<Rightarrow> thenE (copilot_open ''failed to create cycle: '' quota capturedAt resetDate)
                    (modifyE (copilot_remember quota resetDate))
        | Some c \<Rightarrow> withE (\<lambda>s.
            if copilot_resetDetected quota capturedAt resetDate c s then copilot_rollover quota capturedAt resetDate c
            else copilot_tick quota resetDate c))"

definition copilot_Process :: "copilot_snapshot \<Rightarrow> (copilot_tracker, unit) op" where
  "copilot_Process snapshot =
     thenE (forE (\<lambda>quota. wrapE (''copilot tracker: '' @ cp_Name quota @ '': '')
                   (copilot_processQuota quota (snap_CapturedAt snapshot) (cp_ResetDate (snap_meta snapshot)))) (snap_Quotas snapshot))
       (modifyE (\<lambda>s. s\<lparr>ct_hasLastValues := True\<rparr>))"

subsection \<open>What every run keeps\<close>

lemma copilot_state [simp]:
  "trk_store (copilot_remember q r s) = trk_store s"
  "ct_hasLastValues (copilot_remember q r s) = ct_hasLastValues s"
  "ct_lastValues (copilot_remember q r s) = (ct_lastValues s)(cp_Name q \<mapsto> cp_Remaining q)"
  "ct_lastResets (copilot_remember q r s) = (ct_lastResets s)(cp_Name q \<mapsto> r)"
  "ct_hasLastValues (fireReset n s) = ct_hasLastValues s" "ct_lastValues (fireReset n s) = ct_lastValues s"
  "ct_lastResets (fireReset n s) = ct_lastResets s"
  by (auto simp: copilot_remember_def fireReset_def)

lemma copilot_rollover_keeps:
  "keeps t0 (trk_store s) \<Longrightarrow>
   wp (copilot_rollover q cap r c) (\<lambda>_ s'. keeps t0 (trk_store s')) (\<lambda>_ s'. keeps t0 (trk_store s')) s"
  by (auto simp: copilot_rollover_def copilot_open_def wps Let_def intro!: copilot_store.wp_calls split: option.split)

lemma copilot_tick_keeps:
  "keeps t0 (trk_store s) \<Longrightarrow>
   wp (copilot_tick q r c) (\<lambda>_ s'. keeps t0 (trk_store s')) (\<lambda>_ s'. keeps t0 (trk_store s')) s"
  by (auto simp: copilot_tick_def wps Let_def intro!: copilot_store.wp_update split: option.split)

lemma copilot_processQuota_keeps:
  "keeps t0 (trk_store s) \<Longrightarrow>
   wp (copilot_processQuota q cap r) (\<lambda>_ s'. keeps t0 (trk_store s')) (\<lambda>_ s'. keeps t0 (trk_store s')) s"
  unfolding copilot_processQuota_def wp_bindE wp_wrapE
  by (erule copilot_store.wp_query)
     (auto simp: copilot_open_def wps intro!: copilot_store.wp_create copilot_store.wp_update copilot_rollover_keeps copilot_tick_keeps
        split: option.split)

interpretation copilot_tracker: quota_tracker copilot_Process
  by unfold_locales
     (auto simp: copilot_Process_def wps intro!: wp_mono [OF wp_forE_inv] copilot_processQuota_keeps)

subsection \<open>What the tracker computes\<close>

text \<open>The value of a reading is what is used, what remains and the reset date. The tracker does not remember
  what was used, and no decision depends on the last of it: \<open>forget\<close> erases it from the abstract account.\<close>

type_synonym copilot_value = "int \<times> int \<times> time option"

definition forget :: "('k, copilot_value, 'v, 'r) quota \<Rightarrow> ('k, copilot_value, 'v, 'r) quota" where
  "forget q = q\<lparr>qt_last := map_option (\<lambda>(_, l, m). (0, l, m)) (qt_last q)\<rparr>"

definition copilot_policy :: "(string, copilot_value, int, time option) policy" where
  "copilot_policy = \<lparr>
     pol_init = (\<lambda>v. (fst v, 0)),
     pol_over = (\<lambda>c lst rd. case lst of
         Some (_, l, m) \<Rightarrow>
           (case (m, rd_reset rd) of (Some r, Some r') \<Rightarrow> r' \<noteq> r | _ \<Rightarrow> False) \<or>
           (case cyc_reset c of Some r \<Rightarrow> r < rd_at rd \<and> l < fst (snd (rd_value rd)) | None \<Rightarrow> False)
       | None \<Rightarrow> False),
     pol_end = (\<lambda>c rd. case cyc_reset c of Some r \<Rightarrow> min r (rd_at rd) | None \<Rightarrow> rd_at rd),
     pol_close = (\<lambda>_ _ st. st),
     pol_tick = (\<lambda>lst v st. (raise_peak (fst st) (fst v),
                   case lst of Some (_, l, _) \<Rightarrow> add_idelta (snd st) (fst (snd v)) l | None \<Rightarrow> snd st)),
     pol_reset = (\<lambda>r _. r)\<rparr>"

lemma copilot_policy_sel:
  "pol_end copilot_policy c rd = (case cyc_reset c of Some r \<Rightarrow> min r (rd_at rd) | None \<Rightarrow> rd_at rd)"
  "pol_close copilot_policy lst v st = st" "pol_init copilot_policy v = (fst v, 0)"
  "pol_tick copilot_policy lst v st = (raise_peak (fst st) (fst v),
     case lst of Some (_, l, _) \<Rightarrow> add_idelta (snd st) (fst (snd v)) l | None \<Rightarrow> snd st)"
  "pol_reset copilot_policy r r' = r"
  by (simp_all add: copilot_policy_def)

lemma quota_step_forget: "quota_step copilot_policy k e (forget q) = quota_step copilot_policy k e q"
  by (cases "qt_last q") (auto simp: quota_step_def forget_def copilot_policy_def end_by_def tick_cycle_def split: option.split)

lemma fold_forget:
  "fold (\<lambda>e q. forget (quota_step copilot_policy k e q)) es (forget q) = forget (fold (quota_step copilot_policy k) es q)"
  by (induction es arbitrary: q) (simp_all add: quota_step_forget)

definition copilot_reading :: "time \<Rightarrow> time option \<Rightarrow> copilot_quota \<Rightarrow> (copilot_value, time option) reading" where
  "copilot_reading capturedAt r q = \<lparr>rd_at = capturedAt, rd_value = (used_of q, cp_Remaining q, r), rd_reset = r\<rparr>"

definition copilot_readings :: "string \<Rightarrow> copilot_snapshot \<Rightarrow> (copilot_value, time option) reading list" where
  "copilot_readings n sn = map (copilot_reading (snap_CapturedAt sn) (cp_ResetDate (snap_meta sn)))
     (filter (\<lambda>q. cp_Name q = n) (snap_Quotas sn))"

definition copilot_last :: "string \<Rightarrow> copilot_tracker \<Rightarrow> copilot_value option" where
  "copilot_last n s = map_option (\<lambda>l. (0, l, case ct_lastResets s n of Some r \<Rightarrow> r | None \<Rightarrow> None)) (ct_lastValues s n)"

definition copilot_view :: "string \<Rightarrow> copilot_tracker \<Rightarrow> (string, copilot_value, int, time option) quota" where
  "copilot_view n s = quota_view n (copilot_last n s) (trk_store s)"

definition copilot_inv :: "copilot_tracker \<Rightarrow> bool" where
  "copilot_inv s \<longleftrightarrow> healthy (trk_store s) \<and> wf_cycles (trk_store s) \<and>
     (\<forall>n. ct_lastValues s n = None \<longrightarrow> ct_lastResets s n = None)"

definition copilot_ok :: "copilot_tracker \<Rightarrow> bool" where
  "copilot_ok s \<longleftrightarrow> copilot_inv s \<and> (ct_hasLastValues s \<or> ct_lastValues s = Map.empty)"

definition copilot_post :: "copilot_tracker \<Rightarrow> copilot_quota \<Rightarrow> time \<Rightarrow> time option \<Rightarrow> copilot_tracker \<Rightarrow> bool" where
  "copilot_post s q cap r s' \<longleftrightarrow> copilot_inv s' \<and> ct_hasLastValues s' = ct_hasLastValues s \<and>
     (\<forall>n. n \<noteq> cp_Name q \<longrightarrow> ct_lastValues s' n = ct_lastValues s n) \<and>
     copilot_view (cp_Name q) s' =
       forget (quota_step copilot_policy (cp_Name q) (copilot_reading cap r q) (copilot_view (cp_Name q) s)) \<and>
     (\<forall>j. j \<noteq> cp_Name q \<longrightarrow> copilot_view j s' = copilot_view j s)"

lemmas copilot_steps = copilot_post_def copilot_inv_def copilot_view_def copilot_last_def quota_simps forget_def
  copilot_reading_def copilot_policy_sel raise_peak_def time_defs

lemma copilot_detect_policy:
  assumes "copilot_inv s"
  shows "copilot_resetDetected q cap r c s =
    pol_over copilot_policy (anon c) (copilot_last (cp_Name q) s) (copilot_reading cap r q)"
  using assms
  by (auto simp: copilot_resetDetected_def copilot_policy_def copilot_last_def copilot_reading_def
      copilot_inv_def time_defs split: option.splits)

lemma copilot_first_refines:
  assumes "copilot_inv s" "active (cp_Name q) (trk_store s) = None"
  shows "wp (copilot_processQuota q cap r) (\<lambda>_. copilot_post s q cap r) (\<lambda>_ _. False) s"
  using assms
  by (simp add: copilot_processQuota_def copilot_open_def wps copilot_store.healthy_wp copilot_inv_def)
     (auto simp: copilot_steps split: option.splits)

lemma copilot_rollover_refines:
  assumes "copilot_inv s" "active (cp_Name q) (trk_store s) = Some c"
    and "pol_over copilot_policy (anon c) (copilot_last (cp_Name q) s) (copilot_reading cap r q)"
  shows "wp (copilot_rollover q cap r c) (\<lambda>_. copilot_post s q cap r) (\<lambda>_ _. False) s"
  using assms
  by (simp add: copilot_rollover_def copilot_open_def wps copilot_store.healthy_wp copilot_inv_def Let_def)
     (auto simp: copilot_steps split: option.splits)

lemma copilot_tick_refines:
  assumes "copilot_inv s" "ct_hasLastValues s \<or> ct_lastValues s (cp_Name q) = None"
    and "active (cp_Name q) (trk_store s) = Some c"
    and "\<not> pol_over copilot_policy (anon c) (copilot_last (cp_Name q) s) (copilot_reading cap r q)"
  shows "wp (copilot_tick q r c) (\<lambda>_. copilot_post s q cap r) (\<lambda>_ _. False) s"
  using assms
  apply (simp add: copilot_tick_def wps copilot_store.healthy_wp copilot_inv_def Let_def)
  apply (auto simp: copilot_store.healthy_wp wps split: option.split)
  apply (simp_all add: copilot_steps)
  apply (auto intro!: cycle.equality simp: anon_fields split: option.splits)
  done

lemma copilot_processQuota_refines:
  assumes "copilot_inv s" "ct_hasLastValues s \<or> ct_lastValues s (cp_Name q) = None"
  shows "wp (copilot_processQuota q cap r) (\<lambda>_. copilot_post s q cap r) (\<lambda>_ _. False) s"
proof (cases "active (cp_Name q) (trk_store s)")
  case None
  with assms show ?thesis by (intro copilot_first_refines)
next
  case (Some c)
  have "healthy (trk_store s)" "wf_cycles (trk_store s)" using assms(1) by (auto simp: copilot_inv_def)
  then show ?thesis
    using copilot_rollover_refines [OF assms(1) Some, of cap r] copilot_tick_refines [OF assms Some, of cap r]
    by (simp add: copilot_processQuota_def wps copilot_store.healthy_wp Some copilot_detect_policy [OF assms(1)])
qed

interpretation copilot_refinement: stepping_tracker copilot_Process copilot_ok "\<lambda>sn. distinct (map cp_Name (snap_Quotas sn))"
    "UNIV :: string set" copilot_view copilot_readings "\<lambda>n e q. forget (quota_step copilot_policy n e q)"
proof unfold_locales
  fix s :: copilot_tracker and sn :: copilot_snapshot
  assume ok: "copilot_ok s" and dist: "distinct (map cp_Name (snap_Quotas sn))"
  let ?r = "cp_ResetDate (snap_meta sn)"
  let ?I = "\<lambda>s'. copilot_inv s' \<and> ct_hasLastValues s' = ct_hasLastValues s"
  have "wp (forE (\<lambda>quota. wrapE (''copilot tracker: '' @ cp_Name quota @ '': '')
                   (copilot_processQuota quota (snap_CapturedAt sn) ?r)) (snap_Quotas sn))
    (\<lambda>_ s'. ?I s' \<and> (\<forall>j. copilot_view j s' = fold (\<lambda>e q. forget (quota_step copilot_policy j e q))
       (map (copilot_reading (snap_CapturedAt sn) ?r) (filter (\<lambda>q. cp_Name q = j) (snap_Quotas sn))) (copilot_view j s)))
    (\<lambda>_ _. False) s"
    by (rule wp_forE_views [where R = "\<lambda>n s. ct_hasLastValues s \<or> ct_lastValues s n = None"
          and step = "\<lambda>j e q. forget (quota_step copilot_policy j e q)"])
       (use ok dist in \<open>auto simp: wps copilot_ok_def copilot_post_def intro!: wp_mono [OF copilot_processQuota_refines]\<close>)
  then show "wp (copilot_Process sn) (\<lambda>_ s'. copilot_ok s' \<and> (\<forall>n \<in> UNIV.
      copilot_view n s' = fold (\<lambda>e q. forget (quota_step copilot_policy n e q)) (copilot_readings n sn) (copilot_view n s)))
    (\<lambda>_ _. False) s"
    unfolding copilot_Process_def wp_thenE
    by (rule wp_mono) (auto simp: wps copilot_ok_def copilot_inv_def copilot_view_def copilot_last_def copilot_readings_def)
qed

subsection \<open>Summary\<close>

record copilot_summary =
  cs_QuotaName :: string
  cs_Entitlement :: int
  cs_CurrentRemaining :: int
  cs_CurrentUsed :: int
  cs_UsagePercent :: f64
  cs_Unlimited :: bool
  cs_ResetDate :: "time option"
  cs_TimeUntilReset :: duration
  cs_CurrentRate :: f64
  cs_ProjectedUsage :: int
  cs_CompletedCycles :: int
  cs_AvgPerCycle :: f64
  cs_PeakCycle :: int
  cs_TotalTracked :: int
  cs_TrackingSince :: time

definition copilot_summary_history :: "string \<Rightarrow> CopilotResetCycle list \<Rightarrow> copilot_summary" where
  "copilot_summary_history quotaName history =
     \<lparr>cs_QuotaName = quotaName, cs_Entitlement = 0, cs_CurrentRemaining = 0, cs_CurrentUsed = 0, cs_UsagePercent = 0,
      cs_Unlimited = False, cs_ResetDate = None, cs_TimeUntilReset = 0, cs_CurrentRate = 0, cs_ProjectedUsage = 0,
      cs_CompletedCycles = int (length history), cs_AvgPerCycle = history_iavg history,
      cs_PeakCycle = history_ipeak cyc_peak history, cs_TotalTracked = history_itotal history,
      cs_TrackingSince = tracking_since history\<rparr>"

definition copilot_summary_active :: "time \<Rightarrow> CopilotResetCycle \<Rightarrow> copilot_summary \<Rightarrow> copilot_summary" where
  "copilot_summary_active now c sm =
     (let sm = sm\<lparr>cs_TotalTracked := i64 (cs_TotalTracked sm + cyc_delta c),
                  cs_PeakCycle := raise_peak (cs_PeakCycle sm) (cyc_peak c)\<rparr>
      in case cyc_reset c of
           Some r \<Rightarrow> sm\<lparr>cs_ResetDate := Some r, cs_TimeUntilReset := time_Sub r now\<rparr>
         | None \<Rightarrow> sm)"

definition copilot_summary_current :: "time \<Rightarrow> copilot_snapshot \<Rightarrow> copilot_summary \<Rightarrow> copilot_summary" where
  "copilot_summary_current now latest sm =
     (case find (\<lambda>q. cp_Name q = cs_QuotaName sm) (snap_Quotas latest) of
        None \<Rightarrow> sm
      | Some q \<Rightarrow>
          (let sm = sm\<lparr>cs_Entitlement := cp_Entitlement q, cs_CurrentRemaining := cp_Remaining q, cs_CurrentUsed := used_of q,
                       cs_UsagePercent := fsub 100 (cp_PercentRemaining q), cs_Unlimited := cp_Unlimited q\<rparr>
           in case (cs_ResetDate sm, cp_ResetDate (snap_meta latest)) of
                (None, Some r) \<Rightarrow> sm\<lparr>cs_ResetDate := Some r, cs_TimeUntilReset := time_Sub r now\<rparr>
              | _ \<Rightarrow> sm))"

definition copilot_summary_rate :: "time \<Rightarrow> time \<Rightarrow> CopilotResetCycle \<Rightarrow> copilot_summary \<Rightarrow> copilot_summary" where
  "copilot_summary_rate nowSince nowLeft c sm =
     (let elapsed = time_Sub nowSince (cyc_start c)
      in if 30 \<le> dur_Minutes elapsed \<and> 0 < cyc_delta c then
           (let sm = sm\<lparr>cs_CurrentRate := fdiv (float_of (cyc_delta c)) (dur_Hours elapsed)\<rparr>
            in case cs_ResetDate sm of
                 Some r \<Rightarrow>
                   if 0 < cs_Entitlement sm then
                     (let hoursLeft = dur_Hours (time_Sub r nowLeft)
                      in if 0 < hoursLeft then
                           (let projected = i64 (cs_CurrentUsed sm + to_i64 (fmul (cs_CurrentRate sm) hoursLeft))
                            in sm\<lparr>cs_ProjectedUsage := if cs_Entitlement sm < projected then cs_Entitlement sm else projected\<rparr>)
                         else sm)
                   else sm
               | None \<Rightarrow> sm)
         else sm)"

definition copilot_UsageSummary ::
    "time \<Rightarrow> time \<Rightarrow> time \<Rightarrow> time \<Rightarrow> string \<Rightarrow> (copilot_tracker, copilot_summary) op" where
  "copilot_UsageSummary now1 now2 now3 now4 quotaName =
     bindE (wrapE ''failed to query active cycle: '' (onStore (QueryActiveCopilotCycle quotaName))) (\<lambda>activeCycle.
     bindE (wrapE ''failed to query cycle history: '' (onStore (QueryCopilotCycleHistory quotaName []))) (\<lambda>history.
       case activeCycle of
         None \<Rightarrow> returnE (copilot_summary_history quotaName history)
       | Some c \<Rightarrow>
           bindE (wrapE ''failed to query latest: '' (liftE ct_snaps (\<lambda>t s. s\<lparr>ct_snaps := t\<rparr>) QueryLatestCopilot)) (\<lambda>latest.
             let sm = copilot_summary_active now1 c (copilot_summary_history quotaName history)
             in returnE (case latest of
                  None \<Rightarrow> sm
                | Some sn \<Rightarrow> copilot_summary_rate now3 now4 c (copilot_summary_current now2 sn sm)))))"

lemma copilot_summary_keeps [simp]:
  "cs_CompletedCycles (copilot_summary_rate t1 t2 c sm) = cs_CompletedCycles sm"
  "cs_TotalTracked (copilot_summary_rate t1 t2 c sm) = cs_TotalTracked sm"
  "cs_CompletedCycles (copilot_summary_current t sn sm) = cs_CompletedCycles sm"
  "cs_TotalTracked (copilot_summary_current t sn sm) = cs_TotalTracked sm"
  "cs_CompletedCycles (copilot_summary_active t c sm) = cs_CompletedCycles sm"
  "cs_TotalTracked (copilot_summary_active t c sm) = i64 (cs_TotalTracked sm + cyc_delta c)"
  "cs_ProjectedUsage (copilot_summary_current t sn sm) = cs_ProjectedUsage sm"
  "cs_ProjectedUsage (copilot_summary_active t c sm) = cs_ProjectedUsage sm"
  by (auto simp: copilot_summary_rate_def copilot_summary_current_def copilot_summary_active_def Let_def split: option.split)

lemma copilot_projection:
  "cs_ProjectedUsage sm = 0 \<Longrightarrow> cs_ProjectedUsage (copilot_summary_rate t1 t2 c sm) \<noteq> 0 \<Longrightarrow>
   cs_ProjectedUsage (copilot_summary_rate t1 t2 c sm) \<le> cs_Entitlement (copilot_summary_rate t1 t2 c sm)"
  by (auto simp: copilot_summary_rate_def Let_def split: option.splits if_splits)

subsection \<open>Properties\<close>

text \<open>A segment of Copilot readings ends with a change of the reset date, or with any increase of the remainder after
  the reset date of the segment's first reading has passed.\<close>

definition copilot_over ::
    "(copilot_value, time option) reading list \<Rightarrow> (copilot_value, time option) reading \<Rightarrow> bool" where
  "copilot_over seg rd \<longleftrightarrow> (case rd_value (List.last seg) of (_, l, m) \<Rightarrow>
     (case (m, rd_reset rd) of (Some r, Some r') \<Rightarrow> r' \<noteq> r | _ \<Rightarrow> False) \<or>
     (case rd_reset (hd seg) of Some r \<Rightarrow> r < rd_at rd \<and> l < fst (snd (rd_value rd)) | None \<Rightarrow> False))"

lemma copilot_policy_over: "seg \<noteq> [] \<Longrightarrow> policy_over copilot_policy k seg rd = copilot_over seg rd"
  using open_seg_reset_kept [of copilot_policy seg k]
  by (simp add: policy_over_def copilot_over_def copilot_policy_def split: prod.split)

text \<open>From an empty table, for every quota, the Copilot tracker keeps exactly the cycles of the
  segments of the quota's readings, cut at a changed reset date or at an increase of the remainder after
  the date has passed; each begins with the used amount as its peak.\<close>

theorem copilot_history:
  assumes "copilot_ok s" "copilot_view n s = empty_quota" "\<forall>sn \<in> set sns. distinct (map cp_Name (snap_Quotas sn))"
  shows "copilot_view n (poll_all copilot_Process sns s) =
    forget (quota_of_segments copilot_policy n (segments copilot_over (concat (map (copilot_readings n) sns))))"
proof -
  have "forget (empty_quota :: (string, copilot_value, int, time option) quota) = empty_quota"
    by (simp add: forget_def empty_quota_def)
  then show ?thesis
    using copilot_refinement.run_steps [OF assms(1) assms(3), of n] assms(2)
      fold_forget [of n "concat (map (copilot_readings n) sns)" empty_quota]
    by (simp add: quota_run_segments segments_cong [OF copilot_policy_over])
qed

definition fresh_copilot :: copilot_tracker where
  "fresh_copilot = \<lparr>trk_store = empty_tbl, trk_onReset = True, trk_resets = [], ct_snaps = empty_tbl,
     ct_lastValues = Map.empty, ct_lastResets = Map.empty, ct_hasLastValues = False\<rparr>"

lemma fresh_copilot_ok: "copilot_ok fresh_copilot" "copilot_view n fresh_copilot = empty_quota"
  by (simp_all add: copilot_ok_def copilot_inv_def fresh_copilot_def healthy_def empty_tbl_def wf_empty [unfolded empty_tbl_def]
      copilot_view_def copilot_last_def quota_view_def active_def closed_cycles_def empty_quota_def)

definition copilot_poll :: "time \<Rightarrow> int \<Rightarrow> time option \<Rightarrow> copilot_snapshot" where
  "copilot_poll t v r = \<lparr>snap_ID = 0, snap_CapturedAt = t,
     snap_meta = \<lparr>cp_ResetDate = r, cp_CopilotPlan = ''pro'', cp_RawJSON = []\<rparr>,
     snap_Quotas = [\<lparr>cp_Name = ''chat'', cp_Entitlement = 300, cp_Remaining = v, cp_PercentRemaining = 0,
                     cp_Unlimited = False, cp_OverageCount = 0\<rparr>]\<rparr>"

text \<open>The date changes with the third reading; the amount spent between the second and the third is in no cycle.\<close>

theorem copilot_history_witness:
  "copilot_view ''chat'' (poll_all copilot_Process [copilot_poll Hour 250 (Some (6 * Hour)),
      copilot_poll (2 * Hour) 200 (Some (6 * Hour)), copilot_poll (3 * Hour) 190 (Some (9 * Hour))] fresh_copilot) =
     \<lparr>qt_open = Some \<lparr>cyc_id = 0, cyc_key = ''chat'', cyc_start = 3 * Hour, cyc_end = None,
        cyc_reset = Some (9 * Hour), cyc_peak = 110, cyc_delta = 0\<rparr>,
      qt_done = {#\<lparr>cyc_id = 0, cyc_key = ''chat'', cyc_start = Hour, cyc_end = Some (3 * Hour),
        cyc_reset = Some (6 * Hour), cyc_peak = 100, cyc_delta = 50\<rparr>#},
      qt_last = Some (0, 190, Some (9 * Hour))\<rparr>"
  by (subst copilot_history [OF fresh_copilot_ok])
     (simp_all add: copilot_poll_def copilot_readings_def copilot_reading_def used_of_def in_i64_def forget_def
          copilot_over_def quota_of_segments_def open_seg_def
          done_seg_def tick_cycle_def end_by_def with_stats_def copilot_policy_sel add_idelta_def raise_peak_def
          open_at_def finish_at_def)

end
