(* ===== verification/MiniMaxTracker.thy ===== *)
theory MiniMaxTracker
  imports TrackerBase
begin

text \<open>
  MiniMax (\<open>internal/tracker/minimax_tracker.go\<close>, \<open>internal/store/minimax_store.go\<close>): a request count per account and
  model. A reset is told by a jump of the reported reset time or by a fall of the count below three fifths.
  A model that is missing from a snapshot of its account has been discontinued: its cycle is closed.
\<close>

subsection \<open>Snapshots\<close>

record minimax_model =
  mm_ModelName :: string
  mm_Total :: int
  mm_Remain :: int
  mm_Used :: int
  mm_UsedPercent :: f64
  mm_ResetAt :: "time option"
  mm_WindowStart :: "time option"
  mm_WindowEnd :: "time option"
  mm_TimeUntilReset :: duration
  mm_WeeklyTotal :: int
  mm_WeeklyRemain :: int
  mm_WeeklyUsed :: int
  mm_WeeklyUsedPercent :: f64
  mm_WeeklyResetAt :: "time option"
  mm_WeeklyWindowStart :: "time option"
  mm_WeeklyWindowEnd :: "time option"
  mm_WeeklyTimeUntilReset :: duration
  mm_HasWeeklyQuota :: bool

record minimax_meta =
  mx_AccountID :: int
  mx_RawJSON :: string

type_synonym minimax_snapshot = "(minimax_meta, minimax_model) snap"

text \<open>The columns of a model row: the times left and the weekly flag are not stored.\<close>

definition minimax_columns :: "minimax_model \<Rightarrow> minimax_model" where
  "minimax_columns m = m\<lparr>mm_TimeUntilReset := 0, mm_WeeklyTimeUntilReset := 0, mm_HasWeeklyQuota := False\<rparr>"

definition InsertMiniMaxSnapshot :: "minimax_snapshot \<Rightarrow> int \<Rightarrow> (minimax_snapshot tbl, int) op" where
  "InsertMiniMaxSnapshot snapshot accountID =
     sql_insert_snap ''failed to insert minimax snapshot: ''
       (\<lambda>m. ''failed to insert minimax model value '' @ mm_ModelName m @ '': '')
       (snapshot\<lparr>snap_meta := (snap_meta snapshot)\<lparr>mx_AccountID := accountID\<rparr>,
                 snap_Quotas := map minimax_columns (snap_Quotas snapshot)\<rparr>)"

definition left_until :: "time \<Rightarrow> time option \<Rightarrow> duration" where
  "left_until now r = (case r of Some t \<Rightarrow> (let d = time_Sub t now in if d < 0 then 0 else d) | None \<Rightarrow> 0)"

text \<open>Reading a row back fills in what is left until the resets (\<open>now\<close> is the clock) and the weekly flag.\<close>

definition minimax_scan :: "time \<Rightarrow> minimax_model \<Rightarrow> minimax_model" where
  "minimax_scan now m =
     m\<lparr>mm_TimeUntilReset := left_until now (mm_ResetAt m),
       mm_HasWeeklyQuota := (0 < mm_WeeklyTotal m \<or> 0 < mm_WeeklyUsed m),
       mm_WeeklyTimeUntilReset := left_until now (mm_WeeklyResetAt m)\<rparr>"

definition QueryLatestMiniMax :: "time \<Rightarrow> int \<Rightarrow> (minimax_snapshot tbl, minimax_snapshot option) op" where
  "QueryLatestMiniMax now accountID =
     bindE (sql_latest_snap ''failed to query latest minimax: '' ''failed to query minimax model values: ''
              (\<lambda>m. mx_AccountID m = accountID) (\<lambda>m. m) mm_ModelName (\<lambda>_. True))
       (\<lambda>latest. returnE (map_option (\<lambda>sn. sn\<lparr>snap_Quotas := map (minimax_scan now) (snap_Quotas sn)\<rparr>) latest))"

subsection \<open>The tracker\<close>

text \<open>The in-memory maps are keyed by the text \<open>account:model\<close>, which determines both.\<close>

definition trackerKey :: "int \<Rightarrow> string \<Rightarrow> string" where
  "trackerKey accountID modelName = itoa accountID @ '':'' @ modelName"

lemma trackerKey_inj [simp]: "trackerKey a m = trackerKey b n \<longleftrightarrow> a = b \<and> m = n"
proof
  assume eq: "trackerKey a m = trackerKey b n"
  have tw: "takeWhile (\<lambda>c. c \<noteq> CHR '':'') (trackerKey a m) = itoa a" for a m
    using itoa_no_colon [of a] by (auto simp: trackerKey_def takeWhile_append)
  have "itoa a = itoa b" using tw [of a m] tw [of b n] eq by simp
  with eq show "a = b \<and> m = n" by (simp add: trackerKey_def)
qed simp

record minimax_tracker = "(int \<times> string, int, time option) trk" +
  mt_snaps :: "minimax_snapshot tbl"
  mt_lastUsed :: "string \<Rightarrow> int option"
  mt_lastResetAt :: "string \<Rightarrow> time option"
  mt_hasLastValue :: "string \<Rightarrow> bool"

definition minimax_remember :: "string \<Rightarrow> minimax_model \<Rightarrow> minimax_tracker \<Rightarrow> minimax_tracker" where
  "minimax_remember key model s =
     s\<lparr>mt_lastUsed := (mt_lastUsed s)(key \<mapsto> mm_Used model),
       mt_lastResetAt := (case mm_ResetAt model of
          Some r \<Rightarrow> (mt_lastResetAt s)(key \<mapsto> r) | None \<Rightarrow> mt_lastResetAt s)\<rparr>"

definition minimax_open :: "string \<Rightarrow> string \<Rightarrow> int \<Rightarrow> minimax_model \<Rightarrow> time \<Rightarrow> (minimax_tracker, unit) op" where
  "minimax_open msg pmsg accountID model capturedAt =
     bindE (wrapE msg (onStore (CreateMiniMaxCycle (mm_ModelName model) capturedAt (mm_ResetAt model) accountID)))
       (\<lambda>_. wrapE pmsg (onStore (UpdateMiniMaxCycle (mm_ModelName model) (mm_Used model) 0 accountID)))"

definition minimax_resetDetected :: "string \<Rightarrow> minimax_model \<Rightarrow> minimax_tracker \<Rightarrow> bool" where
  "minimax_resetDetected key model s \<longleftrightarrow>
     (case (mm_ResetAt model, mt_lastResetAt s key) of
        (Some r, Some lst) \<Rightarrow> 10 * Minute < dur_abs (time_Sub r lst) | _ \<Rightarrow> False) \<or>
     (mt_hasLastValue s key \<and>
        (case mt_lastUsed s key of
           Some lst \<Rightarrow> 0 < lst \<and> mm_Used model < to_i64 (fmul (float_of lst) (rnd (6 / 10)))
         | None \<Rightarrow> False))"

definition minimax_rollover ::
    "int \<Rightarrow> minimax_model \<Rightarrow> time \<Rightarrow> MiniMaxResetCycle \<Rightarrow> (minimax_tracker, unit) op" where
  "minimax_rollover accountID model capturedAt c =
     (let cycleEnd = (case cyc_reset c of
            Some r \<Rightarrow> if time_After capturedAt r then r else capturedAt | None \<Rightarrow> capturedAt)
      in thenE (wrapE ''failed to close cycle: ''
                 (onStore (CloseMiniMaxCycle (mm_ModelName model) cycleEnd (cyc_peak c) (cyc_delta c) accountID)))
           (thenE (minimax_open ''failed to create new cycle: '' ''failed to initialize new cycle: '' accountID model capturedAt)
             (thenE (modifyE (minimax_remember (trackerKey accountID (mm_ModelName model)) model))
               (modifyE (fireReset (mm_ModelName model))))))"

definition minimax_tick :: "int \<Rightarrow> minimax_model \<Rightarrow> MiniMaxResetCycle \<Rightarrow> (minimax_tracker, unit) op" where
  "minimax_tick accountID model c =
     (let key = trackerKey accountID (mm_ModelName model)
      in thenE (withE (\<lambda>s.
           let tot = (if mt_hasLastValue s key then
                        (case mt_lastUsed s key of
                           Some lst \<Rightarrow> add_idelta (cyc_delta c) lst (mm_Used model) | None \<Rightarrow> cyc_delta c)
                      else cyc_delta c)
           in wrapE ''failed to update cycle: ''
                (onStore (UpdateMiniMaxCycle (mm_ModelName model) (raise_peak (cyc_peak c) (mm_Used model)) tot accountID))))
         (modifyE (minimax_remember key model)))"

definition minimax_processModel :: "minimax_model \<Rightarrow> time \<Rightarrow> int \<Rightarrow> (minimax_tracker, unit) op" where
  "minimax_processModel model capturedAt accountID =
     (if mm_ModelName model = [] then returnE ()
      else let key = trackerKey accountID (mm_ModelName model)
      in bindE (wrapE ''failed to query active cycle: '' (onStore (QueryActiveMiniMaxCycle (mm_ModelName model) accountID)))
       (\<lambda>cycle. case cycle of
          None \<Rightarrow> thenE (minimax_open ''failed to create cycle: '' ''failed to set initial peak: '' accountID model capturedAt)
                    (modifyE (minimax_remember key model))
        | Some c \<Rightarrow> withE (\<lambda>s.
            if minimax_resetDetected key model s then minimax_rollover accountID model capturedAt c
            else minimax_tick accountID model c)))"

text \<open>Models without an allocation are skipped; the others with a name are the active ones.\<close>

definition allocated :: "minimax_model \<Rightarrow> bool" where
  "allocated model \<longleftrightarrow> \<not> (mm_Total model = 0 \<and> mm_Used model = 0)"

definition active_models :: "minimax_snapshot \<Rightarrow> string list" where
  "active_models sn = filter (\<lambda>n. n \<noteq> []) (map mm_ModelName (filter allocated (snap_Quotas sn)))"

definition minimax_mark :: "int \<Rightarrow> string list \<Rightarrow> minimax_tracker \<Rightarrow> minimax_tracker" where
  "minimax_mark a ns s = s\<lparr>mt_hasLastValue :=
     (\<lambda>k. mt_hasLastValue s k \<or> (\<exists>n \<in> set ns. n \<noteq> [] \<and> k = trackerKey a n))\<rparr>"

definition minimax_Process :: "minimax_snapshot \<Rightarrow> int \<Rightarrow> (minimax_tracker, unit) op" where
  "minimax_Process snapshot accountID =
     thenE (forE (\<lambda>model. if allocated model then
                wrapE (''minimax tracker: '' @ mm_ModelName model @ '': '')
                  (minimax_processModel model (snap_CapturedAt snapshot) accountID)
              else returnE ()) (snap_Quotas snapshot))
    (thenE (modifyE (minimax_mark accountID (map mm_ModelName (snap_Quotas snapshot))))
      (modifyE (\<lambda>s. if active_models snapshot \<noteq> []
         then ignoreE (onStore (CloseStaleMiniMaxCycles accountID (active_models snapshot) (snap_CapturedAt snapshot))) s
         else s)))"

subsection \<open>What every run keeps\<close>

lemma minimax_state [simp]:
  "trk_store (minimax_remember k m s) = trk_store s" "trk_store (minimax_mark a ns s) = trk_store s"
  "mt_hasLastValue (minimax_remember k m s) = mt_hasLastValue s"
  "mt_lastUsed (minimax_remember k m s) = (mt_lastUsed s)(k \<mapsto> mm_Used m)"
  "mt_lastResetAt (minimax_remember k m s) = (case mm_ResetAt m of Some r \<Rightarrow> (mt_lastResetAt s)(k \<mapsto> r) | None \<Rightarrow> mt_lastResetAt s)"
  "mt_lastUsed (minimax_mark a ns s) = mt_lastUsed s" "mt_lastResetAt (minimax_mark a ns s) = mt_lastResetAt s"
  "mt_hasLastValue (fireReset n s) = mt_hasLastValue s" "mt_lastUsed (fireReset n s) = mt_lastUsed s"
  "mt_lastResetAt (fireReset n s) = mt_lastResetAt s"
  by (auto simp: minimax_remember_def minimax_mark_def fireReset_def)

lemmas minimax_wp_query = minimax_store.wp_query [where q = "(a, n)", simplified] for a n
lemmas minimax_wp_calls =
  minimax_store.wp_create [where q = "(a, n)", simplified] minimax_store.wp_update [where q = "(a, n)", simplified]
  minimax_store.wp_close [where q = "(a, n)", simplified] for a n
lemmas minimax_healthy_wp =
  minimax_store.healthy_wp(1) [where q = "(a, n)", simplified] minimax_store.healthy_wp(2) [where q = "(a, n)", simplified]
  minimax_store.healthy_wp(3) [where q = "(a, n)", simplified] minimax_store.healthy_wp(4) [where q = "(a, n)", simplified] for a n

lemma minimax_rollover_keeps:
  "keeps t0 (trk_store s) \<Longrightarrow>
   wp (minimax_rollover a m cap c) (\<lambda>_ s'. keeps t0 (trk_store s')) (\<lambda>_ s'. keeps t0 (trk_store s')) s"
  by (auto simp: minimax_rollover_def minimax_open_def wps Let_def intro!: minimax_wp_calls split: option.split)

lemma minimax_tick_keeps:
  "keeps t0 (trk_store s) \<Longrightarrow>
   wp (minimax_tick a m c) (\<lambda>_ s'. keeps t0 (trk_store s')) (\<lambda>_ s'. keeps t0 (trk_store s')) s"
  by (auto simp: minimax_tick_def wps Let_def intro!: minimax_wp_calls split: option.split)

lemma minimax_processModel_keeps:
  "keeps t0 (trk_store s) \<Longrightarrow>
   wp (minimax_processModel m cap a) (\<lambda>_ s'. keeps t0 (trk_store s')) (\<lambda>_ s'. keeps t0 (trk_store s')) s"
  unfolding minimax_processModel_def wp_if wp_returnE Let_def wp_bindE wp_wrapE
  by (simp, rule impI, erule minimax_wp_query)
     (auto simp: minimax_open_def wps intro!: minimax_wp_calls minimax_rollover_keeps minimax_tick_keeps split: option.split)

lemma close_stale_keeps: "keeps t0 t \<Longrightarrow> wp (close_stale a e ns) (\<lambda>_. keeps t0) (\<lambda>_. keeps t0) t"
proof (induction ns arbitrary: t)
  case (Cons n ns)
  then show ?case
    unfolding close_stale.simps wp_thenE
    by (intro wp_mono [OF sql_exec_laws(4)]) (auto intro: keeps_same keeps_steps)
qed (simp add: wps)

lemma keeps_faults: "keeps t0 t \<Longrightarrow> keeps t0 (t\<lparr>db_faults := fs\<rparr>)"
  by (erule keeps_same) (rule same_data_faults)

lemma CloseStale_keeps: "keeps t0 t \<Longrightarrow> wp (CloseStaleMiniMaxCycles a ms e) (\<lambda>_. keeps t0) (\<lambda>_. keeps t0) t"
  unfolding CloseStaleMiniMaxCycles_def wp_bindE wp_wrapE rows_err_def
  by (rule wp_db_stmt, simp_all, rule wp_db_stmt)
     (auto simp: wps intro!: wp_mono [OF close_stale_keeps] intro: keeps_faults)

lemma stale_keeps:
  "keeps t0 (trk_store s) \<Longrightarrow> keeps t0 (trk_store (ignoreE (onStore (CloseStaleMiniMaxCycles a ms e)) s))"
  by (rule wp_ignore) (auto simp: wp_onStore intro: wp_mono [OF CloseStale_keeps])

lemma minimax_Process_keeps:
  assumes "keeps t0 (trk_store s)"
  shows "wp (minimax_Process sn a) (\<lambda>_ s'. keeps t0 (trk_store s')) (\<lambda>_ s'. keeps t0 (trk_store s')) s"
proof -
  let ?f = "\<lambda>model. if allocated model then
       wrapE (''minimax tracker: '' @ mm_ModelName model @ '': '') (minimax_processModel model (snap_CapturedAt sn) a)
     else returnE ()"
  have "wp (forE ?f (snap_Quotas sn)) (\<lambda>_ s'. keeps t0 (trk_store s')) (\<lambda>_ s'. keeps t0 (trk_store s')) s"
    by (rule wp_forE_inv) (use assms in \<open>auto simp: wps intro!: minimax_processModel_keeps\<close>)
  then show ?thesis
    unfolding minimax_Process_def wp_thenE wp_modifyE by (rule wp_mono) (auto intro!: stale_keeps)
qed

interpretation minimax_tracker: quota_tracker "\<lambda>(sn, a). minimax_Process sn a"
  by unfold_locales (simp add: minimax_Process_keeps split: prod.split)

subsection \<open>What the tracker computes\<close>

text \<open>A quota is seen in a snapshot either as a reading or as gone; being gone closes its cycle as it is.\<close>

datatype ('x, 'r) event = Reading "('x, 'r) reading" | Gone time

definition gone_step :: "time \<Rightarrow> ('k, 'x, 'v, 'r) quota \<Rightarrow> ('k, 'x, 'v, 'r) quota" where
  "gone_step t q = (case qt_open q of
      None \<Rightarrow> q
    | Some c \<Rightarrow> q\<lparr>qt_open := None, qt_done := add_mset (c\<lparr>cyc_end := Some t\<rparr>) (qt_done q)\<rparr>)"

definition minimax_policy :: "(int \<times> string, int \<times> time option, int, time option) policy" where
  "minimax_policy = \<lparr>
     pol_init = (\<lambda>v. (fst v, 0)),
     pol_over = (\<lambda>c lst rd. case lst of
         Some (l, m) \<Rightarrow>
           (case (rd_reset rd, m) of (Some r', Some r) \<Rightarrow> 10 * Minute < dur_abs (time_Sub r' r) | _ \<Rightarrow> False) \<or>
           0 < l \<and> fst (rd_value rd) < to_i64 (fmul (float_of l) (rnd (6 / 10)))
       | None \<Rightarrow> False),
     pol_end = (\<lambda>c rd. case cyc_reset c of Some r \<Rightarrow> min r (rd_at rd) | None \<Rightarrow> rd_at rd),
     pol_close = (\<lambda>_ _ st. st),
     pol_tick = (\<lambda>lst v st. (raise_peak (fst st) (fst v),
                   case lst of Some (l, _) \<Rightarrow> add_idelta (snd st) l (fst v) | None \<Rightarrow> snd st)),
     pol_reset = (\<lambda>r _. r)\<rparr>"

lemma minimax_policy_sel:
  "pol_end minimax_policy c rd = (case cyc_reset c of Some r \<Rightarrow> min r (rd_at rd) | None \<Rightarrow> rd_at rd)"
  "pol_close minimax_policy lst v st = st" "pol_init minimax_policy v = (fst v, 0)"
  "pol_tick minimax_policy lst v st = (raise_peak (fst st) (fst v),
     case lst of Some (l, _) \<Rightarrow> add_idelta (snd st) l (fst v) | None \<Rightarrow> snd st)"
  "pol_reset minimax_policy r r' = r"
  by (simp_all add: minimax_policy_def)

definition minimax_step ::
    "int \<times> string \<Rightarrow> (int, time option) event \<Rightarrow> (int \<times> string, int \<times> time option, int, time option) quota \<Rightarrow>
     (int \<times> string, int \<times> time option, int, time option) quota" where
  "minimax_step k e q = (case e of Reading rd \<Rightarrow> carry_step minimax_policy k rd q | Gone t \<Rightarrow> gone_step t q)"

definition minimax_reading :: "time \<Rightarrow> minimax_model \<Rightarrow> (int, time option) reading" where
  "minimax_reading capturedAt m = \<lparr>rd_at = capturedAt, rd_value = mm_Used m, rd_reset = mm_ResetAt m\<rparr>"

definition minimax_events :: "int \<times> string \<Rightarrow> minimax_snapshot \<times> int \<Rightarrow> (int, time option) event list" where
  "minimax_events k x = (case x of (sn, a) \<Rightarrow>
     if a \<noteq> fst k then []
     else map (\<lambda>m. Reading (minimax_reading (snap_CapturedAt sn) m))
            (filter (\<lambda>m. mm_ModelName m = snd k) (filter allocated (snap_Quotas sn))) @
          (if active_models sn \<noteq> [] \<and> snd k \<notin> set (active_models sn) then [Gone (snap_CapturedAt sn)] else []))"

definition minimax_last :: "int \<times> string \<Rightarrow> minimax_tracker \<Rightarrow> (int \<times> time option) option" where
  "minimax_last k s = (let key = trackerKey (fst k) (snd k)
     in map_option (\<lambda>l. (l, mt_lastResetAt s key)) (mt_lastUsed s key))"

definition minimax_view :: "int \<times> string \<Rightarrow> minimax_tracker \<Rightarrow> (int \<times> string, int \<times> time option, int, time option) quota" where
  "minimax_view k s = quota_view k (minimax_last k s) (trk_store s)"

definition minimax_inv :: "minimax_tracker \<Rightarrow> bool" where
  "minimax_inv s \<longleftrightarrow> healthy (trk_store s) \<and> wf_cycles (trk_store s) \<and>
     (\<forall>key. mt_lastUsed s key = None \<longrightarrow> mt_lastResetAt s key = None)"

definition minimax_ok :: "minimax_tracker \<Rightarrow> bool" where
  "minimax_ok s \<longleftrightarrow> minimax_inv s \<and> (\<forall>key. mt_lastUsed s key = None \<or> mt_hasLastValue s key)"

definition minimax_post :: "minimax_tracker \<Rightarrow> int \<Rightarrow> minimax_model \<Rightarrow> time \<Rightarrow> minimax_tracker \<Rightarrow> bool" where
  "minimax_post s a m cap s' \<longleftrightarrow> minimax_inv s' \<and> mt_hasLastValue s' = mt_hasLastValue s \<and>
     (let key = trackerKey a (mm_ModelName m) in
       mt_lastUsed s' = (mt_lastUsed s)(key \<mapsto> mm_Used m)) \<and>
     minimax_view (a, mm_ModelName m) s' =
       carry_step minimax_policy (a, mm_ModelName m) (minimax_reading cap m) (minimax_view (a, mm_ModelName m) s) \<and>
     (\<forall>j. j \<noteq> (a, mm_ModelName m) \<longrightarrow> minimax_view j s' = minimax_view j s)"

lemmas minimax_steps = minimax_post_def minimax_inv_def minimax_view_def minimax_last_def quota_simps
  minimax_reading_def minimax_policy_sel carry_step_def remembered_def dress_def follow_reset_def raise_peak_def time_defs

lemma minimax_detect_policy:
  assumes "minimax_inv s" "mt_lastUsed s (trackerKey a (mm_ModelName m)) = None \<or> mt_hasLastValue s (trackerKey a (mm_ModelName m))"
  shows "minimax_resetDetected (trackerKey a (mm_ModelName m)) m s =
    pol_over minimax_policy (anon c) (minimax_last (a, mm_ModelName m) s)
      (dress (remembered (minimax_view (a, mm_ModelName m) s)) (minimax_reading cap m))"
  using assms
  by (auto simp: minimax_resetDetected_def minimax_policy_def minimax_last_def minimax_reading_def
      minimax_inv_def dress_def time_defs split: option.splits)

lemma minimax_first_refines:
  assumes "minimax_inv s" "mm_ModelName m \<noteq> []" "active (a, mm_ModelName m) (trk_store s) = None"
  shows "wp (minimax_processModel m cap a) (\<lambda>_. minimax_post s a m cap) (\<lambda>_ _. False) s"
  using assms
  by (simp add: minimax_processModel_def minimax_open_def wps minimax_healthy_wp minimax_inv_def Let_def)
     (auto simp: minimax_steps Let_def split: option.splits)

lemma minimax_rollover_refines:
  assumes "minimax_inv s" "active (a, mm_ModelName m) (trk_store s) = Some c"
    and "pol_over minimax_policy (anon c) (minimax_last (a, mm_ModelName m) s)
      (dress (remembered (minimax_view (a, mm_ModelName m) s)) (minimax_reading cap m))"
  shows "wp (minimax_rollover a m cap c) (\<lambda>_. minimax_post s a m cap) (\<lambda>_ _. False) s"
  using assms
  by (simp add: minimax_rollover_def minimax_open_def wps minimax_healthy_wp minimax_inv_def Let_def)
     (auto simp: minimax_steps Let_def split: option.splits)

lemma minimax_tick_refines:
  assumes "minimax_inv s" "mt_lastUsed s (trackerKey a (mm_ModelName m)) = None \<or> mt_hasLastValue s (trackerKey a (mm_ModelName m))"
    and "active (a, mm_ModelName m) (trk_store s) = Some c"
    and "\<not> pol_over minimax_policy (anon c) (minimax_last (a, mm_ModelName m) s)
      (dress (remembered (minimax_view (a, mm_ModelName m) s)) (minimax_reading cap m))"
  shows "wp (minimax_tick a m c) (\<lambda>_. minimax_post s a m cap) (\<lambda>_ _. False) s"
  using assms
  apply (simp add: minimax_tick_def wps minimax_healthy_wp minimax_inv_def Let_def)
  apply (simp add: minimax_steps Let_def split: option.split)
  apply (auto intro!: cycle.equality simp: anon_fields split: option.splits)
  done

lemma minimax_processModel_refines:
  assumes "minimax_inv s" "mm_ModelName m \<noteq> []"
    and "mt_lastUsed s (trackerKey a (mm_ModelName m)) = None \<or> mt_hasLastValue s (trackerKey a (mm_ModelName m))"
  shows "wp (minimax_processModel m cap a) (\<lambda>_. minimax_post s a m cap) (\<lambda>_ _. False) s"
proof (cases "active (a, mm_ModelName m) (trk_store s)")
  case None
  with assms show ?thesis by (intro minimax_first_refines)
next
  case (Some c)
  have "healthy (trk_store s)" "wf_cycles (trk_store s)" using assms(1) by (auto simp: minimax_inv_def)
  then show ?thesis
    using minimax_rollover_refines [OF assms(1) Some, of cap] minimax_tick_refines [OF assms(1,3) Some, of cap]
    by (simp add: minimax_processModel_def wps minimax_healthy_wp assms(2) Some Let_def
        minimax_detect_policy [OF assms(1,3), of c cap])
qed

subsection \<open>Discontinued models\<close>

lemma expire_as_end:
  assumes "wf_cycles t"
  shows "expire_cycle k e t = (case active k t of Some c \<Rightarrow> end_cycle k e (cyc_peak c) (cyc_delta c) t | None \<Rightarrow> t)"
proof (cases "active k t")
  case None
  then have "map (\<lambda>c. if is_active k c then c\<lparr>cyc_end := Some e\<rparr> else c) (db_rows t) = db_rows t"
    by (intro map_idI) (simp add: active_None_iff)
  with None show ?thesis by (simp add: expire_cycle_def update_where_def)
next
  case (Some c)
  have "length (filter (is_active k) (db_rows t)) \<le> 1" using assms by (simp add: wf_cycles_def)
  then have "filter (is_active k) (db_rows t) = [c]"
    using Some by (cases "filter (is_active k) (db_rows t)") (auto simp: active_def find_filter)
  then have "set (filter (is_active k) (db_rows t)) = {c}" by simp
  then have "x = c" if "x \<in> set (db_rows t)" "is_active k x" for x
    using that by auto
  then show ?thesis
    using Some by (auto simp: expire_cycle_def end_cycle_def update_where_def intro!: tbl.equality)
qed

lemma view_expire:
  assumes "wf_cycles t"
  shows "quota_view j l (expire_cycle k e t) = (if j = k then gone_step e (quota_view j l t) else quota_view j l t)"
  using assms
  by (auto simp: expire_as_end gone_step_def quota_simps split: option.split)
     (simp_all add: anon_fields)

lemma gone_idem: "gone_step e (gone_step e' q) = gone_step e' q"
  by (simp add: gone_step_def split: option.split)

lemma expire_keeps_ok: "wf_cycles t \<Longrightarrow> wf_cycles (expire_cycle k e t)"
  by (auto simp: expire_cycle_def intro: wf_update_where)

lemma fold_expire:
  assumes "wf_cycles t" "healthy t"
  shows "wf_cycles (fold (\<lambda>n. expire_cycle (a, n) e) ns t) \<and> healthy (fold (\<lambda>n. expire_cycle (a, n) e) ns t) \<and>
    quota_view (b, n) l (fold (\<lambda>n. expire_cycle (a, n) e) ns t) =
      (if b = a \<and> n \<in> set ns then gone_step e (quota_view (b, n) l t) else quota_view (b, n) l t)"
  using assms by (induction ns arbitrary: t) (auto simp: view_expire gone_idem expire_keeps_ok)

lemma run_close_stale: "healthy t \<Longrightarrow> close_stale a e ns t = (Inr (), fold (\<lambda>n. expire_cycle (a, n) e) ns t)"
  by (induction ns arbitrary: t) (simp_all add: runs sql_exec_run)

lemma CloseStale_view:
  assumes "wf_cycles t" "healthy t"
  obtains k t' where "CloseStaleMiniMaxCycles a ms e t = (Inr k, t')" "wf_cycles t'" "healthy t'"
    "\<And>b n l. quota_view (b, n) (l :: 'x option) t' = (if b = a \<and> n \<notin> set ms then gone_step e (quota_view (b, n) l t) else quota_view (b, n) l t)"
proof
  let ?ns = "filter (\<lambda>n. n \<notin> set ms) (map (\<lambda>c. snd (cyc_key c)) (filter (\<lambda>c. fst (cyc_key c) = a \<and> cyc_end c = None) (db_rows t)))"
  let ?t = "fold (\<lambda>n. expire_cycle (a, n) e) ?ns t"
  show "CloseStaleMiniMaxCycles a ms e t = (Inr (int (length ?ns)), ?t)"
    using assms by (simp add: CloseStaleMiniMaxCycles_def rows_err_def runs run_db_stmt run_close_stale)
  show "wf_cycles ?t" "healthy ?t" using fold_expire [OF assms] by blast+
  fix b n and l :: "'x option"
  have "active (a, n) t = None" if "n \<notin> set ?ns" "n \<notin> set ms"
    using that by (force simp: active_None_iff is_active_def)
  then have "gone_step e (quota_view (a, n) l t) = quota_view (a, n) l t" if "n \<notin> set ?ns" "n \<notin> set ms"
    using that by (simp add: gone_step_def quota_view_def)
  then show "quota_view (b, n) l ?t =
      (if b = a \<and> n \<notin> set ms then gone_step e (quota_view (b, n) l t) else quota_view (b, n) l t)"
    using fold_expire [OF assms, where a = a and e = e and ns = ?ns and b = b and n = n and l = l] by auto
qed

subsection \<open>Whole snapshots\<close>

lemma minimax_loop_refines:
  assumes ok: "minimax_ok s" and dist: "distinct (map mm_ModelName (filter allocated (snap_Quotas sn)))"
  shows "wp (forE (\<lambda>model. if allocated model then
       wrapE (''minimax tracker: '' @ mm_ModelName model @ '': '') (minimax_processModel model (snap_CapturedAt sn) a)
     else returnE ()) (snap_Quotas sn))
   (\<lambda>_ s'. (minimax_inv s' \<and> mt_hasLastValue s' = mt_hasLastValue s \<and>
        (\<forall>k. mt_lastUsed s' k \<noteq> mt_lastUsed s k \<longrightarrow> (\<exists>m \<in> set (snap_Quotas sn). mm_ModelName m \<noteq> [] \<and> k = trackerKey a (mm_ModelName m)))) \<and>
      (\<forall>j. snd j \<noteq> [] \<longrightarrow> minimax_view j s' = fold (carry_step minimax_policy j)
         (map (minimax_reading (snap_CapturedAt sn)) (filter (\<lambda>m. (a, mm_ModelName m) = j) (filter allocated (snap_Quotas sn)))) (minimax_view j s)))
   (\<lambda>_ _. False) s"
proof -
  let ?f = "\<lambda>model. if allocated model then
       wrapE (''minimax tracker: '' @ mm_ModelName model @ '': '') (minimax_processModel model (snap_CapturedAt sn) a)
     else returnE ()"
  let ?qs = "filter (\<lambda>m. mm_ModelName m \<noteq> []) (filter allocated (snap_Quotas sn))"
  let ?I = "\<lambda>s'. minimax_inv s' \<and> mt_hasLastValue s' = mt_hasLastValue s \<and>
        (\<forall>k. mt_lastUsed s' k \<noteq> mt_lastUsed s k \<longrightarrow> (\<exists>m \<in> set (snap_Quotas sn). mm_ModelName m \<noteq> [] \<and> k = trackerKey a (mm_ModelName m)))"
  have skip: "forE ?f (snap_Quotas sn) = forE ?f ?qs"
    by (subst forE_filter [where P = "\<lambda>m. allocated m \<and> mm_ModelName m \<noteq> []"])
       (auto simp: minimax_processModel_def wrapE_def returnE_def fun_eq_iff)
  have dist': "distinct (map (\<lambda>m. (a, mm_ModelName m)) ?qs)"
    using distinct_map_filter [OF dist, of "\<lambda>m. mm_ModelName m \<noteq> []"] by (simp add: distinct_map inj_on_def del: filter_filter)
  have sel: "filter (\<lambda>m. (a, mm_ModelName m) = j) ?qs = filter (\<lambda>m. (a, mm_ModelName m) = j) (filter allocated (snap_Quotas sn))"
    if "snd j \<noteq> []" for j using that by (auto intro: filter_cong)
  have "wp (forE ?f ?qs) (\<lambda>_ s'. ?I s' \<and>
      (\<forall>j. minimax_view j s' = fold (carry_step minimax_policy j)
         (map (minimax_reading (snap_CapturedAt sn)) (filter (\<lambda>m. (a, mm_ModelName m) = j) ?qs)) (minimax_view j s)))
     (\<lambda>_ _. False) s"
  proof (rule wp_forE_views [where nm = "\<lambda>m. (a, mm_ModelName m)" and
        R = "\<lambda>j s. mt_lastUsed s (trackerKey (fst j) (snd j)) = None \<or> mt_hasLastValue s (trackerKey (fst j) (snd j))"])
    fix m s'
    assume m: "m \<in> set ?qs" and I: "?I s'"
      and R: "mt_lastUsed s' (trackerKey (fst (a, mm_ModelName m)) (snd (a, mm_ModelName m))) = None \<or> mt_hasLastValue s' (trackerKey (fst (a, mm_ModelName m)) (snd (a, mm_ModelName m)))"
    have "wp (minimax_processModel m (snap_CapturedAt sn) a) (\<lambda>_. minimax_post s' a m (snap_CapturedAt sn)) (\<lambda>_ _. False) s'"
      by (rule minimax_processModel_refines) (use m I R in auto)
    then show "wp (?f m) (\<lambda>_ s''. ?I s'' \<and>
        (\<forall>j. j \<noteq> (a, mm_ModelName m) \<longrightarrow> mt_lastUsed s' (trackerKey (fst j) (snd j)) = None \<or> mt_hasLastValue s' (trackerKey (fst j) (snd j)) \<longrightarrow>
           mt_lastUsed s'' (trackerKey (fst j) (snd j)) = None \<or> mt_hasLastValue s'' (trackerKey (fst j) (snd j))) \<and>
        minimax_view (a, mm_ModelName m) s'' =
          carry_step minimax_policy (a, mm_ModelName m) (minimax_reading (snap_CapturedAt sn) m) (minimax_view (a, mm_ModelName m) s') \<and>
        (\<forall>j. j \<noteq> (a, mm_ModelName m) \<longrightarrow> minimax_view j s'' = minimax_view j s')) (\<lambda>_ _. False) s'"
      using m I by (auto simp: wps minimax_post_def Let_def elim!: wp_mono split: if_splits)
  qed (use ok dist' in \<open>auto simp: minimax_ok_def\<close>)
  then show ?thesis unfolding skip by (rule wp_mono) (use sel in auto)
qed

interpretation minimax_refinement: stepping_tracker "\<lambda>(sn, a). minimax_Process sn a" minimax_ok
    "\<lambda>(sn, a). distinct (map mm_ModelName (filter allocated (snap_Quotas sn)))" "{k :: int \<times> string. snd k \<noteq> []}"
    minimax_view minimax_events minimax_step
proof unfold_locales
  fix s :: minimax_tracker and x :: "minimax_snapshot \<times> int"
  assume ok: "minimax_ok s"
    and valid: "case x of (sn, a) \<Rightarrow> distinct (map mm_ModelName (filter allocated (snap_Quotas sn)))"
  obtain sn a where x: "x = (sn, a)" by force
  let ?ns = "map mm_ModelName (snap_Quotas sn)" and ?ms = "active_models sn" and ?cap = "snap_CapturedAt sn"
  let ?rds = "\<lambda>j. map (minimax_reading ?cap) (filter (\<lambda>m. (a, mm_ModelName m) = j) (filter allocated (snap_Quotas sn)))"
  have fold_rd: "fold (minimax_step j) (map Reading rds) q = fold (carry_step minimax_policy j) rds q" for j rds q
    by (induction rds arbitrary: q) (simp_all add: minimax_step_def)
  have ev: "minimax_events j x = map Reading (?rds j) @ (if fst j = a \<and> ?ms \<noteq> [] \<and> snd j \<notin> set ?ms then [Gone ?cap] else [])" for j
    by (cases j) (auto simp: minimax_events_def x intro: filter_False)
  have stale: "minimax_ok (ignoreE (onStore (CloseStaleMiniMaxCycles a ms e)) s') \<and>
      minimax_view j (ignoreE (onStore (CloseStaleMiniMaxCycles a ms e)) s') =
        (if fst j = a \<and> snd j \<notin> set ms then gone_step e (minimax_view j s') else minimax_view j s')"
    if "minimax_ok s'" for s' j ms e
  proof -
    have h: "wf_cycles (trk_store s')" "healthy (trk_store s')" using that by (auto simp: minimax_ok_def minimax_inv_def)
    obtain k t' where t': "CloseStaleMiniMaxCycles a ms e (trk_store s') = (Inr k, t')" "wf_cycles t'" "healthy t'"
      "\<And>b n l. quota_view (b, n) (l :: (int \<times> time option) option) t' = (if b = a \<and> n \<notin> set ms
         then gone_step e (quota_view (b, n) l (trk_store s')) else quota_view (b, n) l (trk_store s'))"
      using CloseStale_view [OF h, where ms = ms and e = e and a = a] by blast
    then have "ignoreE (onStore (CloseStaleMiniMaxCycles a ms e)) s' = s'\<lparr>trk_store := t'\<rparr>"
      by (simp add: ignoreE_def onStore_def)
    then show ?thesis
      using t' that by (cases j) (simp add: minimax_ok_def minimax_inv_def minimax_view_def minimax_last_def Let_def)
  qed
  show "wp (case x of (sn, a) \<Rightarrow> minimax_Process sn a)
     (\<lambda>_ s'. minimax_ok s' \<and> (\<forall>k \<in> {k. snd k \<noteq> []}. minimax_view k s' = fold (minimax_step k) (minimax_events k x) (minimax_view k s)))
     (\<lambda>_ _. False) s"
    unfolding x prod.case minimax_Process_def wp_thenE
  proof (rule wp_mono [OF minimax_loop_refines])
    fix u s'
    assume s': "(minimax_inv s' \<and> mt_hasLastValue s' = mt_hasLastValue s \<and>
        (\<forall>k. mt_lastUsed s' k \<noteq> mt_lastUsed s k \<longrightarrow> (\<exists>m \<in> set (snap_Quotas sn). mm_ModelName m \<noteq> [] \<and> k = trackerKey a (mm_ModelName m)))) \<and>
      (\<forall>j. snd j \<noteq> [] \<longrightarrow> minimax_view j s' = fold (carry_step minimax_policy j) (?rds j) (minimax_view j s))"
    let ?s = "minimax_mark a ?ns s'"
    have "mt_lastUsed s' k = None \<or> mt_hasLastValue ?s k" for k
    proof -
      have "mt_lastUsed s k = None \<or> mt_hasLastValue s k" using ok by (simp add: minimax_ok_def)
      then show ?thesis
        using s' by (cases "mt_lastUsed s' k = mt_lastUsed s k") (auto simp: minimax_mark_def)
    qed
    then have ok': "minimax_ok ?s"
      using s' by (simp add: minimax_ok_def minimax_inv_def)
    have view: "minimax_view j ?s = minimax_view j s'" for j
      by (simp add: minimax_view_def minimax_last_def)
    let ?t = "if ?ms \<noteq> [] then ignoreE (onStore (CloseStaleMiniMaxCycles a ?ms ?cap)) ?s else ?s"
    have "minimax_ok ?t" using stale [OF ok'] ok' by simp
    moreover have "minimax_view j ?t = fold (minimax_step j) (minimax_events j x) (minimax_view j s)" if "snd j \<noteq> []" for j
    proof -
      have "minimax_view j s' = fold (carry_step minimax_policy j) (?rds j) (minimax_view j s)" using s' that by blast
      then show ?thesis
        using stale [OF ok', of ?ms ?cap j] unfolding ev fold_append o_apply fold_rd
        by (simp add: view minimax_step_def del: filter_filter)
    qed
    ultimately show "wp (modifyE (minimax_mark a ?ns))
      (\<lambda>_. wp (modifyE (\<lambda>s. if ?ms \<noteq> [] then ignoreE (onStore (CloseStaleMiniMaxCycles a ?ms ?cap)) s else s))
         (\<lambda>_ s'. minimax_ok s' \<and> (\<forall>k \<in> {k. snd k \<noteq> []}. minimax_view k s' = fold (minimax_step k) (minimax_events k (sn, a)) (minimax_view k s)))
         (\<lambda>_ _. False)) (\<lambda>_ _. False) s'"
      unfolding wp_modifyE x by blast
  qed (use ok valid x in auto)
qed

subsection \<open>Summary\<close>

record minimax_summary =
  ms_ModelName :: string
  ms_Total :: int
  ms_CurrentUsed :: int
  ms_CurrentRemain :: int
  ms_UsagePercent :: f64
  ms_ResetAt :: "time option"
  ms_TimeUntilReset :: duration
  ms_CurrentRate :: f64
  ms_ProjectedUsage :: int
  ms_CompletedCycles :: int
  ms_AvgPerCycle :: f64
  ms_PeakCycle :: int
  ms_TotalTracked :: int
  ms_TrackingSince :: time

definition minimax_summary_history :: "string \<Rightarrow> MiniMaxResetCycle list \<Rightarrow> minimax_summary" where
  "minimax_summary_history modelName history =
     \<lparr>ms_ModelName = modelName, ms_Total = 0, ms_CurrentUsed = 0, ms_CurrentRemain = 0, ms_UsagePercent = 0,
      ms_ResetAt = None, ms_TimeUntilReset = 0, ms_CurrentRate = 0, ms_ProjectedUsage = 0,
      ms_CompletedCycles = int (length history), ms_AvgPerCycle = history_iavg history,
      ms_PeakCycle = history_ipeak cyc_peak history, ms_TotalTracked = history_itotal history,
      ms_TrackingSince = tracking_since history\<rparr>"

definition minimax_summary_active :: "time \<Rightarrow> MiniMaxResetCycle \<Rightarrow> minimax_summary \<Rightarrow> minimax_summary" where
  "minimax_summary_active now c sm =
     (let sm = sm\<lparr>ms_TotalTracked := i64 (ms_TotalTracked sm + cyc_delta c),
                  ms_PeakCycle := raise_peak (ms_PeakCycle sm) (cyc_peak c)\<rparr>
      in case cyc_reset c of
           Some r \<Rightarrow> sm\<lparr>ms_ResetAt := Some r, ms_TimeUntilReset := time_Sub r now\<rparr>
         | None \<Rightarrow> sm)"

definition minimax_summary_current :: "time \<Rightarrow> minimax_snapshot \<Rightarrow> minimax_summary \<Rightarrow> minimax_summary" where
  "minimax_summary_current now latest sm =
     (case find (\<lambda>m. mm_ModelName m = ms_ModelName sm) (snap_Quotas latest) of
        None \<Rightarrow> sm
      | Some m \<Rightarrow>
          (let sm = sm\<lparr>ms_Total := mm_Total m, ms_CurrentUsed := mm_Used m, ms_CurrentRemain := mm_Remain m,
                       ms_UsagePercent := mm_UsedPercent m\<rparr>
           in case (ms_ResetAt sm, mm_ResetAt m) of
                (None, Some r) \<Rightarrow> sm\<lparr>ms_ResetAt := Some r, ms_TimeUntilReset := time_Sub r now\<rparr>
              | _ \<Rightarrow> sm))"

definition minimax_summary_rate :: "time \<Rightarrow> MiniMaxResetCycle \<Rightarrow> minimax_summary \<Rightarrow> minimax_summary" where
  "minimax_summary_rate nowSince c sm =
     (let elapsed = time_Sub nowSince (cyc_start c)
      in if 30 \<le> dur_Minutes elapsed \<and> 0 < cyc_delta c then
           (let rate = fdiv (float_of (cyc_delta c)) (dur_Hours elapsed);
                sm = sm\<lparr>ms_CurrentRate := rate\<rparr>
            in if ms_ResetAt sm \<noteq> None \<and> 0 < ms_TimeUntilReset sm then
                 (let projection = fadd (float_of (ms_CurrentUsed sm)) (fmul rate (dur_Hours (ms_TimeUntilReset sm)));
                      projection = (if 0 < ms_Total sm \<and> float_of (ms_Total sm) < projection
                                    then float_of (ms_Total sm) else projection);
                      projection = (if projection < 0 then 0 else projection)
                  in sm\<lparr>ms_ProjectedUsage := to_i64 projection\<rparr>)
               else sm)
         else sm)"

definition minimax_UsageSummary ::
    "time \<Rightarrow> time \<Rightarrow> time \<Rightarrow> time \<Rightarrow> string \<Rightarrow> int \<Rightarrow> (minimax_tracker, minimax_summary) op" where
  "minimax_UsageSummary now1 now2 now3 now4 modelName accountID =
     bindE (wrapE ''failed to query active cycle: '' (onStore (QueryActiveMiniMaxCycle modelName accountID))) (\<lambda>active.
     bindE (wrapE ''failed to query cycle history: '' (onStore (QueryMiniMaxCycleHistory modelName accountID []))) (\<lambda>history.
     bindE (wrapE ''failed to query latest minimax: ''
       (liftE mt_snaps (\<lambda>t s. s\<lparr>mt_snaps := t\<rparr>) (QueryLatestMiniMax now2 accountID))) (\<lambda>latest.
       let sm = minimax_summary_history modelName history;
           sm = (case active of Some c \<Rightarrow> minimax_summary_active now1 c sm | None \<Rightarrow> sm);
           sm = (case latest of Some sn \<Rightarrow> minimax_summary_current now3 sn sm | None \<Rightarrow> sm)
       in returnE (case active of Some c \<Rightarrow> minimax_summary_rate now4 c sm | None \<Rightarrow> sm))))"

subsection \<open>Properties\<close>

text \<open>C16: from an empty table, for every account and every named model, the MiniMax tracker makes exactly
  the steps of the model's events: a reading for every snapshot of the account that lists the model with an
  allocation, and the closing of its cycle, statistics unchanged, for every snapshot of the account that lists
  others but not it; accounts do not mix.\<close>

theorem minimax_history:
  assumes "minimax_ok s" "minimax_view (a, n) s = empty_quota" "n \<noteq> []"
    and "\<forall>(sn, a) \<in> set xs. distinct (map mm_ModelName (filter allocated (snap_Quotas sn)))"
  shows "minimax_view (a, n) (poll_all (\<lambda>(sn, a). minimax_Process sn a) xs s) =
    fold (minimax_step (a, n)) (concat (map (minimax_events (a, n)) xs)) empty_quota"
  using minimax_refinement.run_steps [OF assms(1), of xs "(a, n)"] assms(2-4) by simp

definition fresh_minimax :: minimax_tracker where
  "fresh_minimax = \<lparr>trk_store = empty_tbl, trk_onReset = True, trk_resets = [], mt_snaps = empty_tbl,
     mt_lastUsed = Map.empty, mt_lastResetAt = Map.empty, mt_hasLastValue = (\<lambda>_. False)\<rparr>"

lemma fresh_minimax_ok: "minimax_ok fresh_minimax" "minimax_view k fresh_minimax = empty_quota"
  by (simp_all add: minimax_ok_def minimax_inv_def fresh_minimax_def healthy_def empty_tbl_def wf_empty [unfolded empty_tbl_def]
      minimax_view_def minimax_last_def quota_view_def active_def closed_cycles_def empty_quota_def)

definition minimax_poll :: "time \<Rightarrow> string \<Rightarrow> int \<Rightarrow> time option \<Rightarrow> minimax_snapshot" where
  "minimax_poll t n v r = \<lparr>snap_ID = 0, snap_CapturedAt = t, snap_meta = \<lparr>mx_AccountID = 0, mx_RawJSON = []\<rparr>,
     snap_Quotas = [\<lparr>mm_ModelName = n, mm_Total = 1000, mm_Remain = 0, mm_Used = v, mm_UsedPercent = 0,
        mm_ResetAt = r, mm_WindowStart = None, mm_WindowEnd = None, mm_TimeUntilReset = 0, mm_WeeklyTotal = 0,
        mm_WeeklyRemain = 0, mm_WeeklyUsed = 0, mm_WeeklyUsedPercent = 0, mm_WeeklyResetAt = None,
        mm_WeeklyWindowStart = None, mm_WeeklyWindowEnd = None, mm_WeeklyTimeUntilReset = 0, mm_HasWeeklyQuota = False\<rparr>]\<rparr>"

text \<open>The plan switches from the model \<open>M2\<close> to \<open>general\<close> with the third snapshot of account 7.\<close>

theorem minimax_history_witness:
  "minimax_view (7, ''M2'') (poll_all (\<lambda>(sn, a). minimax_Process sn a)
      [(minimax_poll Hour ''M2'' 100 None, 7), (minimax_poll (2 * Hour) ''M2'' 130 None, 7),
       (minimax_poll (2 * Hour) ''M2'' 10 None, 8), (minimax_poll (3 * Hour) ''general'' 5 None, 7)] fresh_minimax) =
     \<lparr>qt_open = None,
      qt_done = {#\<lparr>cyc_id = 0, cyc_key = (7, ''M2''), cyc_start = Hour, cyc_end = Some (3 * Hour),
        cyc_reset = None, cyc_peak = 130, cyc_delta = 30\<rparr>#},
      qt_last = Some (130, None)\<rparr>"
proof -
  have v: "\<not> 130 < to_i64 (fmul (float_of 100) (rnd (6 / 10)))" by code_simp
  then have v': "\<not> 130 < to_i64 (fmul (float_of 100) (rnd (3 / 5)))" by simp
  show ?thesis
    by (subst minimax_history [OF fresh_minimax_ok])
       (simp_all add: minimax_poll_def minimax_events_def minimax_reading_def active_models_def allocated_def v v'
          minimax_step_def carry_step_def quota_step_def dress_def remembered_def follow_reset_def gone_step_def
          empty_quota_def open_at_def tick_cycle_def with_stats_def minimax_policy_def add_idelta_def raise_peak_def in_i64_def)
qed

end
