(* ===== verification/ZaiTracker.thy ===== *)
theory ZaiTracker
  imports TrackerBase
begin

text \<open>
  Z.ai (\<open>internal/tracker/zai_tracker.go\<close>, \<open>internal/store/zai_store.go\<close>, \<open>internal/api/zai_types.go\<close>): two quotas per
  account, the spend window (\<open>tokens\<close>), whose reset is told by its reset time, and the time quota, whose
  reset is told by a fall below a half. Values are floats, the stored statistics are 64-bit integers. The
  answer of the API is a list of limits, of which the two longest spend windows are kept.
\<close>

subsection \<open>The answer of the API\<close>

record ZaiLimit =
  zl_Type :: string
  zl_Unit :: int
  zl_Number :: int
  zl_Usage :: f64
  zl_CurrentValue :: f64
  zl_Remaining :: f64
  zl_Percentage :: int
  zl_NextResetMs :: "int option"
  zl_UsageDetails :: "(string \<times> f64) list"

record ZaiSnapshot =
  zs_ID :: int
  zs_CapturedAt :: time
  zs_TimeLimit :: int
  zs_TimeUnit :: int
  zs_TimeNumber :: int
  zs_TimeUsage :: f64
  zs_TimeCurrentValue :: f64
  zs_TimeRemaining :: f64
  zs_TimePercentage :: int
  zs_TimeUsageDetails :: string
  zs_TokensLimit :: int
  zs_TokensUnit :: int
  zs_TokensNumber :: int
  zs_TokensUsage :: f64
  zs_TokensCurrentValue :: f64
  zs_TokensRemaining :: f64
  zs_TokensPercentage :: int
  zs_TokensNextResetTime :: "time option"
  zs_TokensShortLimit :: int
  zs_TokensShortUnit :: int
  zs_TokensShortNumber :: int
  zs_TokensShortUsage :: f64
  zs_TokensShortCurrentValue :: f64
  zs_TokensShortRemaining :: f64
  zs_TokensShortPercentage :: int
  zs_TokensShortNextResetTime :: "time option"
  zs_TokensShortHasWindow :: bool

definition GetResetTime :: "ZaiLimit \<Rightarrow> time option" where
  "GetResetTime l = map_option (\<lambda>ms. ms * 1000000) (zl_NextResetMs l)"

definition zaiUnitHours :: "int \<Rightarrow> f64" where
  "zaiUnitHours unit = (if unit = 3 then 1 else if unit = 6 then 24 * 7 else if unit = 5 then 24 * 30 else 0)"

definition ZaiWindowSeconds :: "int \<Rightarrow> int \<Rightarrow> f64" where
  "ZaiWindowSeconds unit number =
     (let hours = zaiUnitHours unit
      in if hours \<le> 0 \<or> number \<le> 0 then 0 else fmul (fmul hours (float_of number)) 3600)"

text \<open>The multiplication sign of the last case is two bytes of UTF-8.\<close>

definition ZaiWindowLabel :: "int \<Rightarrow> int \<Rightarrow> string" where
  "ZaiWindowLabel unit number =
     (if unit = 3 then itoa number @ ''h''
      else if unit = 6 then (if number = 1 then ''weekly'' else itoa number @ ''w'')
      else if unit = 5 then (if number = 1 then ''monthly'' else itoa number @ ''mo'')
      else ''u'' @ itoa unit @ [CHR 0xC3, CHR 0x97] @ itoa number)"

definition window_hours :: "ZaiLimit \<Rightarrow> f64" where
  "window_hours l = fmul (zaiUnitHours (zl_Unit l)) (float_of (zl_Number l))"

definition no_ZaiSnapshot :: "time \<Rightarrow> ZaiSnapshot" where
  "no_ZaiSnapshot capturedAt = \<lparr>zs_ID = 0, zs_CapturedAt = capturedAt, zs_TimeLimit = 0, zs_TimeUnit = 0,
     zs_TimeNumber = 0, zs_TimeUsage = 0, zs_TimeCurrentValue = 0, zs_TimeRemaining = 0, zs_TimePercentage = 0,
     zs_TimeUsageDetails = [], zs_TokensLimit = 0, zs_TokensUnit = 0, zs_TokensNumber = 0, zs_TokensUsage = 0,
     zs_TokensCurrentValue = 0, zs_TokensRemaining = 0, zs_TokensPercentage = 0, zs_TokensNextResetTime = None,
     zs_TokensShortLimit = 0, zs_TokensShortUnit = 0, zs_TokensShortNumber = 0, zs_TokensShortUsage = 0,
     zs_TokensShortCurrentValue = 0, zs_TokensShortRemaining = 0, zs_TokensShortPercentage = 0,
     zs_TokensShortNextResetTime = None, zs_TokensShortHasWindow = False\<rparr>"

text \<open>\<open>marshal\<close> is the JSON text of the usage details; the last time limit of the answer wins.\<close>

definition zai_time_limit :: "((string \<times> f64) list \<Rightarrow> string) \<Rightarrow> ZaiLimit \<Rightarrow> ZaiSnapshot \<Rightarrow> ZaiSnapshot" where
  "zai_time_limit marshal limit sn =
     (if zl_Type limit = ''TIME_LIMIT'' then
        sn\<lparr>zs_TimeLimit := i64 (zl_Unit limit * zl_Number limit), zs_TimeUnit := zl_Unit limit,
           zs_TimeNumber := zl_Number limit, zs_TimeUsage := zl_Usage limit,
           zs_TimeCurrentValue := zl_CurrentValue limit, zs_TimeRemaining := zl_Remaining limit,
           zs_TimePercentage := zl_Percentage limit,
           zs_TimeUsageDetails := (if zl_UsageDetails limit \<noteq> [] then marshal (zl_UsageDetails limit)
                                   else zs_TimeUsageDetails sn)\<rparr>
      else sn)"

definition is_spend :: "ZaiLimit \<Rightarrow> bool" where
  "is_spend limit \<longleftrightarrow> zl_Type limit = ''TOKENS_LIMIT'' \<or> zl_Type limit = ''CREDIT_LIMIT''"

definition zai_primary :: "ZaiLimit \<Rightarrow> ZaiSnapshot \<Rightarrow> ZaiSnapshot" where
  "zai_primary primary sn =
     sn\<lparr>zs_TokensLimit := i64 (zl_Unit primary * zl_Number primary), zs_TokensUnit := zl_Unit primary,
        zs_TokensNumber := zl_Number primary, zs_TokensUsage := zl_Usage primary,
        zs_TokensCurrentValue := zl_CurrentValue primary, zs_TokensRemaining := zl_Remaining primary,
        zs_TokensPercentage := zl_Percentage primary, zs_TokensNextResetTime := GetResetTime primary\<rparr>"

definition zai_short :: "ZaiLimit \<Rightarrow> ZaiSnapshot \<Rightarrow> ZaiSnapshot" where
  "zai_short short sn =
     sn\<lparr>zs_TokensShortLimit := i64 (zl_Unit short * zl_Number short), zs_TokensShortUnit := zl_Unit short,
        zs_TokensShortNumber := zl_Number short, zs_TokensShortUsage := zl_Usage short,
        zs_TokensShortCurrentValue := zl_CurrentValue short, zs_TokensShortRemaining := zl_Remaining short,
        zs_TokensShortPercentage := zl_Percentage short, zs_TokensShortNextResetTime := GetResetTime short,
        zs_TokensShortHasWindow := True\<rparr>"

definition zai_ToSnapshot :: "((string \<times> f64) list \<Rightarrow> string) \<Rightarrow> ZaiLimit list \<Rightarrow> time \<Rightarrow> ZaiSnapshot" where
  "zai_ToSnapshot marshal limits capturedAt =
     (let sn = fold (zai_time_limit marshal) limits (no_ZaiSnapshot capturedAt)
      in case rev (sort_key window_hours (filter is_spend limits)) of
           [] \<Rightarrow> sn
         | [primary] \<Rightarrow> zai_primary primary sn
         | primary # short # _ \<Rightarrow> zai_short short (zai_primary primary sn))"

lemma fold_time_limits:
  "fold (zai_time_limit f) limits sn = fold (zai_time_limit f) (filter (\<lambda>l. zl_Type l = ''TIME_LIMIT'') limits) sn"
  by (induction limits arbitrary: sn) (auto simp: zai_time_limit_def)

text \<open>The order of the limits in the answer of the API does not matter: two answers with the same limits, in
  which the spend windows have different lengths and at most one time limit occurs, give the same snapshot.\<close>

theorem zai_windows:
  assumes "mset limits = mset limits'"
    and "inj_on window_hours (set (filter is_spend limits))"
    and "length (filter (\<lambda>l. zl_Type l = ''TIME_LIMIT'') limits) \<le> 1"
  shows "zai_ToSnapshot marshal limits t = zai_ToSnapshot marshal limits' t"
proof -
  let ?time = "filter (\<lambda>l. zl_Type l = ''TIME_LIMIT'')"
  have eq: "mset (?time limits) = mset (?time limits')" "mset (filter is_spend limits) = mset (filter is_spend limits')"
    using assms(1) by simp_all
  have "?time limits = ?time limits'"
  proof (cases "?time limits")
    case Nil
    then show ?thesis using eq(1) by simp
  next
    case (Cons l ls)
    with assms(3) have l: "?time limits = [l]" by simp
    then have "mset (?time limits') = {#l#}" using eq(1) by (simp del: mset_filter)
    then have "?time limits' = [l]" by (simp only: mset_single_iff)
    with l show ?thesis by simp
  qed
  then have "fold (zai_time_limit marshal) limits = fold (zai_time_limit marshal) limits'"
    using fold_time_limits [of marshal limits] fold_time_limits [of marshal limits'] by (simp add: fun_eq_iff)
  moreover have "sort_key window_hours (filter is_spend limits) = sort_key window_hours (filter is_spend limits')"
    using eq(2) assms(2) by (intro sort_key_inj_key_eq) simp_all
  ultimately show ?thesis by (simp add: zai_ToSnapshot_def)
qed

definition zai_limit :: "string \<Rightarrow> int \<Rightarrow> int \<Rightarrow> f64 \<Rightarrow> ZaiLimit" where
  "zai_limit ty u n v = \<lparr>zl_Type = ty, zl_Unit = u, zl_Number = n, zl_Usage = 100, zl_CurrentValue = v,
     zl_Remaining = 0, zl_Percentage = 0, zl_NextResetMs = None, zl_UsageDetails = []\<rparr>"

text \<open>The weekly window at 91 and the five-hour one at 7, in both orders.\<close>

theorem zai_windows_witness:
  "zai_ToSnapshot (\<lambda>_. []) [zai_limit ''TOKENS_LIMIT'' 6 1 91, zai_limit ''TIME_LIMIT'' 5 1 3, zai_limit ''CREDIT_LIMIT'' 3 5 7] 0 =
   zai_ToSnapshot (\<lambda>_. []) [zai_limit ''CREDIT_LIMIT'' 3 5 7, zai_limit ''TOKENS_LIMIT'' 6 1 91, zai_limit ''TIME_LIMIT'' 5 1 3] 0"
proof (rule zai_windows)
  have w: "window_hours (zai_limit ''TOKENS_LIMIT'' 6 1 91) = 168" "window_hours (zai_limit ''CREDIT_LIMIT'' 3 5 7) = 5"
    by code_simp+
  show "inj_on window_hours (set (filter is_spend
      [zai_limit ''TOKENS_LIMIT'' 6 1 91, zai_limit ''TIME_LIMIT'' 5 1 3, zai_limit ''CREDIT_LIMIT'' 3 5 7]))"
    using w by (simp add: is_spend_def) (simp add: zai_limit_def)
qed (simp_all add: zai_limit_def)

subsection \<open>Snapshots\<close>

text \<open>A row is a snapshot and its account; the provider column is always \<open>zai\<close>.\<close>

type_synonym zai_row = "int \<times> ZaiSnapshot"

definition InsertZaiSnapshot :: "int \<Rightarrow> ZaiSnapshot \<Rightarrow> int \<Rightarrow> (zai_row tbl, int) op" where
  "InsertZaiSnapshot dflt snapshot accountID =
     sql_insert_snapshot ''failed to insert zai snapshot: '' ''failed to get last insert ID: ''
       (\<lambda>i. (resolveZaiAccount dflt accountID, snapshot\<lparr>zs_ID := i\<rparr>))"

definition QueryLatestZai :: "int \<Rightarrow> int \<Rightarrow> (zai_row tbl, ZaiSnapshot option) op" where
  "QueryLatestZai dflt accountID = wrapE ''failed to query latest zai: '' (db_stmt (\<lambda>t.
     (case order_desc (\<lambda>r. zs_CapturedAt (snd r)) (filter (\<lambda>r. fst r = resolveZaiAccount dflt accountID) (db_rows t)) of
        [] \<Rightarrow> None | r # _ \<Rightarrow> Some (snd r), t)))"

definition QueryZaiRange :: "int \<Rightarrow> time \<Rightarrow> time \<Rightarrow> int \<Rightarrow> int list \<Rightarrow> (zai_row tbl, ZaiSnapshot list) op" where
  "QueryZaiRange dflt start stop accountID limit =
     bindE (wrapE ''failed to query zai range: '' (db_stmt (\<lambda>t.
       (map snd (between_rows (\<lambda>r. zs_CapturedAt (snd r)) start stop limit
          (filter (\<lambda>r. fst r = resolveZaiAccount dflt accountID) (db_rows t))), t)))) rows_err"

subsection \<open>The tracker\<close>

record zai_tracker = "(int \<times> string, int, time option) trk" +
  zt_snaps :: "zai_row tbl"
  zt_lastTokensValue :: "int \<Rightarrow> f64 option"
  zt_lastTimeValue :: "int \<Rightarrow> f64 option"
  zt_hasLastValues :: "int \<Rightarrow> bool"

datatype zai_quota = Tokens | TimeLimit

fun quota_type :: "zai_quota \<Rightarrow> string" where
  "quota_type Tokens = ''tokens''"
| "quota_type TimeLimit = ''time''"

fun zai_map :: "zai_quota \<Rightarrow> zai_tracker \<Rightarrow> int \<Rightarrow> f64 option" where
  "zai_map Tokens s = zt_lastTokensValue s"
| "zai_map TimeLimit s = zt_lastTimeValue s"

text \<open>A key that is not in the map reads as 0.\<close>

definition zai_last :: "zai_quota \<Rightarrow> int \<Rightarrow> zai_tracker \<Rightarrow> f64" where
  "zai_last z a s = (case zai_map z s a of Some v \<Rightarrow> v | None \<Rightarrow> 0)"

fun zai_remember :: "zai_quota \<Rightarrow> int \<Rightarrow> f64 \<Rightarrow> zai_tracker \<Rightarrow> zai_tracker" where
  "zai_remember Tokens a v s = s\<lparr>zt_lastTokensValue := (zt_lastTokensValue s)(a \<mapsto> v)\<rparr>"
| "zai_remember TimeLimit a v s = s\<lparr>zt_lastTimeValue := (zt_lastTimeValue s)(a \<mapsto> v)\<rparr>"

text \<open>\<open>if delta > 0 { cycle.TotalDelta += int64(delta) }\<close>: every increase is cut off to an integer first.\<close>

definition add_trunc :: "int \<Rightarrow> f64 \<Rightarrow> f64 \<Rightarrow> int" where
  "add_trunc tot lst cur = (let delta = fsub cur lst in if 0 < delta then i64 (tot + to_i64 delta) else tot)"

definition zai_open ::
    "string \<Rightarrow> int \<Rightarrow> zai_quota \<Rightarrow> f64 \<Rightarrow> time \<Rightarrow> time option \<Rightarrow> int \<Rightarrow> (zai_tracker, unit) op" where
  "zai_open msg dflt z currentValue capturedAt nextReset a =
     bindE (wrapE msg (onStore (CreateZaiCycle dflt (quota_type z) capturedAt nextReset a)))
    (\<lambda>_. thenE (wrapE ''failed to set initial peak: '' (onStore (UpdateZaiCycle dflt (quota_type z) (to_i64 currentValue) 0 a)))
      (modifyE (zai_remember z a currentValue)))"

definition zai_tokens_reset :: "ZaiSnapshot \<Rightarrow> ZaiResetCycle \<Rightarrow> bool" where
  "zai_tokens_reset snapshot c \<longleftrightarrow>
     (case cyc_reset c of
        Some r \<Rightarrow> time_After (zs_CapturedAt snapshot) (time_Add r (2 * Minute)) \<or>
                  (case zs_TokensNextResetTime snapshot of Some r' \<Rightarrow> r' \<noteq> r | None \<Rightarrow> False)
      | None \<Rightarrow> zs_TokensNextResetTime snapshot \<noteq> None)"

definition zai_tokens_rollover :: "int \<Rightarrow> ZaiSnapshot \<Rightarrow> int \<Rightarrow> ZaiResetCycle \<Rightarrow> (zai_tracker, unit) op" where
  "zai_tokens_rollover dflt snapshot a c =
     withE (\<lambda>s.
       let v = zs_TokensCurrentValue snapshot;
           cycleEndTime = (case cyc_reset c of
             Some r \<Rightarrow> if time_After (zs_CapturedAt snapshot) r then r else zs_CapturedAt snapshot
           | None \<Rightarrow> zs_CapturedAt snapshot);
           (peak, delta) = (if zt_hasLastValues s a
             then (raise_peak (cyc_peak c) (to_i64 v), add_trunc (cyc_delta c) (zai_last Tokens a s) v)
             else (cyc_peak c, cyc_delta c))
       in thenE (wrapE ''failed to close cycle: '' (onStore (CloseZaiCycle dflt (quota_type Tokens) cycleEndTime peak delta a)))
            (thenE (zai_open ''failed to create new cycle: '' dflt Tokens v (zs_CapturedAt snapshot) (zs_TokensNextResetTime snapshot) a)
              (modifyE (fireReset (quota_type Tokens)))))"

definition zai_tick :: "int \<Rightarrow> zai_quota \<Rightarrow> f64 \<Rightarrow> int \<Rightarrow> ZaiResetCycle \<Rightarrow> (zai_tracker, unit) op" where
  "zai_tick dflt z v a c =
     thenE (withE (\<lambda>s.
        if zt_hasLastValues s a then
          wrapE ''failed to update cycle: '' (onStore (UpdateZaiCycle dflt (quota_type z)
            (raise_peak (cyc_peak c) (to_i64 v)) (add_trunc (cyc_delta c) (zai_last z a s) v) a))
        else if cyc_peak c < to_i64 v then
          wrapE ''failed to update cycle: '' (onStore (UpdateZaiCycle dflt (quota_type z) (to_i64 v) (cyc_delta c) a))
        else returnE ()))
      (modifyE (zai_remember z a v))"

definition zai_processTokensQuota :: "int \<Rightarrow> ZaiSnapshot \<Rightarrow> int \<Rightarrow> (zai_tracker, unit) op" where
  "zai_processTokensQuota dflt snapshot a =
     bindE (wrapE ''failed to query active cycle: '' (onStore (QueryActiveZaiCycle dflt (quota_type Tokens) a)))
       (\<lambda>cycle. case cycle of
          None \<Rightarrow> zai_open ''failed to create cycle: '' dflt Tokens (zs_TokensCurrentValue snapshot)
                    (zs_CapturedAt snapshot) (zs_TokensNextResetTime snapshot) a
        | Some c \<Rightarrow>
            if zai_tokens_reset snapshot c then zai_tokens_rollover dflt snapshot a c
            else zai_tick dflt Tokens (zs_TokensCurrentValue snapshot) a c)"

definition zai_time_rollover :: "int \<Rightarrow> ZaiSnapshot \<Rightarrow> int \<Rightarrow> ZaiResetCycle \<Rightarrow> (zai_tracker, unit) op" where
  "zai_time_rollover dflt snapshot a c =
     thenE (wrapE ''failed to close cycle: ''
              (onStore (CloseZaiCycle dflt (quota_type TimeLimit) (zs_CapturedAt snapshot) (cyc_peak c) (cyc_delta c) a)))
       (thenE (zai_open ''failed to create new cycle: '' dflt TimeLimit (zs_TimeCurrentValue snapshot) (zs_CapturedAt snapshot) None a)
         (modifyE (fireReset (quota_type TimeLimit))))"

definition zai_processTimeQuota :: "int \<Rightarrow> ZaiSnapshot \<Rightarrow> int \<Rightarrow> (zai_tracker, unit) op" where
  "zai_processTimeQuota dflt snapshot a =
     bindE (wrapE ''failed to query active cycle: '' (onStore (QueryActiveZaiCycle dflt (quota_type TimeLimit) a)))
       (\<lambda>cycle. case cycle of
          None \<Rightarrow> zai_open ''failed to create cycle: '' dflt TimeLimit (zs_TimeCurrentValue snapshot) (zs_CapturedAt snapshot) None a
        | Some c \<Rightarrow> withE (\<lambda>s.
            if zt_hasLastValues s a \<and> 0 < zai_last TimeLimit a s \<and>
               zs_TimeCurrentValue snapshot < fmul (zai_last TimeLimit a s) (1 / 2)
            then zai_time_rollover dflt snapshot a c
            else zai_tick dflt TimeLimit (zs_TimeCurrentValue snapshot) a c))"

definition zai_Process :: "int \<Rightarrow> ZaiSnapshot \<Rightarrow> int \<Rightarrow> (zai_tracker, unit) op" where
  "zai_Process dflt snapshot a =
     thenE (wrapE ''zai tracker: tokens: '' (zai_processTokensQuota dflt snapshot a))
    (thenE (wrapE ''zai tracker: time: '' (zai_processTimeQuota dflt snapshot a))
      (modifyE (\<lambda>s. s\<lparr>zt_hasLastValues := (zt_hasLastValues s)(a := True)\<rparr>)))"

subsection \<open>What every run keeps\<close>

lemma zai_state [simp]:
  "trk_store (zai_remember z a v s) = trk_store s" "zt_hasLastValues (zai_remember z a v s) = zt_hasLastValues s"
  "zai_map y (zai_remember z a v s) = (if y = z then (zai_map z s)(a \<mapsto> v) else zai_map y s)"
  "zt_hasLastValues (fireReset n s) = zt_hasLastValues s" "zai_map z (fireReset n s) = zai_map z s"
  "zai_map z (s\<lparr>trk_store := t\<rparr>) = zai_map z s" "zai_map z (s\<lparr>zt_hasLastValues := h\<rparr>) = zai_map z s"
  by (cases z; cases y; simp add: fireReset_def)+

lemmas zai_wp_query = zai_store.wp_query [where q = "(d, a, n)", simplified] for d a n
lemmas zai_wp_calls =
  zai_store.wp_create [where q = "(d, a, n)", simplified] zai_store.wp_update [where q = "(d, a, n)", simplified]
  zai_store.wp_close [where q = "(d, a, n)", simplified] for d a n
lemmas zai_healthy_wp =
  zai_store.healthy_wp(1) [where q = "(d, a, n)", simplified] zai_store.healthy_wp(2) [where q = "(d, a, n)", simplified]
  zai_store.healthy_wp(3) [where q = "(d, a, n)", simplified] zai_store.healthy_wp(4) [where q = "(d, a, n)", simplified] for d a n

lemma zai_rollover_keeps:
  "keeps t0 (trk_store s) \<Longrightarrow>
   wp (zai_tokens_rollover d sn a c) (\<lambda>_ s'. keeps t0 (trk_store s')) (\<lambda>_ s'. keeps t0 (trk_store s')) s"
  "keeps t0 (trk_store s) \<Longrightarrow>
   wp (zai_time_rollover d sn a c) (\<lambda>_ s'. keeps t0 (trk_store s')) (\<lambda>_ s'. keeps t0 (trk_store s')) s"
  by (auto simp: zai_tokens_rollover_def zai_time_rollover_def zai_open_def wps Let_def intro!: zai_wp_calls split: option.split)

lemma zai_tick_keeps:
  "keeps t0 (trk_store s) \<Longrightarrow>
   wp (zai_tick d z v a c) (\<lambda>_ s'. keeps t0 (trk_store s')) (\<lambda>_ s'. keeps t0 (trk_store s')) s"
  by (auto simp: zai_tick_def wps Let_def intro!: zai_wp_calls)

lemma zai_tokens_keeps:
  "keeps t0 (trk_store s) \<Longrightarrow>
   wp (zai_processTokensQuota d sn a) (\<lambda>_ s'. keeps t0 (trk_store s')) (\<lambda>_ s'. keeps t0 (trk_store s')) s"
  unfolding zai_processTokensQuota_def wp_bindE wp_wrapE
  by (erule zai_wp_query)
     (auto simp: zai_open_def wps intro!: zai_wp_calls zai_rollover_keeps zai_tick_keeps split: option.split)

lemma zai_time_keeps:
  "keeps t0 (trk_store s) \<Longrightarrow>
   wp (zai_processTimeQuota d sn a) (\<lambda>_ s'. keeps t0 (trk_store s')) (\<lambda>_ s'. keeps t0 (trk_store s')) s"
  unfolding zai_processTimeQuota_def wp_bindE wp_wrapE
  by (erule zai_wp_query)
     (auto simp: zai_open_def wps intro!: zai_wp_calls zai_rollover_keeps zai_tick_keeps split: option.split)

lemma zai_Process_keeps:
  "keeps t0 (trk_store s) \<Longrightarrow>
   wp (zai_Process d sn a) (\<lambda>_ s'. keeps t0 (trk_store s')) (\<lambda>_ s'. keeps t0 (trk_store s')) s"
  unfolding zai_Process_def wp_thenE wp_wrapE wp_modifyE
  by (rule wp_mono [OF zai_tokens_keeps], assumption, rule wp_mono [OF zai_time_keeps]) simp_all

interpretation zai_tracker: quota_tracker "\<lambda>(d, sn, a). zai_Process d sn a"
  by unfold_locales (simp add: zai_Process_keeps split: prod.split)

subsection \<open>What the tracker computes\<close>

definition zai_stats :: "f64 option \<Rightarrow> f64 \<Rightarrow> int \<times> int \<Rightarrow> int \<times> int" where
  "zai_stats lst v st = (raise_peak (fst st) (to_i64 v), case lst of Some l \<Rightarrow> add_trunc (snd st) l v | None \<Rightarrow> snd st)"

text \<open>The spend window is closed with the reading that shows the reset, the time quota without it.\<close>

fun zai_policy :: "zai_quota \<Rightarrow> (int \<times> string, f64, int, time option) policy" where
  "zai_policy Tokens = \<lparr>
     pol_init = (\<lambda>v. (to_i64 v, 0)),
     pol_over = (\<lambda>c lst rd. case cyc_reset c of
         Some r \<Rightarrow> r + 2 * Minute < rd_at rd \<or> (case rd_reset rd of Some r' \<Rightarrow> r' \<noteq> r | None \<Rightarrow> False)
       | None \<Rightarrow> rd_reset rd \<noteq> None),
     pol_end = (\<lambda>c rd. case cyc_reset c of Some r \<Rightarrow> min r (rd_at rd) | None \<Rightarrow> rd_at rd),
     pol_close = (\<lambda>lst v st. case lst of Some _ \<Rightarrow> zai_stats lst v st | None \<Rightarrow> st),
     pol_tick = zai_stats, pol_reset = (\<lambda>r _. r)\<rparr>"
| "zai_policy TimeLimit = \<lparr>
     pol_init = (\<lambda>v. (to_i64 v, 0)),
     pol_over = (\<lambda>c lst rd. case lst of Some l \<Rightarrow> 0 < l \<and> rd_value rd < fmul l (1 / 2) | None \<Rightarrow> False),
     pol_end = (\<lambda>c rd. rd_at rd), pol_close = (\<lambda>_ _ st. st), pol_tick = zai_stats, pol_reset = (\<lambda>r _. r)\<rparr>"

fun zai_reading :: "zai_quota \<Rightarrow> ZaiSnapshot \<Rightarrow> (f64, time option) reading" where
  "zai_reading Tokens sn = \<lparr>rd_at = zs_CapturedAt sn, rd_value = zs_TokensCurrentValue sn, rd_reset = zs_TokensNextResetTime sn\<rparr>"
| "zai_reading TimeLimit sn = \<lparr>rd_at = zs_CapturedAt sn, rd_value = zs_TimeCurrentValue sn, rd_reset = None\<rparr>"

definition zai_readings :: "int \<times> zai_quota \<Rightarrow> int \<times> ZaiSnapshot \<times> int \<Rightarrow> (f64, time option) reading list" where
  "zai_readings k x = (case x of (d, sn, a) \<Rightarrow> if a = fst k then [zai_reading (snd k) sn] else [])"

definition zai_view :: "int \<times> zai_quota \<Rightarrow> zai_tracker \<Rightarrow> (int \<times> string, f64, int, time option) quota" where
  "zai_view k s = quota_view (fst k, quota_type (snd k)) (zai_map (snd k) s (fst k)) (trk_store s)"

definition zai_inv :: "zai_tracker \<Rightarrow> bool" where
  "zai_inv s \<longleftrightarrow> healthy (trk_store s) \<and> wf_cycles (trk_store s)"

definition zai_ok :: "zai_tracker \<Rightarrow> bool" where
  "zai_ok s \<longleftrightarrow> zai_inv s \<and> (\<forall>z a. zt_hasLastValues s a \<longleftrightarrow> zai_map z s a \<noteq> None)"

definition zai_step :: "int \<times> zai_quota \<Rightarrow> (f64, time option) reading \<Rightarrow>
    (int \<times> string, f64, int, time option) quota \<Rightarrow> (int \<times> string, f64, int, time option) quota" where
  "zai_step k = quota_step (zai_policy (snd k)) (fst k, quota_type (snd k))"

definition zai_post :: "zai_tracker \<Rightarrow> zai_quota \<Rightarrow> int \<Rightarrow> ZaiSnapshot \<Rightarrow> zai_tracker \<Rightarrow> bool" where
  "zai_post s z a sn s' \<longleftrightarrow> zai_inv s' \<and> zt_hasLastValues s' = zt_hasLastValues s \<and>
     (\<forall>y. zai_map y s' = (if y = z then (zai_map z s)(a \<mapsto> rd_value (zai_reading z sn)) else zai_map y s)) \<and>
     zai_view (a, z) s' = zai_step (a, z) (zai_reading z sn) (zai_view (a, z) s) \<and>
     (\<forall>k. k \<noteq> (a, z) \<longrightarrow> zai_view k s' = zai_view k s)"

lemma quota_type_inj [simp]: "quota_type y = quota_type z \<longleftrightarrow> y = z"
  by (cases y; cases z) simp_all

lemma resolve_pos [simp]: "0 < a \<Longrightarrow> resolveZaiAccount d a = a"
  by (simp add: resolveZaiAccount_def)

lemmas zai_steps = zai_post_def zai_inv_def zai_view_def zai_step_def quota_simps zai_stats_def raise_peak_def time_defs

lemma zai_tokens_policy:
  "zai_tokens_reset sn c = pol_over (zai_policy Tokens) (anon c) lst (zai_reading Tokens sn)"
  by (auto simp: zai_tokens_reset_def time_defs split: option.splits)

declare quota_type.simps [simp del] zai_map.simps [simp del] zai_remember.simps [simp del]

lemma zai_open_refines:
  assumes "zai_inv s" "0 < a" "active (a, quota_type z) (trk_store s) = None"
  shows "wp (zai_open msg d z (rd_value (zai_reading z sn)) (rd_at (zai_reading z sn)) (rd_reset (zai_reading z sn)) a)
    (\<lambda>_. zai_post s z a sn) (\<lambda>_ _. False) s"
  using assms
  by (cases z; simp add: zai_open_def wps zai_healthy_wp zai_inv_def)
     (auto simp: zai_steps split: option.splits)

lemma zai_rollover_refines:
  assumes "zai_inv s" "0 < a" "zt_hasLastValues s a \<longleftrightarrow> zai_map z s a \<noteq> None"
    and "active (a, quota_type z) (trk_store s) = Some c"
    and "pol_over (zai_policy z) (anon c) (zai_map z s a) (zai_reading z sn)"
  shows "wp (case z of Tokens \<Rightarrow> zai_tokens_rollover d sn a c | TimeLimit \<Rightarrow> zai_time_rollover d sn a c)
    (\<lambda>_. zai_post s z a sn) (\<lambda>_ _. False) s"
proof (cases z)
  case Tokens
  have "pol_over (zai_policy Tokens) (anon c) (zai_map Tokens s a) (zai_reading Tokens sn)"
    using assms(5) Tokens by simp
  then show ?thesis
    using assms(1-4) unfolding Tokens
    by (simp add: zai_tokens_rollover_def zai_open_def wps zai_healthy_wp zai_inv_def Let_def del: zai_policy.simps)
       (auto simp: zai_steps zai_last_def simp del: zai_policy.simps(2) split: option.splits)
next
  case TimeLimit
  have "pol_over (zai_policy TimeLimit) (anon c) (zai_map TimeLimit s a) (zai_reading TimeLimit sn)"
    using assms(5) TimeLimit by simp
  then show ?thesis
    using assms(1-4) unfolding TimeLimit
    by (simp add: zai_time_rollover_def zai_open_def wps zai_healthy_wp zai_inv_def Let_def del: zai_policy.simps)
       (auto simp: zai_steps zai_last_def split: option.splits)
qed

lemma zai_tick_refines:
  assumes "zai_inv s" "0 < a" "zt_hasLastValues s a \<longleftrightarrow> zai_map z s a \<noteq> None"
    and "active (a, quota_type z) (trk_store s) = Some c"
    and "\<not> pol_over (zai_policy z) (anon c) (zai_map z s a) (zai_reading z sn)"
  shows "wp (zai_tick d z (rd_value (zai_reading z sn)) a c) (\<lambda>_. zai_post s z a sn) (\<lambda>_ _. False) s"
proof -
  have sel: "pol_tick (zai_policy z) = zai_stats" "pol_reset (zai_policy z) = (\<lambda>r _. r)" by (cases z; simp)+
  show ?thesis
    using assms
    apply (simp add: zai_tick_def wps zai_healthy_wp zai_inv_def zai_last_def Let_def)
    apply (auto simp: zai_steps sel split: option.splits)
    apply (auto intro!: cycle.equality simp: anon_fields)
    done
qed

lemma zai_tokens_refines:
  assumes "zai_inv s" "0 < a" "zt_hasLastValues s a \<longleftrightarrow> zai_map Tokens s a \<noteq> None"
  shows "wp (zai_processTokensQuota d sn a) (\<lambda>_. zai_post s Tokens a sn) (\<lambda>_ _. False) s"
proof -
  have h: "healthy (trk_store s)" "wf_cycles (trk_store s)" using assms(1) by (auto simp: zai_inv_def)
  show ?thesis
    using h zai_open_refines [OF assms(1,2), of Tokens _ d sn] zai_rollover_refines [OF assms, of _ sn d]
      zai_tick_refines [OF assms, of _ sn d]
    by (simp add: zai_processTokensQuota_def wps zai_healthy_wp assms(2) zai_tokens_policy [where lst = "zai_map Tokens s a"]
        del: zai_policy.simps split: option.split)
qed

lemma zai_time_refines:
  assumes "zai_inv s" "0 < a" "zt_hasLastValues s a \<longleftrightarrow> zai_map TimeLimit s a \<noteq> None"
  shows "wp (zai_processTimeQuota d sn a) (\<lambda>_. zai_post s TimeLimit a sn) (\<lambda>_ _. False) s"
proof -
  have h: "healthy (trk_store s)" "wf_cycles (trk_store s)" using assms(1) by (auto simp: zai_inv_def)
  define over where "over \<longleftrightarrow> zt_hasLastValues s a \<and> 0 < zai_last TimeLimit a s \<and>
      zs_TimeCurrentValue sn < fmul (zai_last TimeLimit a s) (1 / 2)"
  have over: "over = pol_over (zai_policy TimeLimit) (anon c) (zai_map TimeLimit s a) (zai_reading TimeLimit sn)" for c
    using assms(3) by (auto simp: over_def zai_last_def split: option.split)
  have roll: "over \<Longrightarrow> active (a, quota_type TimeLimit) (trk_store s) = Some c \<Longrightarrow>
      wp (zai_time_rollover d sn a c) (\<lambda>_. zai_post s TimeLimit a sn) (\<lambda>_ _. False) s" for c
    using zai_rollover_refines [OF assms, of c sn d] over [of c] by simp
  have tick: "\<not> over \<Longrightarrow> active (a, quota_type TimeLimit) (trk_store s) = Some c \<Longrightarrow>
      wp (zai_tick d TimeLimit (zs_TimeCurrentValue sn) a c) (\<lambda>_. zai_post s TimeLimit a sn) (\<lambda>_ _. False) s" for c
    using zai_tick_refines [OF assms, of c sn d] over [of c] by simp
  show ?thesis
    using h roll tick zai_open_refines [OF assms(1,2), of TimeLimit _ d sn]
    unfolding zai_processTimeQuota_def over_def [symmetric]
    by (simp add: wps zai_healthy_wp assms(2) over_def [symmetric] split: option.split)
qed

interpretation zai_refinement: stepping_tracker "\<lambda>(d, sn, a). zai_Process d sn a" zai_ok "\<lambda>(d, sn, a). 0 < a"
    "UNIV :: (int \<times> zai_quota) set" zai_view zai_readings zai_step
proof unfold_locales
  fix s :: zai_tracker and x :: "int \<times> ZaiSnapshot \<times> int"
  assume ok: "zai_ok s" and valid: "case x of (d, sn, a) \<Rightarrow> 0 < a"
  obtain d sn a where x: "x = (d, sn, a)" by (cases x)
  have a: "0 < a" using valid x by simp
  have inv: "zai_inv s" and flags: "\<And>z b. zt_hasLastValues s b \<longleftrightarrow> zai_map z s b \<noteq> None"
    using ok by (auto simp: zai_ok_def)
  have reads: "zai_readings k x = (if a = fst k then [zai_reading (snd k) sn] else [])" for k
    by (simp add: zai_readings_def x)
  show "wp (case x of (d, sn, a) \<Rightarrow> zai_Process d sn a) (\<lambda>_ s'. zai_ok s' \<and>
      (\<forall>k \<in> UNIV. zai_view k s' = fold (zai_step k) (zai_readings k x) (zai_view k s))) (\<lambda>_ _. False) s"
    unfolding x prod.case zai_Process_def wp_thenE wp_wrapE
  proof (rule wp_mono [OF zai_tokens_refines [OF inv a flags]])
    fix u s1
    assume s1: "zai_post s Tokens a sn s1"
    then have "zai_inv s1" "zt_hasLastValues s1 a \<longleftrightarrow> zai_map TimeLimit s1 a \<noteq> None"
      using flags by (auto simp: zai_post_def)
    from zai_time_refines [OF this(1) a this(2), of d sn]
    show "wp (zai_processTimeQuota d sn a) (\<lambda>_. wp (modifyE (\<lambda>s. s\<lparr>zt_hasLastValues := (zt_hasLastValues s)(a := True)\<rparr>))
        (\<lambda>_ s'. zai_ok s' \<and> (\<forall>k \<in> UNIV. zai_view k s' = fold (zai_step k) (zai_readings k (d, sn, a)) (zai_view k s))) (\<lambda>_ _. False))
      (\<lambda>_ _. False) s1"
    proof (rule wp_mono)
      fix v s2
      assume s2: "zai_post s1 TimeLimit a sn s2"
      let ?t = "s2\<lparr>zt_hasLastValues := (zt_hasLastValues s2)(a := True)\<rparr>"
      have maps: "zai_map z s2 b = (if b = a then Some (rd_value (zai_reading z sn)) else zai_map z s b)" for z b
        using s1 s2 by (cases z) (auto simp: zai_post_def)
      then have "zai_ok ?t" using s1 s2 flags by (auto simp: zai_ok_def zai_post_def zai_inv_def)
      moreover have "zai_view (b, z) ?t = fold (zai_step (b, z)) (zai_readings (b, z) x) (zai_view (b, z) s)" for b z
      proof -
        have "zai_view (b, z) ?t = zai_view (b, z) s2" by (simp add: zai_view_def)
        then show ?thesis
          using s1 s2 unfolding zai_post_def reads by (cases z; cases "b = a") auto
      qed
      ultimately show "wp (modifyE (\<lambda>s. s\<lparr>zt_hasLastValues := (zt_hasLastValues s)(a := True)\<rparr>))
        (\<lambda>_ s'. zai_ok s' \<and> (\<forall>k \<in> UNIV. zai_view k s' = fold (zai_step k) (zai_readings k (d, sn, a)) (zai_view k s))) (\<lambda>_ _. False) s2"
        unfolding wp_modifyE x by auto
    qed
  qed
qed

subsection \<open>Summary\<close>

record zai_summary =
  zu_QuotaType :: string
  zu_CurrentUsage :: f64
  zu_CurrentLimit :: f64
  zu_UsagePercent :: f64
  zu_RenewsAt :: "time option"
  zu_TimeUntilReset :: duration
  zu_CurrentRate :: f64
  zu_ProjectedUsage :: f64
  zu_CompletedCycles :: int
  zu_AvgPerCycle :: f64
  zu_PeakCycle :: f64
  zu_TotalTracked :: f64
  zu_TrackingSince :: time

definition zai_summary_history :: "string \<Rightarrow> ZaiResetCycle list \<Rightarrow> zai_summary" where
  "zai_summary_history quotaType history =
     \<lparr>zu_QuotaType = quotaType, zu_CurrentUsage = 0, zu_CurrentLimit = 0, zu_UsagePercent = 0, zu_RenewsAt = None,
      zu_TimeUntilReset = 0, zu_CurrentRate = 0, zu_ProjectedUsage = 0, zu_CompletedCycles = int (length history),
      zu_AvgPerCycle = history_iavg history, zu_PeakCycle = history_peak (\<lambda>c. float_of (cyc_delta c)) history,
      zu_TotalTracked = float_of (history_itotal history), zu_TrackingSince = tracking_since history\<rparr>"

definition zai_summary_active :: "time \<Rightarrow> ZaiResetCycle \<Rightarrow> zai_summary \<Rightarrow> zai_summary" where
  "zai_summary_active now c sm =
     (let sm = sm\<lparr>zu_TotalTracked := fadd (zu_TotalTracked sm) (float_of (cyc_delta c))\<rparr>
      in case cyc_reset c of
           Some r \<Rightarrow> sm\<lparr>zu_RenewsAt := Some r, zu_TimeUntilReset := time_Sub r now\<rparr>
         | None \<Rightarrow> sm)"

definition zai_summary_current :: "time \<Rightarrow> ZaiSnapshot \<Rightarrow> zai_summary \<Rightarrow> zai_summary" where
  "zai_summary_current now latest sm =
     (let sm = (if zu_QuotaType sm = ''tokens'' then
                  (let sm = sm\<lparr>zu_CurrentUsage := zs_TokensCurrentValue latest, zu_CurrentLimit := zs_TokensUsage latest\<rparr>
                   in case (zu_RenewsAt sm, zs_TokensNextResetTime latest) of
                        (None, Some r) \<Rightarrow> sm\<lparr>zu_RenewsAt := Some r, zu_TimeUntilReset := time_Sub r now\<rparr>
                      | _ \<Rightarrow> sm)
                else if zu_QuotaType sm = ''time'' then
                  sm\<lparr>zu_CurrentUsage := zs_TimeCurrentValue latest, zu_CurrentLimit := zs_TimeUsage latest\<rparr>
                else sm)
      in if 0 < zu_CurrentLimit sm
         then sm\<lparr>zu_UsagePercent := fmul (fdiv (zu_CurrentUsage sm) (zu_CurrentLimit sm)) 100\<rparr> else sm)"

definition zai_summary_rate :: "time \<Rightarrow> time \<Rightarrow> ZaiResetCycle \<Rightarrow> zai_summary \<Rightarrow> zai_summary" where
  "zai_summary_rate nowSince nowLeft c sm =
     (let elapsed = time_Sub nowSince (cyc_start c)
      in if 0 < dur_Hours elapsed \<and> 0 < zu_CurrentUsage sm then
           (let sm = sm\<lparr>zu_CurrentRate := fdiv (zu_CurrentUsage sm) (dur_Hours elapsed)\<rparr>
            in case zu_RenewsAt sm of
                 Some r \<Rightarrow>
                   (let hoursLeft = dur_Hours (time_Sub r nowLeft)
                    in if 0 < hoursLeft
                       then sm\<lparr>zu_ProjectedUsage := fadd (zu_CurrentUsage sm) (fmul (zu_CurrentRate sm) hoursLeft)\<rparr>
                       else sm)
               | None \<Rightarrow> sm)
         else sm)"

definition zai_UsageSummary ::
    "int \<Rightarrow> time \<Rightarrow> time \<Rightarrow> time \<Rightarrow> time \<Rightarrow> string \<Rightarrow> int \<Rightarrow> (zai_tracker, zai_summary) op" where
  "zai_UsageSummary dflt now1 now2 now3 now4 quotaType a =
     bindE (wrapE ''failed to query active cycle: '' (onStore (QueryActiveZaiCycle dflt quotaType a))) (\<lambda>activeCycle.
     bindE (wrapE ''failed to query cycle history: '' (onStore (QueryZaiCycleHistory dflt quotaType a []))) (\<lambda>history.
       case activeCycle of
         None \<Rightarrow> returnE (zai_summary_history quotaType history)
       | Some c \<Rightarrow>
           bindE (wrapE ''failed to query latest: ''
             (liftE zt_snaps (\<lambda>t s. s\<lparr>zt_snaps := t\<rparr>) (QueryLatestZai dflt a))) (\<lambda>latest.
             let sm = zai_summary_active now1 c (zai_summary_history quotaType history)
             in returnE (case latest of
                  None \<Rightarrow> sm
                | Some sn \<Rightarrow> zai_summary_rate now3 now4 c (zai_summary_current now2 sn sm)))))"

subsection \<open>Properties\<close>

text \<open>C17: from an empty table, for every account and both quotas, the Z.ai tracker keeps exactly the cycles of the
  account's readings under that quota's rule; accounts and quotas do not mix.\<close>

theorem zai_history:
  assumes "zai_ok s" "zai_view (a, z) s = empty_quota" "\<forall>(d, sn, a) \<in> set xs. 0 < a"
  shows "zai_view (a, z) (poll_all (\<lambda>(d, sn, a). zai_Process d sn a) xs s) =
    quota_of_segments (zai_policy z) (a, quota_type z)
      (segments (policy_over (zai_policy z) (a, quota_type z)) (concat (map (zai_readings (a, z)) xs)))"
  using zai_refinement.run_steps [OF assms(1), of xs "(a, z)"] assms(2,3)
  by (simp add: zai_step_def quota_run_segments)

definition fresh_zai :: zai_tracker where
  "fresh_zai = \<lparr>trk_store = empty_tbl, trk_onReset = True, trk_resets = [], zt_snaps = empty_tbl,
     zt_lastTokensValue = Map.empty, zt_lastTimeValue = Map.empty, zt_hasLastValues = (\<lambda>_. False)\<rparr>"

lemma fresh_zai_ok: "zai_ok fresh_zai" "zai_view k fresh_zai = empty_quota"
proof -
  have "zai_map z fresh_zai = Map.empty" for z by (cases z) (simp_all add: fresh_zai_def zai_map.simps)
  then show "zai_ok fresh_zai" "zai_view k fresh_zai = empty_quota"
    by (simp_all add: zai_ok_def zai_inv_def healthy_def wf_empty [unfolded empty_tbl_def]
        zai_view_def quota_view_def active_def closed_cycles_def empty_quota_def)
       (simp_all add: fresh_zai_def empty_tbl_def wf_empty [unfolded empty_tbl_def])
qed

definition zai_poll :: "time \<Rightarrow> f64 \<Rightarrow> f64 \<Rightarrow> time option \<Rightarrow> ZaiSnapshot" where
  "zai_poll t v w r = (no_ZaiSnapshot t)\<lparr>zs_TokensCurrentValue := v, zs_TimeCurrentValue := w, zs_TokensNextResetTime := r\<rparr>"

text \<open>The time quota of account 3 falls from 40 to 10; a snapshot of account 4 comes between.\<close>

theorem zai_history_witness:
  "zai_view (3, TimeLimit) (poll_all (\<lambda>(d, sn, a). zai_Process d sn a)
      [(1, zai_poll Hour 5 30 None, 3), (1, zai_poll (2 * Hour) 7 40 None, 3),
       (1, zai_poll (2 * Hour) 7 1 None, 4), (1, zai_poll (3 * Hour) 8 10 None, 3)] fresh_zai) =
     \<lparr>qt_open = Some \<lparr>cyc_id = 0, cyc_key = (3, ''time''), cyc_start = 3 * Hour, cyc_end = None,
        cyc_reset = None, cyc_peak = 10, cyc_delta = 0\<rparr>,
      qt_done = {#\<lparr>cyc_id = 0, cyc_key = (3, ''time''), cyc_start = Hour, cyc_end = Some (3 * Hour),
        cyc_reset = None, cyc_peak = 40, cyc_delta = 10\<rparr>#},
      qt_last = Some 10\<rparr>"
proof -
  have v: "to_i64 30 = 30" "to_i64 40 = 40" "to_i64 10 = 10" "\<not> 40 < fmul 30 (1 / 2)" "10 < fmul 40 (1 / 2)" "fsub 40 30 = 10"
    by code_simp+
  show ?thesis
    by (subst zai_history [OF fresh_zai_ok])
       (simp_all add: zai_poll_def no_ZaiSnapshot_def zai_readings_def policy_over_def quota_of_segments_def open_seg_def
          done_seg_def tick_cycle_def end_by_def with_stats_def zai_stats_def add_trunc_def raise_peak_def v in_i64_def
          open_at_def finish_at_def quota_type.simps)
qed

end
