(* ===== verification/CreditTrackers.thy ===== *)
theory CreditTrackers
  imports TrackerBase
begin

text \<open>
  Grok and Kimi (\<open>internal/tracker\<close>, \<open>internal/store\<close>): a utilization per account and quota, cycles that are
  inserted whole and closed by id. The Go code of the two is the same but for the store functions, the
  detection of a reset and whether the cycle gets the announced reset time. The store has no function that
  updates an open cycle: what a cycle counts while it is open is kept in a local copy and lost.
\<close>

subsection \<open>The operations\<close>

record credit_quota =
  gq_Name :: string
  gq_Utilization :: f64
  gq_ResetsAt :: "time option"
  gq_Status :: string

type_synonym credit_cycles = "(int \<times> string, f64, time option) cycles"
type_synonym credit_cycle = "(int \<times> string, f64, time option) cycle"

record credit_iface =
  cf_query :: "int \<Rightarrow> string \<Rightarrow> (credit_cycles, credit_cycle option) op"
  cf_insert :: "credit_cycle \<Rightarrow> (credit_cycles, int) op"
  cf_close :: "int \<Rightarrow> time \<Rightarrow> f64 \<Rightarrow> f64 \<Rightarrow> (credit_cycles, unit) op"
  cf_history :: "int \<Rightarrow> string \<Rightarrow> int \<Rightarrow> (credit_cycles, credit_cycle list) op"

text \<open>The maps of maps: an account may have no inner map.\<close>

record credit_tracker = "(int \<times> string, f64, time option) trk" +
  gt_lastValues :: "int \<Rightarrow> (string \<Rightarrow> f64 option) option"
  gt_lastResets :: "int \<Rightarrow> (string \<Rightarrow> time option) option"
  gt_hasLast :: "int \<Rightarrow> bool"

definition inner :: "(string \<Rightarrow> 'b option) option \<Rightarrow> string \<Rightarrow> 'b option" where
  "inner m n = (case m of Some f \<Rightarrow> f n | None \<Rightarrow> None)"

definition set_inner :: "(int \<Rightarrow> (string \<Rightarrow> 'b option) option) \<Rightarrow> int \<Rightarrow> string \<Rightarrow> 'b \<Rightarrow> int \<Rightarrow> (string \<Rightarrow> 'b option) option" where
  "set_inner m a n v = m(a \<mapsto> (case m a of Some f \<Rightarrow> f | None \<Rightarrow> Map.empty)(n \<mapsto> v))"

definition initLast :: "int \<Rightarrow> string \<Rightarrow> f64 \<Rightarrow> time option \<Rightarrow> credit_tracker \<Rightarrow> credit_tracker" where
  "initLast account quota val resets s =
     (let s = s\<lparr>gt_lastValues := set_inner (gt_lastValues s) account quota val\<rparr>
      in case resets of
           Some r \<Rightarrow> s\<lparr>gt_lastResets := set_inner (gt_lastResets s) account quota r\<rparr>
         | None \<Rightarrow> s)"

definition setLast :: "int \<Rightarrow> string \<Rightarrow> f64 \<Rightarrow> time option \<Rightarrow> credit_tracker \<Rightarrow> credit_tracker" where
  "setLast account quota val resets s = initLast account quota val resets s"

definition hasLastFor :: "int \<Rightarrow> credit_tracker \<Rightarrow> bool" where
  "hasLastFor account s \<longleftrightarrow> gt_hasLast s account \<and> gt_lastValues s account \<noteq> None"

text \<open>\<open>t.lastValues[account][quota]\<close>: 0 when there is none.\<close>

definition last_util :: "int \<Rightarrow> string \<Rightarrow> credit_tracker \<Rightarrow> f64" where
  "last_util account quota s = (case inner (gt_lastValues s account) quota of Some v \<Rightarrow> v | None \<Rightarrow> 0)"

type_synonym credit_rule = "int \<Rightarrow> credit_quota \<Rightarrow> credit_tracker \<Rightarrow> bool"

definition grok_resetDetected :: credit_rule where
  "grok_resetDetected accountID q s \<longleftrightarrow>
     hasLastFor accountID s \<and>
     (let lst = last_util accountID (gq_Name q) s in 0 < lst \<and> gq_Utilization q < fmul lst (1 / 2))"

definition kimi_resetDetected :: credit_rule where
  "kimi_resetDetected accountID q s \<longleftrightarrow>
     (hasLastFor accountID s \<and>
      (let lst = last_util accountID (gq_Name q) s in 0 < lst \<and> gq_Utilization q < fmul lst (1 / 2))) \<or>
     (case (gq_ResetsAt q, inner (gt_lastResets s accountID) (gq_Name q)) of
        (Some r, Some prev) \<Rightarrow> time_After r (time_Add prev Minute) \<and>
          (gq_Utilization q < 20 \<or> (hasLastFor accountID s \<and> gq_Utilization q < last_util accountID (gq_Name q) s))
      | _ \<Rightarrow> False)"

text \<open>\<open>keep\<close> tells whether the announced reset time goes into the row.\<close>

definition credit_open ::
    "credit_iface \<Rightarrow> (time option \<Rightarrow> time option) \<Rightarrow> string \<Rightarrow> int \<Rightarrow> credit_quota \<Rightarrow> time \<Rightarrow> (credit_tracker, unit) op" where
  "credit_open F keep msg a q capturedAt =
     bindE (wrapE msg (onStore (cf_insert F \<lparr>cyc_id = 0, cyc_key = (a, gq_Name q), cyc_start = capturedAt,
              cyc_end = None, cyc_reset = keep (gq_ResetsAt q), cyc_peak = gq_Utilization q, cyc_delta = 0\<rparr>)))
       (\<lambda>_. modifyE (initLast a (gq_Name q) (gq_Utilization q) (gq_ResetsAt q)))"

definition credit_processQuota ::
    "credit_iface \<Rightarrow> (time option \<Rightarrow> time option) \<Rightarrow> credit_rule \<Rightarrow> int \<Rightarrow> credit_quota \<Rightarrow> time \<Rightarrow> (credit_tracker, unit) op" where
  "credit_processQuota F keep detected a q capturedAt =
     bindE (wrapE ''query active cycle: '' (onStore (cf_query F a (gq_Name q))))
       (\<lambda>cycle. case cycle of
          None \<Rightarrow> credit_open F keep ''create cycle: '' a q capturedAt
        | Some c \<Rightarrow> withE (\<lambda>s.
            if detected a q s then
              thenE (wrapE ''close cycle: '' (onStore (cf_close F (cyc_id c) capturedAt (cyc_peak c) (cyc_delta c))))
             (thenE (credit_open F keep ''create after reset: '' a q capturedAt)
               (modifyE (fireReset (gq_Name q))))
            else modifyE (setLast a (gq_Name q) (gq_Utilization q) (gq_ResetsAt q))))"

definition credit_Process ::
    "credit_iface \<Rightarrow> (time option \<Rightarrow> time option) \<Rightarrow> credit_rule \<Rightarrow> string \<Rightarrow> int \<Rightarrow> credit_quota list \<Rightarrow> time \<Rightarrow>
     (credit_tracker, unit) op" where
  "credit_Process F keep detected prefix accountID quotas capturedAt =
     (let a = (if accountID = 0 then 1 else accountID)
      in thenE (forE (\<lambda>q. wrapE (prefix @ gq_Name q @ '': '') (credit_processQuota F keep detected a q capturedAt)) quotas)
           (modifyE (\<lambda>s. s\<lparr>gt_hasLast := (gt_hasLast s)(a := True)\<rparr>)))"

lemma credit_state [simp]:
  "trk_store (initLast a n v r s) = trk_store s" "gt_hasLast (initLast a n v r s) = gt_hasLast s"
  "gt_lastValues (initLast a n v r s) = set_inner (gt_lastValues s) a n v"
  "gt_lastResets (initLast a n v r s) = (case r of Some t \<Rightarrow> set_inner (gt_lastResets s) a n t | None \<Rightarrow> gt_lastResets s)"
  "gt_hasLast (fireReset n s) = gt_hasLast s" "gt_lastValues (fireReset n s) = gt_lastValues s"
  "gt_lastResets (fireReset n s) = gt_lastResets s"
  by (auto simp: initLast_def fireReset_def Let_def split: option.split)

lemma inner_set [simp]: "inner (set_inner m a n v b) j = (if b = a \<and> j = n then Some v else inner (m b) j)"
  by (auto simp: inner_def set_inner_def split: option.split)

lemma set_inner_Some [simp]: "set_inner m a n v a \<noteq> None"
  by (simp add: set_inner_def)

subsection \<open>The abstract account\<close>

text \<open>The statistics of a cycle are those of its first reading. A rule sees the last value, the reset time
  remembered with it, and the reading.\<close>

type_synonym credit_over = "f64 \<Rightarrow> time option \<Rightarrow> (f64, time option) reading \<Rightarrow> bool"

definition credit_policy :: "credit_over \<Rightarrow> (int \<times> string, f64 \<times> time option, f64, time option) policy" where
  "credit_policy over = \<lparr>
     pol_init = (\<lambda>v. (fst v, 0)),
     pol_over = (\<lambda>_ lst rd. case lst of
        Some (l, m) \<Rightarrow> over l m \<lparr>rd_at = rd_at rd, rd_value = fst (rd_value rd), rd_reset = rd_reset rd\<rparr> | None \<Rightarrow> False),
     pol_end = (\<lambda>_ rd. rd_at rd), pol_close = (\<lambda>_ _ st. st), pol_tick = (\<lambda>_ _ st. st), pol_reset = (\<lambda>r _. r)\<rparr>"

lemma credit_policy_sel:
  "pol_end (credit_policy f) c rd = rd_at rd" "pol_close (credit_policy f) lst v st = st"
  "pol_init (credit_policy f) v = (fst v, 0)" "pol_tick (credit_policy f) lst v st = st" "pol_reset (credit_policy f) r r' = r"
  by (simp_all add: credit_policy_def)

lemma credit_pol_over:
  "pol_over (credit_policy f) c lst rd = (case lst of
     Some (l, m) \<Rightarrow> f l m \<lparr>rd_at = rd_at rd, rd_value = fst (rd_value rd), rd_reset = rd_reset rd\<rparr> | None \<Rightarrow> False)"
  by (simp add: credit_policy_def)

definition credit_reading :: "(time option \<Rightarrow> time option) \<Rightarrow> time \<Rightarrow> credit_quota \<Rightarrow> (f64, time option) reading" where
  "credit_reading keep capturedAt q = \<lparr>rd_at = capturedAt, rd_value = gq_Utilization q, rd_reset = keep (gq_ResetsAt q)\<rparr>"

definition credit_readings ::
    "(time option \<Rightarrow> time option) \<Rightarrow> int \<times> string \<Rightarrow> int \<times> credit_quota list \<times> time \<Rightarrow> (f64, time option) reading list" where
  "credit_readings keep k x = (case x of (accountID, quotas, capturedAt) \<Rightarrow>
     map (credit_reading keep capturedAt)
       (filter (\<lambda>q. ((if accountID = 0 then 1 else accountID), gq_Name q) = k) quotas))"

definition credit_last :: "(time option \<Rightarrow> time option) \<Rightarrow> int \<times> string \<Rightarrow> credit_tracker \<Rightarrow> (f64 \<times> time option) option" where
  "credit_last keep k s = map_option (\<lambda>l. (l, keep (inner (gt_lastResets s (fst k)) (snd k)))) (inner (gt_lastValues s (fst k)) (snd k))"

definition credit_view :: "(time option \<Rightarrow> time option) \<Rightarrow> int \<times> string \<Rightarrow> credit_tracker \<Rightarrow>
    (int \<times> string, f64 \<times> time option, f64, time option) quota" where
  "credit_view keep k s = quota_view k (credit_last keep k s) (trk_store s)"

definition credit_inv :: "credit_tracker \<Rightarrow> bool" where
  "credit_inv s \<longleftrightarrow> healthy (trk_store s) \<and> wf_cycles (trk_store s) \<and>
     (\<forall>a n. inner (gt_lastValues s a) n = None \<longrightarrow> inner (gt_lastResets s a) n = None)"

definition credit_ok :: "credit_tracker \<Rightarrow> bool" where
  "credit_ok s \<longleftrightarrow> credit_inv s \<and> (\<forall>a n. gt_hasLast s a \<or> inner (gt_lastValues s a) n = None)"

definition credit_valid :: "int \<times> credit_quota list \<times> time \<Rightarrow> bool" where
  "credit_valid x \<longleftrightarrow> (case x of (a, quotas, capturedAt) \<Rightarrow> distinct (map gq_Name quotas))"

definition credit_post ::
    "(time option \<Rightarrow> time option) \<Rightarrow> credit_over \<Rightarrow> credit_tracker \<Rightarrow> int \<Rightarrow> credit_quota \<Rightarrow> time \<Rightarrow> credit_tracker \<Rightarrow> bool" where
  "credit_post keep over s a q cap s' \<longleftrightarrow> credit_inv s' \<and> gt_hasLast s' = gt_hasLast s \<and>
     (\<forall>j. j \<noteq> (a, gq_Name q) \<longrightarrow> inner (gt_lastValues s' (fst j)) (snd j) = inner (gt_lastValues s (fst j)) (snd j)) \<and>
     credit_view keep (a, gq_Name q) s' =
       carry_step (credit_policy over) (a, gq_Name q) (credit_reading keep cap q) (credit_view keep (a, gq_Name q) s) \<and>
     (\<forall>j. j \<noteq> (a, gq_Name q) \<longrightarrow> credit_view keep j s' = credit_view keep j s)"

lemma tick_same: "with_stats (cyc_peak c, cyc_delta c) (anon c\<lparr>cyc_reset := cyc_reset c\<rparr>) = anon c"
  by (cases c) (simp add: anon_fields)

lemmas credit_steps = tick_same credit_post_def credit_inv_def credit_view_def credit_last_def quota_simps credit_reading_def
  credit_policy_sel carry_step_def remembered_def dress_def time_defs

subsection \<open>Correctness, for any store that keeps the laws\<close>

locale credit_provider = cycle_store_by_id "\<lambda>(a, n). kkey a n" "\<lambda>(a, n). cf_query F a n"
    "\<lambda>(a, n) c. cf_insert F (c\<lparr>cyc_key := (a, n)\<rparr>)" "cf_close F"
  for kkey :: "int \<Rightarrow> string \<Rightarrow> int \<times> string" and F :: credit_iface +
  fixes keep :: "time option \<Rightarrow> time option" and detected :: credit_rule and over :: credit_over and prefix :: string
  assumes kkey_id: "a \<noteq> 0 \<Longrightarrow> kkey a n = (a, n)"
    and keep_cases: "keep = (\<lambda>r. r) \<or> keep = (\<lambda>_. None)"
    and detected_over: "gt_hasLast s a \<or> inner (gt_lastValues s a) (gq_Name q) = None \<Longrightarrow>
      inner (gt_lastValues s a) (gq_Name q) = None \<longrightarrow> inner (gt_lastResets s a) (gq_Name q) = None \<Longrightarrow>
      detected a q s = (case credit_last keep (a, gq_Name q) s of
        Some (l, m) \<Rightarrow> over l m (credit_reading keep cap q) | None \<Rightarrow> False)"
begin

lemma wp_insert_key:
  assumes "keeps t0 (trk_store s)" "active (kkey a n) (trk_store s) = None" "cyc_end c = None" "cyc_key c = (a, n)"
    and "\<And>i t'. keeps t0 t' \<Longrightarrow> Q i (s\<lparr>trk_store := t'\<rparr>)" "\<And>e t'. keeps t0 t' \<Longrightarrow> E e (s\<lparr>trk_store := t'\<rparr>)"
  shows "wp (onStore (cf_insert F c)) Q E s"
proof -
  have "c\<lparr>cyc_key := (a, n)\<rparr> = c" using assms(4) by simp
  moreover have "wp (onStore (cf_insert F (c\<lparr>cyc_key := (a, n)\<rparr>))) Q E s"
    by (rule wp_insert [where q = "(a, n)", simplified, OF assms(1-3)]) (use assms(5,6) in auto)
  ultimately show ?thesis by (simp only:)
qed

lemma open_keeps:
  "keeps t0 (trk_store s) \<Longrightarrow> active (kkey a (gq_Name q)) (trk_store s) = None \<Longrightarrow>
   wp (credit_open F keep msg a q cap) (\<lambda>_ s'. keeps t0 (trk_store s')) (\<lambda>_ s'. keeps t0 (trk_store s')) s"
  unfolding credit_open_def wp_bindE wp_wrapE
  by (rule wp_insert_key) (auto simp: wps)

lemma processQuota_keeps:
  "keeps t0 (trk_store s) \<Longrightarrow>
   wp (credit_processQuota F keep detected a q cap) (\<lambda>_ s'. keeps t0 (trk_store s')) (\<lambda>_ s'. keeps t0 (trk_store s')) s"
  unfolding credit_processQuota_def wp_bindE wp_wrapE
  by (erule wp_query [where q = "(a, gq_Name q)", simplified])
     (auto simp: wps setLast_def intro!: open_keeps wp_mono [OF open_keeps] wp_close [where k = "kkey a (gq_Name q)"] split: option.split)

lemma Process_keeps:
  "keeps t0 (trk_store s) \<Longrightarrow>
   wp (credit_Process F keep detected prefix a qs cap) (\<lambda>_ s'. keeps t0 (trk_store s')) (\<lambda>_ s'. keeps t0 (trk_store s')) s"
  by (auto simp: credit_Process_def Let_def wps intro!: wp_mono [OF wp_forE_inv] processQuota_keeps)

lemma healthy_insert:
  assumes "healthy (trk_store s)" "a \<noteq> 0"
  shows "wp (onStore (cf_insert F \<lparr>cyc_id = 0, cyc_key = (a, n), cyc_start = b, cyc_end = None,
        cyc_reset = r, cyc_peak = p, cyc_delta = d\<rparr>)) Q E s =
     Q (db_seq (trk_store s) + 1) (s\<lparr>trk_store := add_cycle (a, n) b r p d (trk_store s)\<rparr>)"
  using healthy_wp(2) [OF assms(1), where q = "(a, n)" and Q' = Q and E = E and
      c = "\<lparr>cyc_id = 0, cyc_key = (a, n), cyc_start = b, cyc_end = None, cyc_reset = r, cyc_peak = p, cyc_delta = d\<rparr>"]
  by (simp add: kkey_id assms(2))

lemma healthy_query:
  "healthy (trk_store s) \<Longrightarrow> wf_cycles (trk_store s) \<Longrightarrow> a \<noteq> 0 \<Longrightarrow>
   wp (onStore (cf_query F a n)) Q E s = Q (active (a, n) (trk_store s)) s"
  using healthy_wp(1) [where q = "(a, n)"] by (simp add: kkey_id)

lemmas refine_defs = credit_processQuota_def credit_open_def setLast_def wps healthy_query healthy_insert healthy_wp(3)

lemma first_refines:
  assumes "credit_inv s" "a \<noteq> 0" "active (a, gq_Name q) (trk_store s) = None"
  shows "wp (credit_processQuota F keep detected a q cap) (\<lambda>_. credit_post keep over s a q cap) (\<lambda>_ _. False) s"
  using keep_cases assms
  by (elim disjE; simp add: refine_defs credit_inv_def)
     (auto simp: credit_steps follow_reset_def split: option.splits)

lemma rollover_refines:
  assumes "credit_inv s" "a \<noteq> 0" "active (a, gq_Name q) (trk_store s) = Some c" "detected a q s"
    and "pol_over (credit_policy over) (anon c) (credit_last keep (a, gq_Name q) s)
      (dress (remembered (credit_view keep (a, gq_Name q) s)) (credit_reading keep cap q))"
  shows "wp (credit_processQuota F keep detected a q cap) (\<lambda>_. credit_post keep over s a q cap) (\<lambda>_ _. False) s"
  using keep_cases assms
  by (elim disjE; simp add: refine_defs credit_inv_def)
     (auto simp: credit_steps follow_reset_def split: option.splits)

lemma tick_refines:
  assumes "credit_inv s" "a \<noteq> 0" "active (a, gq_Name q) (trk_store s) = Some c" "\<not> detected a q s"
    and "\<not> pol_over (credit_policy over) (anon c) (credit_last keep (a, gq_Name q) s)
      (dress (remembered (credit_view keep (a, gq_Name q) s)) (credit_reading keep cap q))"
  shows "wp (credit_processQuota F keep detected a q cap) (\<lambda>_. credit_post keep over s a q cap) (\<lambda>_ _. False) s"
  using keep_cases assms
  by (elim disjE; simp add: refine_defs credit_inv_def)
     (auto simp: credit_steps follow_reset_def split: option.splits)

lemma processQuota_refines:
  assumes "credit_inv s" "a \<noteq> 0" "gt_hasLast s a \<or> inner (gt_lastValues s a) (gq_Name q) = None"
  shows "wp (credit_processQuota F keep detected a q cap) (\<lambda>_. credit_post keep over s a q cap) (\<lambda>_ _. False) s"
proof (cases "active (a, gq_Name q) (trk_store s)")
  case None
  with assms show ?thesis by (intro first_refines)
next
  case (Some c)
  have "inner (gt_lastValues s a) (gq_Name q) = None \<longrightarrow> inner (gt_lastResets s a) (gq_Name q) = None"
    using assms(1) by (simp add: credit_inv_def)
  note det = detected_over [OF assms(3) this, of cap]
  have "pol_over (credit_policy over) (anon c) (credit_last keep (a, gq_Name q) s)
      (dress (remembered (credit_view keep (a, gq_Name q) s)) (credit_reading keep cap q)) = detected a q s"
    unfolding det by (auto simp: credit_policy_def dress_def credit_reading_def split: option.split)
  then show ?thesis
    using rollover_refines [OF assms(1,2) Some] tick_refines [OF assms(1,2) Some] by blast
qed

end

sublocale credit_provider \<subseteq> run: quota_tracker "\<lambda>(a, qs, cap). credit_Process F keep detected prefix a qs cap"
  by unfold_locales (simp add: Process_keeps split: prod.split)

sublocale credit_provider \<subseteq> ref: carrying_tracker "\<lambda>(a, qs, cap). credit_Process F keep detected prefix a qs cap"
    credit_ok credit_valid "{k :: int \<times> string. fst k \<noteq> 0}" "\<lambda>k. k" "credit_view keep" "credit_readings keep" "credit_policy over"
proof unfold_locales
  fix s :: credit_tracker and x :: "int \<times> credit_quota list \<times> time"
  assume ok: "credit_ok s" and valid: "credit_valid x"
  obtain a0 qs cap where x: "x = (a0, qs, cap)" by (cases x)
  define a where "a = (if a0 = 0 then 1 else a0)"
  then have a: "a \<noteq> 0" by simp
  let ?I = "\<lambda>s'. credit_inv s' \<and> gt_hasLast s' = gt_hasLast s \<and>
     (\<forall>b n. b \<noteq> a \<longrightarrow> inner (gt_lastValues s' b) n = inner (gt_lastValues s b) n)"
  have "wp (forE (\<lambda>q. wrapE (prefix @ gq_Name q @ '': '') (credit_processQuota F keep detected a q cap)) qs)
    (\<lambda>_ s'. ?I s' \<and> (\<forall>j. credit_view keep j s' = fold (carry_step (credit_policy over) j)
       (map (credit_reading keep cap) (filter (\<lambda>q. (a, gq_Name q) = j) qs)) (credit_view keep j s)))
    (\<lambda>_ _. False) s"
  proof (rule wp_forE_views [where nm = "\<lambda>q. (a, gq_Name q)"
        and R = "\<lambda>j s. gt_hasLast s (fst j) \<or> inner (gt_lastValues s (fst j)) (snd j) = None"])
    show "distinct (map (\<lambda>q. (a, gq_Name q)) qs)"
      using valid by (simp add: x credit_valid_def distinct_map inj_on_def)
  qed (use ok a in \<open>auto simp: wps credit_ok_def credit_post_def intro!: wp_mono [OF processQuota_refines]\<close>)
  then show "wp (case x of (a, qs, cap) \<Rightarrow> credit_Process F keep detected prefix a qs cap)
     (\<lambda>_ s'. credit_ok s' \<and> (\<forall>k \<in> {k. fst k \<noteq> 0}. credit_view keep k s' =
        fold (carry_step (credit_policy over) k) (credit_readings keep k x) (credit_view keep k s))) (\<lambda>_ _. False) s"
    unfolding x prod.case credit_Process_def Let_def a_def [symmetric] wp_thenE
    by (rule wp_mono)
       (use ok in \<open>auto simp: wps credit_ok_def credit_inv_def credit_view_def credit_last_def credit_readings_def a_def [symmetric]\<close>)
qed

context credit_provider
begin

text \<open>The cycles of a run, from an empty table.\<close>

lemma history:
  assumes "credit_ok s" "credit_view keep (a, n) s = empty_quota" "a \<noteq> 0" "\<forall>x \<in> set xs. credit_valid x"
  shows "credit_view keep (a, n) (poll_all (\<lambda>(a, qs, cap). credit_Process F keep detected prefix a qs cap) xs s) =
    quota_of_segments (credit_policy over) (a, n)
      (segments (policy_over (credit_policy over) (a, n)) (carry None (concat (map (credit_readings keep (a, n)) xs))))"
  using ref.run_segments [of s xs "(a, n)"] assms by simp

end

subsection \<open>What the cycles hold\<close>

text \<open>A cycle holds nothing but its first reading, however long it stays open.\<close>

lemma credit_open_seg:
  "seg \<noteq> [] \<Longrightarrow> open_seg (credit_policy f) k seg = open_at k (hd seg) (fst (rd_value (hd seg)), 0)"
proof (induction seg rule: rev_induct)
  case (snoc y seg)
  then show ?case
    by (cases "seg = []")
       (simp_all add: credit_policy_sel open_seg_snoc tick_cycle_def with_stats_def open_at_def)
qed simp

lemma credit_done_seg:
  "seg \<noteq> [] \<Longrightarrow> done_seg (credit_policy f) k seg nx =
     finish_at (rd_at nx) (fst (rd_value (hd seg)), 0) (open_at k (hd seg) (fst (rd_value (hd seg)), 0))"
  by (simp add: done_seg_def end_by_def credit_open_seg credit_policy_sel open_at_def)

lemma credit_done_delta:
  "\<forall>seg \<in> set segs. seg \<noteq> [] \<Longrightarrow> c \<in> set (done_segs (credit_policy f) k segs) \<Longrightarrow> cyc_delta c = 0"
  by (induction "credit_policy f" k segs rule: done_segs.induct)
     (auto simp: credit_done_seg finish_at_def)

lemma credit_no_delta:
  assumes "qt_open (quota_of_segments (credit_policy f) k (segments ov rds)) = Some c \<or>
    c \<in># qt_done (quota_of_segments (credit_policy f) k (segments ov rds))"
  shows "cyc_delta c = 0"
proof -
  have ne: "\<forall>seg \<in> set (segments ov rds). seg \<noteq> []" using segment_ne by blast
  show ?thesis
  proof (cases "segments ov rds = []")
    case False
    then have "List.last (segments ov rds) \<noteq> []" using ne by simp
    with assms ne show ?thesis
      using credit_done_delta [OF ne, of c f k]
      by (auto simp: quota_of_segments_def credit_open_seg open_at_def split: if_splits)
  qed (use assms in \<open>simp add: quota_of_segments_def\<close>)
qed

subsection \<open>Summaries\<close>

definition tryE :: "('s, 'a) op \<Rightarrow> ('s, 'a option) op" where
  "tryE m s = (case m s of (Inr x, s') \<Rightarrow> (Inr (Some x), s') | (Inl _, s') \<Rightarrow> (Inr None, s'))"

text \<open>Every cycle of the quota counts as completed, the open one too.\<close>

definition credit_cycle_stats :: "credit_cycle list \<Rightarrow> util_summary \<Rightarrow> util_summary" where
  "credit_cycle_stats cycles sm =
     sm\<lparr>us_CompletedCycles := int (length cycles), us_TotalTracked := history_total cycles,
        us_PeakCycle := history_peak cyc_peak cycles, us_AvgPerCycle := history_avg cycles\<rparr>"

definition credit_summary_current :: "time \<Rightarrow> time \<Rightarrow> string \<Rightarrow> credit_quota list \<Rightarrow> credit_quota \<times> util_summary" where
  "credit_summary_current now0 now1 quotaName quotas =
     (let sm = \<lparr>us_QuotaName = quotaName, us_CurrentUtil = 0, us_ResetsAt = None, us_TimeUntilReset = 0,
                us_CurrentRate = 0, us_ProjectedUtil = 0, us_CompletedCycles = 0, us_AvgPerCycle = 0,
                us_PeakCycle = 0, us_TotalTracked = 0, us_TrackingSince = now0\<rparr>;
          q = (case find (\<lambda>qq. gq_Name qq = quotaName) quotas of
                 Some q \<Rightarrow> q | None \<Rightarrow> \<lparr>gq_Name = [], gq_Utilization = 0, gq_ResetsAt = None, gq_Status = []\<rparr>)
      in if quotas = [] then (q, sm)
         else (q, sm\<lparr>us_CurrentUtil := gq_Utilization q, us_ResetsAt := gq_ResetsAt q,
                us_TimeUntilReset := (case gq_ResetsAt q of Some r \<Rightarrow> time_Sub r now1 | None \<Rightarrow> 0)\<rparr>))"

definition grok_summary_rate :: "f64 option \<Rightarrow> credit_quota \<Rightarrow> util_summary \<Rightarrow> util_summary" where
  "grok_summary_rate lst q sm =
     (let sm = (case lst of Some l \<Rightarrow> if 0 < l then sm\<lparr>us_CurrentRate := fsub (gq_Utilization q) l\<rparr> else sm | None \<Rightarrow> sm);
          hours = dur_Hours (us_TimeUntilReset sm)
      in if us_ResetsAt sm \<noteq> None \<and> 0 < us_TimeUntilReset sm \<and> 0 < us_CurrentRate sm \<and> 0 < hours
         then sm\<lparr>us_ProjectedUtil := fadd (gq_Utilization q) (fmul (us_CurrentRate sm) hours)\<rparr> else sm)"

definition kimi_summary_rate :: "f64 option \<Rightarrow> credit_quota \<Rightarrow> util_summary \<Rightarrow> util_summary" where
  "kimi_summary_rate lst q sm = (case lst of Some l \<Rightarrow> sm\<lparr>us_CurrentRate := fsub (gq_Utilization q) l\<rparr> | None \<Rightarrow> sm)"

definition credit_Summary ::
    "credit_iface \<Rightarrow> (f64 option \<Rightarrow> credit_quota \<Rightarrow> util_summary \<Rightarrow> util_summary) \<Rightarrow> time \<Rightarrow> time \<Rightarrow> int \<Rightarrow> string \<Rightarrow>
     credit_quota list option \<Rightarrow> (credit_tracker, util_summary) op" where
  "credit_Summary F rate now0 now1 accountID quotaName latest =
     (let a = (if accountID = 0 then 1 else accountID);
          quotas = (case latest of Some qs \<Rightarrow> qs | None \<Rightarrow> []);
          (q, sm) = credit_summary_current now0 now1 quotaName quotas
      in if quotas = [] then returnE sm
         else withE (\<lambda>s. let sm = rate (inner (gt_lastValues s a) quotaName) q sm
           in bindE (tryE (onStore (cf_history F a quotaName 50))) (\<lambda>cycles.
                returnE (case cycles of Some cs \<Rightarrow> credit_cycle_stats cs sm | None \<Rightarrow> sm))))"

subsection \<open>Grok\<close>

record grok_meta =
  gm_AccountID :: int
  gm_Email :: string
  gm_TeamID :: string
  gm_LoginMethod :: string
  gm_RawJSON :: string

type_synonym grok_snapshot = "(grok_meta, credit_quota) snap"

definition grok_account :: "int \<Rightarrow> int" where
  "grok_account a = (if a = 0 then DefaultGrokAccountID else a)"

definition InsertGrokSnapshot :: "grok_snapshot \<Rightarrow> (grok_snapshot tbl, int) op" where
  "InsertGrokSnapshot snapshot = sql_insert_snap ''failed to insert grok snapshot: ''
     (\<lambda>q. ''failed to insert grok quota value '' @ gq_Name q @ '': '')
     (snapshot\<lparr>snap_meta := snap_meta snapshot\<lparr>gm_AccountID := grok_account (gm_AccountID (snap_meta snapshot))\<rparr>\<rparr>)"

definition QueryLatestGrok :: "int \<Rightarrow> (grok_snapshot tbl, grok_snapshot option) op" where
  "QueryLatestGrok accountID = sql_latest_snap ''failed to query latest grok: '' ''failed to query grok quota values: ''
     (\<lambda>m. gm_AccountID m = grok_account accountID) (\<lambda>m. m) gq_Name (\<lambda>_. True)"

definition grok_iface :: credit_iface where
  "grok_iface = \<lparr>cf_query = QueryActiveGrokResetCycle, cf_insert = InsertGrokResetCycle,
     cf_close = UpdateGrokResetCycleEnd, cf_history = QueryGrokCyclesForQuota\<rparr>"

definition grok_Process :: "int \<Rightarrow> credit_quota list \<Rightarrow> time \<Rightarrow> (credit_tracker, unit) op" where
  "grok_Process = credit_Process grok_iface (\<lambda>_. None) grok_resetDetected ''grok tracker: ''"

definition GetGrokSummary :: "time \<Rightarrow> time \<Rightarrow> int \<Rightarrow> string \<Rightarrow> credit_quota list option \<Rightarrow> (credit_tracker, util_summary) op" where
  "GetGrokSummary = credit_Summary grok_iface grok_summary_rate"

definition halved :: credit_over where
  "halved lst m rd \<longleftrightarrow> 0 < lst \<and> rd_value rd < fmul lst (1 / 2)"

interpretation grok: credit_provider grok_key grok_iface "\<lambda>_. None" grok_resetDetected halved "''grok tracker: ''"
proof unfold_locales
  fix s :: credit_tracker and a :: int and q :: credit_quota and cap :: time
  assume "gt_hasLast s a \<or> inner (gt_lastValues s a) (gq_Name q) = None"
  then show "grok_resetDetected a q s = (case credit_last (\<lambda>_. None) (a, gq_Name q) s of
      Some (l, m) \<Rightarrow> halved l m (credit_reading (\<lambda>_. None) cap q) | None \<Rightarrow> False)"
    by (auto simp: grok_resetDetected_def hasLastFor_def last_util_def credit_last_def halved_def credit_reading_def
        inner_def Let_def split: option.splits)
qed (auto simp: grok_iface_def QueryActiveGrokResetCycle_def InsertGrokResetCycle_def UpdateGrokResetCycleEnd_def
   sql_laws end_by_id_active grok_key_def split: prod.split)

subsection \<open>Kimi\<close>

text \<open>The three counts of a quota are not stored.\<close>

record kimi_meta =
  km_AccountID :: int
  km_UserID :: string
  km_Region :: string
  km_Membership :: string
  km_RawJSON :: string

type_synonym kimi_snapshot = "(kimi_meta, credit_quota) snap"

definition kimi_account :: "int \<Rightarrow> int" where
  "kimi_account a = (if a = 0 then DefaultKimiAccountID else a)"

definition InsertKimiSnapshot :: "kimi_snapshot \<Rightarrow> (kimi_snapshot tbl, int) op" where
  "InsertKimiSnapshot snapshot = sql_insert_snap ''failed to insert kimi snapshot: ''
     (\<lambda>q. ''failed to insert kimi quota value '' @ gq_Name q @ '': '')
     (snapshot\<lparr>snap_meta := snap_meta snapshot\<lparr>km_AccountID := kimi_account (km_AccountID (snap_meta snapshot))\<rparr>\<rparr>)"

definition QueryLatestKimi :: "int \<Rightarrow> (kimi_snapshot tbl, kimi_snapshot option) op" where
  "QueryLatestKimi accountID = sql_latest_snap ''failed to query latest kimi: '' ''failed to query kimi quota values: ''
     (\<lambda>m. km_AccountID m = kimi_account accountID) (\<lambda>m. m) gq_Name (\<lambda>_. True)"

definition kimi_iface :: credit_iface where
  "kimi_iface = \<lparr>cf_query = QueryActiveKimiResetCycle, cf_insert = InsertKimiResetCycle,
     cf_close = UpdateKimiResetCycleEnd, cf_history = QueryKimiCyclesForQuota\<rparr>"

definition kimi_Process :: "int \<Rightarrow> credit_quota list \<Rightarrow> time \<Rightarrow> (credit_tracker, unit) op" where
  "kimi_Process = credit_Process kimi_iface (\<lambda>r. r) kimi_resetDetected ''kimi tracker: ''"

definition GetKimiSummary :: "time \<Rightarrow> time \<Rightarrow> int \<Rightarrow> string \<Rightarrow> credit_quota list option \<Rightarrow> (credit_tracker, util_summary) op" where
  "GetKimiSummary = credit_Summary kimi_iface kimi_summary_rate"

definition halved_or_moved :: credit_over where
  "halved_or_moved lst m rd \<longleftrightarrow> halved lst m rd \<or>
     (case (rd_reset rd, m) of
        (Some r, Some prev) \<Rightarrow> prev + Minute < r \<and> (rd_value rd < 20 \<or> rd_value rd < lst)
      | _ \<Rightarrow> False)"

interpretation kimi: credit_provider kimi_key kimi_iface "\<lambda>r. r" kimi_resetDetected halved_or_moved "''kimi tracker: ''"
proof unfold_locales
  fix s :: credit_tracker and a :: int and q :: credit_quota and cap :: time
  assume "gt_hasLast s a \<or> inner (gt_lastValues s a) (gq_Name q) = None"
    "inner (gt_lastValues s a) (gq_Name q) = None \<longrightarrow> inner (gt_lastResets s a) (gq_Name q) = None"
  then show "kimi_resetDetected a q s = (case credit_last (\<lambda>r. r) (a, gq_Name q) s of
      Some (l, m) \<Rightarrow> halved_or_moved l m (credit_reading (\<lambda>r. r) cap q) | None \<Rightarrow> False)"
    by (auto simp: kimi_resetDetected_def hasLastFor_def last_util_def credit_last_def halved_def halved_or_moved_def
        credit_reading_def inner_def Let_def time_defs split: option.splits)
qed (auto simp: kimi_iface_def QueryActiveKimiResetCycle_def InsertKimiResetCycle_def UpdateKimiResetCycleEnd_def
   sql_laws end_by_id_active kimi_key_def split: prod.split)

subsection \<open>Properties\<close>

definition grok_poll :: "int \<times> credit_quota list \<times> time \<Rightarrow> (credit_tracker, unit) op" where
  "grok_poll x = (case x of (a, qs, cap) \<Rightarrow> grok_Process a qs cap)"

definition kimi_poll :: "int \<times> credit_quota list \<times> time \<Rightarrow> (credit_tracker, unit) op" where
  "kimi_poll x = (case x of (a, qs, cap) \<Rightarrow> kimi_Process a qs cap)"

lemma poll_fun:
  "grok_poll = (\<lambda>(a, qs, cap). credit_Process grok_iface (\<lambda>_. None) grok_resetDetected ''grok tracker: '' a qs cap)"
  "kimi_poll = (\<lambda>(a, qs, cap). credit_Process kimi_iface (\<lambda>r. r) kimi_resetDetected ''kimi tracker: '' a qs cap)"
  by (auto simp: grok_poll_def kimi_poll_def grok_Process_def kimi_Process_def)

text \<open>From an empty table, for every account and quota, the Kimi tracker keeps exactly the cycles of the
  segments of its readings, cut at a fall below a half or at a reset time that moves on by more than a minute
  while the utilization is low or falls; accounts do not mix.\<close>

theorem kimi_history:
  assumes "credit_ok s" "credit_view (\<lambda>r. r) (a, n) s = empty_quota" "a \<noteq> 0" "\<forall>x \<in> set xs. credit_valid x"
  shows "credit_view (\<lambda>r. r) (a, n) (poll_all kimi_poll xs s) =
    quota_of_segments (credit_policy halved_or_moved) (a, n) (segments (policy_over (credit_policy halved_or_moved) (a, n))
      (carry None (concat (map (credit_readings (\<lambda>r. r) (a, n)) xs))))"
  unfolding poll_fun by (rule kimi.history [OF assms])

definition fresh_credit :: credit_tracker where
  "fresh_credit = \<lparr>trk_store = empty_tbl, trk_onReset = True, trk_resets = [],
     gt_lastValues = (\<lambda>_. None), gt_lastResets = (\<lambda>_. None), gt_hasLast = (\<lambda>_. False)\<rparr>"

lemma fresh_credit_ok: "credit_ok fresh_credit" "credit_view keep k fresh_credit = empty_quota"
  by (simp_all add: credit_ok_def credit_inv_def fresh_credit_def healthy_def empty_tbl_def wf_empty [unfolded empty_tbl_def]
      inner_def credit_view_def credit_last_def quota_view_def active_def closed_cycles_def empty_quota_def)

definition one_quota :: "string \<Rightarrow> f64 \<Rightarrow> time option \<Rightarrow> credit_quota" where
  "one_quota n v r = \<lparr>gq_Name = n, gq_Utilization = v, gq_ResetsAt = r, gq_Status = []\<rparr>"

text \<open>The reset time moves on by a day while the utilization falls from 60 to 50.\<close>

theorem kimi_history_witness:
  "credit_view (\<lambda>r. r) (1, ''week'') (poll_all kimi_poll
      [(0, [one_quota ''week'' 30 (Some (24 * Hour))], Hour), (1, [one_quota ''week'' 60 None], 2 * Hour),
       (1, [one_quota ''week'' 50 (Some (48 * Hour))], 3 * Hour)] fresh_credit) =
     \<lparr>qt_open = Some \<lparr>cyc_id = 0, cyc_key = (1, ''week''), cyc_start = 3 * Hour, cyc_end = None,
        cyc_reset = Some (48 * Hour), cyc_peak = 50, cyc_delta = 0\<rparr>,
      qt_done = {#\<lparr>cyc_id = 0, cyc_key = (1, ''week''), cyc_start = Hour, cyc_end = Some (3 * Hour),
        cyc_reset = Some (24 * Hour), cyc_peak = 30, cyc_delta = 0\<rparr>#},
      qt_last = Some (50, Some (48 * Hour))\<rparr>"
proof -
  have v: "\<not> 60 < fmul 30 (1 / 2)" "\<not> 50 < fmul 60 (1 / 2)" by code_simp+
  show ?thesis
    by (subst kimi_history [OF fresh_credit_ok])
       (simp_all add: credit_valid_def credit_readings_def credit_reading_def one_quota_def policy_over_def dress_def follow_reset_def
          halved_or_moved_def halved_def v quota_of_segments_def credit_open_seg credit_done_seg finish_at_def open_at_def
          credit_pol_over credit_policy_sel)
qed

text \<open>No cycle a Grok tracker writes from an empty table ever has a positive total: what the quota
  consumes while a cycle is open is added to a local copy of the cycle that is read from the store anew at
  the next reading, so a cycle is closed with a total of 0 however much was used.\<close>

theorem grok_unrecorded:
  assumes "credit_ok s" "credit_view (\<lambda>_. None) (a, n) s = empty_quota" "a \<noteq> 0" "\<forall>x \<in> set xs. credit_valid x"
    and "q = credit_view (\<lambda>_. None) (a, n) (poll_all grok_poll xs s)"
    and "qt_open q = Some c \<or> c \<in># qt_done q"
  shows "cyc_delta c = 0"
  using assms(5,6) credit_no_delta unfolding poll_fun grok.history [OF assms(1-4)] by blast

text \<open>The credits go from 10 to 90 and are reset: the closed cycle has a peak of 10 and a total of 0.\<close>

theorem grok_unrecorded_witness:
  "\<exists>c. c \<in># qt_done (credit_view (\<lambda>_. None) (1, ''credits'') (poll_all grok_poll
      [(1, [one_quota ''credits'' 10 None], Hour), (1, [one_quota ''credits'' 90 None], 2 * Hour),
       (1, [one_quota ''credits'' 5 None], 3 * Hour)] fresh_credit)) \<and>
     cyc_start c = Hour \<and> cyc_end c = Some (3 * Hour) \<and> cyc_peak c = 10 \<and> cyc_delta c = 0"
proof -
  let ?xs = "[(1, [one_quota ''credits'' 10 None], Hour), (1, [one_quota ''credits'' 90 None], 2 * Hour),
       (1, [one_quota ''credits'' 5 None], 3 * Hour)]"
  let ?c = "\<lparr>cyc_id = 0, cyc_key = (1, ''credits''), cyc_start = Hour, cyc_end = Some (3 * Hour),
        cyc_reset = None, cyc_peak = 10, cyc_delta = 0\<rparr> :: credit_cycle"
  have v: "\<not> 90 < fmul 10 (1 / 2)" "5 < fmul 90 (1 / 2)" by code_simp+
  have valid: "\<forall>x \<in> set ?xs. credit_valid x" by (simp add: credit_valid_def)
  have mem: "?c \<in># qt_done (credit_view (\<lambda>_. None) (1, ''credits'') (poll_all grok_poll ?xs fresh_credit))"
    unfolding poll_fun by (subst grok.history [OF fresh_credit_ok _ valid])
       (simp_all add: credit_readings_def credit_reading_def one_quota_def policy_over_def dress_def follow_reset_def
          halved_def v quota_of_segments_def credit_open_seg credit_done_seg finish_at_def open_at_def
          credit_pol_over credit_policy_sel)
  have "cyc_delta ?c = 0" by (rule grok_unrecorded [OF fresh_credit_ok _ valid refl]) (use mem in auto)
  with mem show ?thesis by (intro exI [where x = ?c]) simp
qed

end
