(* ===== verification/Sessions.thy ===== *)
theory Sessions
  imports TrackerBase
begin

text \<open>
  Usage sessions (\<open>internal/agent/session_manager.go\<close> and the session functions of
  \<open>internal/store/store.go\<close>). Every polling agent owns a manager: a session begins when the reported
  numbers change, counts the polls, and ends with the first poll without a change after the idle timeout.
  Errors of the store are logged and ignored.
\<close>

subsection \<open>The table\<close>

record session =
  ss_ID :: string
  ss_StartedAt :: time
  ss_EndedAt :: "time option"
  ss_PollInterval :: int
  ss_MaxSub :: f64
  ss_MaxSearch :: f64
  ss_MaxTool :: f64
  ss_StartSub :: f64
  ss_StartSearch :: f64
  ss_StartTool :: f64
  ss_SnapshotCount :: int

text \<open>A row has a provider column too, which the queries do not read back.\<close>

record session_row = session +
  ss_Provider :: string

text \<open>The value at a position of a slice, 0 behind its end.\<close>

definition value_at :: "f64 list \<Rightarrow> nat \<Rightarrow> f64" where
  "value_at xs i = (if i < length xs then xs ! i else 0)"

text \<open>The id is the primary key: a row with an id that is there already is refused.\<close>

definition CreateSession :: "string \<Rightarrow> time \<Rightarrow> int \<Rightarrow> string \<Rightarrow> f64 list \<Rightarrow> (session_row tbl, unit) op" where
  "CreateSession sessionID startedAt pollInterval provider startValues =
     (let row = \<lparr>ss_ID = sessionID, ss_StartedAt = startedAt, ss_EndedAt = None, ss_PollInterval = pollInterval,
            ss_MaxSub = 0, ss_MaxSearch = 0, ss_MaxTool = 0, ss_StartSub = value_at startValues 0,
            ss_StartSearch = value_at startValues 1, ss_StartTool = value_at startValues 2, ss_SnapshotCount = 0,
            ss_Provider = (if provider = [] then ''synthetic'' else provider)\<rparr>
      in wrapE ''failed to create session: ''
        (withE (\<lambda>t. if sessionID \<in> ss_ID ` set (db_rows t)
           then bindE (db_stmt (\<lambda>t. ((), t))) (\<lambda>_. failE ''UNIQUE constraint failed: sessions.id'')
           else db_stmt (\<lambda>t. ((), t\<lparr>db_rows := db_rows t @ [row]\<rparr>)))))"

definition update_session :: "(session_row \<Rightarrow> bool) \<Rightarrow> (session_row \<Rightarrow> session_row) \<Rightarrow> session_row tbl \<Rightarrow> session_row tbl" where
  "update_session P f t = t\<lparr>db_rows := map (\<lambda>r. if P r then f r else r) (db_rows t)\<rparr>"

definition CloseOrphanedSessions :: "time \<Rightarrow> (session_row tbl, int) op" where
  "CloseOrphanedSessions now =
     wrapE ''failed to close orphaned sessions: '' (db_stmt (\<lambda>t.
       (int (length (filter (\<lambda>r. ss_EndedAt r = None) (db_rows t))),
        update_session (\<lambda>r. ss_EndedAt r = None) (\<lambda>r. r\<lparr>ss_EndedAt := Some now\<rparr>) t)))"

definition CloseSession :: "string \<Rightarrow> time \<Rightarrow> (session_row tbl, unit) op" where
  "CloseSession sessionID endedAt = wrapE ''failed to close session: ''
     (db_stmt (\<lambda>t. ((), update_session (\<lambda>r. ss_ID r = sessionID) (\<lambda>r. r\<lparr>ss_EndedAt := Some endedAt\<rparr>) t)))"

definition UpdateSessionMaxRequests :: "string \<Rightarrow> f64 \<Rightarrow> f64 \<Rightarrow> f64 \<Rightarrow> (session_row tbl, unit) op" where
  "UpdateSessionMaxRequests sessionID sub search tool = wrapE ''failed to update session max: ''
     (db_stmt (\<lambda>t. ((), update_session (\<lambda>r. ss_ID r = sessionID)
        (\<lambda>r. r\<lparr>ss_MaxSub := raise_peak (ss_MaxSub r) sub, ss_MaxSearch := raise_peak (ss_MaxSearch r) search,
               ss_MaxTool := raise_peak (ss_MaxTool r) tool\<rparr>) t)))"

definition IncrementSnapshotCount :: "string \<Rightarrow> (session_row tbl, unit) op" where
  "IncrementSnapshotCount sessionID = wrapE ''failed to increment snapshot count: ''
     (db_stmt (\<lambda>t. ((), update_session (\<lambda>r. ss_ID r = sessionID)
        (\<lambda>r. r\<lparr>ss_SnapshotCount := ss_SnapshotCount r + 1\<rparr>) t)))"

definition QueryActiveSession :: "(session_row tbl, session option) op" where
  "QueryActiveSession = wrapE ''failed to query active session: '' (db_stmt (\<lambda>t.
     (case order_desc ss_StartedAt (filter (\<lambda>r. ss_EndedAt r = None) (db_rows t)) of
        [] \<Rightarrow> None | r # _ \<Rightarrow> Some (session.truncate r), t)))"

text \<open>Only the first of the optional arguments is used, and an empty one does not filter.\<close>

definition QuerySessionHistory :: "string list \<Rightarrow> (session_row tbl, session list) op" where
  "QuerySessionHistory provider =
     bindE (wrapE ''failed to query sessions: '' (db_stmt (\<lambda>t.
       (map session.truncate (order_desc ss_StartedAt (filter (\<lambda>r. case provider of p # _ \<Rightarrow> p = [] \<or> ss_Provider r = p | [] \<Rightarrow> True)
          (db_rows t))), t)))) rows_err"

subsection \<open>The manager\<close>

record session_manager =
  sm_store :: "session_row tbl"
  sm_provider :: string
  sm_idleTimeout :: duration
  sm_sessionID :: string
  sm_lastActivityTime :: time
  sm_prevValues :: "f64 list"
  sm_hasPrev :: bool

text \<open>A call of the store whose error is only logged; whether it succeeded is returned.\<close>

definition sess_do :: "(session_row tbl, 'a) op \<Rightarrow> session_manager \<Rightarrow> bool \<times> session_manager" where
  "sess_do m s = (case m (sm_store s) of (r, t) \<Rightarrow> (case r of Inr _ \<Rightarrow> True | Inl _ \<Rightarrow> False, s\<lparr>sm_store := t\<rparr>))"

text \<open>The loop over the values: a difference in length or at some position.\<close>

fun differs :: "f64 list \<Rightarrow> f64 list \<Rightarrow> bool" where
  "differs (v # vs) (p # ps) \<longleftrightarrow> v \<noteq> p \<or> differs vs ps"
| "differs _ _ \<longleftrightarrow> False"

definition hasChanged :: "session_manager \<Rightarrow> f64 list \<Rightarrow> bool" where
  "hasChanged s values \<longleftrightarrow>
     (if \<not> sm_hasPrev s then False
      else if length values \<noteq> length (sm_prevValues s) then True
      else differs values (sm_prevValues s))"

definition incrementAndUpdate :: "f64 list \<Rightarrow> session_manager \<Rightarrow> session_manager" where
  "incrementAndUpdate values s =
     (let s = snd (sess_do (IncrementSnapshotCount (sm_sessionID s)) s)
      in snd (sess_do (UpdateSessionMaxRequests (sm_sessionID s) (value_at values 0) (value_at values 1) (value_at values 2)) s))"

definition closeSession :: "time \<Rightarrow> session_manager \<Rightarrow> session_manager" where
  "closeSession endTime s = (snd (sess_do (CloseSession (sm_sessionID s) endTime) s))\<lparr>sm_sessionID := []\<rparr>"

definition session_Close :: "time \<Rightarrow> session_manager \<Rightarrow> session_manager" where
  "session_Close now s = (if sm_sessionID s = [] then s else closeSession now s)"

text \<open>\<open>uuid\<close> is the new id the library would give and \<open>now\<close> the clock.\<close>

definition session_start :: "string \<Rightarrow> time \<Rightarrow> f64 list \<Rightarrow> session_manager \<Rightarrow> bool \<times> session_manager" where
  "session_start uuid now oldPrev s =
     (let s = s\<lparr>sm_sessionID := uuid, sm_lastActivityTime := now\<rparr>;
          (ok, s) = sess_do (CreateSession uuid now 0 (sm_provider s) [value_at oldPrev 0, value_at oldPrev 1, value_at oldPrev 2]) s
      in if ok then (True, s) else (False, s\<lparr>sm_sessionID := []\<rparr>))"

definition ReportPoll :: "string \<Rightarrow> time \<Rightarrow> f64 list \<Rightarrow> session_manager \<Rightarrow> bool \<times> session_manager" where
  "ReportPoll uuid now values s =
     (let changed = hasChanged s values;
          oldPrev = sm_prevValues s;
          had = sm_hasPrev s;
          s = s\<lparr>sm_prevValues := values\<rparr>
      in if \<not> had then (False, s\<lparr>sm_hasPrev := True\<rparr>)
         else if changed then
           (let (ok, s) = (if sm_sessionID s = [] then session_start uuid now oldPrev s else (True, s))
            in if \<not> ok then (True, s)
               else (True, incrementAndUpdate values (s\<lparr>sm_lastActivityTime := now\<rparr>)))
         else if sm_sessionID s \<noteq> [] then
           (if sm_idleTimeout s < time_Sub now (sm_lastActivityTime s) then (False, closeSession now s)
            else (False, incrementAndUpdate values s))
         else (False, s))"

type_synonym poll = "string \<times> time \<times> f64 list"

definition run_polls :: "poll list \<Rightarrow> session_manager \<Rightarrow> session_manager" where
  "run_polls ps s = fold (\<lambda>(u, t, v) s. snd (ReportPoll u t v s)) ps s"

subsection \<open>Sessions as blocks of polls\<close>

text \<open>
  The specification. A session is a block of consecutive polls: it begins with a change and goes on while
  no poll without a change comes later than the idle timeout after the last change. That poll is the end of
  the session and not counted.
\<close>

lemma differs_iff: "length vs = length ps \<Longrightarrow> differs vs ps \<longleftrightarrow> vs \<noteq> ps"
  by (induction vs ps rule: differs.induct) auto

lemma hasChanged_iff: "sm_hasPrev s \<Longrightarrow> hasChanged s values \<longleftrightarrow> values \<noteq> sm_prevValues s"
  by (auto simp: hasChanged_def differs_iff)

fun session_span :: "duration \<Rightarrow> time \<Rightarrow> f64 list \<Rightarrow> poll list \<Rightarrow> poll list \<times> poll list" where
  "session_span idle la prev [] = ([], [])"
| "session_span idle la prev ((u, t, v) # ps) =
     (if v \<noteq> prev then (case session_span idle t v ps of (xs, rest) \<Rightarrow> ((u, t, v) # xs, rest))
      else if idle < time_Sub t la then ([], (u, t, v) # ps)
      else (case session_span idle la v ps of (xs, rest) \<Rightarrow> ((u, t, v) # xs, rest)))"

lemma session_span_length: "length (snd (session_span idle la prev ps)) \<le> length ps"
  by (induction idle la prev ps rule: session_span.induct) (auto split: prod.split simp: le_SucI)

lemma session_span_rest: "(xs, p # rest) = session_span idle la prev ps \<Longrightarrow> length rest < Suc (length ps)"
  using session_span_length [of idle la prev ps] by (cases "session_span idle la prev ps") simp

definition block_max :: "nat \<Rightarrow> poll list \<Rightarrow> f64" where
  "block_max i ps = fold (\<lambda>(u, t, v) m. max m (value_at v i)) ps 0"

definition session_of :: "string \<Rightarrow> f64 list \<Rightarrow> poll list \<Rightarrow> time option \<Rightarrow> session_row" where
  "session_of provider base ps ended =
     \<lparr>ss_ID = fst (hd ps), ss_StartedAt = fst (snd (hd ps)), ss_EndedAt = ended, ss_PollInterval = 0,
      ss_MaxSub = block_max 0 ps, ss_MaxSearch = block_max 1 ps, ss_MaxTool = block_max 2 ps,
      ss_StartSub = value_at base 0, ss_StartSearch = value_at base 1, ss_StartTool = value_at base 2,
      ss_SnapshotCount = int (length ps),
            ss_Provider = (if provider = [] then ''synthetic'' else provider)\<rparr>"

function session_blocks :: "string \<Rightarrow> duration \<Rightarrow> f64 list \<Rightarrow> poll list \<Rightarrow> session_row list" where
  "session_blocks provider idle prev [] = []"
| "session_blocks provider idle prev ((u, t, v) # ps) =
     (if v = prev then session_blocks provider idle v ps
      else (case session_span idle t v ps of
          (xs, []) \<Rightarrow> [session_of provider prev ((u, t, v) # xs) None]
        | (xs, (u', t', v') # rest) \<Rightarrow>
            session_of provider prev ((u, t, v) # xs) (Some t') # session_blocks provider idle v' rest))"
  by pat_completeness auto
termination
  by (relation "measure (\<lambda>(provider, idle, prev, ps). length ps)") (auto dest: session_span_rest)

subsection \<open>The manager makes these blocks\<close>

lemma sess_do_ok: "m (sm_store s) = (Inr x, t) \<Longrightarrow> sess_do m s = (True, s\<lparr>sm_store := t\<rparr>)"
  by (simp add: sess_do_def)

lemma run_session_ops:
  "healthy t \<Longrightarrow> CloseSession i e t = (Inr (), update_session (\<lambda>r. ss_ID r = i) (\<lambda>r. r\<lparr>ss_EndedAt := Some e\<rparr>) t)"
  "healthy t \<Longrightarrow> IncrementSnapshotCount i t =
     (Inr (), update_session (\<lambda>r. ss_ID r = i) (\<lambda>r. r\<lparr>ss_SnapshotCount := ss_SnapshotCount r + 1\<rparr>) t)"
  "healthy t \<Longrightarrow> UpdateSessionMaxRequests i a b c t =
     (Inr (), update_session (\<lambda>r. ss_ID r = i)
        (\<lambda>r. r\<lparr>ss_MaxSub := raise_peak (ss_MaxSub r) a, ss_MaxSearch := raise_peak (ss_MaxSearch r) b,
               ss_MaxTool := raise_peak (ss_MaxTool r) c\<rparr>) t)"
  "healthy t \<Longrightarrow> i \<notin> ss_ID ` set (db_rows t) \<Longrightarrow> CreateSession i st 0 pr vs t =
     (Inr (), t\<lparr>db_rows := db_rows t @ [\<lparr>ss_ID = i, ss_StartedAt = st, ss_EndedAt = None, ss_PollInterval = 0,
            ss_MaxSub = 0, ss_MaxSearch = 0, ss_MaxTool = 0, ss_StartSub = value_at vs 0,
            ss_StartSearch = value_at vs 1, ss_StartTool = value_at vs 2, ss_SnapshotCount = 0,
            ss_Provider = (if pr = [] then ''synthetic'' else pr)\<rparr>]\<rparr>)"
  by (simp_all add: CloseSession_def IncrementSnapshotCount_def UpdateSessionMaxRequests_def CreateSession_def Let_def
      runs run_db_stmt)

lemma update_last:
  assumes "i \<notin> ss_ID ` set R" "ss_ID r = i" "db_rows t = R @ [r]"
  shows "update_session (\<lambda>r. ss_ID r = i) f t = t\<lparr>db_rows := R @ [f r]\<rparr>"
proof -
  have "map (\<lambda>r. if ss_ID r = i then f r else r) R = R"
    using assms(1) by (intro map_idI) auto
  then show ?thesis using assms(2,3) by (simp add: update_session_def)
qed

text \<open>A manager with an open session: the last row holds the block so far.\<close>

definition open_session :: "session_row list \<Rightarrow> f64 list \<Rightarrow> poll list \<Rightarrow> session_manager \<Rightarrow> bool" where
  "open_session R base acc s \<longleftrightarrow> healthy (sm_store s) \<and> sm_hasPrev s \<and> acc \<noteq> [] \<and> sm_sessionID s = fst (hd acc) \<and>
     fst (hd acc) \<noteq> [] \<and> fst (hd acc) \<notin> ss_ID ` set R \<and>
     db_rows (sm_store s) = R @ [session_of (sm_provider s) base acc None]"

lemma block_max_snoc: "block_max i (ps @ [(u, t, v)]) = raise_peak (block_max i ps) (value_at v i)"
  by (simp add: block_max_def raise_peak_max)

lemma session_of_snoc:
  "acc \<noteq> [] \<Longrightarrow> session_of p base (acc @ [(u, t, v)]) e =
     (session_of p base acc e)\<lparr>ss_SnapshotCount := ss_SnapshotCount (session_of p base acc e) + 1,
        ss_MaxSub := raise_peak (ss_MaxSub (session_of p base acc e)) (value_at v 0),
        ss_MaxSearch := raise_peak (ss_MaxSearch (session_of p base acc e)) (value_at v 1),
        ss_MaxTool := raise_peak (ss_MaxTool (session_of p base acc e)) (value_at v 2)\<rparr>"
  by (simp add: session_of_def block_max_snoc)

lemma incrementAndUpdate_open:
  assumes "open_session R base acc s"
  shows "open_session R base (acc @ [(u, t, v)]) (incrementAndUpdate v s)"
    "sm_provider (incrementAndUpdate v s) = sm_provider s" "sm_idleTimeout (incrementAndUpdate v s) = sm_idleTimeout s"
    "sm_lastActivityTime (incrementAndUpdate v s) = sm_lastActivityTime s"
    "sm_prevValues (incrementAndUpdate v s) = sm_prevValues s"
proof -
  let ?r = "session_of (sm_provider s) base acc None"
  let ?r1 = "?r\<lparr>ss_SnapshotCount := ss_SnapshotCount ?r + 1\<rparr>"
  let ?s1 = "s\<lparr>sm_store := (sm_store s)\<lparr>db_rows := R @ [?r1]\<rparr>\<rparr>"
  have h: "healthy (sm_store s)" and id: "ss_ID ?r = sm_sessionID s" "sm_sessionID s \<notin> ss_ID ` set R"
    and rows: "db_rows (sm_store s) = R @ [?r]"
    using assms by (auto simp: open_session_def session_of_def)
  have 1: "snd (sess_do (IncrementSnapshotCount (sm_sessionID s)) s) = ?s1"
    by (simp add: sess_do_def run_session_ops h update_last [OF id(2,1) rows])
  have h1: "healthy (sm_store ?s1)" using h by (simp add: healthy_def)
  have rows1: "db_rows (sm_store ?s1) = R @ [?r1]" by simp
  have id1: "ss_ID ?r1 = sm_sessionID s" using id by simp
  have 2: "snd (sess_do (UpdateSessionMaxRequests (sm_sessionID s) x y z) ?s1) =
      s\<lparr>sm_store := (sm_store s)\<lparr>db_rows := R @ [?r1\<lparr>ss_MaxSub := raise_peak (ss_MaxSub ?r1) x,
         ss_MaxSearch := raise_peak (ss_MaxSearch ?r1) y, ss_MaxTool := raise_peak (ss_MaxTool ?r1) z\<rparr>]\<rparr>\<rparr>" for x y z
    by (simp add: sess_do_def run_session_ops(3) [OF h1 [simplified]] update_last [OF id(2) id1 rows1, simplified])
  have "acc \<noteq> []" using assms by (simp add: open_session_def)
  then have step: "incrementAndUpdate v s =
      s\<lparr>sm_store := (sm_store s)\<lparr>db_rows := R @ [session_of (sm_provider s) base (acc @ [(u, t, v)]) None]\<rparr>\<rparr>"
    by (simp add: incrementAndUpdate_def Let_def 1 2 session_of_snoc)
  show "open_session R base (acc @ [(u, t, v)]) (incrementAndUpdate v s)"
    using assms unfolding step by (simp add: open_session_def healthy_def)
  show "sm_provider (incrementAndUpdate v s) = sm_provider s" "sm_idleTimeout (incrementAndUpdate v s) = sm_idleTimeout s"
    "sm_lastActivityTime (incrementAndUpdate v s) = sm_lastActivityTime s" "sm_prevValues (incrementAndUpdate v s) = sm_prevValues s"
    by (simp_all add: incrementAndUpdate_def sess_do_def Let_def split: prod.split)
qed

definition idle_manager :: "session_manager \<Rightarrow> bool" where
  "idle_manager s \<longleftrightarrow> healthy (sm_store s) \<and> sm_hasPrev s \<and> sm_sessionID s = []"

lemma poll_unchanged_idle:
  "idle_manager s \<Longrightarrow> v = sm_prevValues s \<Longrightarrow> snd (ReportPoll u t v s) = s"
  by (simp add: ReportPoll_def idle_manager_def hasChanged_iff)

lemma poll_starts:
  assumes "idle_manager s" "v \<noteq> sm_prevValues s" "u \<noteq> []" "u \<notin> ss_ID ` set (db_rows (sm_store s))"
  shows "open_session (db_rows (sm_store s)) (sm_prevValues s) [(u, t, v)] (snd (ReportPoll u t v s))"
    "sm_provider (snd (ReportPoll u t v s)) = sm_provider s" "sm_idleTimeout (snd (ReportPoll u t v s)) = sm_idleTimeout s"
    "sm_lastActivityTime (snd (ReportPoll u t v s)) = t" "sm_prevValues (snd (ReportPoll u t v s)) = v"
proof -
  let ?R = "db_rows (sm_store s)" and ?base = "sm_prevValues s"
  let ?row = "\<lparr>ss_ID = u, ss_StartedAt = t, ss_EndedAt = None, ss_PollInterval = 0, ss_MaxSub = 0, ss_MaxSearch = 0, ss_MaxTool = 0,
            ss_StartSub = value_at ?base 0, ss_StartSearch = value_at ?base 1, ss_StartTool = value_at ?base 2,
            ss_SnapshotCount = 0,
            ss_Provider = (if sm_provider s = [] then ''synthetic'' else sm_provider s)\<rparr>"
  let ?s0 = "s\<lparr>sm_prevValues := v, sm_sessionID := u, sm_store := (sm_store s)\<lparr>db_rows := ?R @ [?row]\<rparr>,
               sm_lastActivityTime := t\<rparr>"
  have h: "healthy (sm_store s)" using assms(1) by (simp add: idle_manager_def)
  have v3: "value_at [a, b, c] 0 = a" "value_at [a, b, c] (Suc 0) = b" "value_at [a, b, c] 2 = c" for a b c
    by (simp_all add: value_at_def)
  have poll: "snd (ReportPoll u t v s) = incrementAndUpdate v ?s0"
    using assms(1,2)
    by (simp add: ReportPoll_def idle_manager_def hasChanged_iff session_start_def sess_do_def
        run_session_ops(4) [OF h assms(4)] v3 split: prod.split)
  have h1: "healthy (sm_store ?s0)" using h by (simp add: healthy_def)
  let ?r1 = "?row\<lparr>ss_SnapshotCount := 1\<rparr>"
  let ?s1 = "?s0\<lparr>sm_store := (sm_store s)\<lparr>db_rows := ?R @ [?r1]\<rparr>\<rparr>"
  have 1: "snd (sess_do (IncrementSnapshotCount u) ?s0) = ?s1"
    using update_last [OF assms(4), of ?row "sm_store ?s0"] by (simp add: sess_do_def run_session_ops(2) [OF h1 [simplified]])
  have h2: "healthy (sm_store ?s1)" using h by (simp add: healthy_def)
  have 2: "snd (sess_do (UpdateSessionMaxRequests u x y z) ?s1) = ?s1\<lparr>sm_store := (sm_store s)\<lparr>db_rows := ?R @ [?r1\<lparr>ss_MaxSub :=
        raise_peak 0 x, ss_MaxSearch := raise_peak 0 y, ss_MaxTool := raise_peak 0 z\<rparr>]\<rparr>\<rparr>" for x y z
    using update_last [OF assms(4), of ?r1 "sm_store ?s1"] by (simp add: sess_do_def run_session_ops(3) [OF h2 [simplified]])
  have res: "snd (ReportPoll u t v s) = ?s1\<lparr>sm_store := (sm_store s)\<lparr>db_rows := ?R @ [session_of (sm_provider s) ?base [(u, t, v)] None]\<rparr>\<rparr>"
    using 1 2 unfolding poll incrementAndUpdate_def Let_def
    by (simp add: session_of_def block_max_def raise_peak_max)
  show "open_session ?R ?base [(u, t, v)] (snd (ReportPoll u t v s))"
    unfolding res using assms by (simp add: open_session_def idle_manager_def healthy_def)
  show "sm_provider (snd (ReportPoll u t v s)) = sm_provider s" "sm_idleTimeout (snd (ReportPoll u t v s)) = sm_idleTimeout s"
    "sm_lastActivityTime (snd (ReportPoll u t v s)) = t" "sm_prevValues (snd (ReportPoll u t v s)) = v"
    unfolding res by simp_all
qed

lemma poll_continues:
  assumes "open_session R base acc s" "v \<noteq> sm_prevValues s \<or> \<not> sm_idleTimeout s < time_Sub t (sm_lastActivityTime s)"
  shows "open_session R base (acc @ [(u, t, v)]) (snd (ReportPoll u t v s))"
    "sm_provider (snd (ReportPoll u t v s)) = sm_provider s" "sm_idleTimeout (snd (ReportPoll u t v s)) = sm_idleTimeout s"
    "sm_lastActivityTime (snd (ReportPoll u t v s)) = (if v \<noteq> sm_prevValues s then t else sm_lastActivityTime s)"
    "sm_prevValues (snd (ReportPoll u t v s)) = v"
proof -
  let ?s = "if v \<noteq> sm_prevValues s then s\<lparr>sm_prevValues := v, sm_lastActivityTime := t\<rparr> else s\<lparr>sm_prevValues := v\<rparr>"
  have poll: "snd (ReportPoll u t v s) = incrementAndUpdate v ?s"
    using assms by (auto simp: ReportPoll_def open_session_def hasChanged_iff Let_def)
  have "open_session R base acc ?s" using assms(1) by (simp add: open_session_def)
  note inc = incrementAndUpdate_open [OF this, where v = v]
  show "open_session R base (acc @ [(u, t, v)]) (snd (ReportPoll u t v s))" unfolding poll by (rule inc(1))
  show "sm_provider (snd (ReportPoll u t v s)) = sm_provider s" "sm_idleTimeout (snd (ReportPoll u t v s)) = sm_idleTimeout s"
    "sm_lastActivityTime (snd (ReportPoll u t v s)) = (if v \<noteq> sm_prevValues s then t else sm_lastActivityTime s)"
    "sm_prevValues (snd (ReportPoll u t v s)) = v"
    unfolding poll inc by simp_all
qed

lemma poll_ends:
  assumes "open_session R base acc s" "v = sm_prevValues s" "sm_idleTimeout s < time_Sub t (sm_lastActivityTime s)"
  shows "idle_manager (snd (ReportPoll u t v s))"
    "db_rows (sm_store (snd (ReportPoll u t v s))) = R @ [session_of (sm_provider s) base acc (Some t)]"
    "sm_provider (snd (ReportPoll u t v s)) = sm_provider s" "sm_idleTimeout (snd (ReportPoll u t v s)) = sm_idleTimeout s"
    "sm_prevValues (snd (ReportPoll u t v s)) = v"
proof -
  have h: "healthy (sm_store s)" and id: "sm_sessionID s \<notin> ss_ID ` set R"
      "ss_ID (session_of (sm_provider s) base acc None) = sm_sessionID s"
    and rows: "db_rows (sm_store s) = R @ [session_of (sm_provider s) base acc None]" and had: "sm_hasPrev s"
    using assms(1) by (auto simp: open_session_def session_of_def)
  have ended: "update_session (\<lambda>r. ss_ID r = sm_sessionID s) (\<lambda>r. r\<lparr>ss_EndedAt := Some t\<rparr>) (sm_store s) =
      (sm_store s)\<lparr>db_rows := R @ [session_of (sm_provider s) base acc (Some t)]\<rparr>"
    by (simp add: update_last [OF id rows]) (simp add: session_of_def)
  have keep: "\<not> hasChanged s v" "sm_sessionID s \<noteq> []" "s\<lparr>sm_prevValues := v\<rparr> = s"
    using assms(1,2) by (auto simp: open_session_def hasChanged_iff)
  have poll: "snd (ReportPoll u t v s) =
      s\<lparr>sm_store := (sm_store s)\<lparr>db_rows := R @ [session_of (sm_provider s) base acc (Some t)]\<rparr>, sm_sessionID := []\<rparr>"
    using keep had assms(3)
    by (simp add: ReportPoll_def Let_def closeSession_def sess_do_def run_session_ops(1) [OF h] ended)
  show "idle_manager (snd (ReportPoll u t v s))"
    "db_rows (sm_store (snd (ReportPoll u t v s))) = R @ [session_of (sm_provider s) base acc (Some t)]"
    "sm_provider (snd (ReportPoll u t v s)) = sm_provider s" "sm_idleTimeout (snd (ReportPoll u t v s)) = sm_idleTimeout s"
    "sm_prevValues (snd (ReportPoll u t v s)) = v"
    unfolding poll using h had assms(2) by (simp_all add: idle_manager_def healthy_def)
qed

text \<open>The two modes of the manager, joined: what an idle and an open manager make of the polls to come.\<close>

definition fresh_polls :: "poll list \<Rightarrow> session_row list \<Rightarrow> bool" where
  "fresh_polls ps R \<longleftrightarrow> distinct (map fst ps) \<and> [] \<notin> fst ` set ps \<and> fst ` set ps \<inter> ss_ID ` set R = {}"

definition blocks_after :: "string \<Rightarrow> duration \<Rightarrow> f64 list \<Rightarrow> poll list \<Rightarrow> poll list \<times> poll list \<Rightarrow> session_row list" where
  "blocks_after provider idle base acc sp = (case sp of
      (xs, []) \<Rightarrow> [session_of provider base (acc @ xs) None]
    | (xs, (u, t, v) # rest) \<Rightarrow> session_of provider base (acc @ xs) (Some t) # session_blocks provider idle v rest)"

lemma session_blocks_change:
  "v \<noteq> prev \<Longrightarrow> session_blocks provider idle prev ((u, t, v) # ps) =
     blocks_after provider idle prev [(u, t, v)] (session_span idle t v ps)"
  by (auto simp: blocks_after_def split: list.splits prod.splits)

lemma blocks_after_cons:
  "blocks_after provider idle base acc (case sp of (xs, rest) \<Rightarrow> (p # xs, rest)) =
     blocks_after provider idle base (acc @ [p]) sp"
  by (auto simp: blocks_after_def split: list.splits prod.splits)

lemma run_polls_simps:
  "run_polls [] s = s"
  "run_polls ((u, t, v) # ps) s = run_polls ps (snd (ReportPoll u t v s))"
  by (simp_all add: run_polls_def)

lemma fresh_polls_drop:
  "fresh_polls ((u, t, v) # ps) R \<Longrightarrow> fresh_polls ps R"
  by (auto simp: fresh_polls_def)

lemma fresh_polls_row:
  "fresh_polls ps R \<Longrightarrow> fst (hd acc) \<notin> fst ` set ps \<Longrightarrow> fresh_polls ps (R @ [session_of p b acc e])"
  by (auto simp: fresh_polls_def session_of_def)

lemma run_polls_rows:
  "(idle_manager s \<longrightarrow> fresh_polls ps (db_rows (sm_store s)) \<longrightarrow>
      db_rows (sm_store (run_polls ps s)) =
        db_rows (sm_store s) @ session_blocks (sm_provider s) (sm_idleTimeout s) (sm_prevValues s) ps) \<and>
   (\<forall>R base acc. open_session R base acc s \<longrightarrow> fresh_polls ps R \<longrightarrow> fst (hd acc) \<notin> fst ` set ps \<longrightarrow>
      db_rows (sm_store (run_polls ps s)) =
        R @ blocks_after (sm_provider s) (sm_idleTimeout s) base acc
              (session_span (sm_idleTimeout s) (sm_lastActivityTime s) (sm_prevValues s) ps))"
proof (induction ps arbitrary: s)
  case Nil
  then show ?case by (auto simp: run_polls_simps blocks_after_def open_session_def)
next
  case (Cons p ps)
  obtain u t v where p: "p = (u, t, v)" by (cases p) auto
  let ?s = "snd (ReportPoll u t v s)"
  note IH = Cons.IH [of ?s]
  show ?case
  proof (intro conjI impI allI)
    assume idle: "idle_manager s" and fresh: "fresh_polls (p # ps) (db_rows (sm_store s))"
    show "db_rows (sm_store (run_polls (p # ps) s)) =
        db_rows (sm_store s) @ session_blocks (sm_provider s) (sm_idleTimeout s) (sm_prevValues s) (p # ps)"
    proof (cases "v = sm_prevValues s")
      case True
      then show ?thesis
        using Cons.IH [of s] idle fresh_polls_drop fresh unfolding p
        by (simp add: run_polls_simps poll_unchanged_idle)
    next
      case False
      have u: "u \<noteq> []" "u \<notin> ss_ID ` set (db_rows (sm_store s))" "fst (hd [(u, t, v)]) \<notin> fst ` set ps"
        using fresh by (auto simp: p fresh_polls_def)
      note starts = poll_starts [OF idle False u(1,2), where t = t]
      show ?thesis
        using IH starts u(3) fresh_polls_drop fresh False unfolding p
        by (simp add: run_polls_simps session_blocks_change del: session_blocks.simps)
    qed
  next
    fix R base acc
    assume opn: "open_session R base acc s" and fresh: "fresh_polls (p # ps) R"
      and new: "fst (hd acc) \<notin> fst ` set (p # ps)"
    have acc: "acc \<noteq> []" using opn by (simp add: open_session_def)
    show "db_rows (sm_store (run_polls (p # ps) s)) =
        R @ blocks_after (sm_provider s) (sm_idleTimeout s) base acc
              (session_span (sm_idleTimeout s) (sm_lastActivityTime s) (sm_prevValues s) (p # ps))"
    proof (cases "v = sm_prevValues s \<and> sm_idleTimeout s < time_Sub t (sm_lastActivityTime s)")
      case True
      note ends = poll_ends [OF opn conjunct1 [OF True] conjunct2 [OF True], where u = u]
      have "fresh_polls ps (R @ [session_of (sm_provider s) base acc (Some t)])"
        using fresh_polls_row fresh_polls_drop fresh new unfolding p by auto
      then show ?thesis
        using IH ends True unfolding p by (simp add: run_polls_simps blocks_after_def)
    next
      case False
      then have "v \<noteq> sm_prevValues s \<or> \<not> sm_idleTimeout s < time_Sub t (sm_lastActivityTime s)" by blast
      note goes = poll_continues [OF opn this, where u = u]
      have "fst (hd (acc @ [(u, t, v)])) \<notin> fst ` set ps" using new acc by (simp add: p)
      then have "db_rows (sm_store (run_polls ps ?s)) =
          R @ blocks_after (sm_provider s) (sm_idleTimeout s) base (acc @ [(u, t, v)])
              (session_span (sm_idleTimeout s) (if v \<noteq> sm_prevValues s then t else sm_lastActivityTime s) v ps)"
        using IH goes fresh_polls_drop fresh unfolding p by simp
      then show ?thesis
        using False unfolding p by (simp add: run_polls_simps blocks_after_cons)
    qed
  qed
qed

subsection \<open>What sessions promise\<close>

definition NewSessionManager :: "session_row tbl \<Rightarrow> string \<Rightarrow> duration \<Rightarrow> session_manager" where
  "NewSessionManager store provider idleTimeout =
     \<lparr>sm_store = store, sm_provider = provider, sm_idleTimeout = idleTimeout, sm_sessionID = [],
      sm_lastActivityTime = zero_time, sm_prevValues = [], sm_hasPrev = False\<rparr>"

lemma first_poll:
  "snd (ReportPoll u t v (NewSessionManager store provider idle)) =
     (NewSessionManager store provider idle)\<lparr>sm_prevValues := v, sm_hasPrev := True\<rparr>"
  by (simp add: ReportPoll_def NewSessionManager_def Let_def)

lemma session_run_rows:
  assumes "healthy store" "fresh_polls ps (db_rows store)"
  shows "db_rows (sm_store (run_polls ((u, t, v) # ps) (NewSessionManager store provider idle))) =
    db_rows store @ session_blocks provider idle v ps"
  using run_polls_rows [of "(NewSessionManager store provider idle)\<lparr>sm_prevValues := v, sm_hasPrev := True\<rparr>" ps] assms
  unfolding run_polls_simps first_poll by (simp add: idle_manager_def NewSessionManager_def)

text \<open>C18: a manager on a store that answers adds exactly the sessions of the polls after the first one,
  which is the baseline: each begins with a change, has the polls up to the idle timeout counted and their
  largest values as maxima, and ends with the poll that found the manager idle; nothing else changes.\<close>

theorem session_history:
  assumes "healthy store" "fresh_polls ps (db_rows store)"
  shows "db_rows (sm_store (run_polls ((u, t, v) # ps) (NewSessionManager store provider idle))) =
    db_rows store @ session_blocks provider idle v ps"
  by (rule session_run_rows [OF assms])

text \<open>Two changes make one session of three polls; the fourth poll, after the timeout, ends it.\<close>

theorem session_history_witness:
  "db_rows (sm_store (run_polls [(''a'', 0, [1]), (''b'', 5, [2]), (''c'', 8, [2]), (''d'', 9, [7]), (''e'', 20, [7])]
       (NewSessionManager empty_tbl ''zai'' 10))) =
     [\<lparr>ss_ID = ''b'', ss_StartedAt = 5, ss_EndedAt = Some 20, ss_PollInterval = 0, ss_MaxSub = 7, ss_MaxSearch = 0,
       ss_MaxTool = 0, ss_StartSub = 1, ss_StartSearch = 0, ss_StartTool = 0, ss_SnapshotCount = 3, ss_Provider = ''zai''\<rparr>]"
  by (subst session_history)
     (simp_all add: healthy_def empty_tbl_def fresh_polls_def session_of_def block_max_def value_at_def time_Sub_def)

text \<open>The sessions of other owners: no statement of a manager touches a row whose id is not its own.\<close>

definition foreign :: "string set \<Rightarrow> session_row tbl \<Rightarrow> session_row list" where
  "foreign ids t = filter (\<lambda>r. ss_ID r \<notin> ids) (db_rows t)"

lemma foreign_faults [simp]: "foreign ids (t\<lparr>db_faults := fs\<rparr>) = foreign ids t"
  by (simp add: foreign_def)

lemma foreign_update:
  assumes "i \<in> ids" "\<And>r. ss_ID (f r) = ss_ID r"
  shows "foreign ids (update_session (\<lambda>r. ss_ID r = i) f t) = foreign ids t"
proof -
  have "filter (\<lambda>r. ss_ID r \<notin> ids) (map (\<lambda>r. if ss_ID r = i then f r else r) rs) = filter (\<lambda>r. ss_ID r \<notin> ids) rs" for rs
    by (induction rs) (use assms in auto)
  then show ?thesis by (simp add: foreign_def update_session_def)
qed

lemma sess_do_wp: "wp m (\<lambda>_. P) (\<lambda>_. P) (sm_store s) \<Longrightarrow> P (sm_store (snd (sess_do m s)))"
  by (auto simp: wp_def sess_do_def split: prod.splits sum.splits)

lemma sess_do_frame [simp]:
  "sm_provider (snd (sess_do m s)) = sm_provider s" "sm_idleTimeout (snd (sess_do m s)) = sm_idleTimeout s"
  "sm_sessionID (snd (sess_do m s)) = sm_sessionID s" "sm_prevValues (snd (sess_do m s)) = sm_prevValues s"
  "sm_lastActivityTime (snd (sess_do m s)) = sm_lastActivityTime s" "sm_hasPrev (snd (sess_do m s)) = sm_hasPrev s"
  by (simp_all add: sess_do_def split: prod.split)

lemma foreign_add: "ss_ID r \<in> ids \<Longrightarrow> foreign ids (t\<lparr>db_faults := fs, db_rows := db_rows t @ [r]\<rparr>) = foreign ids t"
  by (simp add: foreign_def)

lemma session_ops_foreign:
  assumes "i \<in> ids"
  shows "wp (CloseSession i e) (\<lambda>_ t'. foreign ids t' = foreign ids t) (\<lambda>_ t'. foreign ids t' = foreign ids t) t"
    "wp (IncrementSnapshotCount i) (\<lambda>_ t'. foreign ids t' = foreign ids t) (\<lambda>_ t'. foreign ids t' = foreign ids t) t"
    "wp (UpdateSessionMaxRequests i a b c) (\<lambda>_ t'. foreign ids t' = foreign ids t) (\<lambda>_ t'. foreign ids t' = foreign ids t) t"
    "wp (CreateSession i st n p vs) (\<lambda>_ t'. foreign ids t' = foreign ids t) (\<lambda>_ t'. foreign ids t' = foreign ids t) t"
  using assms
  by (auto simp: CloseSession_def IncrementSnapshotCount_def UpdateSessionMaxRequests_def CreateSession_def Let_def wps
      foreign_update foreign_add withE_def wp_def [of "withE _"] intro!: wp_db_stmt)

lemma sess_do_foreign:
  assumes "i \<in> ids"
  shows "foreign ids (sm_store (snd (sess_do (CloseSession i e) s))) = foreign ids (sm_store s)"
    "foreign ids (sm_store (snd (sess_do (IncrementSnapshotCount i) s))) = foreign ids (sm_store s)"
    "foreign ids (sm_store (snd (sess_do (UpdateSessionMaxRequests i a b c) s))) = foreign ids (sm_store s)"
    "foreign ids (sm_store (snd (sess_do (CreateSession i st n p vs) s))) = foreign ids (sm_store s)"
  by (rule sess_do_wp, rule session_ops_foreign, rule assms)+

lemma incrementAndUpdate_foreign:
  "sm_sessionID s \<in> ids \<Longrightarrow> foreign ids (sm_store (incrementAndUpdate v s)) = foreign ids (sm_store s)"
  by (simp add: incrementAndUpdate_def Let_def sess_do_foreign)

lemma session_start_foreign:
  assumes "u \<in> ids"
  shows "foreign ids (sm_store (snd (session_start u t b s))) = foreign ids (sm_store s)"
    "sm_sessionID (snd (session_start u t b s)) = (if fst (session_start u t b s) then u else [])"
  using assms by (simp_all add: session_start_def Let_def split_beta sess_do_foreign)

lemma ReportPoll_foreign:
  assumes "insert u {sm_sessionID s} \<subseteq> ids"
  shows "foreign ids (sm_store (snd (ReportPoll u t v s))) = foreign ids (sm_store s)"
    "sm_sessionID (snd (ReportPoll u t v s)) \<in> {[], u, sm_sessionID s}"
  using assms
  by (auto simp: ReportPoll_def Let_def split_beta closeSession_def sess_do_foreign incrementAndUpdate_foreign
      session_start_foreign) (auto simp: incrementAndUpdate_def Let_def session_start_foreign(2) [OF UNIV_I])

text \<open>C19: whatever statements fail, a manager never changes a session of another owner: rows with other
  ids than its current one and the fresh ones of the polls stay as they are.\<close>

theorem session_foreign:
  assumes "sm_sessionID s \<in> ids" "[] \<in> ids" "fst ` set ps \<subseteq> ids"
  shows "filter (\<lambda>r. ss_ID r \<notin> ids) (db_rows (sm_store (run_polls ps s))) =
    filter (\<lambda>r. ss_ID r \<notin> ids) (db_rows (sm_store s))"
proof -
  have "foreign ids (sm_store (run_polls ps s)) = foreign ids (sm_store s)"
    using assms
  proof (induction ps arbitrary: s)
    case (Cons p ps)
    obtain u t v where p: "p = (u, t, v)" by (cases p) auto
    have ids: "insert u {sm_sessionID s} \<subseteq> ids" using Cons.prems by (simp add: p)
    have "sm_sessionID (snd (ReportPoll u t v s)) \<in> ids" using ReportPoll_foreign(2) [OF ids, of t v] ids Cons.prems by auto
    then show ?case
      using Cons ReportPoll_foreign(1) [OF ids] by (simp add: p run_polls_simps)
  qed (simp add: run_polls_simps)
  then show ?thesis by (simp add: foreign_def)
qed

text \<open>A run of two owners' sessions on one table: the manager leaves the row of the other one alone, although
  a statement fails.\<close>

theorem session_foreign_witness:
  "let other = \<lparr>ss_ID = ''x'', ss_StartedAt = 0, ss_EndedAt = None, ss_PollInterval = 0, ss_MaxSub = 4, ss_MaxSearch = 0,
       ss_MaxTool = 0, ss_StartSub = 1, ss_StartSearch = 0, ss_StartTool = 0, ss_SnapshotCount = 3, ss_Provider = ''zai''\<rparr>;
       s = NewSessionManager \<lparr>db_rows = [other], db_seq = 0, db_faults = [None, Some ''disk full'']\<rparr> ''grok'' 10
   in filter (\<lambda>r. ss_ID r \<notin> {[], ''a'', ''b''}) (db_rows (sm_store (run_polls [(''a'', 0, [1]), (''b'', 5, [2])] s))) = [other]"
  unfolding Let_def by (subst session_foreign) (simp_all add: NewSessionManager_def)



text \<open>At the start of the program every session left open gets the current time as its end, however
  long ago its last poll was; sessions that ended before stay as they are, and their number is returned.\<close>

theorem session_orphans:
  assumes "healthy store"
  shows "CloseOrphanedSessions now store =
    (Inr (int (length (filter (\<lambda>r. ss_EndedAt r = None) (db_rows store)))),
     store\<lparr>db_rows := map (\<lambda>r. r\<lparr>ss_EndedAt := Some (case ss_EndedAt r of None \<Rightarrow> now | Some e \<Rightarrow> e)\<rparr>) (db_rows store)\<rparr>)"
proof -
  have "(if ss_EndedAt r = None then r\<lparr>ss_EndedAt := Some now\<rparr> else r) =
      r\<lparr>ss_EndedAt := Some (case ss_EndedAt r of None \<Rightarrow> now | Some e \<Rightarrow> e)\<rparr>" for r :: session_row
    by (cases "ss_EndedAt r") (auto intro!: session.equality simp: session.defs)
  then show ?thesis
    using assms by (simp add: CloseOrphanedSessions_def runs run_db_stmt update_session_def)
qed

text \<open>A session that was polled ten times from minute 0 on and was left open is said to have ended a week later.\<close>

theorem session_orphans_witness:
  "let r = \<lparr>ss_ID = ''x'', ss_StartedAt = 0, ss_EndedAt = None, ss_PollInterval = 60, ss_MaxSub = 4, ss_MaxSearch = 0,
       ss_MaxTool = 0, ss_StartSub = 1, ss_StartSearch = 0, ss_StartTool = 0, ss_SnapshotCount = 10, ss_Provider = ''zai''\<rparr>
   in CloseOrphanedSessions (168 * Hour) (empty_tbl\<lparr>db_rows := [r]\<rparr>) =
     (Inr 1, empty_tbl\<lparr>db_rows := [r\<lparr>ss_EndedAt := Some (168 * Hour)\<rparr>]\<rparr>)"
  unfolding Let_def by (subst session_orphans) (simp_all add: healthy_def empty_tbl_def)

end
