(* ===== verification/AlertStore.thy ===== *)
theory AlertStore
  imports CycleStore
begin

text \<open>
  The tables behind the notifications (\<open>internal/store/store.go\<close>): the log of what was sent in the
  current cycle of a quota, the devices subscribed to push messages, and the alerts of the dashboard. Keys that
  nothing reads (the running numbers of the first two tables) are left out.
\<close>

subsection \<open>Text\<close>

text \<open>Strings are lists of characters; \<open>ToLower\<close>, \<open>ToUpper\<close> and \<open>TrimSpace\<close> are modelled for ASCII text.\<close>

definition lower_char :: "char \<Rightarrow> char" where
  "lower_char c = (let n = (of_char c :: nat) in if 65 \<le> n \<and> n \<le> 90 then char_of (n + 32) else c)"

definition upper_char :: "char \<Rightarrow> char" where
  "upper_char c = (let n = (of_char c :: nat) in if 97 \<le> n \<and> n \<le> 122 then char_of (n - 32) else c)"

definition ToLower :: "string \<Rightarrow> string" where
  "ToLower s = map lower_char s"

definition is_space :: "char \<Rightarrow> bool" where
  "is_space c \<longleftrightarrow> (let n = (of_char c :: nat) in n = 32 \<or> 9 \<le> n \<and> n \<le> 13)"

definition TrimSpace :: "string \<Rightarrow> string" where
  "TrimSpace s = rev (dropWhile is_space (rev (dropWhile is_space s)))"

fun Contains :: "string \<Rightarrow> string \<Rightarrow> bool" where
  "Contains [] pat \<longleftrightarrow> pat = []"
| "Contains (c # s) pat \<longleftrightarrow> take (length pat) (c # s) = pat \<or> Contains s pat"

definition HasPrefix :: "string \<Rightarrow> string \<Rightarrow> bool" where
  "HasPrefix s p \<longleftrightarrow> take (length p) s = p"

lemma lower_char_idem: "lower_char (lower_char c) = lower_char c"
  by (cases "65 \<le> (of_char c :: nat) \<and> (of_char c :: nat) \<le> 90") (auto simp: lower_char_def Let_def)

lemma is_space_lower: "is_space (lower_char c) \<longleftrightarrow> is_space c"
  by (cases "65 \<le> (of_char c :: nat) \<and> (of_char c :: nat) \<le> 90") (auto simp: lower_char_def is_space_def Let_def)

lemma dropWhile_space_lower: "dropWhile is_space (map lower_char s) = map lower_char (dropWhile is_space s)"
  by (simp add: dropWhile_map comp_def is_space_lower)

lemma TrimSpace_ToLower: "TrimSpace (ToLower s) = ToLower (TrimSpace s)"
  unfolding TrimSpace_def ToLower_def by (simp only: rev_map dropWhile_space_lower)

lemma ToLower_idem [simp]: "ToLower (ToLower s) = ToLower s"
  by (simp add: ToLower_def lower_char_idem)

lemma dropWhile_rev_trim:
  "dropWhile P xs = xs \<Longrightarrow> dropWhile P (rev (dropWhile P (rev xs))) = rev (dropWhile P (rev xs))"
proof (induction xs rule: rev_induct)
  case (snoc x xs)
  show ?case
  proof (cases "P x")
    case True
    have "dropWhile P xs = xs"
      using snoc.prems True length_dropWhile_le [of P "tl xs @ [x]"] by (cases xs) (auto split: if_splits)
    with snoc.IH True show ?thesis by simp
  next
    case False
    then show ?thesis using snoc.prems by simp
  qed
qed simp

lemma TrimSpace_idem [simp]: "TrimSpace (TrimSpace s) = TrimSpace s"
proof -
  let ?t = "dropWhile is_space s"
  have "dropWhile is_space ?t = ?t" by (simp add: dropWhile_idem)
  then have "dropWhile is_space (rev (dropWhile is_space (rev ?t))) = rev (dropWhile is_space (rev ?t))"
    by (rule dropWhile_rev_trim)
  then show ?thesis by (simp add: TrimSpace_def dropWhile_idem)
qed

subsection \<open>The log of notifications\<close>

record notif_row =
  nl_Provider :: string
  nl_QuotaKey :: string
  nl_Type :: string
  nl_SentAt :: time
  nl_Utilization :: f64

definition or_legacy :: "string \<Rightarrow> string" where
  "or_legacy provider = (if provider = [] then ''legacy'' else provider)"

definition logged_as :: "string \<Rightarrow> string \<Rightarrow> string \<Rightarrow> notif_row \<Rightarrow> bool" where
  "logged_as p k y r \<longleftrightarrow> nl_Provider r = p \<and> nl_QuotaKey r = k \<and> nl_Type r = y"

text \<open>The row with the same provider, key and type is replaced.\<close>

definition UpsertNotificationLog :: "time \<Rightarrow> string \<Rightarrow> string \<Rightarrow> string \<Rightarrow> f64 \<Rightarrow> (notif_row tbl, unit) op" where
  "UpsertNotificationLog now provider quotaKey notifType util =
     (let p = or_legacy provider;
          row = \<lparr>nl_Provider = p, nl_QuotaKey = quotaKey, nl_Type = notifType, nl_SentAt = now, nl_Utilization = util\<rparr>
      in wrapE ''store.UpsertNotificationLog: '' (db_stmt (\<lambda>t.
           ((), t\<lparr>db_rows := filter (\<lambda>r. \<not> logged_as p quotaKey notifType r) (db_rows t) @ [row]\<rparr>))))"

definition GetLastNotification :: "string \<Rightarrow> string \<Rightarrow> string \<Rightarrow> (notif_row tbl, time \<times> f64) op" where
  "GetLastNotification provider quotaKey notifType =
     wrapE ''store.GetLastNotification: '' (db_stmt (\<lambda>t.
       (case filter (logged_as (or_legacy provider) quotaKey notifType) (db_rows t) of
          [] \<Rightarrow> (zero_time, 0) | r # _ \<Rightarrow> (nl_SentAt r, nl_Utilization r), t)))"

definition ClearNotificationLog :: "string \<Rightarrow> string \<Rightarrow> (notif_row tbl, unit) op" where
  "ClearNotificationLog provider quotaKey = wrapE ''store.ClearNotificationLog: ''
     (db_stmt (\<lambda>t. ((), t\<lparr>db_rows := filter (\<lambda>r. \<not> (nl_Provider r = or_legacy provider \<and> nl_QuotaKey r = quotaKey))
                                  (db_rows t)\<rparr>)))"

subsection \<open>Push subscriptions\<close>

text \<open>
  The length of what \<open>base64.RawURLEncoding.DecodeString\<close> returns, if it accepts the text: line breaks are
  skipped, every other character must be of the URL alphabet, and a single character may not be left over.
\<close>

definition b64url_char :: "char \<Rightarrow> bool" where
  "b64url_char c \<longleftrightarrow> (let n = (of_char c :: nat) in
     65 \<le> n \<and> n \<le> 90 \<or> 97 \<le> n \<and> n \<le> 122 \<or> 48 \<le> n \<and> n \<le> 57 \<or> c = CHR ''-'' \<or> c = CHR ''_'')"

definition b64url_len :: "string \<Rightarrow> nat option" where
  "b64url_len s =
     (let cs = filter (\<lambda>c. c \<noteq> CHR 0x0A \<and> c \<noteq> CHR 0x0D) s
      in if list_all b64url_char cs \<and> length cs mod 4 \<noteq> 1 then Some (3 * length cs div 4) else None)"

record push_sub =
  ps_Endpoint :: string
  ps_P256dh :: string
  ps_Auth :: string

record push_row = push_sub +
  ps_CreatedAt :: time

definition SavePushSubscription :: "time \<Rightarrow> string \<Rightarrow> string \<Rightarrow> string \<Rightarrow> (push_row tbl, unit) op" where
  "SavePushSubscription now endpoint p256dh auth =
     (if \<not> HasPrefix endpoint ''https://'' then
        failE ''store.SavePushSubscription: endpoint must use HTTPS''
      else if b64url_len p256dh \<noteq> Some 65 then
        failE ''store.SavePushSubscription: p256dh must be base64url-encoded 65-byte P-256 point''
      else if b64url_len auth \<noteq> Some 16 then
        failE ''store.SavePushSubscription: auth must be base64url-encoded 16-byte secret''
      else wrapE ''store.SavePushSubscription: '' (db_stmt (\<lambda>t. ((), t\<lparr>db_rows :=
        (if endpoint \<in> ps_Endpoint ` set (db_rows t)
         then map (\<lambda>r. if ps_Endpoint r = endpoint then r\<lparr>ps_P256dh := p256dh, ps_Auth := auth\<rparr> else r) (db_rows t)
         else db_rows t @ [\<lparr>ps_Endpoint = endpoint, ps_P256dh = p256dh, ps_Auth = auth,
                ps_CreatedAt = time_Truncate now Second\<rparr>])\<rparr>))))"

definition DeletePushSubscription :: "string \<Rightarrow> (push_row tbl, unit) op" where
  "DeletePushSubscription endpoint = wrapE ''store.DeletePushSubscription: ''
     (db_stmt (\<lambda>t. ((), t\<lparr>db_rows := filter (\<lambda>r. ps_Endpoint r \<noteq> endpoint) (db_rows t)\<rparr>)))"

definition GetPushSubscriptions :: "(push_row tbl, push_sub list) op" where
  "GetPushSubscriptions =
     bindE (wrapE ''store.GetPushSubscriptions: '' (db_stmt (\<lambda>t. (map push_sub.truncate (db_rows t), t)))) rows_err"

definition sub_valid :: "('a push_sub_scheme) \<Rightarrow> bool" where
  "sub_valid r \<longleftrightarrow> HasPrefix (ps_Endpoint r) ''https://'' \<and> b64url_len (ps_P256dh r) = Some 65 \<and>
     b64url_len (ps_Auth r) = Some 16"

definition subs_ok :: "push_row tbl \<Rightarrow> bool" where
  "subs_ok t \<longleftrightarrow> distinct (map ps_Endpoint (db_rows t)) \<and> (\<forall>r \<in> set (db_rows t). sub_valid r)"

lemma subs_ok_faults [simp]: "subs_ok (t\<lparr>db_faults := fs\<rparr>) = subs_ok t"
  by (simp add: subs_ok_def)

lemma save_keeps_endpoints:
  "map ps_Endpoint (map (\<lambda>r. if ps_Endpoint r = e then r\<lparr>ps_P256dh := p, ps_Auth := a\<rparr> else r) rs) = map ps_Endpoint rs"
  by (induction rs) auto

lemma subs_ok_save:
  assumes "subs_ok t"
  shows "wp (SavePushSubscription now e p a) (\<lambda>_. subs_ok) (\<lambda>_. subs_ok) t"
  using assms unfolding SavePushSubscription_def
  by (auto simp: wps subs_ok_def sub_valid_def save_keeps_endpoints intro!: wp_db_stmt simp del: map_map)

lemma subs_ok_delete:
  assumes "subs_ok t"
  shows "wp (DeletePushSubscription e) (\<lambda>_. subs_ok) (\<lambda>_. subs_ok) t"
  using assms unfolding DeletePushSubscription_def
  by (auto simp: wps subs_ok_def intro!: wp_db_stmt distinct_map_filter)

subsection \<open>Alerts of the dashboard\<close>

record system_alert =
  al_ID :: int
  al_Provider :: string
  al_AlertType :: string
  al_Title :: string
  al_Message :: string
  al_Severity :: string
  al_CreatedAt :: time
  al_DismissedAt :: "time option"
  al_Metadata :: string

text \<open>Times are kept to the second.\<close>

definition CreateSystemAlert ::
    "time \<Rightarrow> string \<Rightarrow> string \<Rightarrow> string \<Rightarrow> string \<Rightarrow> string \<Rightarrow> string \<Rightarrow> (system_alert tbl, int) op" where
  "CreateSystemAlert now provider alertType title message severity metadata =
     bindE (wrapE ''store.CreateSystemAlert: '' (db_stmt (\<lambda>t. (db_seq t + 1,
         t\<lparr>db_rows := db_rows t @ [\<lparr>al_ID = db_seq t + 1, al_Provider = provider, al_AlertType = alertType,
             al_Title = title, al_Message = message, al_Severity = severity, al_CreatedAt = time_Truncate now Second,
             al_DismissedAt = None, al_Metadata = metadata\<rparr>], db_seq := db_seq t + 1\<rparr>))))
       (\<lambda>i. db_stmt (\<lambda>t. (i, t)))"

definition GetActiveSystemAlerts :: "(system_alert tbl, system_alert list) op" where
  "GetActiveSystemAlerts =
     bindE (wrapE ''store.GetActiveSystemAlerts: '' (db_stmt (\<lambda>t.
       (take 50 (order_desc al_CreatedAt (filter (\<lambda>r. al_DismissedAt r = None) (db_rows t))), t)))) rows_err"

definition dismiss_where :: "time \<Rightarrow> (system_alert \<Rightarrow> bool) \<Rightarrow> system_alert tbl \<Rightarrow> system_alert tbl" where
  "dismiss_where now P t =
     t\<lparr>db_rows := map (\<lambda>r. if P r then r\<lparr>al_DismissedAt := Some (time_Truncate now Second)\<rparr> else r) (db_rows t)\<rparr>"

definition DismissSystemAlert :: "time \<Rightarrow> int \<Rightarrow> (system_alert tbl, unit) op" where
  "DismissSystemAlert now i = wrapE ''store.DismissSystemAlert: ''
     (db_stmt (\<lambda>t. ((), dismiss_where now (\<lambda>r. al_ID r = i) t)))"

definition DismissAllSystemAlerts :: "time \<Rightarrow> (system_alert tbl, unit) op" where
  "DismissAllSystemAlerts now = wrapE ''store.DismissAllSystemAlerts: ''
     (db_stmt (\<lambda>t. ((), dismiss_where now (\<lambda>r. al_DismissedAt r = None) t)))"

definition ClearOldSystemAlerts :: "time \<Rightarrow> duration \<Rightarrow> (system_alert tbl, int) op" where
  "ClearOldSystemAlerts now olderThan =
     (let cutoff = time_Truncate (time_Add now (- olderThan)) Second
      in bindE (wrapE ''store.ClearOldSystemAlerts: '' (db_stmt (\<lambda>t.
           (int (length (filter (\<lambda>r. al_CreatedAt r < cutoff) (db_rows t))),
            t\<lparr>db_rows := filter (\<lambda>r. \<not> al_CreatedAt r < cutoff) (db_rows t)\<rparr>))))
         (\<lambda>n. db_stmt (\<lambda>t. (n, t))))"

definition HasActiveAlertOfType :: "string \<Rightarrow> string \<Rightarrow> (system_alert tbl, bool) op" where
  "HasActiveAlertOfType provider alertType =
     bindE (wrapE ''store.HasActiveAlertOfType: '' (db_stmt (\<lambda>t.
        (length (filter (\<lambda>r. al_Provider r = provider \<and> al_AlertType r = alertType \<and> al_DismissedAt r = None)
           (db_rows t)), t))))
       (\<lambda>count. returnE (0 < count))"

end
