(* ===== verification/Notify.thy ===== *)
theory Notify
  imports AlertStore
begin

text \<open>
  The notification engine (\<open>internal/notify/notify.go\<close>): thresholds with overrides per provider and
  quota, one notification per quota, kind and cycle, sent by mail and to the subscribed devices. What the network
  answers to the coming sends is a list of outcomes (\<open>None\<close>: delivered), every send goes to an outbox.
  The texts of messages other than subjects are left out.
\<close>

subsection \<open>Configuration\<close>

record threshold_override =
  to_Warning :: f64
  to_Critical :: f64
  to_IsAbsolute :: bool
  to_DisableReset :: bool
  to_DisableWarning :: bool
  to_DisableCrit :: bool

record notif_types =
  ny_Warning :: bool
  ny_Critical :: bool
  ny_Reset :: bool
  ny_AuthError :: bool

record notif_channels =
  nc_Email :: bool
  nc_Push :: bool

record notif_config =
  nf_Warning :: f64
  nf_Critical :: f64
  nf_Overrides :: "string \<rightharpoonup> threshold_override"
  nf_Cooldown :: duration
  nf_Types :: notif_types
  nf_Channels :: notif_channels

record quota_status =
  qs_Provider :: string
  qs_QuotaKey :: string
  qs_AccountID :: string
  qs_Utilization :: f64
  qs_Limit :: f64
  qs_ResetOccurred :: bool

text \<open>The engine with its three tables; of mailer and push sender it matters whether they are there.\<close>

datatype target = Email | Push string

record delivery =
  dl_Provider :: string
  dl_Key :: string
  dl_Type :: string
  dl_Target :: target
  dl_Subject :: string
  dl_Error :: "string option"

record notif_engine =
  ne_log :: "notif_row tbl"
  ne_subs :: "push_row tbl"
  ne_alerts :: "system_alert tbl"
  ne_cfg :: notif_config
  ne_mailer :: bool
  ne_push :: bool
  ne_outcomes :: "string option list"
  ne_outbox :: "delivery list"

definition notify_New :: "notif_row tbl \<Rightarrow> push_row tbl \<Rightarrow> system_alert tbl \<Rightarrow> string option list \<Rightarrow> notif_engine" where
  "notify_New nlog subs alerts outcomes =
     \<lparr>ne_log = nlog, ne_subs = subs, ne_alerts = alerts,
      ne_cfg = \<lparr>nf_Warning = 80, nf_Critical = 95, nf_Overrides = (\<lambda>_. None), nf_Cooldown = 30 * Minute,
        nf_Types = \<lparr>ny_Warning = True, ny_Critical = True, ny_Reset = False, ny_AuthError = False\<rparr>,
        nf_Channels = \<lparr>nc_Email = True, nc_Push = True\<rparr>\<rparr>,
      ne_mailer = False, ne_push = False, ne_outcomes = outcomes, ne_outbox = []\<rparr>"

subsection \<open>Keys\<close>

definition normalizeNotificationProvider :: "string \<Rightarrow> string" where
  "normalizeNotificationProvider provider =
     (let p = ToLower (TrimSpace provider) in if p = [] then ''legacy'' else p)"

definition notificationOverrideKey :: "string \<Rightarrow> string \<Rightarrow> string" where
  "notificationOverrideKey provider quotaKey = normalizeNotificationProvider provider @ '':'' @ TrimSpace quotaKey"

definition notificationQuotaKey :: "quota_status \<Rightarrow> string" where
  "notificationQuotaKey status =
     (if qs_AccountID status \<noteq> [] \<and> qs_AccountID status \<noteq> ''1''
      then qs_AccountID status @ '':'' @ qs_QuotaKey status else qs_QuotaKey status)"

subsection \<open>Subjects\<close>

definition titleCase :: "string \<Rightarrow> string" where
  "titleCase s = (case s of [] \<Rightarrow> [] | c # cs \<Rightarrow> upper_char c # cs)"

text \<open>\<open>%.1f\<close>: the exact decimal value rounded to one place, ties to even.\<close>

definition fmt_1f :: "f64 \<Rightarrow> string" where
  "fmt_1f x = (let n = round_half_even (\<bar>x\<bar> * 10)
     in (if x < 0 then ''-'' else []) @ itoa (n div 10) @ ''.'' @ itoa (n mod 10))"

definition buildSubject :: "quota_status \<Rightarrow> string \<Rightarrow> string" where
  "buildSubject status notifType =
     (if notifType = ''critical'' then
        ''[CRITICAL] '' @ titleCase (qs_Provider status) @ '' quota '' @ qs_QuotaKey status @ '' at '' @
          fmt_1f (qs_Utilization status) @ ''%''
      else if notifType = ''warning'' then
        ''[WARNING] '' @ titleCase (qs_Provider status) @ '' quota '' @ qs_QuotaKey status @ '' at '' @
          fmt_1f (qs_Utilization status) @ ''%''
      else if notifType = ''reset'' then
        ''[RESET] '' @ titleCase (qs_Provider status) @ '' quota '' @ qs_QuotaKey status @ '' has been reset''
      else ''['' @ notifType @ ''] '' @ qs_Provider status @ '' quota '' @ qs_QuotaKey status)"

subsection \<open>Sending\<close>

text \<open>One attempt: the next outcome is taken, the attempt goes to the outbox.\<close>

definition attempt :: "string \<Rightarrow> string \<Rightarrow> string \<Rightarrow> string \<Rightarrow> target \<Rightarrow> notif_engine \<Rightarrow> string option \<times> notif_engine" where
  "attempt p k y subject tgt e =
     (let out = (case ne_outcomes e of [] \<Rightarrow> None | x # _ \<Rightarrow> x)
      in (out, e\<lparr>ne_outcomes := tl (ne_outcomes e), ne_outbox := ne_outbox e @
           [\<lparr>dl_Provider = p, dl_Key = k, dl_Type = y, dl_Target = tgt, dl_Subject = subject, dl_Error = out\<rparr>]\<rparr>))"

text \<open>The devices one after the other; one that is gone (410) is unsubscribed, errors of the store are ignored.\<close>

fun push_all :: "(target \<Rightarrow> notif_engine \<Rightarrow> string option \<times> notif_engine) \<Rightarrow> push_sub list \<Rightarrow> notif_engine \<Rightarrow> bool \<times> notif_engine" where
  "push_all dlv [] e = (False, e)"
| "push_all dlv (sub # subs) e =
     (case dlv (Push (ps_Endpoint sub)) e of
        (Some err, e') \<Rightarrow>
          push_all dlv subs (if Contains err ''410''
            then e'\<lparr>ne_subs := snd (DeletePushSubscription (ps_Endpoint sub) (ne_subs e'))\<rparr> else e')
      | (None, e') \<Rightarrow> (True, snd (push_all dlv subs e')))"

definition send_mail :: "(target \<Rightarrow> notif_engine \<Rightarrow> string option \<times> notif_engine) \<Rightarrow> notif_engine \<Rightarrow> bool \<times> notif_engine" where
  "send_mail dlv e =
     (if nc_Email (nf_Channels (ne_cfg e)) \<and> ne_mailer e
      then (case dlv Email e of (out, e') \<Rightarrow> (out = None, e')) else (False, e))"

definition send_push :: "(target \<Rightarrow> notif_engine \<Rightarrow> string option \<times> notif_engine) \<Rightarrow> notif_engine \<Rightarrow> bool \<times> notif_engine" where
  "send_push dlv e =
     (if nc_Push (nf_Channels (ne_cfg e)) \<and> ne_push e
      then (case GetPushSubscriptions (ne_subs e) of
              (Inl _, t) \<Rightarrow> (False, e\<lparr>ne_subs := t\<rparr>)
            | (Inr subs, t) \<Rightarrow> push_all dlv subs (e\<lparr>ne_subs := t\<rparr>))
      else (False, e))"

definition send_all :: "(target \<Rightarrow> notif_engine \<Rightarrow> string option \<times> notif_engine) \<Rightarrow> notif_engine \<Rightarrow> bool \<times> notif_engine" where
  "send_all dlv e =
     (let (mailed, e) = send_mail dlv e; (pushed, e) = send_push dlv e in (mailed \<or> pushed, e))"

definition sendNotification :: "time \<Rightarrow> quota_status \<Rightarrow> string \<Rightarrow> notif_engine \<Rightarrow> notif_engine" where
  "sendNotification now status notifType e =
     (let provider = normalizeNotificationProvider (qs_Provider status);
          quotaKey = notificationQuotaKey status
      in case GetLastNotification provider quotaKey notifType (ne_log e) of
           (Inl _, t) \<Rightarrow> e\<lparr>ne_log := t\<rparr>
         | (Inr (sentAt, _), t) \<Rightarrow>
             (let e = e\<lparr>ne_log := t\<rparr>
              in if sentAt \<noteq> zero_time then e
                 else (let (sent, e) = send_all (attempt provider quotaKey notifType (buildSubject status notifType)) e
                       in if sent
                          then e\<lparr>ne_log := snd (UpsertNotificationLog now provider quotaKey notifType
                                  (qs_Utilization status) (ne_log e))\<rparr>
                          else e)))"

subsection \<open>Checking a quota\<close>

definition find_override :: "notif_config \<Rightarrow> quota_status \<Rightarrow> threshold_override option" where
  "find_override cfg status =
     (case nf_Overrides cfg (notificationOverrideKey (normalizeNotificationProvider (qs_Provider status)) (qs_QuotaKey status)) of
        Some v \<Rightarrow> Some v
      | None \<Rightarrow> nf_Overrides cfg (qs_QuotaKey status))"

definition thresholds :: "notif_config \<Rightarrow> quota_status \<Rightarrow> threshold_override option \<Rightarrow> f64 \<times> f64" where
  "thresholds cfg status ov =
     (case ov of
        None \<Rightarrow> (nf_Warning cfg, nf_Critical cfg)
      | Some v \<Rightarrow>
          if to_IsAbsolute v \<and> 0 < qs_Limit status then
            (if 0 < to_Warning v then fmul (fdiv (to_Warning v) (qs_Limit status)) 100 else nf_Warning cfg,
             if 0 < to_Critical v then fmul (fdiv (to_Critical v) (qs_Limit status)) 100 else nf_Critical cfg)
          else
            (if 0 < to_Warning v then to_Warning v else nf_Warning cfg,
             if 0 < to_Critical v then to_Critical v else nf_Critical cfg))"

definition forbids :: "(threshold_override \<Rightarrow> bool) \<Rightarrow> threshold_override option \<Rightarrow> bool" where
  "forbids f ov = (case ov of Some v \<Rightarrow> f v | None \<Rightarrow> False)"

text \<open>The kind of notification a reading calls for.\<close>

definition alert_level :: "notif_config \<Rightarrow> quota_status \<Rightarrow> string option" where
  "alert_level cfg status =
     (let ov = find_override cfg status;
          (warningThreshold, criticalThreshold) = thresholds cfg status ov
      in if criticalThreshold \<le> qs_Utilization status \<and> ny_Critical (nf_Types cfg) \<and> \<not> forbids to_DisableCrit ov
         then Some ''critical''
         else if warningThreshold \<le> qs_Utilization status \<and> ny_Warning (nf_Types cfg) \<and> \<not> forbids to_DisableWarning ov
         then Some ''warning''
         else None)"

definition notify_Check :: "time \<Rightarrow> quota_status \<Rightarrow> notif_engine \<Rightarrow> notif_engine" where
  "notify_Check now status e =
     (if \<not> ne_mailer e \<and> \<not> ne_push e then e
      else if qs_ResetOccurred status then
        (let e = e\<lparr>ne_log := snd (ClearNotificationLog (normalizeNotificationProvider (qs_Provider status))
                                  (notificationQuotaKey status) (ne_log e))\<rparr>
         in if ny_Reset (nf_Types (ne_cfg e)) \<and> \<not> forbids to_DisableReset (find_override (ne_cfg e) status)
            then sendNotification now status ''reset'' e else e)
      else (case alert_level (ne_cfg e) status of
              Some y \<Rightarrow> sendNotification now status y e
            | None \<Rightarrow> e))"

definition run_checks :: "(time \<times> quota_status) list \<Rightarrow> notif_engine \<Rightarrow> notif_engine" where
  "run_checks cs e = fold (\<lambda>(now, status). notify_Check now status) cs e"

subsection \<open>Settings\<close>

text \<open>The decoded settings document; \<open>channels\<close> may be missing.\<close>

record override_setting =
  oset_QuotaKey :: string
  oset_Provider :: string
  oset_Value :: threshold_override

record notif_settings =
  nj_WarningThreshold :: f64
  nj_CriticalThreshold :: f64
  nj_Types :: notif_types
  nj_CooldownMinutes :: int
  nj_Channels :: "notif_channels option"
  nj_Overrides :: "override_setting list"

definition put_override :: "override_setting \<Rightarrow> (string \<rightharpoonup> threshold_override) \<Rightarrow> string \<rightharpoonup> threshold_override" where
  "put_override ov m =
     (let key = TrimSpace (oset_QuotaKey ov);
          provider = normalizeNotificationProvider (oset_Provider ov)
      in if key = [] then m
         else m((if provider \<noteq> ''legacy'' then notificationOverrideKey provider key else key) \<mapsto> oset_Value ov))"

text \<open>What \<open>Reload\<close> does with the decoded document.\<close>

definition reload_settings :: "notif_settings \<Rightarrow> notif_config \<Rightarrow> notif_config" where
  "reload_settings notif cfg =
     \<lparr>nf_Warning = (if 0 < nj_WarningThreshold notif then nj_WarningThreshold notif else nf_Warning cfg),
      nf_Critical = (if 0 < nj_CriticalThreshold notif then nj_CriticalThreshold notif else nf_Critical cfg),
      nf_Overrides = fold put_override (nj_Overrides notif) (\<lambda>_. None),
      nf_Cooldown = (if 0 < nj_CooldownMinutes notif then i64 (nj_CooldownMinutes notif * Minute) else nf_Cooldown cfg),
      nf_Types = nj_Types notif,
      nf_Channels = (case nj_Channels notif of Some c \<Rightarrow> c | None \<Rightarrow> \<lparr>nc_Email = True, nc_Push = True\<rparr>)\<rparr>"

subsection \<open>Test messages and authentication errors\<close>

definition SendTestEmail :: "notif_engine \<Rightarrow> string option \<times> notif_engine" where
  "SendTestEmail e =
     (if \<not> ne_mailer e then (Some ''SMTP not configured'', e)
      else attempt [] [] ''test'' ''[loomWatch] Test Email'' Email e)"

text \<open>All devices are tried; the last error counts only if no device was reached.\<close>

fun test_push_all :: "push_sub list \<Rightarrow> nat \<times> string option \<times> notif_engine \<Rightarrow> nat \<times> string option \<times> notif_engine" where
  "test_push_all [] x = x"
| "test_push_all (sub # subs) (sent, lastErr, e) =
     (case attempt [] [] ''test'' ''[loomWatch] Test Push'' (Push (ps_Endpoint sub)) e of
        (Some err, e') \<Rightarrow> test_push_all subs (sent, Some err, e')
      | (None, e') \<Rightarrow> test_push_all subs (sent + 1, lastErr, e'))"

definition SendTestPush :: "notif_engine \<Rightarrow> string option \<times> notif_engine" where
  "SendTestPush e =
     (if \<not> ne_push e then (Some ''push notifications not configured'', e)
      else case GetPushSubscriptions (ne_subs e) of
             (Inl err, t) \<Rightarrow> (Some (''failed to get subscriptions: '' @ err), e\<lparr>ne_subs := t\<rparr>)
           | (Inr [], t) \<Rightarrow> (Some ''no push subscriptions found'', e\<lparr>ne_subs := t\<rparr>)
           | (Inr subs, t) \<Rightarrow>
               (case test_push_all subs (0, None, e\<lparr>ne_subs := t\<rparr>) of
                  (sent, lastErr, e') \<Rightarrow> (if sent = 0 then lastErr else None, e')))"

record auth_alert =
  aa_Provider :: string
  aa_Title :: string
  aa_Message :: string
  aa_AccountID :: string
  aa_IsRecovable :: bool

definition raise_alert :: "time \<Rightarrow> auth_alert \<Rightarrow> system_alert tbl \<Rightarrow> system_alert tbl" where
  "raise_alert now alert t =
     (let severity = (if aa_IsRecovable alert then ''warning'' else ''error'');
          alertType = (if aa_IsRecovable alert then ''auth_error'' else ''token_refresh_failed'');
          metadata = (if aa_AccountID alert = [] then [] else ''{\"account_id\":\"'' @ aa_AccountID alert @ ''\"}'');
          (found, t) = HasActiveAlertOfType (aa_Provider alert) alertType t
      in if found = Inr True then t
         else snd (CreateSystemAlert now (aa_Provider alert) alertType (aa_Title alert) (aa_Message alert) severity metadata t))"

definition SendAuthErrorNotification :: "time \<Rightarrow> auth_alert \<Rightarrow> notif_engine \<Rightarrow> bool \<times> notif_engine" where
  "SendAuthErrorNotification now alert e =
     (if \<not> ny_AuthError (nf_Types (ne_cfg e)) then (False, e)
      else (let subject = ''[AUTH ERROR] '' @ titleCase (aa_Provider alert) @ '' - '' @ aa_Title alert;
                (sent, e) = send_all (attempt (aa_Provider alert) [] ''auth_error'' subject) e
            in (sent, e\<lparr>ne_alerts := raise_alert now alert (ne_alerts e)\<rparr>)))"

subsection \<open>At most once per cycle\<close>

text \<open>How often a notification of a kind reached a target.\<close>

definition delivered :: "string \<Rightarrow> string \<Rightarrow> string \<Rightarrow> target \<Rightarrow> delivery list \<Rightarrow> nat" where
  "delivered p k y tgt out = length (filter (\<lambda>d. dl_Provider d = p \<and> dl_Key d = k \<and> dl_Type d = y \<and>
     dl_Target d = tgt \<and> dl_Error d = None) out)"

definition same_setup :: "notif_engine \<Rightarrow> notif_engine \<Rightarrow> bool" where
  "same_setup e e' \<longleftrightarrow> ne_log e' = ne_log e \<and> ne_cfg e' = ne_cfg e \<and> ne_mailer e' = ne_mailer e \<and>
     ne_push e' = ne_push e \<and> (subs_ok (ne_subs e) \<longrightarrow> subs_ok (ne_subs e')) \<and>
     (ne_outcomes e = [] \<longrightarrow> ne_outcomes e' = [])"

lemma same_setup_refl [simp]: "same_setup e e"
  by (simp add: same_setup_def)

lemma same_setup_trans: "same_setup a b \<Longrightarrow> same_setup b c \<Longrightarrow> same_setup a c"
  by (simp add: same_setup_def)

lemma attempt_setup: "same_setup e (snd (attempt p k y sj tgt e))"
  by (simp add: attempt_def same_setup_def Let_def)

lemma attempt_delivered:
  "delivered p k y tgt (ne_outbox (snd (attempt p' k' y' sj tgt' e))) = delivered p k y tgt (ne_outbox e) +
     (if p' = p \<and> k' = k \<and> y' = y \<and> tgt' = tgt \<and> fst (attempt p' k' y' sj tgt' e) = None then 1 else 0)"
  by (simp add: attempt_def delivered_def Let_def)

lemma unsubscribe_setup:
  "same_setup e (e\<lparr>ne_subs := snd (DeletePushSubscription x (ne_subs e))\<rparr>)"
proof -
  have "subs_ok (snd (DeletePushSubscription x (ne_subs e)))" if "subs_ok (ne_subs e)"
    using subs_ok_delete [OF that, of x] by (auto simp: wp_def split: prod.splits sum.splits)
  then show ?thesis by (simp add: same_setup_def)
qed

lemma push_all_delivered:
  assumes "distinct (map ps_Endpoint subs)"
  shows "same_setup e (snd (push_all (attempt p' k' y' sj) subs e)) \<and>
    (let d = delivered p k y tgt (ne_outbox e); r = push_all (attempt p' k' y' sj) subs e;
         d' = delivered p k y tgt (ne_outbox (snd r))
     in d \<le> d' \<and> d' \<le> d + (if p' = p \<and> k' = k \<and> y' = y \<and> tgt \<in> (Push o ps_Endpoint) ` set subs then 1 else 0) \<and>
        (d < d' \<longrightarrow> fst r))"
  using assms
proof (induction subs arbitrary: e)
  case (Cons sub subs)
  obtain out e1 where a: "attempt p' k' y' sj (Push (ps_Endpoint sub)) e = (out, e1)" by fastforce
  have s1: "same_setup e e1" using attempt_setup [of e p' k' y' sj "Push (ps_Endpoint sub)"] a by simp
  have d1: "delivered p k y tgt (ne_outbox e1) = delivered p k y tgt (ne_outbox e) +
      (if p' = p \<and> k' = k \<and> y' = y \<and> Push (ps_Endpoint sub) = tgt \<and> out = None then 1 else 0)"
    using attempt_delivered [of p k y tgt p' k' y' sj "Push (ps_Endpoint sub)" e] a by simp
  define e2 where "e2 = (case out of None \<Rightarrow> e1 | Some err \<Rightarrow>
      if Contains err ''410'' then e1\<lparr>ne_subs := snd (DeletePushSubscription (ps_Endpoint sub) (ne_subs e1))\<rparr> else e1)"
  have s2: "same_setup e e2" and out2: "ne_outbox e2 = ne_outbox e1"
    using s1 same_setup_trans [OF s1 unsubscribe_setup] by (auto simp: e2_def split: option.split)
  have step: "snd (push_all (attempt p' k' y' sj) (sub # subs) e) = snd (push_all (attempt p' k' y' sj) subs e2)"
      "fst (push_all (attempt p' k' y' sj) (sub # subs) e) = (out = None \<or> fst (push_all (attempt p' k' y' sj) subs e2))"
    by (simp_all add: a e2_def split: option.split)
  note IH = Cons.IH [of e2, unfolded Let_def out2]
  have new: "ps_Endpoint sub \<notin> ps_Endpoint ` set subs" using Cons.prems by simp
  show ?case
    using IH Cons.prems d1 s2 same_setup_trans [OF s2] new unfolding Let_def step
    by (auto split: if_splits)
qed simp

lemma get_subs:
  assumes "GetPushSubscriptions t = (r, t')"
  shows "subs_ok t \<longrightarrow> subs_ok t'" "r = Inr subs \<Longrightarrow> subs = map push_sub.truncate (db_rows t)"
proof -
  have "wp GetPushSubscriptions (\<lambda>subs t'. subs = map push_sub.truncate (db_rows t) \<and> (subs_ok t \<longrightarrow> subs_ok t'))
      (\<lambda>_ t'. subs_ok t \<longrightarrow> subs_ok t') t"
    unfolding GetPushSubscriptions_def rows_err_def wps by (intro wp_db_stmt) simp_all
  then show "subs_ok t \<longrightarrow> subs_ok t'" "r = Inr subs \<Longrightarrow> subs = map push_sub.truncate (db_rows t)"
    using assms by (auto simp: wp_def split: sum.splits)
qed

lemma truncated_endpoints: "map ps_Endpoint (map push_sub.truncate rows) = map ps_Endpoint rows"
  by (simp add: push_sub.truncate_def)

lemma send_push_delivered:
  assumes ok: "subs_ok (ne_subs e)"
  shows "same_setup e (snd (send_push (attempt p' k' y' sj) e)) \<and>
    (let d = delivered p k y tgt (ne_outbox e); r = send_push (attempt p' k' y' sj) e;
         d' = delivered p k y tgt (ne_outbox (snd r))
     in d \<le> d' \<and> d' \<le> d + (if p' = p \<and> k' = k \<and> y' = y \<and> tgt \<noteq> Email then 1 else 0) \<and> (d < d' \<longrightarrow> fst r))"
proof (cases "nc_Push (nf_Channels (ne_cfg e)) \<and> ne_push e")
  case True
  obtain r t where g: "GetPushSubscriptions (ne_subs e) = (r, t)" by fastforce
  have st: "same_setup e (e\<lparr>ne_subs := t\<rparr>)" using get_subs(1) [OF g] by (simp add: same_setup_def)
  show ?thesis
  proof (cases r)
    case (Inr subs)
    have "distinct (map ps_Endpoint subs)"
      using get_subs(2) [OF g Inr] ok by (simp add: subs_ok_def truncated_endpoints del: map_map)
    note P = push_all_delivered [OF this, of "e\<lparr>ne_subs := t\<rparr>" p' k' y' sj p k y tgt]
    show ?thesis
      using P same_setup_trans [OF st] True g Inr by (auto simp: send_push_def Let_def split: if_splits)
  qed (use st True g in \<open>simp add: send_push_def Let_def\<close>)
next
  case False
  then have "send_push (attempt p' k' y' sj) e = (False, e)" by (auto simp: send_push_def)
  then show ?thesis by (simp add: Let_def)
qed

lemma send_all_delivered:
  assumes "subs_ok (ne_subs e)"
  shows "same_setup e (snd (send_all (attempt p' k' y' sj) e)) \<and>
    (let d = delivered p k y tgt (ne_outbox e); r = send_all (attempt p' k' y' sj) e;
         d' = delivered p k y tgt (ne_outbox (snd r))
     in d \<le> d' \<and> d' \<le> d + (if p' = p \<and> k' = k \<and> y' = y then 1 else 0) \<and> (d < d' \<longrightarrow> fst r))"
proof -
  define m where "m = send_mail (attempt p' k' y' sj) e"
  define e1 where "e1 = snd m"
  have s1: "same_setup e e1" using attempt_setup [of e p' k' y' sj Email]
    by (auto simp: e1_def m_def send_mail_def split: prod.split)
  have d1: "delivered p k y tgt (ne_outbox e1) = delivered p k y tgt (ne_outbox e) +
      (if p' = p \<and> k' = k \<and> y' = y \<and> tgt = Email \<and> fst m then 1 else 0)"
    using attempt_delivered [of p k y tgt p' k' y' sj Email e]
    by (auto simp: e1_def m_def send_mail_def split: prod.split)
  have ok1: "subs_ok (ne_subs e1)" using s1 assms by (simp add: same_setup_def)
  define q where "q = send_push (attempt p' k' y' sj) e1"
  have all: "send_all (attempt p' k' y' sj) e = (fst m \<or> fst q, snd q)"
    by (simp add: send_all_def Let_def m_def e1_def q_def split_beta)
  note Q = send_push_delivered [OF ok1, of p' k' y' sj p k y tgt, folded q_def]
  show ?thesis
    using Q d1 same_setup_trans [OF s1] unfolding Let_def all by (auto split: if_splits)
qed

text \<open>The invariant between resets: what reached the target is in the log, and then not sent again.\<close>

definition once_logged :: "string \<Rightarrow> string \<Rightarrow> string \<Rightarrow> target \<Rightarrow> notif_engine \<Rightarrow> bool" where
  "once_logged p k y tgt e \<longleftrightarrow> healthy (ne_log e) \<and> subs_ok (ne_subs e) \<and>
     (\<forall>r \<in> set (db_rows (ne_log e)). nl_SentAt r \<noteq> zero_time) \<and>
     delivered p k y tgt (ne_outbox e) \<le> 1 \<and>
     (delivered p k y tgt (ne_outbox e) = 0 \<or> (\<exists>r \<in> set (db_rows (ne_log e)). logged_as p k y r))"

lemma normalize_not_empty [simp]: "normalizeNotificationProvider p \<noteq> []"
  by (simp add: normalizeNotificationProvider_def Let_def)

lemma or_legacy_normalize [simp]:
  "or_legacy (normalizeNotificationProvider p) = normalizeNotificationProvider p"
  by (simp add: or_legacy_def)

lemma run_log_ops:
  "healthy t \<Longrightarrow> GetLastNotification p k y t = (Inr (case filter (logged_as (or_legacy p) k y) (db_rows t) of
      [] \<Rightarrow> (zero_time, 0) | r # _ \<Rightarrow> (nl_SentAt r, nl_Utilization r)), t)"
  "healthy t \<Longrightarrow> UpsertNotificationLog now p k y u t = (Inr (), t\<lparr>db_rows :=
      filter (\<lambda>r. \<not> logged_as (or_legacy p) k y r) (db_rows t) @
        [\<lparr>nl_Provider = or_legacy p, nl_QuotaKey = k, nl_Type = y, nl_SentAt = now, nl_Utilization = u\<rparr>]\<rparr>)"
  "healthy t \<Longrightarrow> ClearNotificationLog p k t = (Inr (), t\<lparr>db_rows :=
      filter (\<lambda>r. \<not> (nl_Provider r = or_legacy p \<and> nl_QuotaKey r = k)) (db_rows t)\<rparr>)"
  by (simp_all add: GetLastNotification_def UpsertNotificationLog_def ClearNotificationLog_def Let_def runs run_db_stmt)

lemma logged_as_unique: "logged_as p k y r \<Longrightarrow> logged_as p' k' y' r \<longleftrightarrow> p' = p \<and> k' = k \<and> y' = y"
  by (auto simp: logged_as_def)

lemma sendNotification_once:
  assumes "once_logged p k y tgt e" "now \<noteq> zero_time"
  shows "once_logged p k y tgt (sendNotification now status y' e)"
proof -
  let ?p = "normalizeNotificationProvider (qs_Provider status)" and ?k = "notificationQuotaKey status"
  let ?hits = "filter (logged_as ?p ?k y') (db_rows (ne_log e))"
  have h: "healthy (ne_log e)" using assms(1) by (simp add: once_logged_def)
  obtain sent e1 where s: "send_all (attempt ?p ?k y' (buildSubject status y')) e = (sent, e1)" by fastforce
  show ?thesis
  proof (cases ?hits)
    case (Cons r rs)
    then have "r \<in> set (db_rows (ne_log e))" by (metis filter_is_subset in_mono list.set_intros(1))
    then have "nl_SentAt r \<noteq> zero_time" using assms(1) by (simp add: once_logged_def)
    then show ?thesis using assms(1) Cons by (simp add: sendNotification_def Let_def run_log_ops(1) [OF h])
  next
    case Nil
    have "subs_ok (ne_subs e)" using assms(1) by (simp add: once_logged_def)
    note S = send_all_delivered [OF this, of ?p ?k y' "buildSubject status y'" p k y tgt, unfolded Let_def s fst_conv snd_conv]
    have kept: "ne_log e1 = ne_log e" "subs_ok (ne_subs e1)"
      using S assms(1) by (auto simp: same_setup_def once_logged_def)
    have none: "\<not> logged_as ?p ?k y' r" if "r \<in> set (db_rows (ne_log e))" for r
      using Nil that by (auto simp: filter_empty_conv)
    have send: "sendNotification now status y' e = (if sent
        then e1\<lparr>ne_log := (ne_log e)\<lparr>db_rows := filter (\<lambda>r. \<not> logged_as ?p ?k y' r) (db_rows (ne_log e)) @
          [\<lparr>nl_Provider = ?p, nl_QuotaKey = ?k, nl_Type = y', nl_SentAt = now, nl_Utilization = qs_Utilization status\<rparr>]\<rparr>\<rparr>
        else e1)"
      using Nil s kept by (simp add: sendNotification_def Let_def run_log_ops(1,2) [OF h])
    have this_key: "logged_as p k y \<lparr>nl_Provider = p, nl_QuotaKey = k, nl_Type = y, nl_SentAt = now, nl_Utilization = u\<rparr>" for u
      by (simp add: logged_as_def)
    show ?thesis
    proof (cases "?p = p \<and> ?k = k \<and> y' = y")
      case True
      then have "delivered p k y tgt (ne_outbox e) = 0" using assms(1) none by (auto simp: once_logged_def)
      then show ?thesis
        using S kept assms True this_key unfolding send by (auto simp: once_logged_def healthy_def)
    next
      case False
      then have "delivered p k y tgt (ne_outbox e1) = delivered p k y tgt (ne_outbox e)" using S by auto
      then show ?thesis
        using kept assms none unfolding send by (auto simp: once_logged_def healthy_def)
    qed
  qed
qed

lemma clear_once:
  assumes "once_logged p k y tgt e" "normalizeNotificationProvider (qs_Provider status) \<noteq> p \<or> notificationQuotaKey status \<noteq> k"
  shows "once_logged p k y tgt (e\<lparr>ne_log := snd (ClearNotificationLog (normalizeNotificationProvider (qs_Provider status))
     (notificationQuotaKey status) (ne_log e))\<rparr>)"
  using assms by (auto simp: once_logged_def run_log_ops healthy_def logged_as_def)

lemma check_once:
  assumes "once_logged p k y tgt e" "now \<noteq> zero_time"
    and "qs_ResetOccurred status \<longrightarrow>
      normalizeNotificationProvider (qs_Provider status) \<noteq> p \<or> notificationQuotaKey status \<noteq> k"
  shows "once_logged p k y tgt (notify_Check now status e)"
  using assms clear_once [OF assms(1)]
  by (auto simp: notify_Check_def Let_def sendNotification_once split: option.split)

text \<open>C28: between two resets of a quota a notification of one kind reaches a target (the mail address, a
  device) at most once, whatever sends fail, however often the quota is checked in between and however its
  provider is spelled; statements on the table of devices may fail.\<close>

theorem notify_once:
  assumes "healthy (ne_log e)" "subs_ok (ne_subs e)" "db_rows (ne_log e) = []" "ne_outbox e = []"
    and "\<forall>(now, status) \<in> set cs. now \<noteq> zero_time \<and> (qs_ResetOccurred status \<longrightarrow>
      normalizeNotificationProvider (qs_Provider status) \<noteq> p \<or> notificationQuotaKey status \<noteq> k)"
  shows "length (filter (\<lambda>d. dl_Provider d = p \<and> dl_Key d = k \<and> dl_Type d = y \<and> dl_Target d = tgt \<and> dl_Error d = None)
    (ne_outbox (run_checks cs e))) \<le> 1"
proof -
  have "once_logged p k y tgt (run_checks cs e)" if "once_logged p k y tgt e"
    using that assms(5) unfolding run_checks_def by (induction cs arbitrary: e) (auto simp: check_once)
  moreover have "once_logged p k y tgt e" using assms by (simp add: once_logged_def delivered_def)
  ultimately show ?thesis by (simp add: once_logged_def delivered_def)
qed

definition sample_status :: "string \<Rightarrow> f64 \<Rightarrow> bool \<Rightarrow> quota_status" where
  "sample_status provider u reset = \<lparr>qs_Provider = provider, qs_QuotaKey = ''five_hour'', qs_AccountID = [],
     qs_Utilization = u, qs_Limit = 0, qs_ResetOccurred = reset\<rparr>"

text \<open>Three critical readings, the first send fails: one mail arrives.\<close>

theorem notify_once_witness:
  "let out = ne_outbox (run_checks [(1, sample_status ''Codex'' 96 False), (2, sample_status ''codex'' 97 False),
       (3, sample_status '' codex'' 98 False)] ((notify_New empty_tbl empty_tbl empty_tbl [Some ''timeout''])\<lparr>ne_mailer := True\<rparr>))
   in length out = 2 \<and> length (filter (\<lambda>d. dl_Provider d = ''codex'' \<and> dl_Key d = ''five_hour'' \<and> dl_Type d = ''critical'' \<and>
        dl_Target d = Email \<and> dl_Error d = None) out) \<le> 1"
proof -
  let ?e = "(notify_New empty_tbl empty_tbl empty_tbl [Some ''timeout''])\<lparr>ne_mailer := True\<rparr>"
  let ?cs = "[(1, sample_status ''Codex'' 96 False), (2, sample_status ''codex'' 97 False), (3, sample_status '' codex'' 98 False)]"
  have "length (ne_outbox (run_checks ?cs ?e)) = 2" by code_simp
  moreover have "length (filter (\<lambda>d. dl_Provider d = ''codex'' \<and> dl_Key d = ''five_hour'' \<and> dl_Type d = ''critical'' \<and>
        dl_Target d = Email \<and> dl_Error d = None) (ne_outbox (run_checks ?cs ?e))) \<le> 1"
    by (rule notify_once) (simp_all add: notify_New_def empty_tbl_def healthy_def subs_ok_def sample_status_def zero_time_def)
  ultimately show ?thesis by (simp add: Let_def)
qed

lemma send_fresh_mail:
  assumes "healthy (ne_log e)" "subs_ok (ne_subs e)" "ne_outcomes e = []"
    and "nc_Email (nf_Channels (ne_cfg e))" "ne_mailer e"
    and "p = normalizeNotificationProvider (qs_Provider status)" "k = notificationQuotaKey status"
    and "\<forall>r \<in> set (db_rows (ne_log e)). \<not> logged_as p k y r"
  shows "delivered p k y Email (ne_outbox (sendNotification now status y e)) = Suc (delivered p k y Email (ne_outbox e))"
proof -
  let ?dlv = "attempt p k y (buildSubject status y)"
  obtain sent e1 where s: "send_all ?dlv e = (sent, e1)" by fastforce
  define e0 where "e0 = snd (?dlv Email e)"
  have mail: "send_mail ?dlv e = (True, e0)"
    using assms(3-5) by (simp add: send_mail_def attempt_def Let_def e0_def)
  have d0: "delivered p k y Email (ne_outbox e0) = Suc (delivered p k y Email (ne_outbox e))"
    using assms(3) by (simp add: e0_def attempt_def delivered_def Let_def)
  have "subs_ok (ne_subs e0)" using assms(2) by (simp add: e0_def attempt_def Let_def)
  note P = send_push_delivered [OF this, of p k y "buildSubject status y" p k y Email, unfolded Let_def]
  have "sent" "delivered p k y Email (ne_outbox e1) = Suc (delivered p k y Email (ne_outbox e))"
    using s P d0 by (auto simp: send_all_def mail Let_def split: prod.splits)
  moreover have "filter (logged_as p k y) (db_rows (ne_log e)) = []" using assms(8) by (simp add: filter_empty_conv)
  ultimately show ?thesis
    using s unfolding assms(6,7)
    by (simp add: sendNotification_def Let_def run_log_ops(1) [OF assms(1)])
qed

lemma send_other:
  assumes "healthy (ne_log e)" "subs_ok (ne_subs e)" "ne_outcomes e = []" "y' \<noteq> y"
    and "\<forall>r \<in> set (db_rows (ne_log e)). \<not> logged_as p k y r"
  shows "healthy (ne_log (sendNotification now status y' e)) \<and> subs_ok (ne_subs (sendNotification now status y' e)) \<and>
    ne_outcomes (sendNotification now status y' e) = [] \<and> ne_cfg (sendNotification now status y' e) = ne_cfg e \<and>
    ne_mailer (sendNotification now status y' e) = ne_mailer e \<and>
    delivered p k y tgt (ne_outbox (sendNotification now status y' e)) = delivered p k y tgt (ne_outbox e) \<and>
    (\<forall>r \<in> set (db_rows (ne_log (sendNotification now status y' e))). \<not> logged_as p k y r)"
proof -
  let ?p = "normalizeNotificationProvider (qs_Provider status)" and ?k = "notificationQuotaKey status"
  obtain sent e1 where s: "send_all (attempt ?p ?k y' (buildSubject status y')) e = (sent, e1)" by fastforce
  note S = send_all_delivered [OF assms(2), of ?p ?k y' "buildSubject status y'" p k y tgt, unfolded Let_def s fst_conv snd_conv]
  have "same_setup e e1" "delivered p k y tgt (ne_outbox e1) = delivered p k y tgt (ne_outbox e)"
    using S assms(4) by auto
  then show ?thesis
    using assms by (auto simp: sendNotification_def Let_def run_log_ops(1,2) s same_setup_def healthy_def logged_as_def
        split: list.split)
qed

lemma alert_level_kinds: "alert_level cfg status = Some y \<Longrightarrow> y \<noteq> ''reset''"
  by (auto simp: alert_level_def Let_def split: prod.splits if_splits)

text \<open>C29: a reset re-enables the notifications of its quota: on a log that answers, and with a mail server
  that accepts, the first reading after the reset that calls for a notification is mailed, whatever was sent
  before and whether or not the reset itself is announced.\<close>

theorem notify_again:
  assumes "healthy (ne_log e)" "subs_ok (ne_subs e)" "ne_outcomes e = []"
    and "ne_mailer e" "nc_Email (nf_Channels (ne_cfg e))"
    and "qs_ResetOccurred s1" "\<not> qs_ResetOccurred s2" "alert_level (ne_cfg e) s2 = Some y"
    and "normalizeNotificationProvider (qs_Provider s1) = normalizeNotificationProvider (qs_Provider s2)"
    and "notificationQuotaKey s1 = notificationQuotaKey s2"
    and "p = normalizeNotificationProvider (qs_Provider s2)" "k = notificationQuotaKey s2"
  shows "delivered p k y Email (ne_outbox (run_checks [(t1, s1), (t2, s2)] e)) = Suc (delivered p k y Email (ne_outbox e))"
proof -
  let ?e1 = "e\<lparr>ne_log := snd (ClearNotificationLog p k (ne_log e))\<rparr>"
  let ?e2 = "notify_Check t1 s1 e"
  have kind: "''reset'' \<noteq> y" using alert_level_kinds [OF assms(8)] by simp
  have e1: "healthy (ne_log ?e1)" "subs_ok (ne_subs ?e1)" "ne_outcomes ?e1 = []"
      "\<forall>r \<in> set (db_rows (ne_log ?e1)). \<not> logged_as p k y r"
    using assms by (auto simp: run_log_ops healthy_def logged_as_def)
  have "?e2 = ?e1 \<or> ?e2 = sendNotification t1 s1 ''reset'' ?e1"
    using assms by (simp add: notify_Check_def Let_def)
  then have e2: "healthy (ne_log ?e2)" "subs_ok (ne_subs ?e2)" "ne_outcomes ?e2 = []" "ne_cfg ?e2 = ne_cfg e"
      "ne_mailer ?e2" "delivered p k y Email (ne_outbox ?e2) = delivered p k y Email (ne_outbox e)"
      "\<forall>r \<in> set (db_rows (ne_log ?e2)). \<not> logged_as p k y r"
    using e1 send_other [OF e1(1-3) kind e1(4), of t1 s1 Email] assms(4) by auto
  have "run_checks [(t1, s1), (t2, s2)] e = sendNotification t2 s2 y ?e2"
    using assms(7,8) e2(4,5) by (simp add: run_checks_def notify_Check_def [of t2])
  then show ?thesis
    using send_fresh_mail [OF e2(1-3) _ e2(5) assms(11,12) e2(7)] assms(5) e2(4,6) by simp
qed

theorem notify_again_witness:
  "let e = (notify_New empty_tbl empty_tbl empty_tbl [])\<lparr>ne_mailer := True\<rparr>;
       e1 = run_checks [(1, sample_status ''codex'' 96 False)] e
   in delivered ''codex'' ''five_hour'' ''critical'' Email (ne_outbox e1) = 1 \<and>
      delivered ''codex'' ''five_hour'' ''critical'' Email
        (ne_outbox (run_checks [(2, sample_status ''Codex'' 0 True), (3, sample_status ''codex '' 97 False)] e1)) = 2"
proof -
  define e1 where "e1 = run_checks [(1, sample_status ''codex'' 96 False)]
    ((notify_New empty_tbl empty_tbl empty_tbl [])\<lparr>ne_mailer := True\<rparr>)"
  have one: "delivered ''codex'' ''five_hour'' ''critical'' Email (ne_outbox e1) = 1"
    unfolding e1_def by code_simp
  have st: "healthy (ne_log e1)" "subs_ok (ne_subs e1)" "ne_outcomes e1 = []" "ne_mailer e1"
      "nc_Email (nf_Channels (ne_cfg e1))" "alert_level (ne_cfg e1) (sample_status ''codex '' 97 False) = Some ''critical''"
    unfolding e1_def healthy_def subs_ok_def by code_simp+
  have keys: "normalizeNotificationProvider (qs_Provider (sample_status ''Codex'' 0 True)) =
        normalizeNotificationProvider (qs_Provider (sample_status ''codex '' 97 False))"
      "notificationQuotaKey (sample_status ''Codex'' 0 True) = notificationQuotaKey (sample_status ''codex '' 97 False)"
      "''codex'' = normalizeNotificationProvider (qs_Provider (sample_status ''codex '' 97 False))"
      "''five_hour'' = notificationQuotaKey (sample_status ''codex '' 97 False)"
    by code_simp+
  have "delivered ''codex'' ''five_hour'' ''critical'' Email
        (ne_outbox (run_checks [(2, sample_status ''Codex'' 0 True), (3, sample_status ''codex '' 97 False)] e1)) = Suc 1"
    using notify_again [OF st(1-5) _ _ st(6) keys, of 2 3] one by (simp add: sample_status_def)
  with one show ?thesis by (simp add: Let_def e1_def)
qed

subsection \<open>Thresholds and overrides\<close>

definition severity :: "string option \<Rightarrow> nat" where
  "severity y = (if y = Some ''critical'' then 2 else if y = Some ''warning'' then 1 else 0)"

text \<open>A higher utilization never calls for a weaker notification, whatever thresholds, overrides
  and switches are configured (a critical threshold below the warning one included).\<close>

theorem notify_monotone:
  assumes "qs_Utilization status \<le> u"
  shows "severity (alert_level cfg status) \<le> severity (alert_level cfg (status\<lparr>qs_Utilization := u\<rparr>))"
proof -
  have same: "find_override cfg (status\<lparr>qs_Utilization := u\<rparr>) = find_override cfg status"
      "thresholds cfg (status\<lparr>qs_Utilization := u\<rparr>) ov = thresholds cfg status ov" for ov
    by (simp_all add: find_override_def thresholds_def split: option.split)
  show ?thesis using assms unfolding alert_level_def same
    by (auto simp: severity_def Let_def split: prod.split)
qed

theorem notify_monotone_witness:
  "severity (alert_level (ne_cfg (notify_New empty_tbl empty_tbl empty_tbl [])) (sample_status ''codex'' 85 False)) = 1 \<and>
   1 \<le> severity (alert_level (ne_cfg (notify_New empty_tbl empty_tbl empty_tbl []))
          ((sample_status ''codex'' 85 False)\<lparr>qs_Utilization := 96\<rparr>))"
proof -
  have one: "severity (alert_level (ne_cfg (notify_New empty_tbl empty_tbl empty_tbl [])) (sample_status ''codex'' 85 False)) = 1"
    by code_simp
  moreover have "qs_Utilization (sample_status ''codex'' 85 False) \<le> 96" by (simp add: sample_status_def)
  note notify_monotone [OF this, of "ne_cfg (notify_New empty_tbl empty_tbl empty_tbl [])"]
  ultimately show ?thesis by simp
qed

lemma normalize_idem [simp]: "normalizeNotificationProvider (normalizeNotificationProvider p) = normalizeNotificationProvider p"
proof (cases "ToLower (TrimSpace p) = []")
  case True
  have "ToLower (TrimSpace ''legacy'') = ''legacy''" by code_simp
  then show ?thesis using True by (simp add: normalizeNotificationProvider_def)
next
  case False
  have "ToLower (TrimSpace (ToLower (TrimSpace p))) = ToLower (TrimSpace p)" by (simp add: TrimSpace_ToLower)
  then show ?thesis using False by (simp add: normalizeNotificationProvider_def Let_def)
qed

lemma override_key_normalized [simp]:
  "notificationOverrideKey (normalizeNotificationProvider p) q = notificationOverrideKey p q"
  "notificationOverrideKey p (TrimSpace q) = notificationOverrideKey p q"
  by (simp_all add: notificationOverrideKey_def)

lemma put_override_other:
  assumes "\<forall>o' \<in> set ys. put_override o' m0 k = m0 k" "m0 = (\<lambda>_. None)"
  shows "fold put_override ys m k = m k"
proof -
  have "put_override o' m k = m k" if "o' \<in> set ys" for o' m
    using assms(1) that unfolding assms(2) by (auto simp: put_override_def Let_def split: if_splits)
  then show ?thesis by (induction ys arbitrary: m) auto
qed

text \<open>C30: an override of the settings is what the checks of its quota find: with its provider and key in any
  spelling (case and blanks of the provider, blanks around the key), unless a later entry of the settings has
  the same provider and key.\<close>

theorem notify_override:
  assumes "nj_Overrides notif = xs @ [v] @ ys"
    and "TrimSpace (oset_QuotaKey v) \<noteq> []" "normalizeNotificationProvider (oset_Provider v) \<noteq> ''legacy''"
    and "normalizeNotificationProvider (qs_Provider status) = normalizeNotificationProvider (oset_Provider v)"
    and "TrimSpace (qs_QuotaKey status) = TrimSpace (oset_QuotaKey v)"
    and "\<forall>v' \<in> set ys. put_override v' (\<lambda>_. None) (notificationOverrideKey (oset_Provider v) (oset_QuotaKey v)) = None"
  shows "find_override (reload_settings notif cfg) status = Some (oset_Value v)"
proof -
  let ?k = "notificationOverrideKey (oset_Provider v) (oset_QuotaKey v)"
  have key: "notificationOverrideKey (qs_Provider status) (qs_QuotaKey status) = ?k"
    using assms(4,5) by (simp add: notificationOverrideKey_def)
  have "fold put_override ys (put_override v m) ?k = Some (oset_Value v)" for m
    using put_override_other [of ys "\<lambda>_. None" ?k] assms(2,3,6) by (simp add: put_override_def Let_def)
  then show ?thesis by (simp add: find_override_def reload_settings_def key assms(1))
qed

theorem notify_override_witness:
  "let v = \<lparr>oset_QuotaKey = '' seven_day'', oset_Provider = ''Anthropic'', oset_Value = \<lparr>to_Warning = 50, to_Critical = 60,
         to_IsAbsolute = False, to_DisableReset = False, to_DisableWarning = True, to_DisableCrit = False\<rparr>\<rparr>;
       w = v\<lparr>oset_QuotaKey := ''five_hour''\<rparr>;
       notif = \<lparr>nj_WarningThreshold = 0, nj_CriticalThreshold = 90,
         nj_Types = \<lparr>ny_Warning = True, ny_Critical = True, ny_Reset = True, ny_AuthError = True\<rparr>,
         nj_CooldownMinutes = 10, nj_Channels = None, nj_Overrides = [v, w]\<rparr>
   in find_override (reload_settings notif (ne_cfg (notify_New empty_tbl empty_tbl empty_tbl [])))
        ((sample_status '' ANTHROPIC'' 55 False)\<lparr>qs_QuotaKey := ''seven_day''\<rparr>) = Some (oset_Value v)"
proof -
  define v where "v = \<lparr>oset_QuotaKey = '' seven_day'', oset_Provider = ''Anthropic'', oset_Value = \<lparr>to_Warning = 50, to_Critical = 60,
         to_IsAbsolute = False, to_DisableReset = False, to_DisableWarning = True, to_DisableCrit = False\<rparr>\<rparr>"
  let ?st = "(sample_status '' ANTHROPIC'' 55 False)\<lparr>qs_QuotaKey := ''seven_day''\<rparr>"
  have v: "TrimSpace (oset_QuotaKey v) \<noteq> []" "normalizeNotificationProvider (oset_Provider v) \<noteq> ''legacy''"
      "normalizeNotificationProvider (qs_Provider ?st) = normalizeNotificationProvider (oset_Provider v)"
      "TrimSpace (qs_QuotaKey ?st) = TrimSpace (oset_QuotaKey v)"
      "put_override (v\<lparr>oset_QuotaKey := ''five_hour''\<rparr>) (\<lambda>_. None)
         (notificationOverrideKey (oset_Provider v) (oset_QuotaKey v)) = None"
    unfolding v_def by code_simp+
  show ?thesis
    unfolding v_def [symmetric] Let_def
    by (rule notify_override [where xs = "[]" and ys = "[v\<lparr>oset_QuotaKey := ''five_hour''\<rparr>]"]) (use v in auto)
qed

text \<open>C32: the table of devices only ever holds subscriptions with an https endpoint, a key of 65 bytes and a
  secret of 16, and no endpoint twice: saving and removing keep this, whatever is passed and whichever
  statement fails.\<close>

theorem push_typed:
  assumes "distinct (map ps_Endpoint (db_rows t)) \<and> (\<forall>r \<in> set (db_rows t). HasPrefix (ps_Endpoint r) ''https://'' \<and>
      b64url_len (ps_P256dh r) = Some 65 \<and> b64url_len (ps_Auth r) = Some 16)"
    and "t' = snd (SavePushSubscription now endpoint p256dh auth t) \<or> t' = snd (DeletePushSubscription endpoint t)"
  shows "distinct (map ps_Endpoint (db_rows t')) \<and> (\<forall>r \<in> set (db_rows t'). HasPrefix (ps_Endpoint r) ''https://'' \<and>
      b64url_len (ps_P256dh r) = Some 65 \<and> b64url_len (ps_Auth r) = Some 16)"
proof -
  have "subs_ok t" using assms(1) by (simp add: subs_ok_def sub_valid_def)
  from subs_ok_save [OF this, of now endpoint p256dh auth] subs_ok_delete [OF this, of endpoint] assms(2)
  have "subs_ok t'" by (auto simp: wp_def split: prod.splits sum.splits)
  then show ?thesis by (simp add: subs_ok_def sub_valid_def)
qed

text \<open>A key of 87 and a secret of 22 characters are stored; the same endpoint with a new secret replaces the old one.\<close>

theorem push_typed_witness:
  "let t = snd (SavePushSubscription 0 ''https://push.example'' (replicate 87 CHR ''A'') (replicate 22 CHR ''B'') empty_tbl);
       t' = snd (SavePushSubscription 0 ''https://push.example'' (replicate 87 CHR ''A'') (replicate 22 CHR ''C'') t)
   in map ps_Auth (db_rows t') = [replicate 22 CHR ''C''] \<and> (\<forall>r \<in> set (db_rows t'). HasPrefix (ps_Endpoint r) ''https://'')"
proof -
  define t where "t = snd (SavePushSubscription 0 ''https://push.example'' (replicate 87 CHR ''A'') (replicate 22 CHR ''B'') empty_tbl)"
  let ?t' = "snd (SavePushSubscription 0 ''https://push.example'' (replicate 87 CHR ''A'') (replicate 22 CHR ''C'') t)"
  have a: "map ps_Auth (db_rows ?t') = [replicate 22 CHR ''C'']" unfolding t_def by code_simp
  have t: "distinct (map ps_Endpoint (db_rows t)) \<and> (\<forall>r \<in> set (db_rows t). HasPrefix (ps_Endpoint r) ''https://'' \<and>
      b64url_len (ps_P256dh r) = Some 65 \<and> b64url_len (ps_Auth r) = Some 16)"
    unfolding t_def by code_simp
  show ?thesis using a push_typed [OF t disjI1, OF refl] unfolding t_def [symmetric] Let_def by blast
qed

end
