(* ===== verification/Setup.thy ===== *)
theory Setup
  imports AlertStore
begin

text \<open>
  The interactive setup (\<open>setup.go\<close>): prompts that read lines of the standard input, the \<open>.env\<close> file
  that is written and what a later run reads of it. What is printed is left out. The files and credentials found
  on the machine, the generated password and the time stamp are parameters.
\<close>

subsection \<open>The console\<close>

text \<open>
  A dialogue takes the input still to be read. It may never return (\<open>None\<close>); it may end in a run-time panic
  or a value, with the rest of the input. At the end of the input every further line is empty: \<open>readLine\<close>
  drops the error.
\<close>

type_synonym 'a dialogue = "string \<Rightarrow> ((string + 'a) \<times> string) option"

definition returnD :: "'a \<Rightarrow> 'a dialogue" where
  "returnD x inp = Some (Inr x, inp)"

definition bindD :: "'a dialogue \<Rightarrow> ('a \<Rightarrow> 'b dialogue) \<Rightarrow> 'b dialogue" where
  "bindD m f inp = (case m inp of None \<Rightarrow> None | Some (Inl e, rest) \<Rightarrow> Some (Inl e, rest) | Some (Inr x, rest) \<Rightarrow> f x rest)"

definition readLine :: "string \<Rightarrow> string \<times> string" where
  "readLine inp = (TrimSpace (takeWhile (\<lambda>c. c \<noteq> CHR 0x0A) inp), tl (dropWhile (\<lambda>c. c \<noteq> CHR 0x0A) inp))"

text \<open>\<open>for { ... }\<close> around a prompt: lines are read until one is taken.\<close>

partial_function (option) ask :: "(string \<Rightarrow> (string + 'a) option) \<Rightarrow> string \<Rightarrow> ((string + 'a) \<times> string) option" where
  "ask take_line inp =
     (case readLine inp of (line, rest) \<Rightarrow>
        (case take_line line of Some x \<Rightarrow> Some (x, rest) | None \<Rightarrow> ask take_line rest))"

declare ask.simps [code]

text \<open>\<open>strconv.Atoi\<close>.\<close>

definition is_digit :: "char \<Rightarrow> bool" where
  "is_digit c \<longleftrightarrow> (let n = (of_char c :: nat) in 48 \<le> n \<and> n \<le> 57)"

definition Atoi :: "string \<Rightarrow> int option" where
  "Atoi s =
     (let (neg, ds) = (case s of CHR ''-'' # r \<Rightarrow> (True, r) | CHR ''+'' # r \<Rightarrow> (False, r) | _ \<Rightarrow> (False, s));
          n = (if neg then - int (dec_value ds) else int (dec_value ds))
      in if ds \<noteq> [] \<and> list_all is_digit ds \<and> in_i64 n then Some n else None)"

definition number_in :: "int \<Rightarrow> int \<Rightarrow> string \<Rightarrow> (string + int) option" where
  "number_in lo hi s = (case Atoi s of Some n \<Rightarrow> if lo \<le> n \<and> n \<le> hi then Some (Inr n) else None | None \<Rightarrow> None)"

definition or_default :: "string \<Rightarrow> string \<Rightarrow> string" where
  "or_default dflt s = (if s = [] then dflt else s)"

definition promptWithDefault :: "string \<Rightarrow> string dialogue" where
  "promptWithDefault dflt inp = (case readLine inp of (input, rest) \<Rightarrow> Some (Inr (or_default dflt input), rest))"

definition promptYesNo :: "bool \<Rightarrow> bool dialogue" where
  "promptYesNo defaultYes inp = (case readLine inp of (line, rest) \<Rightarrow>
     (let input = ToLower line in Some (Inr (if input = [] then defaultYes else HasPrefix input ''y''), rest)))"

definition not_empty :: "string \<Rightarrow> (string + string) option" where
  "not_empty s = (if s \<noteq> [] then Some (Inr s) else None)"

definition promptSecret :: "string dialogue" where
  "promptSecret = ask not_empty"

definition promptChoice :: "nat \<Rightarrow> int dialogue" where
  "promptChoice options = ask (number_in 1 (int options))"

subsection \<open>The providers\<close>

text \<open>What the program finds on the machine.\<close>

record machine =
  mc_anthropicToken :: string
  mc_codexToken :: string
  mc_grokCreds :: bool
  mc_grokFile :: bool
  mc_openCodeFile :: bool
  mc_geminiFile :: bool
  mc_canMakeDir :: bool
  mc_canWrite :: bool

record setup_config =
  sc_syntheticKey :: string
  sc_zaiKey :: string
  sc_zaiBaseURL :: string
  sc_anthropicToken :: string
  sc_codexToken :: string
  sc_openCodeEnabled :: bool
  sc_antigravityEnabled :: bool
  sc_antigravitySource :: string
  sc_geminiEnabled :: bool
  sc_grokEnabled :: bool
  sc_adminUser :: string
  sc_adminPass :: string
  sc_port :: int
  sc_pollInterval :: int

text \<open>A key that is accepted is printed in part (\<open>key[:6]\<close>), which panics for fewer than six characters.\<close>

definition synthetic_key :: "string \<Rightarrow> (string + string) option" where
  "synthetic_key key =
     (if HasPrefix key ''syn_''
      then Some (if length key < 6 then Inl ''slice bounds out of range'' else Inr key) else None)"

definition collectSyntheticKey :: "string dialogue" where
  "collectSyntheticKey = ask synthetic_key"

definition https_url :: "string \<Rightarrow> string \<Rightarrow> (string + string) option" where
  "https_url dflt s = (let url = or_default dflt s in if HasPrefix url ''https://'' then Some (Inr url) else None)"

definition collectZaiConfig :: "(string \<times> string) dialogue" where
  "collectZaiConfig =
     bindD (ask not_empty) (\<lambda>key.
     bindD (promptYesNo True) (\<lambda>dflt.
       if dflt then returnD (key, ''https://api.z.ai/api'')
       else bindD (ask (https_url ''https://open.bigmodel.cn/api'')) (\<lambda>url. returnD (key, url))))"

definition collect_token :: "string \<Rightarrow> string dialogue" where
  "collect_token token =
     (if token \<noteq> [] then bindD (promptYesNo True) (\<lambda>yes. if yes then returnD token else promptSecret)
      else promptSecret)"

definition collectAnthropicToken :: "machine \<Rightarrow> string dialogue" where
  "collectAnthropicToken m = collect_token (mc_anthropicToken m)"

definition collectCodexToken :: "machine \<Rightarrow> string dialogue" where
  "collectCodexToken m = collect_token (mc_codexToken m)"

definition collectGrok :: "machine \<Rightarrow> bool dialogue" where
  "collectGrok m = promptYesNo (mc_grokCreds m)"

definition collectOpenCode :: "machine \<Rightarrow> bool dialogue" where
  "collectOpenCode m = promptYesNo (mc_openCodeFile m)"

definition collectAntigravitySource :: "string dialogue" where
  "collectAntigravitySource = bindD (promptChoice 3)
     (\<lambda>n. returnD (if n = 2 then ''cli'' else if n = 3 then ''ide'' else ''both''))"

text \<open>A question and, on yes, its details.\<close>

definition when_yes :: "'a dialogue \<Rightarrow> ('a \<Rightarrow> 'c \<Rightarrow> 'c) \<Rightarrow> 'c \<Rightarrow> 'c dialogue" where
  "when_yes m f cfg = bindD (promptYesNo False) (\<lambda>yes. if yes then bindD m (\<lambda>x. returnD (f x cfg)) else returnD cfg)"

definition always :: "'a dialogue \<Rightarrow> ('a \<Rightarrow> 'c \<Rightarrow> 'c) \<Rightarrow> 'c \<Rightarrow> 'c dialogue" where
  "always m f cfg = bindD m (\<lambda>x. returnD (f x cfg))"

definition set_zai :: "string \<times> string \<Rightarrow> setup_config \<Rightarrow> setup_config" where
  "set_zai kv c = c\<lparr>sc_zaiKey := fst kv, sc_zaiBaseURL := snd kv\<rparr>"

abbreviation "set_synthetic k c \<equiv> c\<lparr>sc_syntheticKey := k\<rparr>"
abbreviation "set_anthropic k c \<equiv> c\<lparr>sc_anthropicToken := k\<rparr>"
abbreviation "set_codex k c \<equiv> c\<lparr>sc_codexToken := k\<rparr>"
abbreviation "set_openCode k c \<equiv> c\<lparr>sc_openCodeEnabled := k\<rparr>"
abbreviation "set_antigravity k c \<equiv> c\<lparr>sc_antigravityEnabled := k\<rparr>"
abbreviation "set_gemini k c \<equiv> c\<lparr>sc_geminiEnabled := k\<rparr>"
abbreviation "set_grok k c \<equiv> c\<lparr>sc_grokEnabled := k\<rparr>"

definition collectMultipleProviders :: "machine \<Rightarrow> setup_config \<Rightarrow> setup_config dialogue" where
  "collectMultipleProviders m cfg =
     bindD (when_yes collectSyntheticKey set_synthetic cfg) (\<lambda>cfg.
     bindD (when_yes collectZaiConfig set_zai cfg) (\<lambda>cfg.
     bindD (when_yes (collectAnthropicToken m) set_anthropic cfg) (\<lambda>cfg.
     bindD (when_yes (collectCodexToken m) set_codex cfg) (\<lambda>cfg.
     bindD (when_yes (collectOpenCode m) set_openCode cfg) (\<lambda>cfg.
     bindD (when_yes (returnD True) set_antigravity cfg) (\<lambda>cfg.
     bindD (when_yes (returnD True) set_gemini cfg) (\<lambda>cfg.
     when_yes (collectGrok m) set_grok cfg)))))))"

definition select_providers :: "machine \<Rightarrow> int \<Rightarrow> setup_config \<Rightarrow> setup_config dialogue" where
  "select_providers m choice cfg =
     (if choice = 1 then always collectSyntheticKey set_synthetic cfg
      else if choice = 2 then always collectZaiConfig set_zai cfg
      else if choice = 3 then always (collectAnthropicToken m) set_anthropic cfg
      else if choice = 4 then always (collectCodexToken m) set_codex cfg
      else if choice = 5 then always (collectOpenCode m) set_openCode cfg
      else if choice = 6 then returnD (set_antigravity True cfg)
      else if choice = 7 then returnD (set_gemini True cfg)
      else if choice = 8 then always (collectGrok m) set_grok cfg
      else if choice = 9 then collectMultipleProviders m cfg
      else if choice = 10 then
        bindD (always collectSyntheticKey set_synthetic cfg) (\<lambda>cfg.
        bindD (always collectZaiConfig set_zai cfg) (\<lambda>cfg.
        bindD (always (collectAnthropicToken m) set_anthropic cfg) (\<lambda>cfg.
        bindD (always (collectCodexToken m) set_codex cfg) (\<lambda>cfg.
        bindD (always (collectOpenCode m) set_openCode cfg) (\<lambda>cfg.
        always (collectGrok m) set_grok (set_gemini True (set_antigravity True cfg)))))))
      else returnD cfg)"

definition no_provider :: "setup_config \<Rightarrow> bool" where
  "no_provider cfg \<longleftrightarrow> sc_syntheticKey cfg = [] \<and> sc_zaiKey cfg = [] \<and> sc_anthropicToken cfg = [] \<and>
     sc_codexToken cfg = [] \<and> \<not> sc_openCodeEnabled cfg \<and> \<not> sc_antigravityEnabled cfg \<and>
     \<not> sc_geminiEnabled cfg \<and> \<not> sc_grokEnabled cfg"

definition empty_config :: setup_config where
  "empty_config = \<lparr>sc_syntheticKey = [], sc_zaiKey = [], sc_zaiBaseURL = [], sc_anthropicToken = [], sc_codexToken = [],
     sc_openCodeEnabled = False, sc_antigravityEnabled = False, sc_antigravitySource = [], sc_geminiEnabled = False,
     sc_grokEnabled = False, sc_adminUser = [], sc_adminPass = [], sc_port = 0, sc_pollInterval = 0\<rparr>"

text \<open>The two prompts with a range.\<close>

definition port_prompt :: "int dialogue" where
  "port_prompt = ask (\<lambda>s. number_in 1 65535 (or_default ''9211'' s))"

definition interval_prompt :: "int dialogue" where
  "interval_prompt = ask (\<lambda>s. number_in 10 3600 (or_default ''120'' s))"

definition finish_setup :: "string \<Rightarrow> setup_config \<Rightarrow> setup_config dialogue" where
  "finish_setup password cfg =
     bindD (if sc_antigravityEnabled cfg
            then always collectAntigravitySource (\<lambda>x c. c\<lparr>sc_antigravitySource := x\<rparr>) cfg else returnD cfg) (\<lambda>cfg.
     bindD (always (promptWithDefault ''admin'') (\<lambda>x c. c\<lparr>sc_adminUser := x\<rparr>) cfg) (\<lambda>cfg.
     bindD (always (promptWithDefault password) (\<lambda>x c. c\<lparr>sc_adminPass := x\<rparr>) cfg) (\<lambda>cfg.
     bindD (always port_prompt (\<lambda>x c. c\<lparr>sc_port := x\<rparr>) cfg) (\<lambda>cfg.
     always interval_prompt (\<lambda>x c. c\<lparr>sc_pollInterval := x\<rparr>) cfg))))"

definition freshSetup :: "machine \<Rightarrow> string \<Rightarrow> (string + setup_config) dialogue" where
  "freshSetup m password =
     bindD (promptChoice 10) (\<lambda>choice.
     bindD (select_providers m choice empty_config) (\<lambda>cfg.
       if no_provider cfg then returnD (Inl ''at least one provider is required'')
       else bindD (finish_setup password cfg) (\<lambda>cfg. returnD (Inr cfg))))"

subsection \<open>The \<open>.env\<close> file\<close>

definition ln :: "string \<Rightarrow> string" where
  "ln s = s @ [CHR 0x0A]"

abbreviation when_set :: "bool \<Rightarrow> string list \<Rightarrow> string list" where
  "when_set b ls \<equiv> if b then ls else []"

text \<open>The lines of the file; the calls of \<open>WriteString\<close> are split at the line breaks.\<close>

definition env_lines :: "string \<Rightarrow> setup_config \<Rightarrow> string list" where
  "env_lines stamp cfg =
     [''# ==============================================================='', ''# loomWatch Configuration'',
      ''# Generated by '' @ [CHR 0x27] @ ''onwatch setup'' @ [CHR 0x27] @ '' on '' @ stamp,
      ''# ==============================================================='', ''''] @
     when_set (sc_syntheticKey cfg \<noteq> [])
       [''# Synthetic API key (https://synthetic.new/settings/api)'', ''SYNTHETIC_API_KEY='' @ sc_syntheticKey cfg, ''''] @
     when_set (sc_zaiKey cfg \<noteq> [])
       [''# Z.ai API key (https://www.z.ai/api-keys)'', ''ZAI_API_KEY='' @ sc_zaiKey cfg, '''',
        ''# Z.ai base URL'', ''ZAI_BASE_URL='' @ sc_zaiBaseURL cfg, ''''] @
     when_set (sc_anthropicToken cfg \<noteq> [])
       [''# Anthropic token (Claude Code)'', ''ANTHROPIC_TOKEN='' @ sc_anthropicToken cfg, ''''] @
     when_set (sc_codexToken cfg \<noteq> [])
       [''# Codex OAuth token'', ''CODEX_TOKEN='' @ sc_codexToken cfg, ''''] @
     when_set (sc_openCodeEnabled cfg)
       [''# OpenCode (opencode-codex) - reads ~/.local/share/opencode/auth.json (feeds Codex)'', ''OPENCODE_ENABLED=true'', ''''] @
     when_set (sc_antigravityEnabled cfg)
       [''# Antigravity (Windsurf) - auto-detected from local process'', ''ANTIGRAVITY_ENABLED=true'',
        ''# Data source: both | cli (agy) | ide'', ''ANTIGRAVITY_SOURCE='' @ or_default ''both'' (sc_antigravitySource cfg), ''''] @
     when_set (sc_geminiEnabled cfg)
       [''# Gemini CLI - auto-detected from ~/.gemini/oauth_creds.json'', ''GEMINI_ENABLED=true'', ''''] @
     when_set (sc_grokEnabled cfg)
       [''# Grok (xAI) - auto-detected from ~/.grok/auth.json (or $GROK_HOME)'', ''GROK_ENABLED=true'', ''''] @
     [''# Dashboard credentials'', ''LOOMWATCH_ADMIN_USER='' @ sc_adminUser cfg, ''LOOMWATCH_ADMIN_PASS='' @ sc_adminPass cfg, '''',
      ''# Polling interval in seconds (10-3600)'', ''LOOMWATCH_POLL_INTERVAL='' @ itoa (sc_pollInterval cfg), '''',
      ''# Dashboard port'', ''LOOMWATCH_PORT='' @ itoa (sc_port cfg)]"

definition env_text :: "string \<Rightarrow> setup_config \<Rightarrow> string" where
  "env_text stamp cfg = concat (map ln (env_lines stamp cfg))"

record existing_env =
  xe_syntheticKey :: string
  xe_zaiKey :: string
  xe_anthropicToken :: string
  xe_codexToken :: string
  xe_openCodeEnabled :: bool
  xe_antigravityEnabled :: bool
  xe_geminiEnabled :: bool
  xe_grokEnabled :: bool

definition no_env :: existing_env where
  "no_env = \<lparr>xe_syntheticKey = [], xe_zaiKey = [], xe_anthropicToken = [], xe_codexToken = [], xe_openCodeEnabled = False,
     xe_antigravityEnabled = False, xe_geminiEnabled = False, xe_grokEnabled = False\<rparr>"

definition set_env :: "string \<Rightarrow> string \<Rightarrow> existing_env \<Rightarrow> existing_env" where
  "set_env key val env =
     (if key = ''SYNTHETIC_API_KEY'' then env\<lparr>xe_syntheticKey := val\<rparr>
      else if key = ''ZAI_API_KEY'' then env\<lparr>xe_zaiKey := val\<rparr>
      else if key = ''ANTHROPIC_TOKEN'' then env\<lparr>xe_anthropicToken := val\<rparr>
      else if key = ''CODEX_TOKEN'' then env\<lparr>xe_codexToken := val\<rparr>
      else if key = ''OPENCODE_ENABLED'' then env\<lparr>xe_openCodeEnabled := (val = ''true'')\<rparr>
      else if key = ''ANTIGRAVITY_ENABLED'' then env\<lparr>xe_antigravityEnabled := (val = ''true'')\<rparr>
      else if key = ''GEMINI_ENABLED'' then env\<lparr>xe_geminiEnabled := (val = ''true'')\<rparr>
      else if key = ''GROK_ENABLED'' then env\<lparr>xe_grokEnabled := (val = ''true'')\<rparr>
      else if key = ''GROK_TOKEN'' then (if val \<noteq> [] then env\<lparr>xe_grokEnabled := True\<rparr> else env)
      else env)"

text \<open>One line: blank lines, comments and lines without \<open>=\<close> are skipped.\<close>

definition env_line :: "string \<Rightarrow> existing_env \<Rightarrow> existing_env" where
  "env_line raw env =
     (let line = TrimSpace raw
      in if line = [] \<or> HasPrefix line ''#'' then env
         else (case dropWhile (\<lambda>c. c \<noteq> CHR ''='') line of
                 [] \<Rightarrow> env
               | _ # val \<Rightarrow> set_env (takeWhile (\<lambda>c. c \<noteq> CHR ''='') line) val env))"

fun split_lines :: "string \<Rightarrow> string list" where
  "split_lines [] = [[]]"
| "split_lines (c # s) =
     (if c = CHR 0x0A then [] # split_lines s
      else (case split_lines s of [] \<Rightarrow> [[c]] | l # ls \<Rightarrow> (c # l) # ls))"

text \<open>\<open>data\<close> is \<open>None\<close> for a file that cannot be read; then not even the machine is looked at.\<close>

definition loadExistingEnv :: "machine \<Rightarrow> string option \<Rightarrow> existing_env" where
  "loadExistingEnv m data =
     (case data of
        None \<Rightarrow> no_env
      | Some text \<Rightarrow>
          (let env = fold env_line (split_lines text) no_env;
               env = (if \<not> xe_geminiEnabled env \<and> mc_geminiFile m then env\<lparr>xe_geminiEnabled := True\<rparr> else env)
           in if \<not> xe_grokEnabled env \<and> mc_grokFile m then env\<lparr>xe_grokEnabled := True\<rparr> else env))"

definition allProvidersConfigured :: "existing_env \<Rightarrow> bool" where
  "allProvidersConfigured env \<longleftrightarrow> xe_syntheticKey env \<noteq> [] \<and> xe_zaiKey env \<noteq> [] \<and> xe_anthropicToken env \<noteq> [] \<and>
     xe_codexToken env \<noteq> [] \<and> xe_openCodeEnabled env \<and> xe_antigravityEnabled env \<and> xe_geminiEnabled env \<and> xe_grokEnabled env"

definition anyProviderConfigured :: "existing_env \<Rightarrow> bool" where
  "anyProviderConfigured env \<longleftrightarrow> xe_syntheticKey env \<noteq> [] \<or> xe_zaiKey env \<noteq> [] \<or> xe_anthropicToken env \<noteq> [] \<or>
     xe_codexToken env \<noteq> [] \<or> xe_openCodeEnabled env \<or> xe_antigravityEnabled env \<or> xe_geminiEnabled env \<or> xe_grokEnabled env"

text \<open>What is appended for a provider that is missing; the text is handed on.\<close>

definition add_offer :: "bool \<Rightarrow> bool \<Rightarrow> 'a dialogue \<Rightarrow> ('a \<Rightarrow> string list) \<Rightarrow> string \<Rightarrow> string dialogue" where
  "add_offer configured dflt details ls text =
     (if configured then returnD text
      else bindD (promptYesNo dflt) (\<lambda>yes.
        if yes then bindD details (\<lambda>x. returnD (text @ concat (map ln ([] # ls x)))) else returnD text))"

definition add_anthropic :: "machine \<Rightarrow> existing_env \<Rightarrow> string \<Rightarrow> string dialogue" where
  "add_anthropic m env =
     (if mc_anthropicToken m \<noteq> []
      then add_offer (xe_anthropicToken env \<noteq> []) True (returnD (mc_anthropicToken m))
             (\<lambda>k. [''# Anthropic token (Claude Code -- auto-detected)'', ''ANTHROPIC_TOKEN='' @ k])
      else add_offer (xe_anthropicToken env \<noteq> []) False (collectAnthropicToken m)
             (\<lambda>k. [''# Anthropic token (Claude Code)'', ''ANTHROPIC_TOKEN='' @ k]))"

definition add_codex :: "machine \<Rightarrow> existing_env \<Rightarrow> string \<Rightarrow> string dialogue" where
  "add_codex m env =
     add_offer (xe_codexToken env \<noteq> []) (mc_codexToken m \<noteq> [])
       (if mc_codexToken m \<noteq> [] then returnD (mc_codexToken m) else collectCodexToken m)
       (\<lambda>k. [''# Codex OAuth token'', ''CODEX_TOKEN='' @ k])"

definition addMissingProviders :: "machine \<Rightarrow> existing_env \<Rightarrow> (string + string) dialogue" where
  "addMissingProviders m env =
     (if \<not> mc_canWrite m then returnD (Inl ''failed to open .env: '')
      else
     bindD (add_offer (xe_syntheticKey env \<noteq> []) False collectSyntheticKey
       (\<lambda>k. [''# Synthetic API key (https://synthetic.new/settings/api)'', ''SYNTHETIC_API_KEY='' @ k]) []) (\<lambda>text.
     bindD (add_offer (xe_zaiKey env \<noteq> []) False collectZaiConfig
       (\<lambda>(k, url). [''# Z.ai API key (https://www.z.ai/api-keys)'', ''ZAI_API_KEY='' @ k, '''',
          ''# Z.ai base URL'', ''ZAI_BASE_URL='' @ url]) text) (\<lambda>text.
     bindD (add_anthropic m env text) (\<lambda>text.
     bindD (add_codex m env text) (\<lambda>text.
     bindD (add_offer (xe_openCodeEnabled env) (mc_openCodeFile m) (returnD ())
       (\<lambda>_. [''# OpenCode (opencode-codex) - reads ~/.local/share/opencode/auth.json (feeds Codex)'',
          ''OPENCODE_ENABLED=true'']) text) (\<lambda>text.
     bindD (add_offer (xe_antigravityEnabled env) False collectAntigravitySource
       (\<lambda>source. [''# Antigravity (Windsurf) - auto-detected from local process'', ''ANTIGRAVITY_ENABLED=true'',
          ''# Data source: both | cli (agy) | ide'', ''ANTIGRAVITY_SOURCE='' @ source]) text) (\<lambda>text.
     bindD (add_offer (xe_geminiEnabled env) (mc_geminiFile m) (returnD ())
       (\<lambda>_. [''# Gemini CLI - auto-detected from ~/.gemini/oauth_creds.json'', ''GEMINI_ENABLED=true'']) text) (\<lambda>text.
     bindD (add_offer (xe_grokEnabled env) (mc_grokCreds m) (returnD ())
       (\<lambda>_. [''# Grok (xAI) - auto-detected from ~/.grok/auth.json (or $GROK_HOME)'', ''GROK_ENABLED=true'']) text) (\<lambda>text.
     returnD (Inr text))))))))))"

text \<open>
  The run up to the question about starting automatically: the error or the contents of the \<open>.env\<close> file
  afterwards. \<open>file\<close> is the file that is there, if any, with its text if that can be read.
\<close>

definition runSetup :: "machine \<Rightarrow> string \<Rightarrow> string \<Rightarrow> string option option \<Rightarrow> (string + string option) dialogue" where
  "runSetup m stamp password file =
     (let fresh = bindD (freshSetup m password) (\<lambda>r. case r of
              Inl e \<Rightarrow> returnD (Inl e)
            | Inr cfg \<Rightarrow> if mc_canWrite m then returnD (Inr (Some (env_text stamp cfg)))
                         else returnD (Inl ''failed to write .env: ''))
      in if \<not> mc_canMakeDir m then returnD (Inl ''failed to create directories: '')
         else case file of
           None \<Rightarrow> fresh
         | Some data \<Rightarrow>
             (let existing = loadExistingEnv m data
              in if allProvidersConfigured existing then returnD (Inr data)
                 else if anyProviderConfigured existing then
                   bindD (addMissingProviders m existing) (\<lambda>r. case r of
                       Inl e \<Rightarrow> returnD (Inl e)
                     | Inr text \<Rightarrow> returnD (Inr (case data of Some old \<Rightarrow> Some (old @ text) | None \<Rightarrow> None)))
                 else fresh))"

subsection \<open>Prompts that return\<close>

lemma readLine_shorter: "length (snd (readLine (c # s))) < length (c # s)"
proof -
  have "length (tl (dropWhile P xs)) < length xs" if "xs \<noteq> []" for P and xs :: string
  proof -
    have "0 < length xs" using that by simp
    then show ?thesis using length_dropWhile_le [of P xs] by (simp only: length_tl)
  qed
  then show ?thesis unfolding readLine_def snd_conv by blast
qed

text \<open>The lines the prompts would read until the input is used up.\<close>

function input_lines :: "string \<Rightarrow> string list" where
  "input_lines [] = []"
| "input_lines (c # s) = fst (readLine (c # s)) # input_lines (snd (readLine (c # s)))"
  by pat_completeness auto

termination
  by (relation "measure length") (use readLine_shorter in auto)

lemma readLine_Nil: "readLine [] = ([], [])"
  by (simp add: readLine_def TrimSpace_def)

lemma ask_returns:
  "ask p inp \<noteq> None \<longleftrightarrow> p [] \<noteq> None \<or> (\<exists>l \<in> set (input_lines inp). p l \<noteq> None)"
proof
  show "p [] \<noteq> None \<or> (\<exists>l \<in> set (input_lines inp). p l \<noteq> None)" if ret: "ask p inp \<noteq> None"
  proof -
    obtain r where "ask p inp = Some r" using ret by blast
    then show ?thesis
    proof (rule ask.raw_induct [where P = "\<lambda>p inp r. p [] \<noteq> None \<or> (\<exists>l \<in> set (input_lines inp). p l \<noteq> None)", rotated])
      fix ask' p inp r
      assume IH: "\<And>p inp r. ask' p inp = Some r \<Longrightarrow> p [] \<noteq> None \<or> (\<exists>l \<in> set (input_lines inp). p l \<noteq> None)"
        and step: "(case readLine inp of (line, rest) \<Rightarrow> (case p line of Some x \<Rightarrow> Some (x, rest) | None \<Rightarrow> ask' p rest)) = Some r"
      show "p [] \<noteq> None \<or> (\<exists>l \<in> set (input_lines inp). p l \<noteq> None)"
        using step IH [of p "[]" r] IH [of p "snd (readLine inp)" r]
        by (cases inp) (auto simp: readLine_Nil split: option.splits prod.splits)
    qed
  qed
next
  have here: "ask p inp \<noteq> None" if "p [] \<noteq> None" for inp
  proof (induction inp rule: input_lines.induct)
    case 1
    then show ?case using that by (subst ask.simps) (auto simp: readLine_Nil)
  next
    case (2 c s)
    then show ?case by (subst ask.simps) (auto split: option.split prod.split)
  qed
  have there: "ask p inp \<noteq> None" if "l \<in> set (input_lines inp)" "p l \<noteq> None" for l inp
    using that(1)
  proof (induction inp rule: input_lines.induct)
    case (2 c s)
    then show ?case using that(2) by (subst ask.simps) (auto split: option.split prod.split)
  qed simp
  assume "p [] \<noteq> None \<or> (\<exists>l \<in> set (input_lines inp). p l \<noteq> None)"
  then show "ask p inp \<noteq> None" using here there by blast
qed

lemma prompt_takes:
  "not_empty l \<noteq> None \<longleftrightarrow> l \<noteq> []"
  "number_in lo hi l \<noteq> None \<longleftrightarrow> (\<exists>k. Atoi l = Some k \<and> lo \<le> k \<and> k \<le> hi)"
  "synthetic_key l \<noteq> None \<longleftrightarrow> HasPrefix l ''syn_''"
  "number_in lo hi [] = None" "synthetic_key [] = None"
  by (auto simp: not_empty_def number_in_def synthetic_key_def Atoi_def HasPrefix_def split: option.split)

text \<open>C33: which prompts return. Asking for a secret, a choice or the Synthetic key returns exactly if a line of the
  input is acceptable; when the input ends before, the loop never returns. The prompts for port and interval always
  return, since the empty line stands for an acceptable default. So the setup hangs on an empty input.\<close>

theorem setup_prompts:
  "(promptSecret inp \<noteq> None \<longleftrightarrow> (\<exists>l \<in> set (input_lines inp). l \<noteq> [])) \<and>
   (promptChoice n inp \<noteq> None \<longleftrightarrow> (\<exists>l \<in> set (input_lines inp). \<exists>k. Atoi l = Some k \<and> 1 \<le> k \<and> k \<le> int n)) \<and>
   (collectSyntheticKey inp \<noteq> None \<longleftrightarrow> (\<exists>l \<in> set (input_lines inp). HasPrefix l ''syn_'')) \<and>
   port_prompt inp \<noteq> None \<and> interval_prompt inp \<noteq> None \<and> freshSetup m password [] = None"
proof -
  have defaults: "number_in 1 65535 ''9211'' \<noteq> None" "number_in 10 3600 ''120'' \<noteq> None" by code_simp+
  have "promptChoice k [] = None" for k
    using ask_returns [of "number_in 1 (int k)" "[]"] by (simp add: promptChoice_def prompt_takes del: not_None_eq)
  then have "freshSetup m password [] = None" by (simp add: freshSetup_def bindD_def)
  moreover have "port_prompt inp \<noteq> None" "interval_prompt inp \<noteq> None"
    unfolding port_prompt_def interval_prompt_def ask_returns using defaults by (simp_all add: or_default_def)
  ultimately show ?thesis
    unfolding promptSecret_def promptChoice_def collectSyntheticKey_def ask_returns
    by (simp add: prompt_takes del: not_None_eq)
qed

text \<open>The first acceptable line of the dialogue for the key decides; a key of four or five characters panics.\<close>

lemma short_key_panics:
  "collectSyntheticKey ''syn_a'' = Some (Inl ''slice bounds out of range'', [])"
  by (subst collectSyntheticKey_def, subst ask.simps)
     (simp add: readLine_def TrimSpace_def is_space_def synthetic_key_def HasPrefix_def Let_def)

subsection \<open>What is written can be read back\<close>



















































end
