(* ===== verification/SessionMigration.thy ===== *)
theory SessionMigration
  imports Sessions SyntheticTracker ZaiTracker AnthropicTracker
begin

text \<open>
  The recomputation of sessions from stored snapshots (\<open>internal/store/store.go\<close>,
  \<open>MigrateSessionsToUsageBased\<close>), run once at the first start after an upgrade: the snapshots of three
  providers are walked in order and sessions are made of them as a session manager would have made them live.
\<close>

subsection \<open>The tables it uses\<close>

record migration_db =
  md_sessions :: "session_row tbl"
  md_settings :: "(string \<times> string) tbl"
  md_synthetic :: "Snapshot tbl"
  md_zai :: "zai_row tbl"
  md_anthropic :: "anthropic_snapshot tbl"

definition GetSetting :: "string \<Rightarrow> ((string \<times> string) tbl, string) op" where
  "GetSetting key = wrapE ''store.GetSetting: '' (db_stmt (\<lambda>t.
     (case map_of (db_rows t) key of Some v \<Rightarrow> v | None \<Rightarrow> [], t)))"

definition SetSetting :: "string \<Rightarrow> string \<Rightarrow> ((string \<times> string) tbl, unit) op" where
  "SetSetting key val = wrapE ''store.SetSetting: '' (db_stmt (\<lambda>t.
     ((), t\<lparr>db_rows := filter (\<lambda>r. fst r \<noteq> key) (db_rows t) @ [(key, val)]\<rparr>)))"

subsection \<open>Walking the snapshots\<close>

text \<open>The variables of a walk; \<open>'p\<close> is what is compared from snapshot to snapshot.\<close>

record 'p walker =
  wk_sessions :: "session_row tbl"
  wk_sessionID :: string
  wk_lastActivityTime :: time
  wk_prev :: "'p option"
  wk_count :: int
  wk_max :: "nat \<Rightarrow> f64"

definition new_walker :: "session_row tbl \<Rightarrow> 'p walker" where
  "new_walker t = \<lparr>wk_sessions = t, wk_sessionID = [], wk_lastActivityTime = zero_time, wk_prev = None, wk_count = 0,
     wk_max = (\<lambda>_. 0)\<rparr>"

abbreviation on_sessions :: "(session_row tbl, 'a) op \<Rightarrow> ('p walker, 'a) op" where
  "on_sessions \<equiv> liftE wk_sessions (\<lambda>t s. s\<lparr>wk_sessions := t\<rparr>)"

text \<open>The variables are cleared whether or not the statement succeeds.\<close>

definition walk_close :: "time \<Rightarrow> ('p walker, unit) op" where
  "walk_close endTime = withE (\<lambda>s.
     if wk_sessionID s = [] then returnE ()
     else (\<lambda>s. case on_sessions (db_stmt (\<lambda>t. ((), update_session (\<lambda>r. ss_ID r = wk_sessionID s)
            (\<lambda>r. r\<lparr>ss_EndedAt := Some endTime, ss_SnapshotCount := wk_count s, ss_MaxSub := wk_max s 0,
                   ss_MaxSearch := wk_max s 1, ss_MaxTool := wk_max s 2\<rparr>) t))) s of
          (r, s') \<Rightarrow> (r, s'\<lparr>wk_sessionID := [], wk_count := 0, wk_max := (\<lambda>_. 0)\<rparr>)))"

definition migrated_row :: "string \<Rightarrow> time \<Rightarrow> string \<Rightarrow> session_row" where
  "migrated_row i t provider = \<lparr>ss_ID = i, ss_StartedAt = t, ss_EndedAt = None, ss_PollInterval = 0, ss_MaxSub = 0,
     ss_MaxSearch = 0, ss_MaxTool = 0, ss_StartSub = 0, ss_StartSearch = 0, ss_StartTool = 0, ss_SnapshotCount = 0,
     ss_Provider = provider\<rparr>"

definition walk_insert :: "string \<Rightarrow> time \<Rightarrow> string \<Rightarrow> (session_row tbl, unit) op" where
  "walk_insert i t provider = withE (\<lambda>tb. if i \<in> ss_ID ` set (db_rows tb)
     then bindE (db_stmt (\<lambda>t. ((), t))) (\<lambda>_. failE ''UNIQUE constraint failed: sessions.id'')
     else db_stmt (\<lambda>tb. ((), tb\<lparr>db_rows := db_rows tb @ [migrated_row i t provider]\<rparr>)))"

text \<open>One snapshot: \<open>differ\<close> is the comparison with the last one, \<open>grow\<close> the update of the maxima.\<close>

definition walk_step ::
    "string \<Rightarrow> duration \<Rightarrow> ('p \<Rightarrow> 'p \<Rightarrow> bool) \<Rightarrow> ('p \<Rightarrow> (nat \<Rightarrow> f64) \<Rightarrow> nat \<Rightarrow> f64) \<Rightarrow> string \<times> time \<times> 'p \<Rightarrow> ('p walker, unit) op" where
  "walk_step provider idle differ grow = (\<lambda>(i, t, v). withE (\<lambda>s.
     case wk_prev s of
       None \<Rightarrow> modifyE (\<lambda>s. s\<lparr>wk_prev := Some v\<rparr>)
     | Some prev \<Rightarrow>
         thenE (modifyE (\<lambda>s. s\<lparr>wk_prev := Some v\<rparr>))
           (if differ v prev then
              thenE (if wk_sessionID s = []
                     then thenE (modifyE (\<lambda>s. s\<lparr>wk_sessionID := i, wk_lastActivityTime := t\<rparr>))
                            (on_sessions (walk_insert i t provider))
                     else returnE ())
                (modifyE (\<lambda>s. s\<lparr>wk_lastActivityTime := t, wk_count := wk_count s + 1, wk_max := grow v (wk_max s)\<rparr>))
            else if wk_sessionID s \<noteq> [] then
              (if idle < time_Sub t (wk_lastActivityTime s) then walk_close (time_Add (wk_lastActivityTime s) idle)
               else modifyE (\<lambda>s. s\<lparr>wk_count := wk_count s + 1\<rparr>))
            else returnE ())))"

text \<open>
  The whole walk, with the session that is still open closed at the end. Statements between the steps that only
  read can fail too (\<open>before\<close> each step and \<open>after\<close> the last).
\<close>

definition walk_all ::
    "string \<Rightarrow> duration \<Rightarrow> ('p \<Rightarrow> 'p \<Rightarrow> bool) \<Rightarrow> ('p \<Rightarrow> (nat \<Rightarrow> f64) \<Rightarrow> nat \<Rightarrow> f64) \<Rightarrow> (session_row tbl, unit) op \<Rightarrow>
     (session_row tbl, unit) op \<Rightarrow> (string \<times> time \<times> 'p) list \<Rightarrow> (session_row tbl, unit) op" where
  "walk_all provider idle differ grow before after rows t =
     (case thenE (forE (\<lambda>x. thenE (on_sessions before) (walk_step provider idle differ grow x)) rows)
             (thenE (on_sessions after) (withE (\<lambda>s. walk_close (time_Add (wk_lastActivityTime s) idle)))) (new_walker t) of
        (r, s) \<Rightarrow> (r, wk_sessions s))"

text \<open>The loop \<open>for i := 0; i < 3 && i < len(values); i++\<close>, and the ids made of the row number.\<close>

definition grow_values :: "f64 list \<Rightarrow> (nat \<Rightarrow> f64) \<Rightarrow> nat \<Rightarrow> f64" where
  "grow_values values m i = (if i < 3 \<and> i < length values \<and> m i < values ! i then values ! i else m i)"

definition numbered :: "string \<Rightarrow> (time \<times> f64 list) list \<Rightarrow> poll list" where
  "numbered provider rows =
     map (\<lambda>(n, t, v). (''migrated-'' @ provider @ ''-'' @ itoa (int n), t, v)) (zip [1..<Suc (length rows)] rows)"

definition walkSnapshots :: "(time \<times> f64 list) list \<Rightarrow> string \<Rightarrow> duration \<Rightarrow> (session_row tbl, unit) op" where
  "walkSnapshots rows provider idleTimeout =
     walk_all provider idleTimeout differs grow_values (returnE ()) (rows_err ()) (numbered provider rows)"

text \<open>A query of the snapshots in the order of their capture, and the walk over them.\<close>

definition with_rows ::
    "(migration_db \<Rightarrow> 'r tbl) \<Rightarrow> ('r tbl \<Rightarrow> migration_db \<Rightarrow> migration_db) \<Rightarrow> ('r \<Rightarrow> time) \<Rightarrow> ('r list \<Rightarrow> (migration_db, unit) op) \<Rightarrow>
     (migration_db, unit) op" where
  "with_rows part put col walk =
     bindE (liftE part put (db_stmt (\<lambda>t. (order_asc col (db_rows t), t)))) walk"

definition walk_in_db :: "(session_row tbl, unit) op \<Rightarrow> (migration_db, unit) op" where
  "walk_in_db = liftE md_sessions (\<lambda>t s. s\<lparr>md_sessions := t\<rparr>)"

definition migrateSyntheticSessions :: "duration \<Rightarrow> (migration_db, unit) op" where
  "migrateSyntheticSessions idle =
     with_rows md_synthetic (\<lambda>t s. s\<lparr>md_synthetic := t\<rparr>) sn_CapturedAt
       (\<lambda>rows. walk_in_db (walkSnapshots (map (\<lambda>r. (sn_CapturedAt r,
          [qi_Requests (sn_Sub r), qi_Requests (sn_Search r), qi_Requests (sn_ToolCall r)])) rows) ''synthetic'' idle))"

definition migrateZaiSessions :: "duration \<Rightarrow> (migration_db, unit) op" where
  "migrateZaiSessions idle =
     with_rows md_zai (\<lambda>t s. s\<lparr>md_zai := t\<rparr>) (\<lambda>r. zs_CapturedAt (snd r))
       (\<lambda>rows. walk_in_db (walkSnapshots (map (\<lambda>r. (zs_CapturedAt (snd r),
          [zs_TokensCurrentValue (snd r), zs_TimeCurrentValue (snd r)])) rows) ''zai'' idle))"

text \<open>
  Anthropic: the values of a snapshot are a Go map from quota names to utilizations, compared as maps. The maxima
  are taken in the order in which \<open>range\<close> happens to visit the map, which Go leaves open: \<open>visit\<close> gives the
  order for each snapshot.
\<close>

type_synonym util_dict = "(string \<times> f64) list"

definition dict_of :: "util_quota list \<Rightarrow> util_dict" where
  "dict_of qs = fold (\<lambda>q d. (uq_Name q, uq_Utilization q) # filter (\<lambda>e. fst e \<noteq> uq_Name q) d) qs []"

definition dict_differs :: "util_dict \<Rightarrow> util_dict \<Rightarrow> bool" where
  "dict_differs cur prev \<longleftrightarrow> length cur \<noteq> length prev \<or> list_ex (\<lambda>(k, v). map_of prev k \<noteq> Some v) cur"

definition migrateAnthropicSessions :: "(int \<Rightarrow> util_dict \<Rightarrow> util_dict) \<Rightarrow> duration \<Rightarrow> (migration_db, unit) op" where
  "migrateAnthropicSessions visit idle =
     bindE (liftE md_anthropic (\<lambda>t s. s\<lparr>md_anthropic := t\<rparr>)
        (bindE (db_stmt (\<lambda>t. (order_asc snap_CapturedAt (db_rows t), t))) rows_err)) (\<lambda>snaps.
     withE (\<lambda>db. walk_in_db (walk_all ''anthropic'' idle (\<lambda>cur prev. dict_differs (snd cur) (snd prev))
       (\<lambda>cur. grow_values (map snd (visit (fst cur) (snd cur)))) (db_stmt (\<lambda>t. ((), t))) (returnE ())
       (map (\<lambda>r. (''migrated-anthropic-'' @ itoa (snap_ID r), snap_CapturedAt r,
          (snap_ID r, dict_of (snap_values uq_Name (snap_ID r) (db_rows (md_anthropic db)))))) snaps))))"

definition MigrateSessionsToUsageBased :: "(int \<Rightarrow> util_dict \<Rightarrow> util_dict) \<Rightarrow> duration \<Rightarrow> (migration_db, unit) op" where
  "MigrateSessionsToUsageBased visit idle =
     bindE (wrapE ''store.MigrateSessionsToUsageBased: check flag: ''
        (liftE md_settings (\<lambda>t s. s\<lparr>md_settings := t\<rparr>) (GetSetting ''session_migration_v2''))) (\<lambda>done_flag.
     if done_flag = ''done'' then returnE ()
     else thenE (wrapE ''store.MigrateSessionsToUsageBased: delete sessions: ''
            (walk_in_db (db_stmt (\<lambda>t. ((), t\<lparr>db_rows := []\<rparr>)))))
       (thenE (wrapE ''store.MigrateSessionsToUsageBased: synthetic: '' (migrateSyntheticSessions idle))
       (thenE (wrapE ''store.MigrateSessionsToUsageBased: zai: '' (migrateZaiSessions idle))
       (thenE (wrapE ''store.MigrateSessionsToUsageBased: anthropic: '' (migrateAnthropicSessions visit idle))
         (wrapE ''store.MigrateSessionsToUsageBased: set flag: ''
            (liftE md_settings (\<lambda>t s. s\<lparr>md_settings := t\<rparr>) (SetSetting ''session_migration_v2'' ''done'')))))))"

subsection \<open>The same sessions as live\<close>







lemma run_on_sessions:
  "m (wk_sessions s) = (Inr x, t) \<Longrightarrow> liftE wk_sessions (\<lambda>t s. s\<lparr>wk_sessions := t\<rparr>) m s = (Inr x, s\<lparr>wk_sessions := t\<rparr>)"
  by (simp add: liftE_def)















end
