(* ===== verification/NetText.thy ===== *)
theory NetText
  imports AlertStore
begin

unbundle bit_operations_syntax

text \<open>
  What the web server uses of Go's library on text: splitting, the standard Base64 alphabet
  (\<open>encoding/base64\<close>), host and port (\<open>net.SplitHostPort\<close>), addresses
  (\<open>net.ParseIP\<close>, \<open>IP.To4\<close>, \<open>IP.IsLoopback\<close>) and networks
  (\<open>IPNet.Contains\<close>). A string is the list of its bytes.
\<close>

subsection \<open>Splitting\<close>

text \<open>\<open>strings.Split(s, sep)\<close> for a separator of one character; never an empty list.\<close>

fun split_char :: "char \<Rightarrow> string \<Rightarrow> string list" where
  "split_char c [] = [[]]"
| "split_char c (x # xs) =
     (if x = c then [] # split_char c xs
      else case split_char c xs of [] \<Rightarrow> [[x]] | p # ps \<Rightarrow> (x # p) # ps)"

text \<open>\<open>strings.SplitN(s, sep, 2)\<close>: the parts before and after the first separator, if there is one.\<close>

definition cut_char :: "char \<Rightarrow> string \<Rightarrow> (string \<times> string) option" where
  "cut_char c s = (case dropWhile (\<lambda>x. x \<noteq> c) s of [] \<Rightarrow> None | _ # rest \<Rightarrow> Some (takeWhile (\<lambda>x. x \<noteq> c) s, rest))"

lemma cut_char_append [simp]: "c \<notin> set u \<Longrightarrow> cut_char c (u @ c # v) = Some (u, v)"
  by (simp add: cut_char_def dropWhile_append takeWhile_append)

lemma split_char_ne [simp]: "split_char c s \<noteq> []"
  by (induction s) (auto split: list.splits)

lemma split_char_none: "c \<notin> set s \<Longrightarrow> split_char c s = [s]"
  by (induction s) auto

lemma split_char_append: "c \<notin> set u \<Longrightarrow> split_char c (u @ c # v) = u # split_char c v"
  by (induction u) auto

subsection \<open>Base64\<close>

text \<open>Values of the digits, four of them to three bytes. \<open>DecodeString\<close> skips line breaks, wants the
  text padded to whole groups and does not look at the bits a padded group drops.\<close>

definition b64_val :: "char \<Rightarrow> nat option" where
  "b64_val c = (let n = (of_char c :: nat) in
     if 65 \<le> n \<and> n \<le> 90 then Some (n - 65)
     else if 97 \<le> n \<and> n \<le> 122 then Some (n - 71)
     else if 48 \<le> n \<and> n \<le> 57 then Some (n + 4)
     else if n = 43 then Some 62 else if n = 47 then Some 63 else None)"

definition b64_char :: "nat \<Rightarrow> char" where
  "b64_char v = (if v < 26 then char_of (v + 65) else if v < 52 then char_of (v + 71)
     else if v < 62 then char_of (v - 4) else if v = 62 then CHR ''+'' else CHR 0x2F)"

fun b64_group :: "char \<Rightarrow> char \<Rightarrow> char \<Rightarrow> char \<Rightarrow> string option" where
  "b64_group a b c d =
     (case (b64_val a, b64_val b, b64_val c, b64_val d) of
        (Some w, Some x, Some y, Some z) \<Rightarrow>
          Some [char_of (4 * w + x div 16), char_of (16 * (x mod 16) + y div 4), char_of (64 * (y mod 4) + z)]
      | _ \<Rightarrow> None)"

fun b64_last :: "char \<Rightarrow> char \<Rightarrow> char \<Rightarrow> char \<Rightarrow> string option" where
  "b64_last a b c d =
     (if d \<noteq> CHR ''='' then b64_group a b c d
      else if c \<noteq> CHR ''='' then map_option (take 2) (b64_group a b c CHR ''A'')
      else map_option (take 1) (b64_group a b CHR ''A'' CHR ''A''))"

fun b64_groups :: "string \<Rightarrow> string option" where
  "b64_groups [] = Some []"
| "b64_groups [a, b, c, d] = b64_last a b c d"
| "b64_groups (a # b # c # d # s) =
     (case b64_group a b c d of None \<Rightarrow> None | Some x \<Rightarrow> map_option ((@) x) (b64_groups s))"
| "b64_groups _ = None"

definition b64_DecodeString :: "string \<Rightarrow> string option" where
  "b64_DecodeString s = b64_groups (filter (\<lambda>c. c \<noteq> CHR 0x0A \<and> c \<noteq> CHR 0x0D) s)"

fun b64_EncodeToString :: "string \<Rightarrow> string" where
  "b64_EncodeToString [] = []"
| "b64_EncodeToString [a] =
     (let m = (of_char a :: nat) in [b64_char (m div 4), b64_char (16 * (m mod 4)), CHR ''='', CHR ''=''])"
| "b64_EncodeToString [a, b] =
     (let m = (of_char a :: nat); n = of_char b
      in [b64_char (m div 4), b64_char (16 * (m mod 4) + n div 16), b64_char (4 * (n mod 16)), CHR ''=''])"
| "b64_EncodeToString (a # b # c # s) =
     (let m = (of_char a :: nat); n = of_char b; k = of_char c
      in [b64_char (m div 4), b64_char (16 * (m mod 4) + n div 16), b64_char (4 * (n mod 16) + k div 64), b64_char (k mod 64)]
         @ b64_EncodeToString s)"

lemma b64_val_char: "v < 64 \<Longrightarrow> b64_val (b64_char v) = Some v"
  by (auto simp: b64_val_def b64_char_def Let_def of_char_of)

lemma b64_char_ne: "v < 64 \<Longrightarrow> b64_char v \<noteq> CHR ''='' \<and> b64_char v \<noteq> CHR 0x0A \<and> b64_char v \<noteq> CHR 0x0D"
  using b64_val_char [of v] by (auto simp: b64_val_def Let_def)

lemma of_char_lt [simp]: "(of_char c :: nat) < 256"
  using nat_of_char_less_256 by blast

lemma digit_pair:
  fixes c :: nat
  assumes "r < c" shows "(c * q + r) div c = q" "(c * q + r) mod c = r"
  using assms by auto

lemma b64_group_bytes:
  "b64_group (b64_char (of_char a div 4)) (b64_char (16 * (of_char a mod 4) + of_char b div 16))
     (b64_char (4 * (of_char b mod 16) + of_char c div 64)) (b64_char (of_char c mod 64)) = Some [a, b, c]"
proof -
  define l m n where "l = (of_char a :: nat)" and "m = (of_char b :: nat)" and "n = (of_char c :: nat)"
  have lt: "l < 256" "m < 256" "n < 256" by (simp_all add: l_def m_def n_def)
  then have small: "m div 16 < 16" "n div 64 < 4" "l mod 4 < 4" "m mod 16 < 16" by auto
  have v: "l div 4 < 64" "16 * (l mod 4) + m div 16 < 64" "4 * (m mod 16) + n div 64 < 64" "n mod 64 < 64"
    using lt small by auto
  have eq: "4 * (l div 4) + (16 * (l mod 4) + m div 16) div 16 = l"
      "16 * ((16 * (l mod 4) + m div 16) mod 16) + (4 * (m mod 16) + n div 64) div 4 = m"
      "64 * ((4 * (m mod 16) + n div 64) mod 4) + n mod 64 = n"
    unfolding digit_pair [OF small(1)] digit_pair [OF small(2)] by simp_all
  show ?thesis
    unfolding b64_group.simps l_def [symmetric] m_def [symmetric] n_def [symmetric]
    by (simp only: b64_val_char v option.case prod.case eq) (simp add: l_def m_def n_def)
qed

lemma b64_groups_bytes:
  "b64_groups (b64_char (of_char a div 4) # b64_char (16 * (of_char a mod 4) + of_char b div 16) #
     b64_char (4 * (of_char b mod 16) + of_char c div 64) # b64_char (of_char c mod 64) # s) =
   map_option ((@) [a, b, c]) (b64_groups s)"
proof -
  have "b64_char (of_char c mod 64) \<noteq> CHR ''=''" by (rule conjunct1 [OF b64_char_ne]) simp
  then show ?thesis
    by (cases s) (simp_all only: b64_groups.simps b64_last.simps b64_group_bytes if_False if_True not_False_eq_True option.map
        option.case append_Nil2 simp_thms)
qed

lemma b64_small [simp]:
  "(of_char a :: nat) div 4 < 64" "16 * ((of_char a :: nat) mod 4) + of_char b div 16 < 64"
  "16 * ((of_char a :: nat) mod 4) < 64" "4 * ((of_char a :: nat) mod 16) + of_char b div 64 < 64"
  "4 * ((of_char a :: nat) mod 16) < 64" "(of_char a :: nat) mod 64 < 64"
proof -
  have lt: "(of_char c :: nat) < 256" for c by simp
  have q: "(of_char a :: nat) div 4 < 64" "(of_char b :: nat) div 16 < 16" "(of_char b :: nat) div 64 < 4"
    by (simp_all add: less_mult_imp_div_less lt)
  moreover have "(of_char a :: nat) mod 4 < 4" "(of_char a :: nat) mod 16 < 16" by simp_all
  ultimately show "(of_char a :: nat) div 4 < 64" "16 * ((of_char a :: nat) mod 4) + of_char b div 16 < 64"
    "16 * ((of_char a :: nat) mod 4) < 64" "4 * ((of_char a :: nat) mod 16) + of_char b div 64 < 64"
    "4 * ((of_char a :: nat) mod 16) < 64" "(of_char a :: nat) mod 64 < 64"
    by linarith+
qed

lemma b64_clean: "c \<in> set (b64_EncodeToString s) \<Longrightarrow> c \<noteq> CHR 0x0A \<and> c \<noteq> CHR 0x0D"
proof (induction s rule: b64_EncodeToString.induct)
  case (2 a)
  then show ?case by (auto simp: Let_def b64_char_ne)
next
  case (3 a b)
  then show ?case by (auto simp: Let_def b64_char_ne)
next
  case (4 a b c s)
  then show ?case by (auto simp: Let_def b64_char_ne)
qed simp

lemma b64_char_0: "b64_char 0 = CHR ''A''"
  by code_simp

theorem b64_roundtrip: "b64_DecodeString (b64_EncodeToString s) = Some s"
proof -
  have "b64_groups (b64_EncodeToString s) = Some s"
  proof (induction s rule: b64_EncodeToString.induct)
    case (2 a)
    have "b64_group (b64_char (of_char a div 4)) (b64_char (16 * (of_char a mod 4))) CHR ''A'' CHR ''A''
        = Some [a, CHR 0x00, CHR 0x00]"
      using b64_group_bytes [of a "CHR 0x00" "CHR 0x00"] by (simp add: b64_char_0 del: b64_group.simps)
    then show ?case by (simp add: Let_def del: b64_group.simps)
  next
    case (3 a b)
    have "b64_group (b64_char (of_char a div 4)) (b64_char (16 * (of_char a mod 4) + of_char b div 16))
        (b64_char (4 * (of_char b mod 16))) CHR ''A'' = Some [a, b, CHR 0x00]"
      using b64_group_bytes [of a b "CHR 0x00"] by (simp add: b64_char_0 del: b64_group.simps)
    then show ?case by (simp add: Let_def b64_char_ne del: b64_group.simps)
  next
    case (4 a b c s)
    then show ?case by (simp add: Let_def b64_groups_bytes del: b64_groups.simps)
  qed simp
  moreover have "filter (\<lambda>c. c \<noteq> CHR 0x0A \<and> c \<noteq> CHR 0x0D) (b64_EncodeToString s) = b64_EncodeToString s"
    using b64_clean by (auto intro: filter_True)
  ultimately show ?thesis by (simp add: b64_DecodeString_def)
qed

subsection \<open>Host and port\<close>

definition last_colon :: "string \<Rightarrow> (string \<times> string) option" where
  "last_colon s = map_option (\<lambda>(p, h). (rev h, rev p)) (cut_char CHR '':'' (rev s))"

text \<open>\<open>net.SplitHostPort\<close>: host and port, or \<open>None\<close> for its errors.\<close>

definition SplitHostPort :: "string \<Rightarrow> (string \<times> string) option" where
  "SplitHostPort s =
     (case last_colon s of
        None \<Rightarrow> None
      | Some (pre, port) \<Rightarrow>
          if take 1 s = ''['' then
            (case cut_char CHR '']'' s of
               None \<Rightarrow> None
             | Some (h, rest) \<Rightarrow>
                 if h @ '']'' \<noteq> pre then None
                 else if CHR ''['' \<in> set (drop 1 s) \<or> CHR '']'' \<in> set rest then None
                 else Some (drop 1 h, port))
          else if CHR '':'' \<in> set pre \<or> CHR ''['' \<in> set s \<or> CHR '']'' \<in> set s then None
          else Some (pre, port))"

subsection \<open>Addresses\<close>

text \<open>An address is its 16 bytes; version 4 addresses are mapped as \<open>IP.To16\<close> maps them.\<close>

type_synonym ip = "nat list"

definition v4_prefix :: ip where "v4_prefix = replicate 10 0 @ [255, 255]"

definition dec_digit :: "char \<Rightarrow> nat option" where
  "dec_digit c = (let n = (of_char c :: nat) in if 48 \<le> n \<and> n \<le> 57 then Some (n - 48) else None)"

definition hex_digit :: "char \<Rightarrow> nat option" where
  "hex_digit c = (let n = (of_char c :: nat) in
     if 48 \<le> n \<and> n \<le> 57 then Some (n - 48)
     else if 97 \<le> n \<and> n \<le> 102 then Some (n - 87)
     else if 65 \<le> n \<and> n \<le> 70 then Some (n - 55) else None)"

text \<open>A field of a dotted address: digits without a leading zero, at most 255.\<close>

definition v4_field :: "string \<Rightarrow> nat option" where
  "v4_field s =
     (if s \<noteq> [] \<and> list_all (\<lambda>c. dec_digit c \<noteq> None) s \<and> (take 1 s = ''0'' \<longrightarrow> s = ''0'') \<and> dec_value s \<le> 255
      then Some (dec_value s) else None)"

definition parse_v4 :: "string \<Rightarrow> nat list option" where
  "parse_v4 s = (case map v4_field (split_char CHR ''.'' s) of
     [Some a, Some b, Some c, Some d] \<Rightarrow> Some [a, b, c, d] | _ \<Rightarrow> None)"

text \<open>The loop of \<open>netip.parseIPv6\<close>: the bytes read so far and the place of the ellipsis among them.\<close>

definition hex_value :: "string \<Rightarrow> nat" where
  "hex_value s = foldl (\<lambda>a c. 16 * a + (case hex_digit c of None \<Rightarrow> 0 | Some d \<Rightarrow> d)) 0 s"

lemma dropWhile_two: "x # y # z = dropWhile P s \<Longrightarrow> length z < length s \<and> Suc (length z) < length s"
  using length_dropWhile_le [of P s] by (drule_tac arg_cong [where f = length]) simp

function v6_loop :: "string \<Rightarrow> ip \<Rightarrow> nat option \<Rightarrow> (ip \<times> nat option) option" where
  "v6_loop s out ell =
     (if 16 \<le> length out then (if s = [] then Some (out, ell) else None)
      else let digits = takeWhile (\<lambda>c. hex_digit c \<noteq> None) s; rest = dropWhile (\<lambda>c. hex_digit c \<noteq> None) s
      in if digits = [] \<or> 4 < length digits then None
         else if take 1 rest = ''.'' then
           (if ell = None \<and> length out \<noteq> 12 \<or> 12 < length out then None
            else map_option (\<lambda>f. (out @ f, ell)) (parse_v4 s))
         else let out' = out @ [hex_value digits div 256, hex_value digits mod 256]
         in case rest of
              [] \<Rightarrow> Some (out', ell)
            | [c] \<Rightarrow> None
            | c # c' # s' \<Rightarrow>
                if c \<noteq> CHR '':'' then None
                else if c' = CHR '':'' then
                  (if ell \<noteq> None then None
                   else if s' = [] then Some (out', Some (length out'))
                   else v6_loop s' out' (Some (length out')))
                else v6_loop (c' # s') out' ell)"
  by pat_completeness auto

termination
  by (relation "measure (\<lambda>(s, out, ell). length s)") (auto dest!: dropWhile_two)

declare v6_loop.simps [simp del]

definition parse_v6 :: "string \<Rightarrow> ip option" where
  "parse_v6 s =
     (if s = ''::'' then Some (replicate 16 0)
      else case (if take 2 s = ''::'' then v6_loop (drop 2 s) [] (Some 0) else v6_loop s [] None) of
        None \<Rightarrow> None
      | Some (out, None) \<Rightarrow> if length out = 16 then Some out else None
      | Some (out, Some k) \<Rightarrow>
          if 16 \<le> length out then None
          else Some (take k out @ replicate (16 - length out) 0 @ drop k out))"

text \<open>\<open>net.ParseIP\<close>: the first dot or colon decides; an address with a zone is refused.\<close>

definition ParseIP :: "string \<Rightarrow> ip option" where
  "ParseIP s =
     (case dropWhile (\<lambda>c. c \<noteq> CHR ''.'' \<and> c \<noteq> CHR '':'' \<and> c \<noteq> CHR ''%'') s of
        [] \<Rightarrow> None
      | c # _ \<Rightarrow>
          if c = CHR ''.'' then map_option (\<lambda>f. v4_prefix @ f) (parse_v4 s)
          else if c = CHR ''%'' \<or> CHR ''%'' \<in> set s then None else parse_v6 s)"

definition To4 :: "ip \<Rightarrow> nat list option" where
  "To4 a = (if length a = 4 then Some a
     else if length a = 16 \<and> take 12 a = v4_prefix then Some (drop 12 a) else None)"

definition IsLoopback :: "ip \<Rightarrow> bool" where
  "IsLoopback a = (case To4 a of Some f \<Rightarrow> hd f = 127 | None \<Rightarrow> a = replicate 15 0 @ [1])"

text \<open>\<open>IPNet.Contains\<close>, with the network number and mask as \<open>networkNumberAndMask\<close> pairs them.\<close>

record ipnet =
  net_IP :: ip
  net_Mask :: ip

definition net_number :: "ipnet \<Rightarrow> (ip \<times> ip) option" where
  "net_number n =
     (case (case To4 (net_IP n) of Some f \<Rightarrow> Some f | None \<Rightarrow> if length (net_IP n) = 16 then Some (net_IP n) else None) of
        None \<Rightarrow> None
      | Some a \<Rightarrow>
          if length (net_Mask n) = 4 then (if length a = 4 then Some (a, net_Mask n) else None)
          else if length (net_Mask n) = 16 then
            (if length a = 4 then Some (a, drop 12 (net_Mask n)) else Some (a, net_Mask n))
          else None)"

definition net_Contains :: "ipnet \<Rightarrow> ip \<Rightarrow> bool" where
  "net_Contains n a =
     (let x = (case To4 a of Some f \<Rightarrow> f | None \<Rightarrow> a)
      in case net_number n of
           None \<Rightarrow> False
         | Some (nn, m) \<Rightarrow> length x = length nn \<and> map2 (AND) nn m = map2 (AND) x m)"


text \<open>\<open>net.CIDRMask\<close> and \<open>net.ParseCIDR\<close>: the network, with an address of its own family.\<close>

definition CIDRMask :: "nat \<Rightarrow> nat \<Rightarrow> ip" where
  "CIDRMask ones bits =
     map (\<lambda>i. if 8 * (i + 1) \<le> ones then 255 else if ones \<le> 8 * i then 0 else 256 - 2 ^ (8 - (ones - 8 * i)))
       [0 ..< bits div 8]"

definition ParseCIDR :: "string \<Rightarrow> ipnet option" where
  "ParseCIDR s =
     (case cut_char CHR 0x2F s of
        None \<Rightarrow> None
      | Some (addr, len) \<Rightarrow>
          case ParseIP addr of
            None \<Rightarrow> None
          | Some a \<Rightarrow>
              let v4 = CHR '':'' \<notin> set addr; bits = (if v4 then 32 else 128); raw = (if v4 then drop 12 a else a)
              in if len = [] \<or> \<not> list_all (\<lambda>c. dec_digit c \<noteq> None) len \<or> bits < dec_value len then None
                 else let m = CIDRMask (dec_value len) bits
                      in Some \<lparr>net_IP = map2 (AND) raw m, net_Mask = m\<rparr>)"

end
