(* ===== verification/WebAuth.thy ===== *)
theory WebAuth
  imports NetText "HOL-Library.AList"
begin

text \<open>
  Authentication of the dashboard (\<open>internal/web/middleware.go\<close>, \<open>trusted_proxy.go\<close>,
  \<open>server.go\<close>, \<open>security.go\<close>, the login handlers of \<open>handlers.go\<close> and the tables
  \<open>auth_tokens\<close> and \<open>users\<close> of \<open>store.go\<close>). Go maps are association lists with distinct
  keys. SHA-256, bcrypt and the random tokens are arguments. A call reads the clock once, as the argument
  \<open>now\<close>, although the code reads it again after a few instructions.
\<close>

subsection \<open>Failed logins\<close>

abbreviation maxFailedAttempts :: int where "maxFailedAttempts \<equiv> 5"
abbreviation blockDuration :: duration where "blockDuration \<equiv> 5 * Minute"
abbreviation maxTrackedIPs :: int where "maxTrackedIPs \<equiv> 1000"

definition i32 :: "int \<Rightarrow> int" where
  "i32 n = (n + 2 ^ 31) mod 2 ^ 32 - 2 ^ 31"

record loginAttempt =
  la_failures :: int
  la_lastFail :: time
  la_blockedAt :: time

record LoginRateLimiter =
  lr_attempts :: "(string \<times> loginAttempt) list"
  lr_maxIPs :: int

definition NewLoginRateLimiter :: "int \<Rightarrow> LoginRateLimiter" where
  "NewLoginRateLimiter maxIPs = \<lparr>lr_attempts = [], lr_maxIPs = (if maxIPs \<le> 0 then maxTrackedIPs else maxIPs)\<rparr>"

text \<open>The test \<open>blockedAt > 0 && time.Duration(now-blockedAt) < blockDuration\<close>.\<close>

definition still_blocked :: "time \<Rightarrow> loginAttempt \<Rightarrow> bool" where
  "still_blocked now e \<longleftrightarrow> 0 < la_blockedAt e \<and> i64 (now - la_blockedAt e) < blockDuration"

text \<open>The loop over the map keeps the first of the entries with the least time of the last failure; the order of a Go
  map is random, here it is the order of the list.\<close>

fun oldest_entry :: "time \<Rightarrow> (string \<times> loginAttempt) list \<Rightarrow> string \<times> time \<Rightarrow> string \<times> time" where
  "oldest_entry now [] acc = acc"
| "oldest_entry now ((ip, e) # es) (oldestIP, oldestTime) =
     (if still_blocked now e then oldest_entry now es (oldestIP, oldestTime)
      else if oldestTime = -1 \<or> la_lastFail e < oldestTime then oldest_entry now es (ip, la_lastFail e)
      else oldest_entry now es (oldestIP, oldestTime))"

definition evictOldestEntry :: "time \<Rightarrow> LoginRateLimiter \<Rightarrow> LoginRateLimiter" where
  "evictOldestEntry now l =
     (let oldestIP = fst (oldest_entry now (lr_attempts l) ([], -1))
      in if oldestIP \<noteq> [] then l\<lparr>lr_attempts := AList.delete oldestIP (lr_attempts l)\<rparr> else l)"

definition RecordFailure :: "time \<Rightarrow> string \<Rightarrow> LoginRateLimiter \<Rightarrow> bool \<times> LoginRateLimiter" where
  "RecordFailure now ip l =
     (let (entry, l1) =
        (case map_of (lr_attempts l) ip of
           Some e \<Rightarrow> (e, l)
         | None \<Rightarrow> (\<lparr>la_failures = 0, la_lastFail = 0, la_blockedAt = 0\<rparr>,
                    if lr_maxIPs l \<le> int (length (lr_attempts l)) then evictOldestEntry now l else l));
          failures = i32 (la_failures entry + 1);
          entry1 = entry\<lparr>la_failures := failures, la_lastFail := now\<rparr>;
          entry2 = (if maxFailedAttempts \<le> failures \<and> la_blockedAt entry = 0 then entry1\<lparr>la_blockedAt := now\<rparr> else entry1)
      in (maxFailedAttempts \<le> failures, l1\<lparr>lr_attempts := AList.update ip entry2 (lr_attempts l1)\<rparr>))"

definition IsBlocked :: "time \<Rightarrow> string \<Rightarrow> LoginRateLimiter \<Rightarrow> bool \<times> LoginRateLimiter" where
  "IsBlocked now ip l =
     (case map_of (lr_attempts l) ip of
        None \<Rightarrow> (False, l)
      | Some e \<Rightarrow>
          if la_blockedAt e = 0 then (False, l)
          else if blockDuration \<le> i64 (now - la_blockedAt e)
          then (False, l\<lparr>lr_attempts := AList.update ip (e\<lparr>la_failures := 0, la_blockedAt := 0\<rparr>) (lr_attempts l)\<rparr>)
          else (True, l))"

definition limiter_Clear :: "string \<Rightarrow> LoginRateLimiter \<Rightarrow> LoginRateLimiter" where
  "limiter_Clear ip l = l\<lparr>lr_attempts := AList.delete ip (lr_attempts l)\<rparr>"

definition EvictStaleEntries :: "time \<Rightarrow> duration \<Rightarrow> LoginRateLimiter \<Rightarrow> LoginRateLimiter" where
  "EvictStaleEntries now maxAge l =
     (let cutoff = (if 0 < maxAge then i64 (now - maxAge) else 0)
      in l\<lparr>lr_attempts := filter (\<lambda>(ip, e). still_blocked now e \<or> \<not> (maxAge = 0 \<or> la_lastFail e < cutoff)) (lr_attempts l)\<rparr>)"

subsection \<open>Stored tokens and users\<close>

text \<open>
  The table of tokens has the expiry as RFC 3339 text, written in the time zone of the process: the row keeps the
  instant and the offset of the zone in minutes. The clean-up compares that text with the current time in UTC.
\<close>

record auth_row =
  at_Token :: string
  at_ExpiresAt :: time
  at_Zone :: int

definition two_digits :: "nat \<Rightarrow> string" where
  "two_digits n = [char_of (48 + n div 10), char_of (48 + n mod 10)]"

definition zone_text :: "int \<Rightarrow> string" where
  "zone_text z = (if z = 0 then ''Z''
     else (if 0 < z then CHR ''+'' else CHR ''-'') # two_digits (nat \<bar>z\<bar> div 60) @ '':'' @ two_digits (nat \<bar>z\<bar> mod 60))"

definition frac_zone :: "nat \<Rightarrow> string \<Rightarrow> string" where
  "frac_zone ns z =
     (if ns = 0 then z else ''.'' @ rev (dropWhile (\<lambda>c. c = CHR ''0'') (rev (digits9 9 ns))) @ z)"

definition local_key :: "time \<Rightarrow> int \<Rightarrow> int \<times> string" where
  "local_key t z = ((t + z * Minute) div Second, frac_zone (nat (t mod Second)) (zone_text z))"

lemma local_key_utc: "local_key t 0 = text_key t"
  by (simp add: local_key_def text_key_def frac_zone_def frac_text_def zone_text_def)

definition SaveAuthToken :: "int \<Rightarrow> string \<Rightarrow> time \<Rightarrow> (auth_row tbl, unit) op" where
  "SaveAuthToken zone token expiresAt = wrapE ''store.SaveAuthToken: '' (db_stmt (\<lambda>t. ((),
     t\<lparr>db_rows := filter (\<lambda>r. at_Token r \<noteq> token) (db_rows t) @
         [\<lparr>at_Token = token, at_ExpiresAt = expiresAt, at_Zone = zone\<rparr>]\<rparr>)))"

definition GetAuthTokenExpiry :: "string \<Rightarrow> (auth_row tbl, time option) op" where
  "GetAuthTokenExpiry token = wrapE ''store.GetAuthTokenExpiry: '' (db_stmt (\<lambda>t.
     (map_option at_ExpiresAt (find (\<lambda>r. at_Token r = token) (db_rows t)), t)))"

definition DeleteAuthToken :: "string \<Rightarrow> (auth_row tbl, unit) op" where
  "DeleteAuthToken token = wrapE ''store.DeleteAuthToken: '' (db_stmt (\<lambda>t. ((),
     t\<lparr>db_rows := filter (\<lambda>r. at_Token r \<noteq> token) (db_rows t)\<rparr>)))"

definition CleanExpiredAuthTokens :: "time \<Rightarrow> (auth_row tbl, unit) op" where
  "CleanExpiredAuthTokens now = wrapE ''store.CleanExpiredAuthTokens: '' (db_stmt (\<lambda>t. ((),
     t\<lparr>db_rows := filter (\<lambda>r. \<not> local_key (at_ExpiresAt r) (at_Zone r) < text_key now) (db_rows t)\<rparr>)))"

definition DeleteAllAuthTokens :: "(auth_row tbl, unit) op" where
  "DeleteAllAuthTokens = wrapE ''store.DeleteAllAuthTokens: '' (db_stmt (\<lambda>t. ((), t\<lparr>db_rows := []\<rparr>)))"

definition GetUser :: "string \<Rightarrow> ((string \<times> string) tbl, string) op" where
  "GetUser username = wrapE ''store.GetUser: '' (db_stmt (\<lambda>t.
     (case map_of (db_rows t) username of None \<Rightarrow> [] | Some h \<Rightarrow> h, t)))"

definition UpsertUser :: "string \<Rightarrow> string \<Rightarrow> ((string \<times> string) tbl, unit) op" where
  "UpsertUser username passwordHash = wrapE ''store.UpsertUser: '' (db_stmt (\<lambda>t. ((),
     t\<lparr>db_rows := filter (\<lambda>r. fst r \<noteq> username) (db_rows t) @ [(username, passwordHash)]\<rparr>)))"

subsection \<open>Passwords and session tokens\<close>

text \<open>The hashes used: the SHA-256 of a text in hexadecimal, and whether bcrypt accepts a password for a hash.\<close>

record hashes =
  h_sha256 :: "string \<Rightarrow> string"
  h_bcrypt :: "string \<Rightarrow> string \<Rightarrow> bool"

definition IsLegacyHash :: "string \<Rightarrow> bool" where
  "IsLegacyHash hash \<longleftrightarrow> length hash = 64 \<and> list_all (\<lambda>c. hex_digit c \<noteq> None) hash"

definition CheckPasswordHash :: "hashes \<Rightarrow> string \<Rightarrow> string \<Rightarrow> bool" where
  "CheckPasswordHash cr password hash = h_bcrypt cr password hash"

definition password_ok :: "hashes \<Rightarrow> string \<Rightarrow> string \<Rightarrow> bool" where
  "password_ok cr storedHash password =
     (if IsLegacyHash storedHash then h_sha256 cr password = storedHash else CheckPasswordHash cr password storedHash)"

abbreviation sessionMaxAge :: int where "sessionMaxAge \<equiv> 7 * 24 * 3600"

record SessionStore =
  wss_tokens :: "(string \<times> time) list"
  wss_username :: string
  wss_passwordHash :: string
  wss_store :: "auth_row tbl option"

text \<open>Statements whose error is dropped, as long as there is a store.\<close>

definition tok_do :: "(auth_row tbl, 'a) op \<Rightarrow> SessionStore \<Rightarrow> SessionStore" where
  "tok_do m s = s\<lparr>wss_store := map_option (ignoreE m) (wss_store s)\<rparr>"

definition NewSessionStore :: "time \<Rightarrow> string \<Rightarrow> string \<Rightarrow> auth_row tbl option \<Rightarrow> SessionStore" where
  "NewSessionStore now username passwordHash db =
     tok_do (CleanExpiredAuthTokens now)
       \<lparr>wss_tokens = [], wss_username = username, wss_passwordHash = passwordHash, wss_store = db\<rparr>"

text \<open>\<open>token\<close> is what \<open>generateToken\<close> returns.\<close>

definition Authenticate ::
    "hashes \<Rightarrow> time \<Rightarrow> int \<Rightarrow> string \<Rightarrow> string \<Rightarrow> string \<Rightarrow> SessionStore \<Rightarrow> string option \<times> SessionStore" where
  "Authenticate cr now zone token username password s =
     (if username \<noteq> wss_username s then (None, s)
      else if \<not> password_ok cr (wss_passwordHash s) password then (None, s)
      else let expiry = time_Add now (sessionMaxAge * Second)
           in (Some token, tok_do (SaveAuthToken zone token expiry)
                 (s\<lparr>wss_tokens := AList.update token expiry (wss_tokens s)\<rparr>)))"

definition ValidateToken :: "time \<Rightarrow> string \<Rightarrow> SessionStore \<Rightarrow> bool \<times> SessionStore" where
  "ValidateToken now token s =
     (if token = [] then (False, s)
      else case map_of (wss_tokens s) token of
        Some expiry \<Rightarrow>
          if time_After now expiry
          then (False, tok_do (DeleteAuthToken token) (s\<lparr>wss_tokens := AList.delete token (wss_tokens s)\<rparr>))
          else (True, s)
      | None \<Rightarrow>
          (case wss_store s of
             None \<Rightarrow> (False, s)
           | Some db \<Rightarrow>
               (case GetAuthTokenExpiry token db of
                  (Inr (Some dbExpiry), db') \<Rightarrow>
                    let s' = s\<lparr>wss_store := Some db'\<rparr>
                    in if time_After now dbExpiry then (False, tok_do (DeleteAuthToken token) s')
                       else (True, s'\<lparr>wss_tokens := AList.update token dbExpiry (wss_tokens s)\<rparr>)
                | (_, db') \<Rightarrow> (False, s\<lparr>wss_store := Some db'\<rparr>))))"

definition Invalidate :: "string \<Rightarrow> SessionStore \<Rightarrow> SessionStore" where
  "Invalidate token s = tok_do (DeleteAuthToken token) (s\<lparr>wss_tokens := AList.delete token (wss_tokens s)\<rparr>)"

definition UpdatePassword :: "string \<Rightarrow> SessionStore \<Rightarrow> SessionStore" where
  "UpdatePassword newHash s = s\<lparr>wss_passwordHash := newHash\<rparr>"

definition InvalidateAll :: "SessionStore \<Rightarrow> SessionStore" where
  "InvalidateAll s = tok_do DeleteAllAuthTokens (s\<lparr>wss_tokens := []\<rparr>)"

definition evict_expired :: "time \<Rightarrow> string \<times> time \<Rightarrow> SessionStore \<Rightarrow> SessionStore" where
  "evict_expired now te s =
     (if time_After now (snd te)
      then tok_do (DeleteAuthToken (fst te)) (s\<lparr>wss_tokens := AList.delete (fst te) (wss_tokens s)\<rparr>) else s)"

definition EvictExpiredTokens :: "time \<Rightarrow> SessionStore \<Rightarrow> SessionStore" where
  "EvictExpiredTokens now s = fold (evict_expired now) (wss_tokens s) s"

subsection \<open>Requests\<close>

text \<open>
  A request as the handlers see it: the header fields under their canonical names and the cookies in the order sent,
  the values of the query, and those of the form if it could be parsed.
\<close>

record web_request =
  rq_Method :: string
  rq_Path :: string
  rq_RemoteAddr :: string
  rq_Header :: "(string \<times> string) list"
  rq_Cookies :: "(string \<times> string) list"
  rq_Query :: "(string \<times> string) list"
  rq_Form :: "(string \<times> string) list option"

text \<open>\<open>textproto.CanonicalMIMEHeaderKey\<close>: a name with other characters than those of a token stays as it is.\<close>

definition token_char :: "char \<Rightarrow> bool" where
  "token_char c \<longleftrightarrow> (let n = (of_char c :: nat) in 48 \<le> n \<and> n \<le> 57 \<or> 65 \<le> n \<and> n \<le> 90 \<or> 97 \<le> n \<and> n \<le> 122) \<or>
     c \<in> set ''!#$%&*+-.^_`|~'' \<or> c = CHR 0x27"

fun canonical_words :: "bool \<Rightarrow> string \<Rightarrow> string" where
  "canonical_words up [] = []"
| "canonical_words up (c # cs) = (if up then upper_char c else lower_char c) # canonical_words (c = CHR ''-'') cs"

definition CanonicalKey :: "string \<Rightarrow> string" where
  "CanonicalKey s = (if list_all token_char s then canonical_words True s else s)"

definition header_Values :: "string \<Rightarrow> web_request \<Rightarrow> string list" where
  "header_Values k r = map snd (filter (\<lambda>h. fst h = CanonicalKey k) (rq_Header r))"

definition header_Get :: "string \<Rightarrow> web_request \<Rightarrow> string" where
  "header_Get k r = (case header_Values k r of [] \<Rightarrow> [] | v # _ \<Rightarrow> v)"

definition request_Cookie :: "string \<Rightarrow> web_request \<Rightarrow> string option" where
  "request_Cookie name r = map_of (rq_Cookies r) name"

text \<open>\<open>net.SplitHostPort(r.RemoteAddr)\<close>, or the whole text if that fails.\<close>

definition remote_host :: "web_request \<Rightarrow> string" where
  "remote_host r = (case SplitHostPort (rq_RemoteAddr r) of Some (h, _) \<Rightarrow> h | None \<Rightarrow> rq_RemoteAddr r)"

definition getClientIP :: "web_request \<Rightarrow> string" where
  "getClientIP r =
     (let xff = header_Get ''X-Forwarded-For'' r; xri = header_Get ''X-Real-Ip'' r
      in if xff \<noteq> [] then TrimSpace (hd (split_char CHR '','' xff))
         else if xri \<noteq> [] then xri
         else remote_host r)"

definition isLoopbackRequest :: "web_request \<Rightarrow> bool" where
  "isLoopbackRequest r = (case ParseIP (remote_host r) of None \<Rightarrow> False | Some a \<Rightarrow> IsLoopback a)"

definition isLocalMenubarPublicPath :: "string \<Rightarrow> bool" where
  "isLocalMenubarPublicPath path \<longleftrightarrow> path \<in> {''/menubar'', ''/api/menubar/summary'', ''/api/menubar/preferences'',
     ''/api/menubar/refresh'', ''/api/menubar/tray-title''}"

definition isStaticAsset :: "string \<Rightarrow> string \<Rightarrow> bool" where
  "isStaticAsset bp path \<longleftrightarrow>
     HasPrefix path (bp @ ''/static/'') \<or> path = bp @ ''/sw.js'' \<or> path = bp @ ''/manifest.json''"

definition extractCredentials :: "web_request \<Rightarrow> (string \<times> string) option" where
  "extractCredentials r =
     (let authHeader = header_Get ''Authorization'' r
      in if \<not> HasPrefix authHeader ''Basic '' then None
         else let encoded = drop 6 authHeader
              in if encoded = [] then None
                 else case b64_DecodeString encoded of
                        None \<Rightarrow> None | Some decoded \<Rightarrow> cut_char CHR '':'' decoded)"

subsection \<open>The trusted proxy\<close>

record TrustedProxyAuth =
  tp_cidrs :: "ipnet list"
  tp_userHeader :: string

definition NewTrustedProxyAuth :: "ipnet list \<Rightarrow> string \<Rightarrow> TrustedProxyAuth option" where
  "NewTrustedProxyAuth cidrs userHeader =
     (let h = TrimSpace userHeader
      in if cidrs = [] \<or> h = [] then None else Some \<lparr>tp_cidrs = cidrs, tp_userHeader = h\<rparr>)"

definition TrustedUser :: "TrustedProxyAuth option \<Rightarrow> web_request \<Rightarrow> string option" where
  "TrustedUser tp r =
     (case tp of
        None \<Rightarrow> None
      | Some t \<Rightarrow>
          (case ParseIP (remote_host r) of
             None \<Rightarrow> None
           | Some a \<Rightarrow>
               if \<not> list_ex (\<lambda>n. net_Contains n a) (tp_cidrs t) then None
               else case header_Values (tp_userHeader t) r of
                      [v] \<Rightarrow> let user = TrimSpace v in if user = [] then None else Some user
                    | _ \<Rightarrow> None))"

text \<open>The entries of the configuration; a single address is a network of its own.\<close>

fun ParseTrustedProxyCIDRs :: "string list \<Rightarrow> string + ipnet list" where
  "ParseTrustedProxyCIDRs [] = Inr []"
| "ParseTrustedProxyCIDRs (e # es) =
     (let entry = TrimSpace e
      in if entry = [] then ParseTrustedProxyCIDRs es
         else case ParseCIDR entry of
           Some n \<Rightarrow> map_sum id ((#) n) (ParseTrustedProxyCIDRs es)
         | None \<Rightarrow>
             (case ParseIP entry of
                None \<Rightarrow> Inl (''invalid trusted proxy CIDR or IP: '' @ CHR 0x22 # entry @ [CHR 0x22])
              | Some a \<Rightarrow>
                  let bits = (if To4 a = None then 128 else 32)
                  in map_sum id ((#) \<lparr>net_IP = a, net_Mask = CIDRMask bits bits\<rparr>) (ParseTrustedProxyCIDRs es)))"

subsection \<open>The chain in front of the routes\<close>

text \<open>What a layer does with a request: hand it to the next one, redirect it, or answer it with a status and a body.\<close>

datatype reply = Next | Redirect string | Answer int string

definition json_text :: "string \<Rightarrow> string" where "json_text s = CHR 0x22 # s @ [CHR 0x22]"

definition unauthorized_body :: "string \<Rightarrow> string" where
  "unauthorized_body bp = ''{'' @ json_text ''error'' @ '':'' @ json_text ''unauthorized'' @ '','' @
     json_text ''login'' @ '':'' @ json_text (bp @ ''/login'') @ ''}''"

definition sessionAuth ::
    "hashes \<Rightarrow> time \<Rightarrow> string \<Rightarrow> TrustedProxyAuth option \<Rightarrow> web_request \<Rightarrow> SessionStore \<Rightarrow> reply \<times> SessionStore" where
  "sessionAuth cr now bp tp r s =
     (let path = rq_Path r
      in if isStaticAsset bp path then (Next, s)
         else if path = bp @ ''/login'' \<or> path = bp @ ''/metrics'' then (Next, s)
         else if isLocalMenubarPublicPath path \<and> isLoopbackRequest r then (Next, s)
         else if TrustedUser tp r \<noteq> None then (Next, s)
         else
           let (valid, s') = (case request_Cookie ''onwatch_session'' r of
                                None \<Rightarrow> (False, s) | Some v \<Rightarrow> ValidateToken now v s)
           in if valid then (Next, s')
              else if HasPrefix path (bp @ ''/api/'') then
                (case extractCredentials r of
                   Some (u, p) \<Rightarrow>
                     if u = wss_username s' \<and> password_ok cr (wss_passwordHash s') p then (Next, s')
                     else (Answer 401 (unauthorized_body bp), s')
                 | None \<Rightarrow> (Answer 401 (unauthorized_body bp), s'))
              else (Redirect (bp @ ''/login''), s'))"

definition basicAuth :: "string \<Rightarrow> string \<Rightarrow> web_request \<Rightarrow> reply" where
  "basicAuth username password r =
     (if isStaticAsset [] (rq_Path r) then Next
      else case extractCredentials r of
             None \<Rightarrow> Answer 401 ''Unauthorized''
           | Some (u, p) \<Rightarrow> if u \<noteq> username \<or> p \<noteq> password then Answer 401 ''Unauthorized'' else Next)"

definition csrfMiddleware :: "string \<Rightarrow> web_request \<Rightarrow> reply" where
  "csrfMiddleware bp r =
     (if rq_Method r \<noteq> ''GET'' \<and> rq_Method r \<noteq> ''HEAD'' \<and> rq_Path r \<noteq> bp @ ''/login'' \<and> rq_Path r \<noteq> bp @ ''/logout'' \<and>
         header_Get ''X-Requested-With'' r = []
      then Answer 403 ''missing required header'' else Next)"

definition metricsAuth :: "string \<Rightarrow> web_request \<Rightarrow> reply" where
  "metricsAuth token r =
     (let auth = header_Get ''Authorization'' r
      in if \<not> HasPrefix auth ''Bearer '' then Answer 401 ''unauthorized''
         else if drop 7 auth \<noteq> token then Answer 401 ''unauthorized''
         else Next)"

text \<open>The handler \<open>NewServer\<close> builds: the check against forged requests outside, then the authentication if
  there are credentials (compression and fixed headers do not decide anything).\<close>

definition web_chain ::
    "hashes \<Rightarrow> time \<Rightarrow> string \<Rightarrow> TrustedProxyAuth option \<Rightarrow> web_request \<Rightarrow> SessionStore option \<Rightarrow> reply \<times> SessionStore option" where
  "web_chain cr now bp tp r so =
     (case csrfMiddleware bp r of
        Next \<Rightarrow>
          (case so of
             None \<Rightarrow> (Next, None)
           | Some s \<Rightarrow> (let (a, s') = sessionAuth cr now bp tp r s in (a, Some s')))
      | a \<Rightarrow> (a, so))"


subsection \<open>Login and logout\<close>

record web_config =
  wc_BasePath :: string
  wc_SecureCookies :: bool
  wc_Host :: string

record web =
  wb_sessions :: "SessionStore option"
  wb_limiter :: "LoginRateLimiter option"

record web_cookie =
  ck_Value :: string
  ck_Path :: string
  ck_MaxAge :: int
  ck_Expires :: "time option"
  ck_HttpOnly :: bool
  ck_Secure :: bool
  ck_SameSiteStrict :: bool

record page =
  pg_reply :: reply
  pg_cookie :: "web_cookie option"
  pg_RetryAfter :: "string option"

abbreviation plain :: "reply \<Rightarrow> page" where
  "plain a \<equiv> \<lparr>pg_reply = a, pg_cookie = None, pg_RetryAfter = None\<rparr>"

definition cookie_path :: "string \<Rightarrow> string" where
  "cookie_path bp = (if bp \<noteq> [] then bp @ ''/'' else ''/'')"

definition form_value :: "string \<Rightarrow> (string \<times> string) list \<Rightarrow> string" where
  "form_value k f = (case map_of f k of None \<Rightarrow> [] | Some v \<Rightarrow> v)"

definition loginErrors :: "string \<Rightarrow> string" where
  "loginErrors code =
     (if code = ''invalid'' then ''Invalid username or password''
      else if code = ''expired'' then ''Session expired, please log in again''
      else if code = ''required'' then ''Authentication required''
      else if code = ''ratelimit'' then ''Too many login attempts. Please try again later.'' else [])"

definition login_url :: "string \<Rightarrow> string \<Rightarrow> string" where
  "login_url bp code = bp @ ''/login?error='' @ code"

definition limiter_blocked :: "time \<Rightarrow> string \<Rightarrow> web \<Rightarrow> bool \<times> web" where
  "limiter_blocked now ip w =
     (case wb_limiter w of
        None \<Rightarrow> (False, w)
      | Some l \<Rightarrow> (let (b, l') = IsBlocked now ip l in (b, w\<lparr>wb_limiter := Some l'\<rparr>)))"

definition loginPost :: "hashes \<Rightarrow> web_config \<Rightarrow> time \<Rightarrow> int \<Rightarrow> string \<Rightarrow> web_request \<Rightarrow> web \<Rightarrow> page \<times> web" where
  "loginPost cr cf now zone token r w =
     (let bp = wc_BasePath cf; ip = getClientIP r; (blocked, w1) = limiter_blocked now ip w
      in if blocked then ((plain (Redirect (login_url bp ''ratelimit'')))\<lparr>pg_RetryAfter := Some ''300''\<rparr>, w1)
         else case rq_Form r of
           None \<Rightarrow> (plain (Redirect (login_url bp ''invalid'')), w1)
         | Some form \<Rightarrow>
             (case wb_sessions w1 of
                None \<Rightarrow> (plain (Redirect (login_url bp ''required'')), w1)
              | Some s \<Rightarrow>
                  (case Authenticate cr now zone token (form_value ''username'' form) (form_value ''password'' form) s of
                     (None, s') \<Rightarrow>
                       let w2 = w1\<lparr>wb_sessions := Some s'\<rparr>
                       in (case wb_limiter w2 of
                             None \<Rightarrow> (plain (Redirect (login_url bp ''invalid'')), w2)
                           | Some l \<Rightarrow>
                               let (b, l') = RecordFailure now ip l
                               in ((plain (Redirect (login_url bp ''invalid'')))
                                     \<lparr>pg_RetryAfter := (if b then Some ''300'' else None)\<rparr>,
                                   w2\<lparr>wb_limiter := Some l'\<rparr>))
                   | (Some tok, s') \<Rightarrow>
                       (\<lparr>pg_reply = Redirect (bp @ ''/''),
                         pg_cookie = Some \<lparr>ck_Value = tok, ck_Path = cookie_path bp, ck_MaxAge = sessionMaxAge,
                           ck_Expires = Some (time_Add now (sessionMaxAge * Second)), ck_HttpOnly = True,
                           ck_Secure = (wc_SecureCookies cf \<or> wc_Host cf \<noteq> [] \<and> wc_Host cf \<noteq> ''0.0.0.0'' \<and>
                             wc_Host cf \<noteq> ''127.0.0.1''), ck_SameSiteStrict = True\<rparr>,
                         pg_RetryAfter = None\<rparr>,
                        w1\<lparr>wb_sessions := Some s', wb_limiter := map_option (limiter_Clear ip) (wb_limiter w1)\<rparr>))))"

text \<open>A valid session cookie.\<close>

definition logged_in :: "time \<Rightarrow> web_request \<Rightarrow> web \<Rightarrow> bool \<times> web" where
  "logged_in now r w =
     (case (request_Cookie ''onwatch_session'' r, wb_sessions w) of
        (Some v, Some s) \<Rightarrow> (let (b, s') = ValidateToken now v s in (b, w\<lparr>wb_sessions := Some s'\<rparr>))
      | _ \<Rightarrow> (False, w))"

text \<open>The page with the form is answered with the text of its error; its rendering is left out.\<close>

definition Login :: "hashes \<Rightarrow> web_config \<Rightarrow> time \<Rightarrow> int \<Rightarrow> string \<Rightarrow> web_request \<Rightarrow> web \<Rightarrow> page \<times> web" where
  "Login cr cf now zone token r w =
     (let (valid, w1) = logged_in now r w
      in if valid then (plain (Redirect (wc_BasePath cf @ ''/'')), w1)
         else if rq_Method r = ''POST'' then loginPost cr cf now zone token r w1
         else (plain (Answer 200 (loginErrors (form_value ''error'' (rq_Query r)))), w1))"

definition Logout :: "web_config \<Rightarrow> web_request \<Rightarrow> web \<Rightarrow> page \<times> web" where
  "Logout cf r w =
     (\<lparr>pg_reply = Redirect (wc_BasePath cf @ ''/login''),
       pg_cookie = Some \<lparr>ck_Value = [], ck_Path = cookie_path (wc_BasePath cf), ck_MaxAge = -1, ck_Expires = None,
         ck_HttpOnly = False, ck_Secure = False, ck_SameSiteStrict = False\<rparr>,
       pg_RetryAfter = None\<rparr>,
      case (request_Cookie ''onwatch_session'' r, wb_sessions w) of
        (Some v, Some s) \<Rightarrow> w\<lparr>wb_sessions := Some (Invalidate v s)\<rparr>
      | _ \<Rightarrow> w)"

end
