(* ===== verification/Secrets.thy ===== *)
theory Secrets
  imports WebAuth
begin

text \<open>
  The password of the mail server: how it is encrypted (\<open>internal/notify/crypto.go\<close>,
  \<open>internal/web/crypto.go\<close>), saved with the settings (\<open>Handler.UpdateSettings\<close>), read by the mailer
  (\<open>NotificationEngine.ConfigureSMTP\<close>) and encrypted anew when the password of the dashboard changes. The
  cipher (AES-GCM), SHA-256 and HKDF are arguments; random bytes are arguments too, \<open>None\<close> if they cannot be had.
  The row of the setting \<open>smtp\<close> is kept as the document its JSON text encodes.
\<close>

subsection \<open>Keys and ciphertexts\<close>

definition hex_char :: "nat \<Rightarrow> char" where
  "hex_char n = (if n < 10 then char_of (48 + n) else char_of (87 + n))"

fun hex_EncodeToString :: "string \<Rightarrow> string" where
  "hex_EncodeToString [] = []"
| "hex_EncodeToString (c # s) = hex_char (of_char c div 16) # hex_char (of_char c mod 16) # hex_EncodeToString s"

fun hex_DecodeString :: "string \<Rightarrow> string option" where
  "hex_DecodeString [] = Some []"
| "hex_DecodeString [c] = None"
| "hex_DecodeString (c # d # s) =
     (case (hex_digit c, hex_digit d, hex_DecodeString s) of
        (Some m, Some n, Some t) \<Rightarrow> Some (char_of (16 * m + n) # t) | _ \<Rightarrow> None)"

lemma hex_digit_char: "n < 16 \<Longrightarrow> hex_digit (hex_char n) = Some n"
  by (auto simp: hex_digit_def hex_char_def Let_def of_char_of)

theorem hex_roundtrip [simp]: "hex_DecodeString (hex_EncodeToString s) = Some s"
proof (induction s)
  case (Cons c s)
  have "(of_char c :: nat) div 16 < 16" by (simp add: less_mult_imp_div_less)
  then show ?case using Cons by (simp add: hex_digit_char)
qed simp

record ciphers =
  cf_seal :: "string \<Rightarrow> string \<Rightarrow> string \<Rightarrow> string \<Rightarrow> string"
  cf_open :: "string \<Rightarrow> string \<Rightarrow> string \<Rightarrow> string \<Rightarrow> string option"
  cf_hkdf :: "string \<Rightarrow> string \<Rightarrow> string"

definition Encrypt :: "ciphers \<Rightarrow> string option \<Rightarrow> string \<Rightarrow> string \<Rightarrow> string \<Rightarrow> string + string" where
  "Encrypt cf random plaintext keyHex aad =
     (case hex_DecodeString keyHex of
        None \<Rightarrow> Inl ''notify.Encrypt: invalid key hex''
      | Some key \<Rightarrow>
          if length key \<noteq> 32 then Inl (''notify.Encrypt: key must be 32 bytes, got '' @ itoa (int (length key)))
          else case random of
                 None \<Rightarrow> Inl ''notify.Encrypt: ''
               | Some nonce \<Rightarrow> Inr (b64_EncodeToString (nonce @ cf_seal cf key nonce plaintext aad)))"

definition Decrypt :: "ciphers \<Rightarrow> string \<Rightarrow> string \<Rightarrow> string \<Rightarrow> string + string" where
  "Decrypt cf encoded keyHex aad =
     (case hex_DecodeString keyHex of
        None \<Rightarrow> Inl ''notify.Decrypt: invalid key hex''
      | Some key \<Rightarrow>
          if length key \<noteq> 32 then Inl (''notify.Decrypt: key must be 32 bytes, got '' @ itoa (int (length key)))
          else case b64_DecodeString encoded of
                 None \<Rightarrow> Inl ''notify.Decrypt: invalid base64''
               | Some data \<Rightarrow>
                   if length data < 12 then Inl ''notify.Decrypt: ciphertext too short''
                   else case cf_open cf key (take 12 data) (drop 12 data) aad of
                          None \<Rightarrow> Inl ''notify.Decrypt: '' | Some p \<Rightarrow> Inr p)"

definition IsEncryptedValue :: "string \<Rightarrow> bool" where
  "IsEncryptedValue s \<longleftrightarrow> HasPrefix s ''enc:''"

definition EncryptForStorage :: "ciphers \<Rightarrow> string option \<Rightarrow> string \<Rightarrow> string \<Rightarrow> string + string" where
  "EncryptForStorage cf random plaintext keyHex = map_sum id ((@) ''enc:'') (Encrypt cf random plaintext keyHex [])"

definition DecryptFromStorage :: "ciphers \<Rightarrow> string \<Rightarrow> string \<Rightarrow> string + string" where
  "DecryptFromStorage cf stored keyHex =
     (if \<not> HasPrefix stored ''enc:'' then Inr stored else Decrypt cf (drop 4 stored) keyHex [])"

text \<open>\<open>salt\<close> is the salt given, or the one of the package if none is.\<close>

definition DeriveEncryptionKey :: "hashes \<Rightarrow> ciphers \<Rightarrow> string \<Rightarrow> string option \<Rightarrow> string" where
  "DeriveEncryptionKey cr cf passwordHash salt =
     (case salt of
        None \<Rightarrow> if length passwordHash = 64 then passwordHash else h_sha256 cr passwordHash
      | Some sl \<Rightarrow> hex_EncodeToString (cf_hkdf cf passwordHash sl))"

subsection \<open>The saved settings of the mail server\<close>

datatype json = JStr string | JNum int | JNull | JOther string

datatype stored = NoDoc string | Doc "(string \<times> json) list"

record smtp_settings =
  sj_Host :: string
  sj_Port :: int
  sj_Protocol :: string
  sj_Username :: string
  sj_Password :: string
  sj_FromAddress :: string
  sj_FromName :: string
  sj_To :: string

definition smtp_doc :: "smtp_settings \<Rightarrow> stored" where
  "smtp_doc s = Doc [(''host'', JStr (sj_Host s)), (''port'', JNum (sj_Port s)), (''protocol'', JStr (sj_Protocol s)),
     (''username'', JStr (sj_Username s)), (''password'', JStr (sj_Password s)), (''from_address'', JStr (sj_FromAddress s)),
     (''from_name'', JStr (sj_FromName s)), (''to'', JStr (sj_To s))]"

text \<open>Decoding into the fields of a struct: a missing field or \<open>null\<close> leaves the zero value, another type is an
  error. (Matching of keys in another case is left out; the program writes them as above.)\<close>

definition str_field :: "(string \<times> json) list \<Rightarrow> string \<Rightarrow> string option" where
  "str_field d k = (case map_of d k of None \<Rightarrow> Some [] | Some JNull \<Rightarrow> Some [] | Some (JStr s) \<Rightarrow> Some s | _ \<Rightarrow> None)"

definition num_field :: "(string \<times> json) list \<Rightarrow> string \<Rightarrow> int option" where
  "num_field d k = (case map_of d k of None \<Rightarrow> Some 0 | Some JNull \<Rightarrow> Some 0 | Some (JNum n) \<Rightarrow> Some n | _ \<Rightarrow> None)"

definition smtp_of_doc :: "stored \<Rightarrow> smtp_settings option" where
  "smtp_of_doc v =
     (case v of
        NoDoc _ \<Rightarrow> None
      | Doc d \<Rightarrow>
          (case (str_field d ''host'', num_field d ''port'', str_field d ''protocol'', str_field d ''username'') of
             (Some h, Some p, Some pr, Some u) \<Rightarrow>
               (case (str_field d ''password'', str_field d ''from_address'', str_field d ''from_name'', str_field d ''to'') of
                  (Some pw, Some fa, Some fnm, Some t) \<Rightarrow>
                    Some \<lparr>sj_Host = h, sj_Port = p, sj_Protocol = pr, sj_Username = u, sj_Password = pw,
                          sj_FromAddress = fa, sj_FromName = fnm, sj_To = t\<rparr>
                | _ \<Rightarrow> None)
           | _ \<Rightarrow> None))"

lemma smtp_doc_roundtrip [simp]: "smtp_of_doc (smtp_doc s) = Some s"
  by (simp add: smtp_of_doc_def smtp_doc_def str_field_def num_field_def)

text \<open>\<open>GetSetting("smtp")\<close> and \<open>SetSetting("smtp", ...)\<close>; without a row the value is the empty text.\<close>

definition get_smtp :: "(stored tbl, stored option) op" where
  "get_smtp = wrapE ''store.GetSetting: '' (db_stmt (\<lambda>t.
     (case db_rows t of [] \<Rightarrow> None | v # _ \<Rightarrow> if v = NoDoc [] then None else Some v, t)))"

definition set_smtp :: "stored \<Rightarrow> (stored tbl, unit) op" where
  "set_smtp v = wrapE ''store.SetSetting: '' (db_stmt (\<lambda>t. ((), t\<lparr>db_rows := [v]\<rparr>)))"

lemma run_get_smtp: "healthy t \<Longrightarrow> get_smtp t = (Inr (case db_rows t of [] \<Rightarrow> None | v # _ \<Rightarrow> if v = NoDoc [] then None else Some v), t)"
  by (simp add: get_smtp_def runs run_db_stmt)

lemma run_set_smtp: "healthy t \<Longrightarrow> set_smtp v t = (Inr (), t\<lparr>db_rows := [v]\<rparr>)"
  by (simp add: set_smtp_def runs run_db_stmt)


subsection \<open>Reading them\<close>

record smtp_config =
  sc_Host :: string
  sc_Port :: int
  sc_Username :: string
  sc_Password :: string
  sc_Protocol :: string
  sc_FromAddr :: string
  sc_FromName :: string
  sc_ToAddrs :: "string list"

record smtp_engine =
  se_smtp :: "stored tbl"
  se_mailer :: "smtp_config option"
  se_key :: string
  se_legacy :: string

definition onSmtp :: "(stored tbl, 'a) op \<Rightarrow> (smtp_engine, 'a) op" where
  "onSmtp = liftE se_smtp (\<lambda>t e. e\<lparr>se_smtp := t\<rparr>)"

text \<open>The password for the mailer: decrypted with the current key; or with the old one, and then saved again under
  the current key; or as it is.\<close>

definition smtp_password :: "ciphers \<Rightarrow> string option \<Rightarrow> smtp_settings \<Rightarrow> smtp_engine \<Rightarrow> string \<times> smtp_engine" where
  "smtp_password cf random s e =
     (let password = sj_Password s
      in if se_key e \<noteq> [] \<and> 24 < length password then
           (case Decrypt cf password (se_key e) [] of
              Inr d \<Rightarrow> (d, e)
            | Inl _ \<Rightarrow>
                if se_legacy e \<noteq> [] \<and> se_legacy e \<noteq> se_key e then
                  (case Decrypt cf password (se_legacy e) [] of
                     Inl _ \<Rightarrow> (password, e)
                   | Inr legacyPlaintext \<Rightarrow>
                       (legacyPlaintext,
                        case Encrypt cf random legacyPlaintext (se_key e) [] of
                          Inl _ \<Rightarrow> e
                        | Inr reEncrypted \<Rightarrow>
                            ignoreE (onSmtp (set_smtp (smtp_doc (s\<lparr>sj_Password := reEncrypted\<rparr>)))) e))
                else (password, e))
         else (password, e))"

definition to_addresses :: "string \<Rightarrow> string list" where
  "to_addresses t = filter (\<lambda>a. a \<noteq> []) (map TrimSpace (split_char CHR '','' t))"

definition ConfigureSMTP :: "ciphers \<Rightarrow> string option \<Rightarrow> (smtp_engine, unit) op" where
  "ConfigureSMTP cf random =
     bindE (wrapE ''notify.ConfigureSMTP: '' (onSmtp get_smtp)) (\<lambda>v.
       case v of
         None \<Rightarrow> modifyE (\<lambda>e. e\<lparr>se_mailer := None\<rparr>)
       | Some d \<Rightarrow>
           (case smtp_of_doc d of
              None \<Rightarrow> failE ''notify.ConfigureSMTP: invalid smtp JSON: ''
            | Some s \<Rightarrow>
                if sj_Host s = [] then modifyE (\<lambda>e. e\<lparr>se_mailer := None\<rparr>)
                else modifyE (\<lambda>e.
                  let (password, e') = smtp_password cf random s e
                  in e'\<lparr>se_mailer := Some \<lparr>sc_Host = sj_Host s, sc_Port = (if sj_Port s = 0 then 587 else sj_Port s),
                        sc_Username = sj_Username s, sc_Password = password, sc_Protocol = sj_Protocol s,
                        sc_FromAddr = sj_FromAddress s, sc_FromName = sj_FromName s,
                        sc_ToAddrs = to_addresses (sj_To s)\<rparr>\<rparr>)))"

subsection \<open>Saving them\<close>

text \<open>The regular expression for addresses: a name, one at sign, a domain that ends in a dot and at least two letters.\<close>

definition letter :: "char \<Rightarrow> bool" where
  "letter c \<longleftrightarrow> (let n = (of_char c :: nat) in 65 \<le> n \<and> n \<le> 90 \<or> 97 \<le> n \<and> n \<le> 122)"

definition word_char :: "string \<Rightarrow> char \<Rightarrow> bool" where
  "word_char extra c \<longleftrightarrow> letter c \<or> dec_digit c \<noteq> None \<or> c \<in> set extra"

definition email_ok :: "string \<Rightarrow> bool" where
  "email_ok s =
     (case cut_char CHR ''@'' s of
        None \<Rightarrow> False
      | Some (name, domain) \<Rightarrow>
          name \<noteq> [] \<and> list_all (word_char ''._%+-'') name \<and> list_all (word_char ''.-'') domain \<and>
          (case cut_char CHR ''.'' (rev domain) of
             None \<Rightarrow> False
           | Some (tld, rest) \<Rightarrow> 2 \<le> length tld \<and> list_all letter tld \<and> rest \<noteq> []))"

definition existing_password :: "stored option \<Rightarrow> string" where
  "existing_password v =
     (case v of Some (Doc d) \<Rightarrow> (case map_of d ''password'' of Some (JStr p) \<Rightarrow> p | _ \<Rightarrow> []) | _ \<Rightarrow> [])"

text \<open>The part of \<open>Handler.UpdateSettings\<close> for the mail server: status and text of the answer if it is an
  error. \<open>passwordHash\<close> is that of the session store.\<close>

definition smtp_invalid :: "smtp_settings \<Rightarrow> string option" where
  "smtp_invalid smtp =
     (if sj_Port smtp < 0 \<or> 65535 < sj_Port smtp then Some ''SMTP port must be between 1 and 65535''
      else if sj_Protocol smtp \<notin> {''auto'', ''tls'', ''starttls'', ''none'', []}
      then Some ''SMTP protocol must be auto, tls, starttls, or none''
      else if sj_FromAddress smtp \<noteq> [] \<and> \<not> email_ok (sj_FromAddress smtp) then Some ''invalid from address''
      else if sj_To smtp = [] then None
      else map_option ((@) ''invalid recipient address: '') (find (\<lambda>a. \<not> email_ok a) (to_addresses (sj_To smtp))))"

definition save_smtp ::
    "hashes \<Rightarrow> ciphers \<Rightarrow> string option \<Rightarrow> string option \<Rightarrow> string option \<Rightarrow> string \<Rightarrow> smtp_settings \<Rightarrow> smtp_engine \<Rightarrow> (int \<times> string) option \<times> smtp_engine" where
  "save_smtp cr cf random random2 salt passwordHash smtp0 e =
     (case smtp_invalid smtp0 of
        Some msg \<Rightarrow> (Some (400, msg), e)
      | None \<Rightarrow>
          let (smtp, e1) =
                (if sj_Password smtp0 = [] then
                   (case onSmtp get_smtp e of
                      (Inr v, e') \<Rightarrow> (smtp0\<lparr>sj_Password := existing_password v\<rparr>, e')
                    | (Inl _, e') \<Rightarrow> (smtp0, e'))
                 else (smtp0, e));
              saved = (if sj_Password smtp \<noteq> [] \<and> \<not> IsEncryptedValue (sj_Password smtp)
                       then Encrypt cf random (sj_Password smtp) (DeriveEncryptionKey cr cf passwordHash salt) []
                       else Inr (sj_Password smtp))
          in case saved of
               Inl _ \<Rightarrow> (Some (500, ''failed to encrypt SMTP password''), e1)
             | Inr password \<Rightarrow>
                 (case onSmtp (set_smtp (smtp_doc (smtp\<lparr>sj_Password := password\<rparr>))) e1 of
                    (Inl _, e2) \<Rightarrow> (Some (500, ''failed to save SMTP settings''), e2)
                  | (Inr _, e2) \<Rightarrow> (None, ignoreE (ConfigureSMTP cf random2) e2)))"

definition reEncryptSMTPPassword :: "ciphers \<Rightarrow> string option \<Rightarrow> string \<Rightarrow> string \<Rightarrow> (stored tbl, unit) op" where
  "reEncryptSMTPPassword cf random oldKey newKey t =
     (case get_smtp t of
        (Inl _, t1) \<Rightarrow> (Inr (), t1)
      | (Inr None, t1) \<Rightarrow> (Inr (), t1)
      | (Inr (Some (NoDoc _)), t1) \<Rightarrow> (Inl ''failed to parse SMTP settings: '', t1)
      | (Inr (Some (Doc d)), t1) \<Rightarrow>
          (case map_of d ''password'' of
             Some (JStr encryptedPass) \<Rightarrow>
               let save = (\<lambda>new. wrapE ''failed to save SMTP settings: ''
                             (set_smtp (Doc (AList.update ''password'' (JStr new) d))) t1)
               in if encryptedPass = [] then (Inr (), t1)
                  else if \<not> IsEncryptedValue encryptedPass then
                    (case Encrypt cf random encryptedPass newKey [] of
                       Inl e \<Rightarrow> (Inl (''failed to encrypt SMTP password: '' @ e), t1)
                     | Inr new \<Rightarrow> save new)
                  else (case Decrypt cf encryptedPass oldKey [] of
                          Inl e \<Rightarrow>
                            (case Decrypt cf encryptedPass newKey [] of
                               Inr _ \<Rightarrow> (Inr (), t1)
                             | Inl _ \<Rightarrow> (Inl (''failed to decrypt SMTP password with old key: '' @ e), t1))
                        | Inr plaintext \<Rightarrow>
                            (case Encrypt cf random plaintext newKey [] of
                               Inl e \<Rightarrow> (Inl (''failed to re-encrypt SMTP password: '' @ e), t1)
                             | Inr new \<Rightarrow> save new))
           | _ \<Rightarrow> (Inr (), t1)))"

text \<open>The errors are returned by the name of the setting.\<close>

definition ReEncryptAllData ::
    "hashes \<Rightarrow> ciphers \<Rightarrow> string option \<Rightarrow> string option \<Rightarrow> string \<Rightarrow> string \<Rightarrow> stored tbl \<Rightarrow> (string \<times> string) list \<times> stored tbl" where
  "ReEncryptAllData cr cf random salt oldPasswordHash newPasswordHash t =
     (let oldKey = DeriveEncryptionKey cr cf oldPasswordHash salt; newKey = DeriveEncryptionKey cr cf newPasswordHash salt
      in if oldKey = newKey then ([], t)
         else case reEncryptSMTPPassword cf random oldKey newKey t of
                (Inl e, t') \<Rightarrow> ([(''smtp'', e)], t') | (Inr _, t') \<Rightarrow> ([], t'))"


subsection \<open>Properties\<close>

lemma b64_encode_length: "length s \<le> length (b64_EncodeToString s)"
  by (induction s rule: b64_EncodeToString.induct) (auto simp: Let_def intro: le_SucI)

lemma marked_no_base64:
  assumes "IsEncryptedValue s" shows "b64_DecodeString s = None"
proof -
  obtain t where s: "s = ''enc:'' @ t"
    using assms by (metis IsEncryptedValue_def HasPrefix_def append_take_drop_id)
  let ?u = "filter (\<lambda>c. c \<noteq> CHR 0x0A \<and> c \<noteq> CHR 0x0D) t"
  have v: "b64_val CHR '':'' = None" by code_simp
  have "b64_groups (CHR ''e'' # CHR ''n'' # CHR ''c'' # CHR '':'' # ?u) = None"
    by (cases ?u) (simp_all add: v split: option.split)
  then show ?thesis by (simp add: s b64_DecodeString_def)
qed

text \<open>What the cipher is relied on for: an authentic ciphertext opens to its plaintext, and it is 16 bytes longer.\<close>

definition cipher_ok :: "ciphers \<Rightarrow> bool" where
  "cipher_ok cf \<longleftrightarrow> (\<forall>k n p a. cf_open cf k n (cf_seal cf k n p a) a = Some p \<and> length (cf_seal cf k n p a) = length p + 16)"

definition key_ok :: "string \<Rightarrow> bool" where
  "key_ok keyHex \<longleftrightarrow> (case hex_DecodeString keyHex of None \<Rightarrow> False | Some k \<Rightarrow> length k = 32)"

lemma key_ok_ne: "key_ok k \<Longrightarrow> k \<noteq> []"
  by (auto simp: key_ok_def)

lemma Encrypt_Decrypt:
  assumes "cipher_ok cf" "key_ok keyHex" "length nonce = 12"
  obtains c where "Encrypt cf (Some nonce) p keyHex a = Inr c" "Decrypt cf c keyHex a = Inr p"
    "length p + 28 \<le> length c" "\<not> IsEncryptedValue c"
proof -
  obtain k where k: "hex_DecodeString keyHex = Some k" "length k = 32"
    using assms(2) by (auto simp: key_ok_def split: option.splits)
  let ?d = "nonce @ cf_seal cf k nonce p a"
  let ?c = "b64_EncodeToString ?d"
  have "Encrypt cf (Some nonce) p keyHex a = Inr ?c" by (simp add: Encrypt_def k)
  moreover have "Decrypt cf ?c keyHex a = Inr p"
    using assms(1,3) by (simp add: Decrypt_def k b64_roundtrip cipher_ok_def)
  moreover have "length p + 28 \<le> length ?c"
    using b64_encode_length [of ?d] assms(1,3) by (simp add: cipher_ok_def)
  moreover have "\<not> IsEncryptedValue ?c"
    using marked_no_base64 [of ?c] b64_roundtrip [of ?d] by auto
  ultimately show thesis by (rule that)
qed

lemma smtp_doc_ne: "smtp_doc s \<noteq> NoDoc []"
  by (simp add: smtp_doc_def)

lemma existing_doc [simp]: "existing_password (Some (smtp_doc s)) = sj_Password s"
  by (simp add: existing_password_def smtp_doc_def)

definition mailer_of :: "smtp_settings \<Rightarrow> string \<Rightarrow> smtp_config" where
  "mailer_of s password = \<lparr>sc_Host = sj_Host s, sc_Port = (if sj_Port s = 0 then 587 else sj_Port s),
     sc_Username = sj_Username s, sc_Password = password, sc_Protocol = sj_Protocol s,
     sc_FromAddr = sj_FromAddress s, sc_FromName = sj_FromName s, sc_ToAddrs = to_addresses (sj_To s)\<rparr>"

text \<open>Configuring from a saved document whose password the current key opens.\<close>

lemma configure_saved:
  assumes "healthy (se_smtp e)" "db_rows (se_smtp e) = [smtp_doc (s\<lparr>sj_Password := c\<rparr>)]" "sj_Host s \<noteq> []"
    and "se_key e \<noteq> []" "24 < length c" "Decrypt cf c (se_key e) [] = Inr p"
  shows "ConfigureSMTP cf r e = (Inr (), e\<lparr>se_mailer := Some (mailer_of s p)\<rparr>)"
  using assms
  by (simp add: ConfigureSMTP_def onSmtp_def liftE_def bindE_def wrapE_def run_get_smtp smtp_doc_ne
      modifyE_def smtp_password_def Let_def mailer_of_def)

text \<open>Saving on a store that answers: the password kept or given is what is encrypted and handed to the mailer.\<close>

lemma save_run:
  assumes ok: "cipher_ok cf" "key_ok (se_key e)" "length nonce = 12" "healthy (se_smtp e)"
    and key: "se_key e = DeriveEncryptionKey cr cf hash salt"
    and s: "smtp_invalid s = None" "sj_Host s \<noteq> []"
    and pw: "pw = (if sj_Password s = [] then existing_password (case db_rows (se_smtp e) of [] \<Rightarrow> None | v # _ \<Rightarrow> Some v)
                   else sj_Password s)" "pw \<noteq> []" "\<not> IsEncryptedValue pw"
  obtains c where "Encrypt cf (Some nonce) pw (se_key e) [] = Inr c" "Decrypt cf c (se_key e) [] = Inr pw"
    "length pw + 28 \<le> length c" "\<not> IsEncryptedValue c"
    "save_smtp cr cf (Some nonce) r salt hash s e =
       (None, e\<lparr>se_smtp := (se_smtp e)\<lparr>db_rows := [smtp_doc (s\<lparr>sj_Password := c\<rparr>)]\<rparr>, se_mailer := Some (mailer_of s pw)\<rparr>)"
proof -
  obtain c where c: "Encrypt cf (Some nonce) pw (se_key e) [] = Inr c" "Decrypt cf c (se_key e) [] = Inr pw"
      "length pw + 28 \<le> length c" "\<not> IsEncryptedValue c"
    using Encrypt_Decrypt [OF ok(1-3)] by metis
  let ?e = "e\<lparr>se_smtp := (se_smtp e)\<lparr>db_rows := [smtp_doc (s\<lparr>sj_Password := c\<rparr>)]\<rparr>\<rparr>"
  have conf: "ConfigureSMTP cf r ?e = (Inr (), ?e\<lparr>se_mailer := Some (mailer_of s pw)\<rparr>)"
    by (rule configure_saved) (use ok s c key_ok_ne in \<open>auto simp: healthy_def\<close>)
  have old: "existing_password (case db_rows (se_smtp e) of [] \<Rightarrow> None | v # _ \<Rightarrow> if v = NoDoc [] then None else Some v) =
      existing_password (case db_rows (se_smtp e) of [] \<Rightarrow> None | v # _ \<Rightarrow> Some v)"
    by (simp add: existing_password_def split: list.split)
  have given: "(if sj_Password s = [] then (case onSmtp get_smtp e of
         (Inr v, e') \<Rightarrow> (s\<lparr>sj_Password := existing_password v\<rparr>, e') | (Inl _, e') \<Rightarrow> (s, e')) else (s, e))
      = (s\<lparr>sj_Password := pw\<rparr>, e)"
    using ok(4) pw(1) old by (simp add: onSmtp_def liftE_def run_get_smtp)
  have stored: "onSmtp (set_smtp v) e = (Inr (), e\<lparr>se_smtp := (se_smtp e)\<lparr>db_rows := [v]\<rparr>\<rparr>)" for v
    using ok(4) by (simp add: onSmtp_def liftE_def run_set_smtp)
  have "save_smtp cr cf (Some nonce) r salt hash s e = (None, ?e\<lparr>se_mailer := Some (mailer_of s pw)\<rparr>)"
    unfolding save_smtp_def s(1) option.case given Let_def prod.case
    using pw(2,3) by (simp add: c(1) key [symmetric] stored ignoreE_def conf)
  with c show thesis by (intro that) simp_all
qed


text \<open>A cipher that has these properties (and no others), settings and an engine to apply the theorems to.\<close>

definition toy_cipher :: ciphers where
  "toy_cipher = \<lparr>cf_seal = \<lambda>k n p a. p @ replicate 16 CHR ''#'',
     cf_open = \<lambda>k n c a. Some (take (length c - 16) c), cf_hkdf = \<lambda>h sl. take 32 (h @ replicate 32 CHR ''k'')\<rparr>"

definition toy_hashes :: hashes where
  "toy_hashes = \<lparr>h_sha256 = \<lambda>s. take 64 (s @ replicate 64 CHR ''0''), h_bcrypt = \<lambda>p h. h = ''b:'' @ p\<rparr>"

definition sample_smtp :: smtp_settings where
  "sample_smtp = \<lparr>sj_Host = ''mail.example.org'', sj_Port = 0, sj_Protocol = ''auto'', sj_Username = ''u'',
     sj_Password = ''secret'', sj_FromAddress = ''a@b.org'', sj_FromName = [], sj_To = ''a@b.org, c.d@e.io''\<rparr>"

definition sample_engine :: smtp_engine where
  "sample_engine = \<lparr>se_smtp = empty_tbl, se_mailer = None,
     se_key = DeriveEncryptionKey toy_hashes toy_cipher ''b:pw'' (Some ''salt''), se_legacy = []\<rparr>"

lemma toy_cipher_ok: "cipher_ok toy_cipher"
  by (simp add: cipher_ok_def toy_cipher_def)

lemma sample_facts:
  "key_ok (se_key sample_engine)" "length ''123456789012'' = 12" "healthy (se_smtp sample_engine)"
  "smtp_invalid sample_smtp = None" "sj_Host sample_smtp \<noteq> []" "sj_Password sample_smtp \<noteq> []"
  "\<not> IsEncryptedValue (sj_Password sample_smtp)"
  by code_simp+



text \<open>C38: saving the settings again without typing the password, which is meant to keep it, encrypts the stored
  ciphertext once more, so that the mailer gets a ciphertext as its password from then on.\<close>

theorem smtp_resave:
  assumes "cipher_ok cf" "key_ok (se_key e)" "length nonce = 12" "length nonce2 = 12" "healthy (se_smtp e)"
    and "se_key e = DeriveEncryptionKey cr cf hash salt" "smtp_invalid s = None" "sj_Host s \<noteq> []"
    and "sj_Password s \<noteq> []" "\<not> IsEncryptedValue (sj_Password s)"
    and "smtp_invalid s2 = None" "sj_Host s2 \<noteq> []" "sj_Password s2 = []"
  shows "let e1 = snd (save_smtp cr cf (Some nonce) r salt hash s e);
             (err, e2) = save_smtp cr cf (Some nonce2) r2 salt hash s2 e1
         in err = None \<and> (\<exists>c. Decrypt cf c (se_key e) [] = Inr (sj_Password s) \<and> c \<noteq> sj_Password s \<and>
              se_mailer e2 = Some (mailer_of s2 c))"
proof -
  obtain c where c: "Decrypt cf c (se_key e) [] = Inr (sj_Password s)" "length (sj_Password s) + 28 \<le> length c"
      "\<not> IsEncryptedValue c"
    and save: "save_smtp cr cf (Some nonce) r salt hash s e = (None, e\<lparr>se_smtp := (se_smtp e)\<lparr>db_rows :=
        [smtp_doc (s\<lparr>sj_Password := c\<rparr>)]\<rparr>, se_mailer := Some (mailer_of s (sj_Password s))\<rparr>)"
    using save_run [OF assms(1-3,5-8), where pw = "sj_Password s" and r = r and thesis = thesis] assms(9,10) by auto
  define e1 where "e1 = e\<lparr>se_smtp := (se_smtp e)\<lparr>db_rows := [smtp_doc (s\<lparr>sj_Password := c\<rparr>)]\<rparr>,
      se_mailer := Some (mailer_of s (sj_Password s))\<rparr>"
  have e1: "key_ok (se_key e1)" "healthy (se_smtp e1)" "se_key e1 = DeriveEncryptionKey cr cf hash salt"
      "db_rows (se_smtp e1) = [smtp_doc (s\<lparr>sj_Password := c\<rparr>)]"
    using assms(2,5,6) by (simp_all add: e1_def healthy_def)
  have "c \<noteq> []" using c(2) by auto
  then obtain c2 where "save_smtp cr cf (Some nonce2) r2 salt hash s2 e1 = (None, e1\<lparr>se_smtp := (se_smtp e1)\<lparr>db_rows :=
        [smtp_doc (s2\<lparr>sj_Password := c2\<rparr>)]\<rparr>, se_mailer := Some (mailer_of s2 c)\<rparr>)"
    using save_run [OF assms(1) e1(1) assms(4) e1(2,3) assms(11,12), where pw = c and r = r2 and thesis = thesis] assms(13) c e1(4)
    by auto
  moreover have "c \<noteq> sj_Password s" using c(2) by auto
  ultimately show ?thesis using c(1) by (simp add: save e1_def [symmetric]) blast
qed

theorem smtp_resave_witness:
  "\<exists>c. c \<noteq> ''secret'' \<and> se_mailer (snd (save_smtp toy_hashes toy_cipher (Some ''210987654321'') None (Some ''salt'') ''b:pw''
       (sample_smtp\<lparr>sj_Password := []\<rparr>)
       (snd (save_smtp toy_hashes toy_cipher (Some ''123456789012'') None (Some ''salt'') ''b:pw'' sample_smtp sample_engine))))
     = Some (mailer_of (sample_smtp\<lparr>sj_Password := []\<rparr>) c)"
proof -
  have s2: "length ''210987654321'' = 12" "smtp_invalid (sample_smtp\<lparr>sj_Password := []\<rparr>) = None"
      "sj_Host (sample_smtp\<lparr>sj_Password := []\<rparr>) \<noteq> []" "sj_Password (sample_smtp\<lparr>sj_Password := []\<rparr>) = []"
    by code_simp+
  have key: "se_key sample_engine = DeriveEncryptionKey toy_hashes toy_cipher ''b:pw'' (Some ''salt'')"
    by (simp add: sample_engine_def)
  have pw: "sj_Password sample_smtp = ''secret''" by (simp add: sample_smtp_def)
  show ?thesis
    using smtp_resave [OF toy_cipher_ok sample_facts(1,2) s2(1) sample_facts(3) key sample_facts(4-7) s2(2-4), of None None]
    by (auto simp: Let_def pw split: prod.splits)
qed

text \<open>What a change of the dashboard's password does to a stored mail password: a value marked as encrypted
  is never changed (its marker keeps it from being decrypted) and an error is reported, any other value is
  encrypted with the new key as it stands, although it is a ciphertext under the old key already.\<close>

theorem smtp_rekey:
  assumes "cipher_ok cf" "key_ok oldKey" "key_ok newKey" "length nonce = 12" "healthy t"
    and "db_rows t = [Doc d]" "map_of d ''password'' = Some (JStr p)" "p \<noteq> []"
  shows "case reEncryptSMTPPassword cf (Some nonce) oldKey newKey t of
           (Inl err, t') \<Rightarrow> IsEncryptedValue p \<and> t' = t
         | (Inr _, t') \<Rightarrow> \<not> IsEncryptedValue p \<and>
             (\<exists>c. Decrypt cf c newKey [] = Inr p \<and> db_rows t' = [Doc (AList.update ''password'' (JStr c) d)])"
proof (cases "IsEncryptedValue p")
  case True
  have "\<exists>err. Decrypt cf p k [] = Inl err" if "key_ok k" for k
    using that marked_no_base64 [OF True] by (auto simp: Decrypt_def key_ok_def split: option.splits)
  then obtain e1 e2 where "Decrypt cf p oldKey [] = Inl e1" "Decrypt cf p newKey [] = Inl e2"
    using assms(2,3) by metis
  then show ?thesis
    using assms True by (simp add: reEncryptSMTPPassword_def run_get_smtp Let_def)
next
  case False
  obtain c where "Encrypt cf (Some nonce) p newKey [] = Inr c" "Decrypt cf c newKey [] = Inr p"
    using Encrypt_Decrypt [OF assms(1,3,4)] by metis
  then show ?thesis
    using assms False by (simp add: reEncryptSMTPPassword_def run_get_smtp Let_def wrapE_def run_set_smtp) blast
qed

theorem smtp_rekey_witness:
  "let old = hex_EncodeToString (replicate 32 CHR ''o''); new = hex_EncodeToString (replicate 32 CHR ''n'');
       rk = (\<lambda>p. reEncryptSMTPPassword toy_cipher (Some ''123456789012'') old new
               \<lparr>db_rows = [Doc [(''password'', JStr p)]], db_seq = 0, db_faults = []\<rparr>)
   in (case rk ''enc:abcd'' of (Inl _, _) \<Rightarrow> True | _ \<Rightarrow> False) \<and>
      (case rk (projr (Encrypt toy_cipher (Some ''210987654321'') ''secret'' old [])) of
         (Inl _, _) \<Rightarrow> False
       | (Inr _, t') \<Rightarrow> \<exists>c. Decrypt toy_cipher c new [] = Encrypt toy_cipher (Some ''210987654321'') ''secret'' old [] \<and>
           db_rows t' = [Doc [(''password'', JStr c)]])"
proof -
  define old where "old = hex_EncodeToString (replicate 32 CHR ''o'')"
  define new where "new = hex_EncodeToString (replicate 32 CHR ''n'')"
  have k: "key_ok old" "key_ok new" "length ''123456789012'' = 12" "length ''210987654321'' = 12"
    by (simp_all add: old_def new_def key_ok_def)
  obtain c where c: "Encrypt toy_cipher (Some ''210987654321'') ''secret'' old [] = Inr c" "28 \<le> length c" "\<not> IsEncryptedValue c"
    using Encrypt_Decrypt [OF toy_cipher_ok k(1,4), of "''secret''" "[]" thesis] by auto
  let ?t = "\<lambda>p. \<lparr>db_rows = [Doc [(''password'', JStr p)]], db_seq = 0, db_faults = []\<rparr>"
  have h: "healthy (?t p)" "db_rows (?t p) = [Doc [(''password'', JStr p)]]"
      "map_of [(''password'', JStr p)] ''password'' = Some (JStr p)" for p
    by (simp_all add: healthy_def)
  have enc: "''enc:abcd'' \<noteq> []" "IsEncryptedValue ''enc:abcd''" by code_simp+
  have "c \<noteq> []" using c(2) by auto
  from smtp_rekey [OF toy_cipher_ok k(1,2,3) h(1) h(2) h(3) this] smtp_rekey [OF toy_cipher_ok k(1,2,3) h(1) h(2) h(3) enc(1)] c enc
  show ?thesis unfolding Let_def old_def [symmetric] new_def [symmetric]
    by (auto split: prod.splits sum.splits)
qed

end
