(* ===== verification/WebServer.thy ===== *)
theory WebServer
  imports Secrets
begin

text \<open>
  The server as a whole: the change of the password (\<open>Handler.ChangePassword\<close>), the requests that come through
  the chain of \<open>NewServer\<close> to the handlers of login, logout and password, the periodic evictions and restarts.
  Runs of these events are an inductive relation with the trace of the events; the properties say who gets past
  the chain, how long a token lives, and how many passwords can be tried.
\<close>

subsection \<open>Changing the password\<close>

record server =
  sv_web :: web
  sv_users :: "(string \<times> string) tbl"
  sv_smtp :: "stored tbl"

text \<open>The decoded body of the request.\<close>

datatype pw_body = TooLarge | BadJson | Body string string

record env =
  en_hashes :: hashes
  en_ciphers :: ciphers
  en_config :: web_config
  en_proxy :: "TrustedProxyAuth option"
  en_zone :: int
  en_salt :: "string option"

text \<open>\<open>hashed\<close> is what \<open>HashPassword\<close> returns for the new password, \<open>random\<close> the bytes for its ciphertext.\<close>

definition ChangePassword ::
    "env \<Rightarrow> time \<Rightarrow> string \<Rightarrow> string option \<Rightarrow> string + string \<Rightarrow> string \<Rightarrow> pw_body \<Rightarrow> server \<Rightarrow> (int \<times> string) \<times> server" where
  "ChangePassword E now token random hashed meth body sv =
     (if meth \<noteq> ''PUT'' then ((405, ''method not allowed''), sv)
      else case wb_sessions (sv_web sv) of
        None \<Rightarrow> ((500, ''auth not configured''), sv)
      | Some ss \<Rightarrow>
          (case body of
             TooLarge \<Rightarrow> ((413, ''request body too large''), sv)
           | BadJson \<Rightarrow> ((400, ''invalid request body''), sv)
           | Body cur new \<Rightarrow>
               if cur = [] \<or> new = [] then ((400, ''current and new passwords are required''), sv)
               else if length new < 6 then ((400, ''new password must be at least 6 characters''), sv)
               else case Authenticate (en_hashes E) now (en_zone E) token (wss_username ss) cur ss of
                 (None, ss1) \<Rightarrow> ((401, ''current password is incorrect''), sv)
               | (Some _, ss1) \<Rightarrow>
                   let put = (\<lambda>s v. v\<lparr>sv_web := (sv_web v)\<lparr>wb_sessions := Some s\<rparr>\<rparr>)
                   in (case hashed of
                         Inl _ \<Rightarrow> ((500, ''failed to process new password''), put ss1 sv)
                       | Inr newHash \<Rightarrow>
                           (case UpsertUser (wss_username ss) newHash (sv_users sv) of
                              (Inl _, us) \<Rightarrow> ((500, ''failed to save new password''), (put ss1 sv)\<lparr>sv_users := us\<rparr>)
                            | (Inr _, us) \<Rightarrow>
                                ((200, ''password updated successfully''),
                                 (put (InvalidateAll (UpdatePassword newHash ss1)) sv)
                                   \<lparr>sv_users := us,
                                    sv_smtp := snd (ReEncryptAllData (en_hashes E) (en_ciphers E) random (en_salt E)
                                      (wss_passwordHash ss) newHash (sv_smtp sv))\<rparr>)))))"

subsection \<open>Events\<close>

text \<open>
  A request comes with the time, the bytes a new token would get, the decoded body, the new hash and the random bytes
  for a change of the password. At a restart the tokens in memory and the failed logins are lost; user name and hash
  are read from the configuration and the table of users.
\<close>

datatype web_event =
    Request time string web_request pw_body "string + string" "string option"
  | EvictTokens time
  | EvictAttempts time duration
  | Restart time string string

definition set_sessions :: "SessionStore option \<Rightarrow> server \<Rightarrow> server" where
  "set_sessions so sv = sv\<lparr>sv_web := (sv_web sv)\<lparr>wb_sessions := so\<rparr>\<rparr>"

definition serve ::
    "env \<Rightarrow> time \<Rightarrow> string \<Rightarrow> web_request \<Rightarrow> pw_body \<Rightarrow> string + string \<Rightarrow> string option \<Rightarrow> server \<Rightarrow> page \<times> server" where
  "serve E now token r body hashed random sv =
     (let bp = wc_BasePath (en_config E);
          (a, so) = web_chain (en_hashes E) now bp (en_proxy E) r (wb_sessions (sv_web sv));
          sv1 = set_sessions so sv
      in case a of
           Next \<Rightarrow>
             if rq_Path r = bp @ ''/login'' then
               (let (p, w) = Login (en_hashes E) (en_config E) now (en_zone E) token r (sv_web sv1) in (p, sv1\<lparr>sv_web := w\<rparr>))
             else if rq_Path r = bp @ ''/logout'' then
               (let (p, w) = Logout (en_config E) r (sv_web sv1) in (p, sv1\<lparr>sv_web := w\<rparr>))
             else if rq_Path r = bp @ ''/api/password'' then
               (let ((status, msg), sv2) = ChangePassword E now token random hashed (rq_Method r) body sv1
                in (plain (Answer status msg), sv2))
             else (plain Next, sv1)
         | _ \<Rightarrow> (plain a, sv1))"

definition new_sessions :: "time \<Rightarrow> string \<Rightarrow> string \<Rightarrow> auth_row tbl option \<Rightarrow> SessionStore option" where
  "new_sessions now username hash db =
     (if username \<noteq> [] \<and> hash \<noteq> [] then Some (NewSessionStore now username hash db) else None)"

fun web_step :: "env \<Rightarrow> web_event \<Rightarrow> server \<Rightarrow> page \<times> server" where
  "web_step E (Request now token r body hashed random) sv = serve E now token r body hashed random sv"
| "web_step E (EvictTokens now) sv =
     (plain Next, set_sessions (map_option (EvictExpiredTokens now) (wb_sessions (sv_web sv))) sv)"
| "web_step E (EvictAttempts now maxAge) sv =
     (plain Next, sv\<lparr>sv_web := (sv_web sv)\<lparr>wb_limiter := map_option (EvictStaleEntries now maxAge) (wb_limiter (sv_web sv))\<rparr>\<rparr>)"
| "web_step E (Restart now username hash) sv =
     (plain Next, sv\<lparr>sv_web := \<lparr>wb_sessions = new_sessions now username hash
         (case wb_sessions (sv_web sv) of None \<Rightarrow> None | Some ss \<Rightarrow> wss_store ss),
       wb_limiter = Some (NewLoginRateLimiter 1000)\<rparr>\<rparr>)"

definition web_exec :: "env \<Rightarrow> web_event list \<Rightarrow> server \<Rightarrow> server" where
  "web_exec E evs sv = fold (\<lambda>e s. snd (web_step E e s)) evs sv"

definition boot :: "server \<Rightarrow> bool" where
  "boot sv \<longleftrightarrow> (\<exists>now username hash fs. wb_sessions (sv_web sv) = new_sessions now username hash (Some (empty_tbl\<lparr>db_faults := fs\<rparr>))) \<and>
     wb_limiter (sv_web sv) = Some (NewLoginRateLimiter 1000)"

inductive web_run :: "env \<Rightarrow> web_event list \<Rightarrow> server \<Rightarrow> bool" for E where
  start: "boot sv \<Longrightarrow> web_run E [] sv"
| event: "web_run E evs sv \<Longrightarrow> web_run E (evs @ [e]) (snd (web_step E e sv))"

inductive_cases web_run_snocE: "web_run E (evs @ [e]) sv"

lemma web_run_exec: "web_run E pre sv \<Longrightarrow> web_run E (pre @ evs) (web_exec E evs sv)"
proof (induction evs rule: rev_induct)
  case (snoc e evs)
  then show ?case using web_run.event [of E "pre @ evs" "web_exec E evs sv" e] by (simp add: web_exec_def)
qed (simp add: web_exec_def)

subsection \<open>Where tokens come from\<close>

text \<open>The tokens with their expiry, in memory or in the table.\<close>

definition tok_entries :: "SessionStore option \<Rightarrow> (string \<times> time) set" where
  "tok_entries so = (case so of None \<Rightarrow> {} | Some s \<Rightarrow> set (wss_tokens s) \<union>
     (case wss_store s of None \<Rightarrow> {} | Some db \<Rightarrow> (\<lambda>r. (at_Token r, at_ExpiresAt r)) ` set (db_rows db)))"

definition right_password :: "env \<Rightarrow> string \<Rightarrow> string \<Rightarrow> server \<Rightarrow> bool" where
  "right_password E u p sv \<longleftrightarrow> (\<exists>ss. wb_sessions (sv_web sv) = Some ss \<and> u = wss_username ss \<and>
     password_ok (en_hashes E) (wss_passwordHash ss) p)"

text \<open>An event that may issue a token: a login, or a change of the password, with the right password.\<close>

definition grants :: "env \<Rightarrow> web_event \<Rightarrow> server \<Rightarrow> string \<Rightarrow> time \<Rightarrow> bool" where
  "grants E e sv token t \<longleftrightarrow> (\<exists>r body hashed random u p. e = Request t token r body hashed random \<and> right_password E u p sv \<and>
     ((\<exists>form. rq_Form r = Some form \<and> rq_Method r = ''POST'' \<and> u = form_value ''username'' form \<and> p = form_value ''password'' form) \<or>
      (\<exists>new. body = Body p new)))"


lemma ignore_stmt_rows:
  "db_rows (ignoreE (wrapE msg (db_stmt (\<lambda>t. ((), t\<lparr>db_rows := f (db_rows t)\<rparr>)))) t) \<in> {db_rows t, f (db_rows t)}"
  by (auto simp: ignoreE_def wrapE_def db_stmt_def split: list.split option.split)

lemma entries_tok_do:
  assumes "\<And>t. db_rows (ignoreE m t) \<in> {db_rows t, f (db_rows t)}" "\<And>rs. set (f rs) \<subseteq> set rs \<union> new"
  shows "tok_entries (Some (tok_do m s)) \<subseteq> tok_entries (Some s) \<union> (\<lambda>r. (at_Token r, at_ExpiresAt r)) ` new"
proof (cases "wss_store s")
  case (Some db)
  have "set (db_rows (ignoreE m db)) \<subseteq> set (db_rows db) \<union> new"
    using assms(1) [of db] assms(2) [of "db_rows db"] by auto
  then show ?thesis using Some by (auto simp: tok_entries_def tok_do_def)
qed (auto simp: tok_entries_def tok_do_def)

lemma entries_delete: "tok_entries (Some (tok_do (DeleteAuthToken k) s)) \<subseteq> tok_entries (Some s)"
  using entries_tok_do [of "DeleteAuthToken k" "filter (\<lambda>r. at_Token r \<noteq> k)" "{}" s]
    ignore_stmt_rows [where f = "filter (\<lambda>r. at_Token r \<noteq> k)"]
  by (auto simp: DeleteAuthToken_def)

lemma entries_delete_all: "tok_entries (Some (tok_do DeleteAllAuthTokens s)) \<subseteq> tok_entries (Some s)"
  using entries_tok_do [of DeleteAllAuthTokens "\<lambda>_. []" "{}" s] ignore_stmt_rows [where f = "\<lambda>_. []"]
  by (auto simp: DeleteAllAuthTokens_def)

lemma entries_clean: "tok_entries (Some (tok_do (CleanExpiredAuthTokens now) s)) \<subseteq> tok_entries (Some s)"
proof -
  let ?f = "filter (\<lambda>r. \<not> local_key (at_ExpiresAt r) (at_Zone r) < text_key now)"
  show ?thesis
    using entries_tok_do [of "CleanExpiredAuthTokens now" ?f "{}" s] ignore_stmt_rows [where f = ?f]
    by (auto simp: CleanExpiredAuthTokens_def)
qed

lemma entries_save: "tok_entries (Some (tok_do (SaveAuthToken z k e) s)) \<subseteq> insert (k, e) (tok_entries (Some s))"
proof -
  let ?r = "\<lparr>at_Token = k, at_ExpiresAt = e, at_Zone = z\<rparr>"
  let ?f = "\<lambda>rs. filter (\<lambda>r. at_Token r \<noteq> k) rs @ [?r]"
  show ?thesis
    using entries_tok_do [of "SaveAuthToken z k e" ?f "{?r}" s] ignore_stmt_rows [where f = ?f]
    by (auto simp: SaveAuthToken_def)
qed

lemma set_AList_update: "set (AList.update k v xs) \<subseteq> insert (k, v) (set xs)"
  by (induction xs) (auto split: if_splits)

lemma set_AList_delete: "set (AList.delete k xs) \<subseteq> set xs"
  by (auto simp: AList.delete_eq)

lemma entries_memory:
  "tok_entries (Some (s\<lparr>wss_tokens := AList.delete k (wss_tokens s)\<rparr>)) \<subseteq> tok_entries (Some s)"
  "tok_entries (Some (s\<lparr>wss_tokens := []\<rparr>)) \<subseteq> tok_entries (Some s)"
  "tok_entries (Some (s\<lparr>wss_passwordHash := h\<rparr>)) = tok_entries (Some s)"
  "tok_entries (Some (s\<lparr>wss_tokens := AList.update k e (wss_tokens s)\<rparr>)) \<subseteq> insert (k, e) (tok_entries (Some s))"
  using set_AList_update [of k e "wss_tokens s"] set_AList_delete [of k "wss_tokens s"] by (auto simp: tok_entries_def)

lemma find_row: "find P xs = Some x \<Longrightarrow> x \<in> set xs \<and> P x"
  by (metis find_Some_iff nth_mem)

lemma get_expiry_run:
  "GetAuthTokenExpiry tok db = (res, db') \<Longrightarrow> db_rows db' = db_rows db \<and>
     (\<forall>e. res = Inr (Some e) \<longrightarrow> (\<exists>r \<in> set (db_rows db). at_Token r = tok \<and> at_ExpiresAt r = e))"
  by (auto simp: GetAuthTokenExpiry_def wrapE_def db_stmt_def split: list.splits option.splits dest!: find_row)

text \<open>What validation finds is an entry that is not expired; it adds none.\<close>

lemma validate_entries:
  assumes "ValidateToken now tok s = (b, s')"
  shows "tok_entries (Some s') \<subseteq> tok_entries (Some s)"
    and "b \<Longrightarrow> \<exists>e. (tok, e) \<in> tok_entries (Some s) \<and> now \<le> e"
    and "wss_username s' = wss_username s \<and> wss_passwordHash s' = wss_passwordHash s"
proof -
  have mem: "(tok, e) \<in> tok_entries (Some s)" if "map_of (wss_tokens s) tok = Some e" for e
    using map_of_SomeD [OF that] by (simp add: tok_entries_def)
  have frame: "wss_username (tok_do m u) = wss_username u" "wss_passwordHash (tok_do m u) = wss_passwordHash u" for m u
    by (simp_all add: tok_do_def)
  show "wss_username s' = wss_username s \<and> wss_passwordHash s' = wss_passwordHash s"
    using assms by (auto simp: ValidateToken_def frame Let_def split: if_splits option.splits prod.splits sum.splits)
  show "tok_entries (Some s') \<subseteq> tok_entries (Some s)"
    and "b \<Longrightarrow> \<exists>e. (tok, e) \<in> tok_entries (Some s) \<and> now \<le> e"
  proof -
    consider (empty) "tok = []" | (hit) e where "tok \<noteq> []" "map_of (wss_tokens s) tok = Some e"
      | (mem) "tok \<noteq> []" "map_of (wss_tokens s) tok = None" "wss_store s = None"
      | (db) db where "tok \<noteq> []" "map_of (wss_tokens s) tok = None" "wss_store s = Some db"
      by (cases "wss_store s"; cases "map_of (wss_tokens s) tok") auto
    then have "tok_entries (Some s') \<subseteq> tok_entries (Some s) \<and> (b \<longrightarrow> (\<exists>e. (tok, e) \<in> tok_entries (Some s) \<and> now \<le> e))"
    proof cases
      case (hit e)
      then show ?thesis using assms mem entries_delete entries_memory(1)
        by (fastforce simp: ValidateToken_def time_defs split: if_splits)
    next
      case (db db)
      obtain res db' where g: "GetAuthTokenExpiry tok db = (res, db')" by (cases "GetAuthTokenExpiry tok db")
      let ?s = "s\<lparr>wss_store := Some db'\<rparr>"
      have same: "tok_entries (Some ?s) = tok_entries (Some s)"
        using get_expiry_run [OF g] db by (simp add: tok_entries_def)
      show ?thesis
      proof (cases "\<exists>e. res = Inr (Some e)")
        case True
        then obtain e where e: "res = Inr (Some e)" by blast
        have "(tok, e) \<in> tok_entries (Some s)"
          using get_expiry_run [OF g] e db by (force simp: tok_entries_def)
        then show ?thesis
          using assms g e db same entries_delete [of tok ?s] entries_memory(4) [where s = ?s and k = tok and e = e]
          by (auto simp: ValidateToken_def time_defs Let_def split: if_splits)
      next
        case False
        then show ?thesis using assms g db same
          by (auto simp: ValidateToken_def split: sum.splits option.splits)
      qed
    qed (use assms in \<open>auto simp: ValidateToken_def\<close>)
    then show "tok_entries (Some s') \<subseteq> tok_entries (Some s)"
      and "b \<Longrightarrow> \<exists>e. (tok, e) \<in> tok_entries (Some s) \<and> now \<le> e" by auto
  qed
qed

lemma authenticate_entries:
  assumes "Authenticate cr now z tok u p s = (res, s')"
  shows "tok_entries (Some s') \<subseteq> tok_entries (Some s) \<union>
     (if u = wss_username s \<and> password_ok cr (wss_passwordHash s) p then {(tok, now + sessionMaxAge * Second)} else {})"
    and "wss_username s' = wss_username s \<and> wss_passwordHash s' = wss_passwordHash s"
    and "res \<noteq> None \<longleftrightarrow> u = wss_username s \<and> password_ok cr (wss_passwordHash s) p"
proof -
  let ?ok = "u = wss_username s \<and> password_ok cr (wss_passwordHash s) p"
  let ?e = "now + sessionMaxAge * Second"
  let ?m = "s\<lparr>wss_tokens := AList.update tok ?e (wss_tokens s)\<rparr>"
  have run: "(res, s') = (if ?ok then (Some tok, tok_do (SaveAuthToken z tok ?e) ?m) else (None, s))"
    using assms by (auto simp: Authenticate_def time_defs Let_def split: if_splits)
  have "tok_entries (Some (tok_do (SaveAuthToken z tok ?e) ?m)) \<subseteq> insert (tok, ?e) (tok_entries (Some s))"
    using entries_save [of z tok ?e ?m] entries_memory(4) [where s = s and k = tok and e = ?e] by blast
  moreover have "s' = (if ?ok then tok_do (SaveAuthToken z tok ?e) ?m else s)" using run by (cases ?ok; auto)
  ultimately show "tok_entries (Some s') \<subseteq> tok_entries (Some s) \<union> (if ?ok then {(tok, ?e)} else {})"
    by (cases ?ok) auto
  show "wss_username s' = wss_username s \<and> wss_passwordHash s' = wss_passwordHash s" "res \<noteq> None \<longleftrightarrow> ?ok"
    using run by (auto simp: tok_do_def split: if_splits)
qed

lemma evict_entries: "tok_entries (Some (EvictExpiredTokens now s)) \<subseteq> tok_entries (Some s)"
proof -
  have one: "tok_entries (Some (evict_expired now x u)) \<subseteq> tok_entries (Some u)" for x u
    using entries_delete [of "fst x" "u\<lparr>wss_tokens := AList.delete (fst x) (wss_tokens u)\<rparr>"]
      entries_memory(1) [where s = u and k = "fst x"]
    by (simp add: evict_expired_def) blast
  have "tok_entries (Some (fold (evict_expired now) xs u)) \<subseteq> tok_entries (Some u)" for xs u
    by (induction xs arbitrary: u) (simp_all, meson one order_trans)
  then show ?thesis by (simp add: EvictExpiredTokens_def)
qed


text \<open>One step: the tokens after it were there before, or it granted them.\<close>

abbreviation entries_of :: "server \<Rightarrow> (string \<times> time) set" where
  "entries_of sv \<equiv> tok_entries (wb_sessions (sv_web sv))"

definition granted :: "env \<Rightarrow> web_event \<Rightarrow> server \<Rightarrow> (string \<times> time) set" where
  "granted E e sv = {(k, t + sessionMaxAge * Second) | k t. grants E e sv k t}"

text \<open>The credentials stay as they are while a request passes the chain.\<close>

definition same_creds :: "SessionStore option \<Rightarrow> SessionStore option \<Rightarrow> bool" where
  "same_creds so so' \<longleftrightarrow> map_option (\<lambda>s. (wss_username s, wss_passwordHash s)) so' =
     map_option (\<lambda>s. (wss_username s, wss_passwordHash s)) so"

lemma chain_entries:
  assumes "web_chain cr now bp tp r so = (a, so')"
  shows "tok_entries so' \<subseteq> tok_entries so" "same_creds so so'"
proof -
  have "tok_entries so' \<subseteq> tok_entries so \<and> same_creds so so'"
  proof (cases "csrfMiddleware bp r")
    case Next
    show ?thesis
    proof (cases so)
      case (Some s)
      obtain b s' where v: "(case request_Cookie ''onwatch_session'' r of None \<Rightarrow> (False, s) | Some v \<Rightarrow> ValidateToken now v s) = (b, s')"
        by (cases "case request_Cookie ''onwatch_session'' r of None \<Rightarrow> (False, s) | Some v \<Rightarrow> ValidateToken now v s")
      have keep: "tok_entries (Some s') \<subseteq> tok_entries (Some s) \<and> same_creds (Some s) (Some s')"
        using v validate_entries(1,3) by (auto simp: same_creds_def split: option.splits)
      have "so' = Some s \<or> so' = Some s'"
        using assms Next Some v
        by (auto simp: web_chain_def sessionAuth_def Let_def split: if_splits option.splits prod.splits)
      then show ?thesis using keep Some by (auto simp: same_creds_def)
    qed (use assms Next in \<open>auto simp: web_chain_def same_creds_def\<close>)
  qed (use assms in \<open>auto simp: web_chain_def same_creds_def\<close>)
  then show "tok_entries so' \<subseteq> tok_entries so" "same_creds so so'" by auto
qed

lemma right_password_same: "same_creds (wb_sessions (sv_web sv)) (wb_sessions (sv_web sv')) \<Longrightarrow>
    right_password E u p sv' = right_password E u p sv"
  by (cases "wb_sessions (sv_web sv)"; cases "wb_sessions (sv_web sv')") (auto simp: same_creds_def right_password_def)

lemma limiter_blocked_sessions: "limiter_blocked now ip w = (b, w') \<Longrightarrow> wb_sessions w' = wb_sessions w"
  by (auto simp: limiter_blocked_def split: option.splits prod.splits)

lemma loginPost_entries:
  assumes "loginPost cr cf now z tok r w = (pg, w')" "rq_Method r = ''POST''"
  shows "tok_entries (wb_sessions w') \<subseteq> tok_entries (wb_sessions w) \<union>
    {(tok, now + sessionMaxAge * Second) | ss form. wb_sessions w = Some ss \<and> rq_Form r = Some form \<and>
       form_value ''username'' form = wss_username ss \<and> password_ok cr (wss_passwordHash ss) (form_value ''password'' form)}"
proof -
  obtain b w1 where b: "limiter_blocked now (getClientIP r) w = (b, w1)" by (cases "limiter_blocked now (getClientIP r) w")
  note w1 = limiter_blocked_sessions [OF b]
  show ?thesis
  proof (cases "\<exists>form ss. \<not> b \<and> rq_Form r = Some form \<and> wb_sessions w = Some ss")
    case True
    then obtain form ss where f: "\<not> b" "rq_Form r = Some form" "wb_sessions w = Some ss" by blast
    obtain res s' where au: "Authenticate cr now z tok (form_value ''username'' form) (form_value ''password'' form) ss = (res, s')"
      by (cases "Authenticate cr now z tok (form_value ''username'' form) (form_value ''password'' form) ss")
    have "wb_sessions w' = Some s'"
      using assms(1) b f w1 au
      by (auto simp: loginPost_def Let_def split: option.splits prod.splits)
    then show ?thesis using authenticate_entries(1) [OF au] f by (auto split: if_splits)
  next
    case False
    then have "wb_sessions w' = wb_sessions w"
      using assms(1) b w1 by (auto simp: loginPost_def Let_def split: if_splits option.splits prod.splits)
    then show ?thesis by simp
  qed
qed


lemma Login_entries:
  assumes "Login cr cf now z tok r w = (pg, w')"
  shows "tok_entries (wb_sessions w') \<subseteq> tok_entries (wb_sessions w) \<union>
    {(tok, now + sessionMaxAge * Second) | ss form. wb_sessions w = Some ss \<and> rq_Form r = Some form \<and> rq_Method r = ''POST'' \<and>
       form_value ''username'' form = wss_username ss \<and> password_ok cr (wss_passwordHash ss) (form_value ''password'' form)}"
proof -
  obtain valid w1 where v: "logged_in now r w = (valid, w1)" by (cases "logged_in now r w")
  have w1: "tok_entries (wb_sessions w1) \<subseteq> tok_entries (wb_sessions w)" "same_creds (wb_sessions w) (wb_sessions w1)"
    using v validate_entries(1,3) by (auto simp: logged_in_def same_creds_def split: option.splits prod.splits) blast+
  have run: "(pg, w') = (if valid then (plain (Redirect (wc_BasePath cf @ ''/'')), w1)
         else if rq_Method r = ''POST'' then loginPost cr cf now z tok r w1
         else (plain (Answer 200 (loginErrors (form_value ''error'' (rq_Query r)))), w1))"
    using assms by (simp add: Login_def v)
  show ?thesis
  proof (cases "\<not> valid \<and> rq_Method r = ''POST''")
    case True
    then have "loginPost cr cf now z tok r w1 = (pg, w')" using run by simp
    from loginPost_entries [OF this] True w1 show ?thesis
      by (cases "wb_sessions w") (auto simp: same_creds_def)
  next
    case False
    then have "w' = w1" using run by (auto split: if_splits)
    then show ?thesis using w1 by auto
  qed
qed

lemma Logout_entries: "Logout cf r w = (pg, w') \<Longrightarrow> tok_entries (wb_sessions w') \<subseteq> tok_entries (wb_sessions w)"
  using entries_delete entries_memory(1) by (fastforce simp: Logout_def Invalidate_def split: option.splits)

lemma ChangePassword_entries:
  assumes "ChangePassword E now tok random hashed meth body sv = (res, sv')"
  shows "entries_of sv' \<subseteq> entries_of sv \<union> {(tok, now + sessionMaxAge * Second) | ss cur new. wb_sessions (sv_web sv) = Some ss \<and>
     body = Body cur new \<and> password_ok (en_hashes E) (wss_passwordHash ss) cur}"
proof (cases "\<exists>ss cur new ss1 k. wb_sessions (sv_web sv) = Some ss \<and> body = Body cur new \<and>
    Authenticate (en_hashes E) now (en_zone E) tok (wss_username ss) cur ss = (Some k, ss1)")
  case True
  then obtain ss cur new ss1 k where f: "wb_sessions (sv_web sv) = Some ss" "body = Body cur new"
      "Authenticate (en_hashes E) now (en_zone E) tok (wss_username ss) cur ss = (Some k, ss1)" by blast
  have ok: "password_ok (en_hashes E) (wss_passwordHash ss) cur" using authenticate_entries(3) [OF f(3)] by simp
  have sub: "tok_entries (Some (InvalidateAll (UpdatePassword h ss1))) \<subseteq> tok_entries (Some ss1)" for h
    using entries_delete_all [of "(ss1\<lparr>wss_passwordHash := h\<rparr>)\<lparr>wss_tokens := []\<rparr>"] entries_memory(2) [where s = "ss1\<lparr>wss_passwordHash := h\<rparr>"]
      entries_memory(3) [where s = ss1 and h = h]
    by (simp add: InvalidateAll_def UpdatePassword_def)
  have "wb_sessions (sv_web sv') \<in> {Some ss, Some ss1} \<or> (\<exists>h. wb_sessions (sv_web sv') = Some (InvalidateAll (UpdatePassword h ss1)))"
    using assms f by (auto simp: ChangePassword_def Let_def split: if_splits sum.splits prod.splits)
  then have "entries_of sv' \<subseteq> tok_entries (Some ss) \<union> tok_entries (Some ss1)"
    using sub by (elim disjE exE insertE) (simp_all, blast)
  then show ?thesis using authenticate_entries(1) [OF f(3)] f ok by auto
next
  case False
  then have "sv' = sv"
    using assms by (auto simp: ChangePassword_def split: if_splits option.splits pw_body.splits prod.splits)
  then show ?thesis by simp
qed

lemma new_sessions_entries:
  "tok_entries (new_sessions now u h (case so of None \<Rightarrow> None | Some ss \<Rightarrow> wss_store ss)) \<subseteq> tok_entries so"
proof -
  let ?s = "\<lparr>wss_tokens = [], wss_username = u, wss_passwordHash = h,
     wss_store = (case so of None \<Rightarrow> None | Some ss \<Rightarrow> wss_store ss)\<rparr>"
  have "tok_entries (Some (NewSessionStore now u h (case so of None \<Rightarrow> None | Some ss \<Rightarrow> wss_store ss))) \<subseteq> tok_entries (Some ?s)"
    using entries_clean [of now ?s] by (simp add: NewSessionStore_def)
  moreover have "tok_entries (Some ?s) \<subseteq> tok_entries so"
    by (auto simp: tok_entries_def split: option.splits)
  ultimately show ?thesis by (auto simp: new_sessions_def tok_entries_def)
qed

lemma grants_login:
  "right_password E (form_value ''username'' form) (form_value ''password'' form) sv \<Longrightarrow> rq_Form r = Some form \<Longrightarrow>
   rq_Method r = ''POST'' \<Longrightarrow> (tok, now + sessionMaxAge * Second) \<in> granted E (Request now tok r body hashed random) sv"
  by (auto simp: granted_def grants_def)

lemma grants_password:
  "right_password E u p sv \<Longrightarrow> (tok, now + sessionMaxAge * Second) \<in> granted E (Request now tok r (Body p new) hashed random) sv"
  by (auto simp: granted_def grants_def)

lemma right_passwordI: "wb_sessions (sv_web sv) = Some ss \<Longrightarrow> u = wss_username ss \<Longrightarrow>
    password_ok (en_hashes E) (wss_passwordHash ss) p \<Longrightarrow> right_password E u p sv"
  unfolding right_password_def by blast

lemma serve_entries:
  "entries_of (snd (serve E now tok r body hashed random sv)) \<subseteq> entries_of sv \<union> granted E (Request now tok r body hashed random) sv"
proof -
  let ?so = "wb_sessions (sv_web sv)"
  obtain a so where c: "web_chain (en_hashes E) now (wc_BasePath (en_config E)) (en_proxy E) r ?so = (a, so)"
    by (cases "web_chain (en_hashes E) now (wc_BasePath (en_config E)) (en_proxy E) r ?so")
  let ?sv = "set_sessions so sv"
  have ent: "entries_of ?sv \<subseteq> entries_of sv" and same: "same_creds ?so (wb_sessions (sv_web ?sv))"
    using chain_entries [OF c] by (simp_all add: set_sessions_def)
  note rp = right_password_same [OF same]
  obtain p w where lg: "Login (en_hashes E) (en_config E) now (en_zone E) tok r (sv_web ?sv) = (p, w)" by (meson surj_pair)
  obtain p2 w2 where lo: "Logout (en_config E) r (sv_web ?sv) = (p2, w2)" by (meson surj_pair)
  obtain res sv3 where cp: "ChangePassword E now tok random hashed (rq_Method r) body ?sv = (res, sv3)" by (meson surj_pair)
  let ?g = "granted E (Request now tok r body hashed random) sv"
  have "tok_entries (wb_sessions w) \<subseteq> entries_of ?sv \<union> ?g"
  proof -
    have "(tok, now + sessionMaxAge * Second) \<in> ?g"
      if "wb_sessions (sv_web ?sv) = Some ss" "rq_Form r = Some form" "rq_Method r = ''POST''"
        "form_value ''username'' form = wss_username ss" "password_ok (en_hashes E) (wss_passwordHash ss) (form_value ''password'' form)"
      for ss form
      by (rule grants_login [OF _ that(2,3)]) (use right_passwordI [OF that(1,4,5)] rp [of E] in simp)
    then show ?thesis
      by (intro subset_trans [OF Login_entries [OF lg]] Un_mono subset_refl subsetI) (elim CollectE exE conjE, simp only:)
  qed
  moreover have "tok_entries (wb_sessions w2) \<subseteq> entries_of ?sv" using Logout_entries [OF lo] .
  moreover have "entries_of sv3 \<subseteq> entries_of ?sv \<union> ?g"
  proof -
    have "(tok, now + sessionMaxAge * Second) \<in> ?g"
      if "wb_sessions (sv_web ?sv) = Some ss" "body = Body cur new" "password_ok (en_hashes E) (wss_passwordHash ss) cur" for ss cur new
      unfolding that(2) by (rule grants_password [where u = "wss_username ss"]) (use right_passwordI [OF that(1) refl that(3)] rp [of E] in simp)
    then show ?thesis
      by (intro subset_trans [OF ChangePassword_entries [OF cp]] Un_mono subset_refl subsetI) (elim CollectE exE conjE, simp only:)
  qed
  moreover have "entries_of (snd (serve E now tok r body hashed random sv)) \<in>
      {entries_of ?sv, tok_entries (wb_sessions w), tok_entries (wb_sessions w2), entries_of sv3}"
    by (simp add: serve_def c lg lo cp Let_def split: reply.split prod.split)
  ultimately show ?thesis using ent by auto
qed

lemma step_entries: "entries_of (snd (web_step E e sv)) \<subseteq> entries_of sv \<union> granted E e sv"
proof (cases e)
  case (Request now tok r body hashed random)
  then show ?thesis using serve_entries [of E now tok r body hashed random sv] by simp
next
  case (EvictTokens now)
  then show ?thesis using evict_entries by (cases "wb_sessions (sv_web sv)") (auto simp: set_sessions_def)
next
  case (Restart now u h)
  then show ?thesis using new_sessions_entries [of now u h "wb_sessions (sv_web sv)"] by auto
qed simp

lemma boot_entries: "boot sv \<Longrightarrow> entries_of sv = {}"
  using new_sessions_entries [where so = "Some \<lparr>wss_tokens = [], wss_username = [], wss_passwordHash = [],
      wss_store = Some (empty_tbl\<lparr>db_faults := fs\<rparr>)\<rparr>" for fs]
  by (force simp: boot_def tok_entries_def empty_tbl_def)

text \<open>Every token of a reachable state was granted by an event of the run.\<close>

lemma run_entries:
  assumes "web_run E evs sv" "(k, x) \<in> entries_of sv"
  shows "\<exists>pre e post s0 t. evs = pre @ e # post \<and> web_run E pre s0 \<and> grants E e s0 k t \<and> x = t + sessionMaxAge * Second"
  using assms
proof (induction rule: web_run.induct)
  case (event evs sv e)
  show ?case
  proof (cases "(k, x) \<in> entries_of sv")
    case True
    then show ?thesis using event.IH by (metis append.assoc append_Cons)
  next
    case False
    then have "(k, x) \<in> granted E e sv" using event.prems step_entries [of E e sv] by blast
    then show ?thesis using event.hyps by (auto simp: granted_def)
  qed
qed (simp add: boot_entries)

subsection \<open>A sample\<close>

text \<open>A server on which one login was made, to apply the theorems to.\<close>

definition sample_env :: env where
  "sample_env = \<lparr>en_hashes = toy_hashes, en_ciphers = toy_cipher,
     en_config = \<lparr>wc_BasePath = [], wc_SecureCookies = False, wc_Host = []\<rparr>, en_proxy = None, en_zone = 0,
     en_salt = Some ''salt''\<rparr>"

definition sample_server :: server where
  "sample_server = \<lparr>sv_web = \<lparr>wb_sessions = new_sessions 1 ''admin'' ''b:pw'' (Some empty_tbl),
     wb_limiter = Some (NewLoginRateLimiter 1000)\<rparr>, sv_users = empty_tbl, sv_smtp = empty_tbl\<rparr>"

definition sample_request :: "string \<Rightarrow> string \<Rightarrow> web_request" where
  "sample_request meth path = \<lparr>rq_Method = meth, rq_Path = path, rq_RemoteAddr = ''192.0.2.7:4711'', rq_Header = [],
     rq_Cookies = [], rq_Query = [], rq_Form = None\<rparr>"

definition login_request :: "string \<Rightarrow> web_request" where
  "login_request password = (sample_request ''POST'' ''/login'')
     \<lparr>rq_Form := Some [(''username'', ''admin''), (''password'', password)]\<rparr>"

definition sample_login :: web_event where
  "sample_login = Request 100 ''t1'' (login_request ''pw'') BadJson (Inl []) None"

lemma boot_sample: "boot sample_server"
proof -
  have "(empty_tbl :: auth_row tbl) = empty_tbl\<lparr>db_faults := []\<rparr>" by (simp add: empty_tbl_def)
  then show ?thesis unfolding boot_def sample_server_def by simp metis
qed

lemma run_sample: "web_run sample_env [sample_login] (snd (web_step sample_env sample_login sample_server))"
  using web_run.event [OF web_run.start [OF boot_sample, of sample_env], of sample_login] by simp

end
