(* ===== verification/WebSafety.thy ===== *)
theory WebSafety
  imports WebServer
begin

text \<open>
  The properties of the server: who gets past the chain in a reachable state, when tokens die, and what becomes of the
  credentials of a header.
\<close>

subsection \<open>Who gets past the chain\<close>

lemma list_ex_find: "list_ex P xs \<longleftrightarrow> (\<exists>x \<in> set xs. P x)"
  by (induction xs) auto

lemma trusted_user_some:
  assumes "TrustedUser tp r \<noteq> None"
  shows "\<exists>t a v. tp = Some t \<and> ParseIP (remote_host r) = Some a \<and> (\<exists>n \<in> set (tp_cidrs t). net_Contains n a) \<and>
    header_Values (tp_userHeader t) r = [v] \<and> TrimSpace v \<noteq> []"
  using assms by (auto simp: TrustedUser_def list_ex_find Let_def split: option.splits if_splits list.splits)

lemma sessionAuth_next:
  assumes "sessionAuth cr now bp tp r s = (Next, s')"
  shows "isStaticAsset bp (rq_Path r) \<or> rq_Path r \<in> {bp @ ''/login'', bp @ ''/metrics''} \<or>
     isLocalMenubarPublicPath (rq_Path r) \<and> isLoopbackRequest r \<or> TrustedUser tp r \<noteq> None \<or>
     (\<exists>v e. request_Cookie ''onwatch_session'' r = Some v \<and> (v, e) \<in> tok_entries (Some s) \<and> now \<le> e) \<or>
     HasPrefix (rq_Path r) (bp @ ''/api/'') \<and>
       (\<exists>p. extractCredentials r = Some (wss_username s, p) \<and> password_ok cr (wss_passwordHash s) p)"
proof -
  obtain b s1 where v: "(case request_Cookie ''onwatch_session'' r of None \<Rightarrow> (False, s) | Some v \<Rightarrow> ValidateToken now v s) = (b, s1)"
    by (meson surj_pair)
  have tok: "\<exists>v e. request_Cookie ''onwatch_session'' r = Some v \<and> (v, e) \<in> tok_entries (Some s) \<and> now \<le> e" if b
    using v that validate_entries(2) by (auto split: option.splits)
  have keep: "wss_username s1 = wss_username s" "wss_passwordHash s1 = wss_passwordHash s"
    using v validate_entries(3) by (auto split: option.splits)
  show ?thesis
    using assms tok keep unfolding sessionAuth_def v Let_def prod.case
    by (auto split: if_splits option.splits prod.splits)
qed

text \<open>C1: whatever happened before, a request that reaches the routes carries the header a form of another site
  cannot send (or changes nothing, or is a login or logout), and it asks for something public, comes from this
  machine to the tray's pages, comes through a configured proxy that names its user, sends the current password,
  or has a token that a right password was exchanged for at most seven days before.\<close>

theorem gate_safe:
  assumes "web_run E evs sv" "wb_sessions (sv_web sv) = Some ss" "bp = wc_BasePath (en_config E)"
    and "fst (web_chain (en_hashes E) now bp (en_proxy E) r (Some ss)) = Next"
  shows "(rq_Method r \<in> {''GET'', ''HEAD''} \<or> rq_Path r \<in> {bp @ ''/login'', bp @ ''/logout''} \<or>
            header_Get ''X-Requested-With'' r \<noteq> []) \<and>
         (isStaticAsset bp (rq_Path r) \<or> rq_Path r \<in> {bp @ ''/login'', bp @ ''/metrics''} \<or>
          isLocalMenubarPublicPath (rq_Path r) \<and> isLoopbackRequest r \<or>
          (\<exists>t a v. en_proxy E = Some t \<and> ParseIP (remote_host r) = Some a \<and> (\<exists>n \<in> set (tp_cidrs t). net_Contains n a) \<and>
             header_Values (tp_userHeader t) r = [v] \<and> TrimSpace v \<noteq> []) \<or>
          (\<exists>p. HasPrefix (rq_Path r) (bp @ ''/api/'') \<and> extractCredentials r = Some (wss_username ss, p) \<and>
             right_password E (wss_username ss) p sv) \<or>
          (\<exists>token pre e post s0 t. request_Cookie ''onwatch_session'' r = Some token \<and> evs = pre @ e # post \<and>
             web_run E pre s0 \<and> grants E e s0 token t \<and> now \<le> t + sessionMaxAge * Second))"
proof -
  have csrf: "csrfMiddleware bp r = Next"
    using assms(4) by (auto simp: web_chain_def split: reply.splits prod.splits)
  then obtain s' where "sessionAuth (en_hashes E) now bp (en_proxy E) r ss = (Next, s')"
    using assms(4) by (auto simp: web_chain_def split: prod.splits)
  from sessionAuth_next [OF this] have gate: "isStaticAsset bp (rq_Path r) \<or> rq_Path r \<in> {bp @ ''/login'', bp @ ''/metrics''} \<or>
     isLocalMenubarPublicPath (rq_Path r) \<and> isLoopbackRequest r \<or> TrustedUser (en_proxy E) r \<noteq> None \<or>
     (\<exists>v e. request_Cookie ''onwatch_session'' r = Some v \<and> (v, e) \<in> entries_of sv \<and> now \<le> e) \<or>
     HasPrefix (rq_Path r) (bp @ ''/api/'') \<and>
       (\<exists>p. extractCredentials r = Some (wss_username ss, p) \<and> right_password E (wss_username ss) p sv)"
    unfolding assms(2) using right_passwordI [where E = E, OF assms(2) refl] by metis
  have tok: "\<exists>pre e post s0 t. evs = pre @ e # post \<and> web_run E pre s0 \<and> grants E e s0 v t \<and> now \<le> t + sessionMaxAge * Second"
    if "(v, x) \<in> entries_of sv" "now \<le> x" for v x
    using run_entries [OF assms(1) that(1)] that(2) by blast
  have "rq_Method r \<in> {''GET'', ''HEAD''} \<or> rq_Path r \<in> {bp @ ''/login'', bp @ ''/logout''} \<or> header_Get ''X-Requested-With'' r \<noteq> []"
    using csrf by (auto simp: csrfMiddleware_def split: if_splits)
  then show ?thesis
    using gate trusted_user_some [of "en_proxy E" r] tok by metis
qed


theorem gate_safe_witness:
  "let r = (sample_request ''GET'' ''/api/current'')\<lparr>rq_Cookies := [(''onwatch_session'', ''t1'')]\<rparr>
   in \<exists>token pre e post s0 t. request_Cookie ''onwatch_session'' r = Some token \<and> [sample_login] = pre @ e # post \<and>
        web_run sample_env pre s0 \<and> grants sample_env e s0 token t \<and> 200 \<le> t + sessionMaxAge * Second"
proof -
  let ?r = "(sample_request ''GET'' ''/api/current'')\<lparr>rq_Cookies := [(''onwatch_session'', ''t1'')]\<rparr>"
  let ?sv = "snd (web_step sample_env sample_login sample_server)"
  obtain ss where ss: "wb_sessions (sv_web ?sv) = Some ss"
    and nxt: "fst (web_chain (en_hashes sample_env) 200 [] (en_proxy sample_env) ?r (Some ss)) = Next"
  proof (rule that)
    show "wb_sessions (sv_web ?sv) = Some (the (wb_sessions (sv_web ?sv)))" by code_simp
    show "fst (web_chain (en_hashes sample_env) 200 [] (en_proxy sample_env) ?r (Some (the (wb_sessions (sv_web ?sv))))) = Next"
      by code_simp
  qed
  have bp: "[] = wc_BasePath (en_config sample_env)" by (simp add: sample_env_def)
  have no: "\<not> isStaticAsset [] (rq_Path ?r)" "rq_Path ?r \<notin> {[] @ ''/login'', [] @ ''/metrics''}"
      "\<not> isLocalMenubarPublicPath (rq_Path ?r)" "en_proxy sample_env = None" "extractCredentials ?r = None"
    by code_simp+
  show ?thesis
    using gate_safe [OF run_sample ss bp nxt] unfolding Let_def
    by (simp only: no simp_thms option.distinct ex_simps)
qed


subsection \<open>When tokens die\<close>

definition healthy_store :: "SessionStore \<Rightarrow> bool" where
  "healthy_store s \<longleftrightarrow> (case wss_store s of None \<Rightarrow> True | Some db \<Rightarrow> healthy db)"

fun fresh_token :: "web_event \<Rightarrow> string option" where
  "fresh_token (Request now token r body hashed random) = Some token"
| "fresh_token e = None"

lemma run_delete: "healthy db \<Longrightarrow> DeleteAuthToken k db = (Inr (), db\<lparr>db_rows := filter (\<lambda>r. at_Token r \<noteq> k) (db_rows db)\<rparr>)"
  by (simp add: DeleteAuthToken_def runs run_db_stmt)

lemma run_delete_all: "healthy db \<Longrightarrow> DeleteAllAuthTokens db = (Inr (), db\<lparr>db_rows := []\<rparr>)"
  by (simp add: DeleteAllAuthTokens_def runs run_db_stmt)

lemma run_get: "healthy db \<Longrightarrow> GetAuthTokenExpiry k db = (Inr (map_option at_ExpiresAt (find (\<lambda>r. at_Token r = k) (db_rows db))), db)"
  by (simp add: GetAuthTokenExpiry_def runs run_db_stmt)

lemma run_save: "healthy db \<Longrightarrow> SaveAuthToken z k e db = (Inr (), db\<lparr>db_rows := filter (\<lambda>r. at_Token r \<noteq> k) (db_rows db) @
    [\<lparr>at_Token = k, at_ExpiresAt = e, at_Zone = z\<rparr>]\<rparr>)"
  by (simp add: SaveAuthToken_def runs run_db_stmt)

lemma Invalidate_gone: "healthy_store s \<Longrightarrow> k \<notin> fst ` tok_entries (Some (Invalidate k s))"
  by (auto simp: Invalidate_def tok_do_def tok_entries_def healthy_store_def ignoreE_def run_delete AList.delete_eq
      split: option.splits)

lemma InvalidateAll_gone: "healthy_store s \<Longrightarrow> tok_entries (Some (InvalidateAll s)) = {}"
  by (auto simp: InvalidateAll_def tok_do_def tok_entries_def healthy_store_def ignoreE_def run_delete_all split: option.splits)

lemma healthy_rows [simp]: "healthy (db\<lparr>db_rows := rs\<rparr>) = healthy db"
  by (simp add: healthy_def)

lemma validate_healthy:
  assumes "healthy_store s" "ValidateToken now k s = (b, s')"
  shows "healthy_store s'" and "\<not> b \<Longrightarrow> k = [] \<or> k \<notin> fst ` tok_entries (Some s')"
proof -
  have gone: "k \<notin> fst ` tok_entries (Some (tok_do (DeleteAuthToken k) (u\<lparr>wss_tokens := ts\<rparr>)))"
      "healthy_store (tok_do (DeleteAuthToken k) (u\<lparr>wss_tokens := ts\<rparr>))"
    if "healthy_store u" "k \<notin> fst ` set ts" for u ts
    using that by (auto simp: tok_do_def tok_entries_def healthy_store_def ignoreE_def run_delete split: option.splits)
  have "healthy_store s' \<and> (\<not> b \<longrightarrow> k = [] \<or> k \<notin> fst ` tok_entries (Some s'))"
  proof (cases "k = []")
    case False
    show ?thesis
    proof (cases "map_of (wss_tokens s) k")
      case (Some e)
      have "k \<notin> fst ` set (AList.delete k (wss_tokens s))" by (auto simp: AList.delete_eq)
      from gone [OF assms(1) this] show ?thesis
        using assms False Some by (auto simp: ValidateToken_def split: if_splits)
    next
      case None
      then have mem: "k \<notin> fst ` set (wss_tokens s)" by (simp add: map_of_eq_None_iff)
      show ?thesis
      proof (cases "wss_store s")
        case db: (Some db)
        have h: "healthy db" using assms(1) db by (simp add: healthy_store_def)
        show ?thesis
        proof (cases "find (\<lambda>r. at_Token r = k) (db_rows db)")
          case none: None
          then have "k \<notin> at_Token ` set (db_rows db)" by (auto simp: find_None_iff)
          then show ?thesis using assms False None db none mem h
            by (auto simp: ValidateToken_def run_get tok_entries_def healthy_store_def)
        next
          case row: (Some x)
          let ?u = "s\<lparr>wss_store := Some db\<rparr>"
          have u: "healthy_store ?u" "?u\<lparr>wss_tokens := wss_tokens s\<rparr> = ?u" using h by (simp_all add: healthy_store_def)
          from gone [OF u(1) mem] have gone_u: "k \<notin> fst ` tok_entries (Some (tok_do (DeleteAuthToken k) ?u))"
              "healthy_store (tok_do (DeleteAuthToken k) ?u)"
            unfolding u(2) by auto
          have live: "healthy_store (?u\<lparr>wss_tokens := ts\<rparr>)" for ts using h by (simp add: healthy_store_def)
          have "(b, s') = (if time_After now (at_ExpiresAt x) then (False, tok_do (DeleteAuthToken k) ?u)
              else (True, ?u\<lparr>wss_tokens := AList.update k (at_ExpiresAt x) (wss_tokens s)\<rparr>))"
            using assms(2) False None db row by (simp add: ValidateToken_def run_get h Let_def)
          then show ?thesis using gone_u live by (cases "time_After now (at_ExpiresAt x)") (simp_all only: if_True if_False prod.inject, simp_all)
        qed
      qed (use assms False None mem in \<open>auto simp: ValidateToken_def tok_entries_def\<close>)
    qed
  qed (use assms in \<open>auto simp: ValidateToken_def\<close>)
  then show "healthy_store s'" and "\<not> b \<Longrightarrow> k = [] \<or> k \<notin> fst ` tok_entries (Some s')" by auto
qed

lemma authenticate_healthy: "healthy_store s \<Longrightarrow> healthy_store (snd (Authenticate cr now z k u p s))"
  by (auto simp: Authenticate_def healthy_store_def tok_do_def Let_def ignoreE_def run_save split: option.splits)

text \<open>A token that is nowhere stays so until it is issued again.\<close>

lemma exec_absent:
  assumes "k \<notin> fst ` entries_of sv" "\<forall>e \<in> set evs. fresh_token e \<noteq> Some k"
  shows "k \<notin> fst ` entries_of (web_exec E evs sv)"
  using assms
proof (induction evs arbitrary: sv)
  case (Cons e evs)
  have "k \<notin> fst ` granted E e sv" using Cons.prems(2) by (force simp: granted_def grants_def)
  then have "k \<notin> fst ` entries_of (snd (web_step E e sv))" using Cons.prems(1) step_entries [of E e sv] by blast
  then show ?case using Cons.IH Cons.prems(2) by (simp add: web_exec_def)
qed (simp add: web_exec_def)

lemma absent_invalid:
  assumes "k \<notin> fst ` tok_entries (Some s) \<or> k = []" shows "\<not> fst (ValidateToken now k s)"
proof (cases "k = []")
  case False
  obtain b s' where v: "ValidateToken now k s = (b, s')" by (cases "ValidateToken now k s")
  have "\<not> b"
  proof
    assume b
    from validate_entries(2) [OF v this] obtain e where "(k, e) \<in> tok_entries (Some s)" by blast
    then have "fst (k, e) \<in> fst ` tok_entries (Some s)" by (rule imageI)
    then show False using assms False by simp
  qed
  then show ?thesis by (simp add: v)
qed (simp add: ValidateToken_def)


text \<open>The three ways through the chain, for a path that is a route of the application.\<close>

lemma chain_logout:
  assumes "web_chain cr now bp tp r (Some s) = (a, so)" "healthy_store s" "rq_Path r = bp @ ''/logout''"
    and "request_Cookie ''onwatch_session'' r = Some k"
  shows "\<exists>s'. so = Some s' \<and> healthy_store s' \<and> (a = Next \<or> k = [] \<or> k \<notin> fst ` tok_entries (Some s'))"
proof -
  obtain b s1 where v: "ValidateToken now k s = (b, s1)" by (cases "ValidateToken now k s")
  have "csrfMiddleware bp r = Next" using assms(3) by (simp add: csrfMiddleware_def)
  then have "so = Some s \<and> a = Next \<or> so = Some s1 \<and> (a = Next \<or> \<not> b)"
    using assms(1,3,4) v
    by (auto simp: web_chain_def sessionAuth_def Let_def isStaticAsset_def HasPrefix_def split: if_splits option.splits prod.splits)
  then show ?thesis using validate_healthy [OF assms(2) v] assms(2) by auto
qed

lemma chain_healthy:
  assumes "web_chain cr now bp tp r (Some s) = (a, so)" "healthy_store s"
  shows "\<exists>s'. so = Some s' \<and> healthy_store s'"
proof -
  obtain b s1 where v: "(case request_Cookie ''onwatch_session'' r of None \<Rightarrow> (False, s) | Some v \<Rightarrow> ValidateToken now v s) = (b, s1)"
    by (meson surj_pair)
  have "healthy_store s1" using v assms(2) validate_healthy(1) by (auto split: option.splits)
  moreover have "so = Some s \<or> so = Some s1"
    using assms(1) v by (auto simp: web_chain_def sessionAuth_def Let_def split: reply.splits if_splits option.splits prod.splits)
  ultimately show ?thesis using assms(2) by auto
qed

lemma chain_no_200: "web_chain cr now bp tp r so = (a, so') \<Longrightarrow> a \<noteq> Answer 200 msg"
  by (auto simp: web_chain_def csrfMiddleware_def sessionAuth_def Let_def
      split: reply.splits if_splits option.splits prod.splits)

lemma ChangePassword_ok:
  assumes "ChangePassword E now token random hashed meth body sv = ((200, msg), sv')"
    and "wb_sessions (sv_web sv) = Some ss" "healthy_store ss"
  shows "entries_of sv' = {}"
proof -
  have h: "healthy_store (UpdatePassword h (snd (Authenticate cr now z token u p ss)))" for cr z u p h
    using authenticate_healthy [OF assms(3)] by (simp add: UpdatePassword_def healthy_store_def)
  have "\<exists>h cr z u p. wb_sessions (sv_web sv') = Some (InvalidateAll (UpdatePassword h (snd (Authenticate cr now z token u p ss))))"
    using assms(1,2) by (auto simp: ChangePassword_def Let_def split: if_splits pw_body.splits option.splits sum.splits prod.splits)
      (metis snd_conv)
  then show ?thesis using InvalidateAll_gone h by auto
qed

text \<open>C6: on a store that answers, the token of a session is worth nothing after its logout, and every token
  is after a successful change of the password, whatever requests, evictions and restarts follow, unless the same
  token is drawn again.\<close>

theorem tokens_revoked:
  assumes "wb_sessions (sv_web sv) = Some ss" "healthy_store ss" "bp = wc_BasePath (en_config E)"
    and "web_step E (Request now token r body hashed random) sv = (pg, sv1)"
    and "rq_Path r = bp @ ''/logout'' \<and> request_Cookie ''onwatch_session'' r = Some k \<or>
         rq_Path r = bp @ ''/api/password'' \<and> (\<exists>msg. pg_reply pg = Answer 200 msg)"
    and "\<forall>e \<in> set post. fresh_token e \<noteq> Some k"
    and "wb_sessions (sv_web (web_exec E post sv1)) = Some ss'"
  shows "\<not> fst (ValidateToken now' k ss')"
proof -
  obtain a so where c: "web_chain (en_hashes E) now bp (en_proxy E) r (Some ss) = (a, so)"
    by (cases "web_chain (en_hashes E) now bp (en_proxy E) r (Some ss)")
  have step: "serve E now token r body hashed random sv = (pg, sv1)" using assms(4) by simp
  have "k = [] \<or> k \<notin> fst ` entries_of sv1"
    using assms(5)
  proof
    assume lo: "rq_Path r = bp @ ''/logout'' \<and> request_Cookie ''onwatch_session'' r = Some k"
    then obtain s' where s': "so = Some s'" "healthy_store s'" "a = Next \<or> k = [] \<or> k \<notin> fst ` tok_entries (Some s')"
      using chain_logout [OF c assms(2)] by auto
    show ?thesis
    proof (cases "a = Next")
      case True
      then have "wb_sessions (sv_web sv1) = Some (Invalidate k s')"
        using step c lo s'(1) assms(1,3) by (auto simp: serve_def set_sessions_def Logout_def Let_def)
      then show ?thesis using Invalidate_gone [OF s'(2)] by simp
    next
      case False
      then have "wb_sessions (sv_web sv1) = Some s'"
        using step c s'(1) assms(1,3) by (auto simp: serve_def set_sessions_def Let_def split: reply.splits)
      then show ?thesis using s'(3) False by simp
    qed
  next
    assume pw: "rq_Path r = bp @ ''/api/password'' \<and> (\<exists>msg. pg_reply pg = Answer 200 msg)"
    obtain s' where s': "so = Some s'" "healthy_store s'" using chain_healthy [OF c assms(2)] by blast
    obtain msg where msg: "pg_reply pg = Answer 200 msg" using pw by blast
    have "a = Next" using step c assms(1,3) msg chain_no_200 [OF c, of msg]
      by (auto simp: serve_def Let_def split: reply.splits)
    then have "ChangePassword E now token random hashed (rq_Method r) body (set_sessions (Some s') sv) = ((200, msg), sv1)"
      using step c pw s'(1) assms(1,3) msg by (auto simp: serve_def Let_def split: prod.splits)
    from ChangePassword_ok [OF this _ s'(2)] show ?thesis by (simp add: set_sessions_def)
  qed
  then have "k = [] \<or> k \<notin> fst ` tok_entries (Some ss')"
    using exec_absent [OF _ assms(6)] assms(7) by metis
  then show ?thesis using absent_invalid by blast
qed

theorem tokens_revoked_witness:
  "let sv = snd (web_step sample_env sample_login sample_server);
       r = (sample_request ''GET'' ''/logout'')\<lparr>rq_Cookies := [(''onwatch_session'', ''t1'')]\<rparr>;
       sv1 = snd (web_step sample_env (Request 200 ''t2'' r BadJson (Inl []) None) sv);
       again = Request 300 ''t3'' (login_request ''pw'') BadJson (Inl []) None
   in \<not> fst (ValidateToken 400 ''t1'' (the (wb_sessions (sv_web (web_exec sample_env [again, Restart 350 ''admin'' ''b:pw''] sv1)))))"
proof -
  define sv where "sv = snd (web_step sample_env sample_login sample_server)"
  define r where "r = (sample_request ''GET'' ''/logout'')\<lparr>rq_Cookies := [(''onwatch_session'', ''t1'')]\<rparr>"
  define again where "again = Request 300 ''t3'' (login_request ''pw'') BadJson (Inl []) None"
  let ?e = "Request 200 ''t2'' r BadJson (Inl []) None"
  let ?post = "[again, Restart 350 ''admin'' ''b:pw'']"
  have ss: "wb_sessions (sv_web sv) = Some (the (wb_sessions (sv_web sv)))" "healthy_store (the (wb_sessions (sv_web sv)))"
    unfolding sv_def by code_simp+
  have bp: "[] = wc_BasePath (en_config sample_env)" by (simp add: sample_env_def)
  have r: "rq_Path r = [] @ ''/logout'' \<and> request_Cookie ''onwatch_session'' r = Some ''t1''"
    unfolding r_def by code_simp
  have post: "\<forall>e \<in> set ?post. fresh_token e \<noteq> Some ''t1''" by (simp add: again_def)
  have ss': "wb_sessions (sv_web (web_exec sample_env ?post (snd (web_step sample_env ?e sv)))) =
      Some (the (wb_sessions (sv_web (web_exec sample_env ?post (snd (web_step sample_env ?e sv))))))"
    unfolding sv_def r_def again_def by code_simp
  show ?thesis
    unfolding Let_def sv_def [symmetric] r_def [symmetric] again_def [symmetric]
    by (rule tokens_revoked [OF ss bp prod.collapse [symmetric] disjI1 [OF r] post ss'])
qed


subsection \<open>Credentials in a header\<close>

text \<open>The name and the password a client encodes for basic authentication are the ones compared, if the
  name has no colon (the password may have some).\<close>

theorem basic_roundtrip:
  assumes "CHR '':'' \<notin> set u" "header_Get ''Authorization'' r = ''Basic '' @ b64_EncodeToString (u @ '':'' @ p)"
  shows "extractCredentials r = Some (u, p)"
proof -
  have "b64_EncodeToString (u @ '':'' @ p) \<noteq> []"
    using b64_encode_length [of "u @ '':'' @ p"] by auto
  moreover have "HasPrefix (''Basic '' @ x) ''Basic ''" "drop 6 (''Basic '' @ x) = x" for x
    by (simp_all add: HasPrefix_def)
  moreover have "cut_char CHR '':'' (u @ '':'' @ p) = Some (u, p)" using assms(1) by simp
  ultimately show ?thesis
    unfolding extractCredentials_def assms(2) Let_def by (simp add: b64_roundtrip del: append_Cons)
qed

theorem basic_roundtrip_witness:
  "extractCredentials ((sample_request ''GET'' ''/api/current'')
     \<lparr>rq_Header := [(''Authorization'', ''Basic '' @ b64_EncodeToString (''admin'' @ '':'' @ ''a:b''))]\<rparr>) = Some (''admin'', ''a:b'')"
proof (rule basic_roundtrip)
  have "CanonicalKey ''Authorization'' = ''Authorization''" by code_simp
  then show "header_Get ''Authorization'' ((sample_request ''GET'' ''/api/current'')
     \<lparr>rq_Header := [(''Authorization'', ''Basic '' @ b64_EncodeToString (''admin'' @ '':'' @ ''a:b''))]\<rparr>) =
     ''Basic '' @ b64_EncodeToString (''admin'' @ '':'' @ ''a:b'')"
    by (simp add: header_Get_def header_Values_def)
qed simp

subsection \<open>Tokens over a restart\<close>

text \<open>C39: the clean-up at the start compares the expiry, written in local time, with the time in UTC: west of UTC
  it deletes tokens that are still valid, all those with less left than the offset of the zone.\<close>

theorem token_zone:
  assumes "healthy db" "z \<le> - 60" "now < e" "e - now < 59 * Minute"
    and "\<forall>r \<in> set (db_rows db). at_Token r = k \<longrightarrow> at_ExpiresAt r = e \<and> at_Zone r = z"
  shows "\<not> fst (ValidateToken now k (NewSessionStore now u h (Some db)))"
proof (rule absent_invalid)
  have "(e + z * Minute) div Second < now div Second"
  proof -
    have "e + z * Minute \<le> now - Second" using assms(2,4) by simp
    then have "(e + z * Minute) div Second \<le> (now - Second) div Second" by (rule zdiv_mono1) simp
    also have "(now - Second) div Second = now div Second - 1" by simp
    finally show ?thesis by simp
  qed
  then have "local_key e z < text_key now" by (simp add: local_key_def text_key_def)
  then have "k \<notin> at_Token ` set (filter (\<lambda>r. \<not> local_key (at_ExpiresAt r) (at_Zone r) < text_key now) (db_rows db))"
    using assms(5) by auto
  then have "k \<notin> fst ` tok_entries (Some (NewSessionStore now u h (Some db)))"
    using assms(1)
    by (force simp: NewSessionStore_def tok_do_def tok_entries_def ignoreE_def CleanExpiredAuthTokens_def runs run_db_stmt)
  then show "k \<notin> fst ` tok_entries (Some (NewSessionStore now u h (Some db))) \<or> k = []" by blast
qed

theorem token_zone_witness:
  "let db = \<lparr>db_rows = [\<lparr>at_Token = ''t1'', at_ExpiresAt = 100 + 30 * Minute, at_Zone = - 300\<rparr>], db_seq = 0, db_faults = []\<rparr>
   in \<not> fst (ValidateToken 100 ''t1'' (NewSessionStore 100 ''admin'' ''h'' (Some db)))"
  unfolding Let_def by (rule token_zone [where e = "100 + 30 * Minute" and z = "- 300"]) (simp_all add: healthy_def)

end
