(* ===== verification/LoginLimit.thy ===== *)
theory LoginLimit
  imports WebServer
begin

text \<open>
  The limiter of failed logins in the running server: what its table looks like in reachable states, and how many
  wrong passwords an address can try in the time of a block.
\<close>

subsection \<open>The table of failed logins\<close>

definition attempt_ok :: "loginAttempt \<Rightarrow> bool" where
  "attempt_ok e \<longleftrightarrow> 0 \<le> la_failures e \<and> la_failures e \<le> 5 \<and> (la_failures e = 5 \<longleftrightarrow> la_blockedAt e \<noteq> 0) \<and>
     0 \<le> la_blockedAt e \<and> la_blockedAt e < 2 ^ 62 \<and> (la_blockedAt e \<noteq> 0 \<longrightarrow> la_lastFail e = la_blockedAt e)"

definition lim_ok :: "LoginRateLimiter \<Rightarrow> bool" where
  "lim_ok l \<longleftrightarrow> distinct (map fst (lr_attempts l)) \<and> (\<forall>x \<in> set (lr_attempts l). attempt_ok (snd x))"

abbreviation entry :: "LoginRateLimiter \<Rightarrow> string \<Rightarrow> loginAttempt option" where
  "entry l \<equiv> map_of (lr_attempts l)"

lemma lim_ok_entry: "lim_ok l \<Longrightarrow> entry l ip = Some e \<Longrightarrow> attempt_ok e"
  by (auto simp: lim_ok_def dest!: map_of_SomeD)

lemma AList_length_update: "length (AList.update k v xs) \<le> Suc (length xs)"
  by (induction xs) auto

lemma AList_length_update_in: "(k, y) \<in> set xs \<Longrightarrow> length (AList.update k v xs) = length xs"
  by (induction xs) auto

lemma AList_length_delete: "length (AList.delete k xs) \<le> length xs"
  by (simp add: AList.delete_eq)

lemma lim_ok_update: "lim_ok l \<Longrightarrow> attempt_ok e \<Longrightarrow> lim_ok (l\<lparr>lr_attempts := AList.update ip e (lr_attempts l)\<rparr>)"
  using set_AList_update [of ip e "lr_attempts l"] by (auto simp: lim_ok_def distinct_update)

lemma lim_ok_delete: "lim_ok l \<Longrightarrow> lim_ok (l\<lparr>lr_attempts := AList.delete ip (lr_attempts l)\<rparr>)"
  using set_AList_delete [of ip "lr_attempts l"] by (auto simp: lim_ok_def distinct_delete)

lemma lim_ok_evict: "lim_ok l \<Longrightarrow> lim_ok (evictOldestEntry now l)"
  by (simp add: evictOldestEntry_def Let_def lim_ok_delete)

lemma lim_ok_stale: "lim_ok l \<Longrightarrow> lim_ok (EvictStaleEntries now m l)"
  by (auto simp: lim_ok_def EvictStaleEntries_def Let_def distinct_map_filter)

lemma i32_small [simp]: "0 \<le> n \<Longrightarrow> n \<le> 6 \<Longrightarrow> i32 n = n"
  by (simp add: i32_def)

lemma i64_diff [simp]: "0 \<le> a \<Longrightarrow> a < 2 ^ 62 \<Longrightarrow> 0 \<le> b \<Longrightarrow> b < 2 ^ 62 \<Longrightarrow> i64 (a - b) = a - b"
  by (rule i64_id) (simp add: in_i64_def)

text \<open>After the question whether an address is blocked was answered with no, it has no block.\<close>

lemma IsBlocked_cases:
  assumes "IsBlocked now ip l = (b, l1)" "lim_ok l" "0 < now" "now < 2 ^ 62"
  shows "lim_ok l1" "length (lr_attempts l1) \<le> length (lr_attempts l)" "lr_maxIPs l1 = lr_maxIPs l"
    and "\<not> b \<Longrightarrow> (case entry l1 ip of None \<Rightarrow> entry l ip = None | Some e \<Rightarrow> la_blockedAt e = 0)"
    and "b \<Longrightarrow> l1 = l"
    and "ip' \<noteq> ip \<Longrightarrow> entry l1 ip' = entry l ip'"
    and "entry l ip = Some e \<Longrightarrow> la_blockedAt e = 0 \<Longrightarrow> l1 = l"
    and "entry l ip = Some e \<Longrightarrow> la_blockedAt e \<noteq> 0 \<Longrightarrow> \<not> b \<Longrightarrow> la_lastFail e + blockDuration \<le> now"
    and "entry l ip = Some e \<Longrightarrow> la_blockedAt e \<noteq> 0 \<Longrightarrow> \<not> b \<Longrightarrow>
      entry l1 ip = Some (e\<lparr>la_failures := 0, la_blockedAt := 0\<rparr>)"
    and "entry l ip = None \<Longrightarrow> l1 = l"
proof -
  have upd: "length (AList.update ip x (lr_attempts l)) \<le> length (lr_attempts l)" if "entry l ip = Some y" for x y
    using that AList_length_update_in [of ip y] by (simp add: map_of_SomeD)
  have ok: "attempt_ok e" if "entry l ip = Some e" for e using lim_ok_entry assms(2) that by blast
  have reset: "attempt_ok (e\<lparr>la_failures := 0, la_blockedAt := 0\<rparr>)" for e by (simp add: attempt_ok_def)
  note defs = IsBlocked_def
  show "lim_ok l1" using assms reset
    by (auto simp: defs intro!: lim_ok_update split: option.splits if_splits)
  show "length (lr_attempts l1) \<le> length (lr_attempts l)" "lr_maxIPs l1 = lr_maxIPs l"
    using assms upd by (auto simp: defs split: option.splits if_splits)
  show "\<not> b \<Longrightarrow> (case entry l1 ip of None \<Rightarrow> entry l ip = None | Some e \<Rightarrow> la_blockedAt e = 0)"
    using assms by (auto simp: defs update_conv' split: option.splits if_splits)
  show "b \<Longrightarrow> l1 = l" using assms by (auto simp: defs split: option.splits if_splits)
  show "ip' \<noteq> ip \<Longrightarrow> entry l1 ip' = entry l ip'"
    using assms by (auto simp: defs update_conv' split: option.splits if_splits)
  show "entry l ip = Some e \<Longrightarrow> la_blockedAt e = 0 \<Longrightarrow> l1 = l" "entry l ip = None \<Longrightarrow> l1 = l"
    using assms by (auto simp: defs)
  show "entry l ip = Some e \<Longrightarrow> la_blockedAt e \<noteq> 0 \<Longrightarrow> \<not> b \<Longrightarrow> la_lastFail e + blockDuration \<le> now"
    using assms ok [of e] by (auto simp: defs attempt_ok_def split: if_splits)
  show "entry l ip = Some e \<Longrightarrow> la_blockedAt e \<noteq> 0 \<Longrightarrow> \<not> b \<Longrightarrow> entry l1 ip = Some (e\<lparr>la_failures := 0, la_blockedAt := 0\<rparr>)"
    using assms by (auto simp: defs update_conv' split: if_splits)
qed


text \<open>Recording a failure of an address that is not blocked, on a table with room.\<close>

lemma RecordFailure_room:
  assumes "lim_ok l" "case entry l ip of None \<Rightarrow> True | Some e \<Rightarrow> la_blockedAt e = 0" "0 < now" "now < 2 ^ 62"
    and "RecordFailure now ip l = (b, l1)"
  shows "lim_ok l1" and "lr_maxIPs l1 = lr_maxIPs l" and "length (lr_attempts l1) \<le> Suc (length (lr_attempts l))"
    and "\<exists>f. entry l1 ip = Some f \<and> la_lastFail f = now \<and>
      la_failures f = (case entry l ip of None \<Rightarrow> 1 | Some e \<Rightarrow> la_failures e + 1)"
    and "entry l ip \<noteq> None \<or> int (length (lr_attempts l)) < lr_maxIPs l \<Longrightarrow> ip' \<noteq> ip \<Longrightarrow> entry l1 ip' = entry l ip'"
proof -
  define e where "e = (case entry l ip of None \<Rightarrow> \<lparr>la_failures = 0, la_lastFail = 0, la_blockedAt = 0\<rparr> | Some e \<Rightarrow> e)"
  define l0 where "l0 = (if entry l ip = None \<and> lr_maxIPs l \<le> int (length (lr_attempts l)) then evictOldestEntry now l else l)"
  have e: "attempt_ok e" "la_blockedAt e = 0" "la_failures e < 5"
    using assms(1,2) lim_ok_entry [of l ip] by (auto simp: e_def attempt_ok_def split: option.splits)
  then have f: "0 \<le> la_failures e + 1" "la_failures e + 1 \<le> 6" by (auto simp: attempt_ok_def)
  define e1 where "e1 = (if maxFailedAttempts \<le> la_failures e + 1
     then e\<lparr>la_failures := la_failures e + 1, la_lastFail := now, la_blockedAt := now\<rparr>
     else e\<lparr>la_failures := la_failures e + 1, la_lastFail := now\<rparr>)"
  have run: "l1 = l0\<lparr>lr_attempts := AList.update ip e1 (lr_attempts l0)\<rparr>"
    using assms(5) e f
    by (auto simp: RecordFailure_def e_def l0_def e1_def Let_def split: option.splits if_splits)
  have "attempt_ok e1" using e f assms(3,4) by (auto simp: e1_def attempt_ok_def)
  moreover have "lim_ok l0" using assms(1) by (simp add: l0_def lim_ok_evict)
  ultimately show "lim_ok l1" unfolding run by (intro lim_ok_update)
  have l0: "lr_maxIPs l0 = lr_maxIPs l" "length (lr_attempts l0) \<le> length (lr_attempts l)"
    by (auto simp: l0_def evictOldestEntry_def Let_def AList_length_delete)
  show "lr_maxIPs l1 = lr_maxIPs l" using l0 by (simp add: run)
  show "length (lr_attempts l1) \<le> Suc (length (lr_attempts l))"
    using AList_length_update [of ip e1 "lr_attempts l0"] l0 by (simp add: run)
  show "\<exists>f. entry l1 ip = Some f \<and> la_lastFail f = now \<and> la_failures f = (case entry l ip of None \<Rightarrow> 1 | Some e \<Rightarrow> la_failures e + 1)"
    by (auto simp: run update_conv' e1_def e_def split: option.split)
  show "entry l1 ip' = entry l ip'" if "entry l ip \<noteq> None \<or> int (length (lr_attempts l)) < lr_maxIPs l" "ip' \<noteq> ip"
    using that by (auto simp: run update_conv' l0_def)
qed

lemma oldest_entry_open:
  "fst (oldest_entry now es acc) = fst acc \<or> (\<exists>e. (fst (oldest_entry now es acc), e) \<in> set es \<and> \<not> still_blocked now e)"
  by (induction now es acc rule: oldest_entry.induct) auto

text \<open>Evictions never remove a block.\<close>

lemma evict_keeps_blocked:
  assumes "lim_ok l" "entry l ip = Some e" "still_blocked now e" "ip \<noteq> []"
  shows "entry (evictOldestEntry now l) ip = Some e"
proof -
  let ?o = "fst (oldest_entry now (lr_attempts l) ([], -1))"
  have "?o \<noteq> ip"
  proof
    assume "?o = ip"
    then obtain e' where "(ip, e') \<in> set (lr_attempts l)" "\<not> still_blocked now e'"
      using oldest_entry_open [of now "lr_attempts l" "([], -1)"] assms(4) by auto
    then show False using assms(1-3) by (auto simp: lim_ok_def)
  qed
  then show ?thesis using assms(2) by (simp add: evictOldestEntry_def Let_def delete_conv')
qed

lemma map_of_filter_distinct:
  "distinct (map fst es) \<Longrightarrow>
     map_of (filter keep es) ip = (case map_of es ip of Some e \<Rightarrow> (if keep (ip, e) then Some e else None) | _ \<Rightarrow> None)"
proof (induction es)
  case (Cons x es)
  have "map_of es (fst x) = None" using Cons.prems by (simp add: map_of_eq_None_iff)
  with Cons show ?case by (cases x) auto
qed simp

lemma stale_entry:
  "lim_ok l \<Longrightarrow> entry (EvictStaleEntries now m l) ip = (case entry l ip of None \<Rightarrow> None
     | Some e \<Rightarrow> if still_blocked now e \<or> \<not> (m = 0 \<or> la_lastFail e < (if 0 < m then i64 (now - m) else 0)) then Some e else None)"
  by (simp add: EvictStaleEntries_def Let_def lim_ok_def map_of_filter_distinct split: option.split)


subsection \<open>Guesses\<close>

fun event_time :: "web_event \<Rightarrow> time" where
  "event_time (Request now token r body hashed random) = now"
| "event_time (EvictTokens now) = now"
| "event_time (EvictAttempts now maxAge) = now"
| "event_time (Restart now u h) = now"

text \<open>A wrong password of an address, seen from outside: a form was sent and the answer is that it is invalid; a right
  one gets a cookie.\<close>

fun wrong_guess :: "env \<Rightarrow> string \<Rightarrow> web_event \<Rightarrow> server \<Rightarrow> bool" where
  "wrong_guess E ip (Request now token r body hashed random) sv \<longleftrightarrow> getClientIP r = ip \<and> rq_Form r \<noteq> None \<and>
     pg_reply (fst (serve E now token r body hashed random sv)) = Redirect (login_url (wc_BasePath (en_config E)) ''invalid'')"
| "wrong_guess E ip _ sv \<longleftrightarrow> False"

fun right_guess :: "env \<Rightarrow> string \<Rightarrow> web_event \<Rightarrow> server \<Rightarrow> bool" where
  "right_guess E ip (Request now token r body hashed random) sv \<longleftrightarrow> getClientIP r = ip \<and>
     (case pg_cookie (fst (serve E now token r body hashed random sv)) of None \<Rightarrow> False | Some c \<Rightarrow> ck_MaxAge c = sessionMaxAge)"
| "right_guess E ip _ sv \<longleftrightarrow> False"


text \<open>The evictions that run in the server have an age of at least the duration of a block.\<close>

fun keeps_attempts :: "web_event \<Rightarrow> bool" where
  "keeps_attempts (EvictAttempts now maxAge) \<longleftrightarrow> blockDuration \<le> maxAge \<and> maxAge < 2 ^ 62"
| "keeps_attempts (Restart now u h) \<longleftrightarrow> False"
| "keeps_attempts e \<longleftrightarrow> True"

lemma loginPost_limiter:
  assumes "loginPost cr cf now z tok r w = (pg, w')" "wb_limiter w = Some l" "IsBlocked now (getClientIP r) l = (b, l1)"
  shows "b \<and> wb_limiter w' = Some l1 \<and> pg_cookie pg = None \<and> pg_reply pg = Redirect (login_url (wc_BasePath cf) ''ratelimit'') \<or>
    \<not> b \<and> wb_limiter w' = Some l1 \<and> pg_cookie pg = None \<and>
      (rq_Form r = None \<or> pg_reply pg = Redirect (login_url (wc_BasePath cf) ''required'')) \<or>
    \<not> b \<and> wb_limiter w' = Some (snd (RecordFailure now (getClientIP r) l1)) \<and> pg_cookie pg = None \<or>
    \<not> b \<and> wb_limiter w' = Some (limiter_Clear (getClientIP r) l1) \<and>
      (case pg_cookie pg of None \<Rightarrow> False | Some c \<Rightarrow> ck_MaxAge c = sessionMaxAge)"
  using assms
  by (auto simp: loginPost_def limiter_blocked_def Let_def split: if_splits option.splits prod.splits)

lemma logged_in_limiter: "logged_in now r w = (b, w') \<Longrightarrow> wb_limiter w' = wb_limiter w"
  by (auto simp: logged_in_def split: option.splits prod.splits)

lemma ChangePassword_limiter: "ChangePassword E now tok random hashed meth body sv = (res, sv') \<Longrightarrow>
    wb_limiter (sv_web sv') = wb_limiter (sv_web sv)"
  by (auto simp: ChangePassword_def Let_def split: if_splits option.splits pw_body.splits sum.splits prod.splits)

lemma chain_reply: "web_chain cr now bp tp r so = (a, so') \<Longrightarrow> a \<noteq> Redirect (login_url bp ''invalid'')"
  by (auto simp: web_chain_def csrfMiddleware_def sessionAuth_def Let_def login_url_def
      split: reply.splits if_splits option.splits prod.splits)

definition quiet :: "string \<Rightarrow> page \<Rightarrow> bool" where
  "quiet bp pg \<longleftrightarrow> pg_reply pg \<noteq> Redirect (login_url bp ''invalid'') \<and>
     (case pg_cookie pg of None \<Rightarrow> True | Some c \<Rightarrow> ck_MaxAge c \<noteq> sessionMaxAge)"

lemma Login_limiter:
  assumes "Login cr cf now z tok r w = (pg, w')"
  shows "wb_limiter w' = wb_limiter w \<and> quiet (wc_BasePath cf) pg \<or>
    (\<exists>w1. wb_limiter w1 = wb_limiter w \<and> loginPost cr cf now z tok r w1 = (pg, w'))"
  using assms logged_in_limiter
  by (auto simp: Login_def quiet_def login_url_def split: if_splits prod.splits)

lemma serve_limiter:
  assumes "serve E now tok r body hashed random sv = (pg, sv')"
  shows "wb_limiter (sv_web sv') = wb_limiter (sv_web sv) \<and> quiet (wc_BasePath (en_config E)) pg \<or>
    (\<exists>w1. wb_limiter w1 = wb_limiter (sv_web sv) \<and>
      loginPost (en_hashes E) (en_config E) now (en_zone E) tok r w1 = (pg, sv_web sv'))"
proof -
  let ?bp = "wc_BasePath (en_config E)"
  obtain a so where c: "web_chain (en_hashes E) now ?bp (en_proxy E) r (wb_sessions (sv_web sv)) = (a, so)"
    by (cases "web_chain (en_hashes E) now ?bp (en_proxy E) r (wb_sessions (sv_web sv))")
  let ?sv = "set_sessions so sv"
  have lim: "wb_limiter (sv_web ?sv) = wb_limiter (sv_web sv)" by (simp add: set_sessions_def)
  obtain p w where lg: "Login (en_hashes E) (en_config E) now (en_zone E) tok r (sv_web ?sv) = (p, w)" by (meson surj_pair)
  obtain res sv3 where cp: "ChangePassword E now tok random hashed (rq_Method r) body ?sv = (res, sv3)" by (meson surj_pair)
  have lo: "wb_limiter (snd (Logout (en_config E) r (sv_web ?sv))) = wb_limiter (sv_web ?sv)"
      "quiet ?bp (fst (Logout (en_config E) r (sv_web ?sv)))"
    by (auto simp: Logout_def quiet_def login_url_def split: option.split)
  show ?thesis
  proof (cases "a = Next \<and> rq_Path r = ?bp @ ''/login''")
    case True
    then have "pg = p" "sv_web sv' = w" using assms c lg by (auto simp: serve_def Let_def)
    then show ?thesis using Login_limiter [OF lg] lim by simp
  next
    case False
    then have "wb_limiter (sv_web sv') = wb_limiter (sv_web ?sv) \<and> quiet ?bp pg"
      using assms c lo cp ChangePassword_limiter [OF cp] chain_reply [OF c]
      by (auto simp: serve_def Let_def quiet_def split: reply.splits if_splits prod.splits)
    then show ?thesis using lim by simp
  qed
qed


subsection \<open>How many guesses\<close>

definition budget :: "time \<Rightarrow> string \<Rightarrow> LoginRateLimiter \<Rightarrow> int" where
  "budget T ip l = (case entry l ip of None \<Rightarrow> 5 | Some e \<Rightarrow> if la_lastFail e < T then 5 else 5 - la_failures e)"



text \<open>The question whether an address is blocked gives nobody more tries within the time of a block.\<close>

lemma IsBlocked_budget:
  assumes "IsBlocked now ip0 l = (b, l1)" "lim_ok l" "0 < now" "now < 2 ^ 62" "now < T + blockDuration"
  shows "budget T ip l1 = budget T ip l"
proof (cases "ip = ip0")
  case False
  then show ?thesis using IsBlocked_cases(6) [OF assms(1-4)] by (simp add: budget_def)
next
  case True
  note c = IsBlocked_cases [OF assms(1-4)]
  show ?thesis
  proof (cases "b \<or> entry l ip = None \<or> (\<exists>e. entry l ip = Some e \<and> la_blockedAt e = 0)")
    case same: True
    then have "l1 = l" using c(5,7,10) True by auto
    then show ?thesis by simp
  next
    case reset: False
    then obtain e where e: "entry l ip0 = Some e" "la_blockedAt e \<noteq> 0" "\<not> b" using True by auto
    have "la_lastFail e < T" using c(8) [OF e] assms(5) by simp
    then show ?thesis using c(9) [OF e] e(1) True by (simp add: budget_def)
  qed
qed

lemma serve_budget:
  assumes "serve E now tok r body hashed random sv = (pg, sv')" "wb_limiter (sv_web sv) = Some l" "lim_ok l"
    and "0 < now" "now < 2 ^ 62" "T \<le> now" "now < T + blockDuration"
  shows "\<exists>l'. wb_limiter (sv_web sv') = Some l' \<and> lim_ok l' \<and> lr_maxIPs l' = lr_maxIPs l \<and>
    length (lr_attempts l') \<le> Suc (length (lr_attempts l)) \<and>
    (int (length (lr_attempts l)) < lr_maxIPs l \<longrightarrow> \<not> right_guess E ip (Request now tok r body hashed random) sv \<longrightarrow>
      (if wrong_guess E ip (Request now tok r body hashed random) sv then 1 else 0) + budget T ip l' \<le> budget T ip l)"
  using serve_limiter [OF assms(1)]
proof
  assume "wb_limiter (sv_web sv') = wb_limiter (sv_web sv) \<and> quiet (wc_BasePath (en_config E)) pg"
  then show ?thesis using assms(1-3) by (auto simp: quiet_def)
next
  assume "\<exists>w1. wb_limiter w1 = wb_limiter (sv_web sv) \<and>
      loginPost (en_hashes E) (en_config E) now (en_zone E) tok r w1 = (pg, sv_web sv')"
  then obtain w1 where w1: "wb_limiter w1 = Some l"
    and lp: "loginPost (en_hashes E) (en_config E) now (en_zone E) tok r w1 = (pg, sv_web sv')"
    using assms(2) by auto
  let ?ip = "getClientIP r" and ?bp = "wc_BasePath (en_config E)"
  obtain b l1 where ib: "IsBlocked now ?ip l = (b, l1)" by (cases "IsBlocked now ?ip l")
  note c = IsBlocked_cases [OF ib assms(3-5)]
  have b1: "budget T ip l1 = budget T ip l" by (rule IsBlocked_budget [OF ib assms(3-5,7)])
  have guess: "wrong_guess E ip (Request now tok r body hashed random) sv \<longleftrightarrow>
      ?ip = ip \<and> rq_Form r \<noteq> None \<and> pg_reply pg = Redirect (login_url ?bp ''invalid'')"
    "right_guess E ip (Request now tok r body hashed random) sv \<longleftrightarrow>
      ?ip = ip \<and> (case pg_cookie pg of None \<Rightarrow> False | Some c \<Rightarrow> ck_MaxAge c = sessionMaxAge)"
    using assms(1) by simp_all
  from loginPost_limiter [OF lp w1 ib]
  consider (none) "wb_limiter (sv_web sv') = Some l1" "\<not> wrong_guess E ip (Request now tok r body hashed random) sv"
    | (fail) "\<not> b" "wb_limiter (sv_web sv') = Some (snd (RecordFailure now ?ip l1))" "pg_cookie pg = None"
    | (clear) "wb_limiter (sv_web sv') = Some (limiter_Clear ?ip l1)"
        "case pg_cookie pg of None \<Rightarrow> False | Some c \<Rightarrow> ck_MaxAge c = sessionMaxAge"
    unfolding guess by (auto simp: login_url_def)
  then show ?thesis
  proof cases
    case none
    then show ?thesis using c(1-3) b1 by auto
  next
    case fail
    obtain d l2 where rf: "RecordFailure now ?ip l1 = (d, l2)" by (cases "RecordFailure now ?ip l1")
    have "case entry l1 ?ip of None \<Rightarrow> True | Some e \<Rightarrow> la_blockedAt e = 0" using c(4) [OF fail(1)] by (auto split: option.splits)
    note r = RecordFailure_room [OF c(1) this assms(4,5) rf]
    have "(if ?ip = ip then 1 else 0) + budget T ip l2 \<le> budget T ip l1" if room: "int (length (lr_attempts l)) < lr_maxIPs l"
    proof (cases "?ip = ip")
      case True
      then show ?thesis
        using r(4) lim_ok_entry [OF c(1), of ip] assms(6)
        by (auto simp: budget_def attempt_ok_def split: option.splits)
    next
      case False
      have "entry l2 ip = entry l1 ip" using r(5) [of ip] False c(2,3) room by force
      then show ?thesis using False by (simp add: budget_def)
    qed
    moreover have "length (lr_attempts l2) \<le> Suc (length (lr_attempts l))" using r(3) c(2) by simp
    ultimately show ?thesis using fail rf r(1,2) c(3) b1 unfolding guess by (auto split: if_splits)
  next
    case clear
    have "lim_ok (limiter_Clear ?ip l1)" using c(1) by (simp add: limiter_Clear_def lim_ok_delete)
    moreover have "budget T ip (limiter_Clear ?ip l1) = budget T ip l1" if "?ip \<noteq> ip"
      using that by (simp add: budget_def limiter_Clear_def delete_conv')
    moreover have "length (lr_attempts (limiter_Clear ?ip l1)) \<le> Suc (length (lr_attempts l))"
      using AList_length_delete [of ?ip "lr_attempts l1"] c(2) by (simp add: limiter_Clear_def)
    ultimately show ?thesis using clear c(3) b1 unfolding guess by (auto simp: limiter_Clear_def)
  qed
qed


lemma step_budget:
  assumes "wb_limiter (sv_web sv) = Some l" "lim_ok l" "0 < event_time e" "event_time e < 2 ^ 62"
    and "T \<le> event_time e" "event_time e < T + blockDuration"
  shows "\<exists>l'. wb_limiter (sv_web (snd (web_step E e sv))) = Some l' \<and> lim_ok l' \<and>
    (keeps_attempts e \<longrightarrow> lr_maxIPs l' = lr_maxIPs l \<and> length (lr_attempts l') \<le> Suc (length (lr_attempts l)) \<and>
       (int (length (lr_attempts l)) < lr_maxIPs l \<longrightarrow> \<not> right_guess E ip e sv \<longrightarrow>
          (if wrong_guess E ip e sv then 1 else 0) + budget T ip l' \<le> budget T ip l))"
proof (cases e)
  case (Request now tok r body hashed random)
  obtain pg sv' where s: "serve E now tok r body hashed random sv = (pg, sv')" by (meson surj_pair)
  show ?thesis using serve_budget [OF s assms(1,2), of T ip] assms(3-6) unfolding Request by (auto simp: s)
next
  case (EvictTokens now)
  then show ?thesis using assms(1,2) by (simp add: set_sessions_def)
next
  case (EvictAttempts now m)
  have "budget T ip (EvictStaleEntries now m l) = budget T ip l" if "blockDuration \<le> m" "m < 2 ^ 62"
    using assms(3-6) that EvictAttempts by (auto simp: budget_def stale_entry [OF assms(2)] split: option.split)
  moreover have "length (lr_attempts (EvictStaleEntries now m l)) \<le> length (lr_attempts l)"
    by (simp add: EvictStaleEntries_def Let_def)
  moreover have "lr_maxIPs (EvictStaleEntries now m l) = lr_maxIPs l" by (simp add: EvictStaleEntries_def Let_def)
  ultimately show ?thesis using EvictAttempts assms(1,2) lim_ok_stale by auto
qed (simp add: NewLoginRateLimiter_def lim_ok_def)

lemma run_lim_ok:
  assumes "web_run E evs sv" "\<forall>e \<in> set evs. 0 < event_time e \<and> event_time e < 2 ^ 62"
  shows "\<exists>l. wb_limiter (sv_web sv) = Some l \<and> lim_ok l"
  using assms
proof (induction rule: web_run.induct)
  case (start sv)
  then show ?case by (auto simp: boot_def NewLoginRateLimiter_def lim_ok_def)
next
  case (event evs sv e)
  then obtain l where "wb_limiter (sv_web sv) = Some l" "lim_ok l" by auto
  from step_budget [OF this, of e "event_time e" E "[]"] event.prems show ?case by auto
qed



lemma still_blocked_window: "attempt_ok a \<Longrightarrow> la_blockedAt a \<noteq> 0 \<Longrightarrow> la_blockedAt a \<le> now \<Longrightarrow>
    now < la_blockedAt a + blockDuration \<Longrightarrow> now < 2 ^ 62 \<Longrightarrow> still_blocked now a \<and> i64 (now - la_blockedAt a) < blockDuration"
  by (auto simp: still_blocked_def attempt_ok_def)

lemma IsBlocked_locked:
  assumes "lim_ok l" "entry l ip = Some a" "la_blockedAt a \<noteq> 0" "la_blockedAt a \<le> now"
    "now < la_blockedAt a + blockDuration" "now < 2 ^ 62"
  shows "IsBlocked now ip l = (True, l)"
  using still_blocked_window [OF lim_ok_entry [OF assms(1,2)] assms(3-6)] assms(2,3) by (simp add: IsBlocked_def)

lemma loginPost_locked:
  assumes "wb_limiter w = Some l" "IsBlocked now (getClientIP r) l = (True, l)"
  shows "loginPost cr cf now z tok r w =
    ((plain (Redirect (login_url (wc_BasePath cf) ''ratelimit'')))\<lparr>pg_RetryAfter := Some ''300''\<rparr>, w)"
  using assms by (simp add: loginPost_def limiter_blocked_def Let_def)

lemma step_locked:
  assumes "wb_limiter (sv_web sv) = Some l" "lim_ok l" "entry l ip = Some a" "la_blockedAt a \<noteq> 0" "ip \<noteq> []"
    and "la_blockedAt a \<le> event_time e" "event_time e < la_blockedAt a + blockDuration" "event_time e < 2 ^ 62"
    and "\<forall>now u h. e \<noteq> Restart now u h"
  shows "\<exists>l'. wb_limiter (sv_web (snd (web_step E e sv))) = Some l' \<and> lim_ok l' \<and> entry l' ip = Some a"
proof -
  have a: "attempt_ok a" using lim_ok_entry assms(2,3) by blast
  then have pos: "0 < event_time e" using assms(4,6) by (auto simp: attempt_ok_def)
  obtain l' where l': "wb_limiter (sv_web (snd (web_step E e sv))) = Some l'" "lim_ok l'"
    using step_budget [OF assms(1,2) pos assms(8), of "event_time e" E "[]"] by auto
  note still = still_blocked_window [OF a assms(4,6-8)]
  have "entry l' ip = Some a"
  proof (cases e)
    case (Request now tok r body hashed random)
    obtain pg sv' where s: "serve E now tok r body hashed random sv = (pg, sv')" by (meson surj_pair)
    have e': "wb_limiter (sv_web sv') = Some l'" using l'(1) Request by (simp add: s)
    have t: "event_time e = now" using Request by simp
    from serve_limiter [OF s] show ?thesis
    proof
      assume "\<exists>w1. wb_limiter w1 = wb_limiter (sv_web sv) \<and>
          loginPost (en_hashes E) (en_config E) now (en_zone E) tok r w1 = (pg, sv_web sv')"
      then obtain w1 where w1: "wb_limiter w1 = Some l"
        and lp: "loginPost (en_hashes E) (en_config E) now (en_zone E) tok r w1 = (pg, sv_web sv')"
        using assms(1) by auto
      show ?thesis
      proof (cases "getClientIP r = ip")
        case True
        have "IsBlocked now (getClientIP r) l = (True, l)"
          unfolding True by (rule IsBlocked_locked [OF assms(2-4)]) (use assms(6-8) t in auto)
        from loginPost_locked [OF w1 this] lp w1 e' show ?thesis using assms(3) by auto
      next
        case False
        obtain b l1 where ib: "IsBlocked now (getClientIP r) l = (b, l1)" by (cases "IsBlocked now (getClientIP r) l")
        note c = IsBlocked_cases [OF ib assms(2) pos [unfolded t] assms(8) [unfolded t]]
        have l1: "entry l1 ip = Some a" using c(6) [of ip] False assms(3) by auto
        obtain d l2 where rf: "RecordFailure now (getClientIP r) l1 = (d, l2)" by (meson surj_pair)
        have "entry l2 ip = Some a"
        proof -
          have "entry (evictOldestEntry now l1) ip = Some a"
            by (rule evict_keeps_blocked [OF c(1) l1 _ assms(5)]) (use still t in auto)
          then show ?thesis
            using rf l1 False by (auto simp: RecordFailure_def Let_def update_conv' split: option.splits if_splits)
        qed
        moreover have "entry (limiter_Clear (getClientIP r) l1) ip = Some a"
          using l1 False by (simp add: limiter_Clear_def delete_conv')
        ultimately show ?thesis using loginPost_limiter [OF lp w1 ib] l1 rf e' by auto
      qed
    qed (use e' assms(1,3) in simp)
  next
    case (EvictTokens now)
    then show ?thesis using l' assms(1,3) by (simp add: set_sessions_def)
  next
    case (EvictAttempts now m)
    then show ?thesis using l' assms(1,3) still by (auto simp: stale_entry [OF assms(2)])
  qed (use assms(9) in simp)
  then show ?thesis using l' by blast
qed

lemma exec_locked:
  assumes "wb_limiter (sv_web sv) = Some l" "lim_ok l" "entry l ip = Some a" "la_blockedAt a \<noteq> 0" "ip \<noteq> []"
    and "\<forall>e \<in> set es. la_blockedAt a \<le> event_time e \<and> event_time e < la_blockedAt a + blockDuration \<and> event_time e < 2 ^ 62 \<and>
      (\<forall>now u h. e \<noteq> Restart now u h)"
  shows "\<exists>l'. wb_limiter (sv_web (web_exec E es sv)) = Some l' \<and> lim_ok l' \<and> entry l' ip = Some a"
  using assms
proof (induction es arbitrary: sv l)
  case (Cons e es)
  obtain l' where "wb_limiter (sv_web (snd (web_step E e sv))) = Some l'" "lim_ok l'" "entry l' ip = Some a"
    using step_locked [OF Cons.prems(1-5), of e E] Cons.prems(6) by auto
  from Cons.IH [OF this Cons.prems(4,5)] Cons.prems(6) show ?case by (simp add: web_exec_def)
qed (simp add: web_exec_def)

text \<open>Wrong passwords to apply the theorems to.\<close>

definition wrong_login :: "time \<Rightarrow> web_event" where
  "wrong_login t = Request t ''t2'' (login_request ''guess'') BadJson (Inl []) None"


text \<open>C36: an address that is blocked stays blocked for five minutes: whatever the other addresses do, however
  full the table is and whatever is evicted, its logins are refused without a look at their password.\<close>

theorem login_locked:
  assumes "web_run E evs sv" "\<forall>e \<in> set evs. 0 < event_time e \<and> event_time e < 2 ^ 62"
    and "wb_limiter (sv_web sv) = Some l" "map_of (lr_attempts l) ip = Some a" "la_blockedAt a \<noteq> 0" "ip \<noteq> []"
    and "\<forall>e \<in> set es. la_blockedAt a \<le> event_time e \<and> event_time e < la_blockedAt a + 5 * Minute \<and> event_time e < 2 ^ 62 \<and>
      (\<forall>now u h. e \<noteq> Restart now u h)"
    and "la_blockedAt a \<le> now" "now < la_blockedAt a + 5 * Minute" "now < 2 ^ 62" "getClientIP r = ip"
  shows "let w = sv_web (web_exec E es sv); (pg, w') = loginPost cr cf now z tok r w
         in pg_reply pg = Redirect (login_url (wc_BasePath cf) ''ratelimit'') \<and> w' = w"
proof -
  have ok: "lim_ok l" using run_lim_ok [OF assms(1,2)] assms(3) by auto
  obtain l' where l': "wb_limiter (sv_web (web_exec E es sv)) = Some l'" "lim_ok l'" "map_of (lr_attempts l') ip = Some a"
    using exec_locked [OF assms(3) ok assms(4-7)] by blast
  have "IsBlocked now (getClientIP r) l' = (True, l')"
    unfolding assms(11) by (rule IsBlocked_locked [OF l'(2,3) assms(5,8-10)])
  from loginPost_locked [OF l'(1) this] show ?thesis by simp
qed

theorem login_locked_witness:
  "let sv = web_exec sample_env (map wrong_login [100, 101, 102, 103, 104]) sample_server;
       r = login_request ''pw'';
       w = sv_web (web_exec sample_env [EvictAttempts 200 300] sv)
   in pg_reply (fst (loginPost toy_hashes (en_config sample_env) 300 0 ''t3'' r w)) = Redirect ''/login?error=ratelimit''"
proof -
  let ?es = "map wrong_login [100, 101, 102, 103, 104]"
  define sv where "sv = web_exec sample_env ?es sample_server"
  define l where "l = the (wb_limiter (sv_web sv))"
  define a where "a = the (map_of (lr_attempts l) ''192.0.2.7'')"
  have run: "web_run sample_env ?es sv"
    using web_run_exec [OF web_run.start [OF boot_sample], of sample_env ?es] by (simp add: sv_def)
  have facts: "wb_limiter (sv_web sv) = Some l" "map_of (lr_attempts l) ''192.0.2.7'' = Some a" "la_blockedAt a = 104"
    unfolding a_def l_def sv_def by code_simp+
  have ip: "getClientIP (login_request ''pw'') = ''192.0.2.7''" by code_simp
  have times: "\<forall>e \<in> set ?es. 0 < event_time e \<and> event_time e < 2 ^ 62" by (simp add: wrong_login_def)
  show ?thesis
    using login_locked [OF run times facts(1,2) _ _ _ _ _ _ ip, of "[EvictAttempts 200 300]" 300 toy_hashes
        "en_config sample_env" 0 "''t3''"] facts(3)
    unfolding sv_def [symmetric] by (simp add: Let_def login_url_def sample_env_def split: prod.splits)
qed

end
