(* ===== verification/RateLimit.thy ===== *)
theory RateLimit
  imports WebAuth
begin

text \<open>
  The other guards of \<open>internal/web/security.go\<close>: the limiter of requests per address, the text of its
  \<open>Retry-After\<close> header, the list of admitted addresses and the test for encrypted values.
\<close>

subsection \<open>Requests per address\<close>

record RateLimiter =
  rl_attempts :: "string \<Rightarrow> int option"
  rl_lastAttempt :: "string \<Rightarrow> time option"
  rl_maxAttempts :: int
  rl_window :: duration

definition NewRateLimiter :: "int \<Rightarrow> duration \<Rightarrow> RateLimiter" where
  "NewRateLimiter maxAttempts window =
     \<lparr>rl_attempts = (\<lambda>_. None), rl_lastAttempt = (\<lambda>_. None), rl_maxAttempts = maxAttempts, rl_window = window\<rparr>"

definition attempts_of :: "RateLimiter \<Rightarrow> string \<Rightarrow> int" where
  "attempts_of rl ip = (case rl_attempts rl ip of None \<Rightarrow> 0 | Some n \<Rightarrow> n)"

text \<open>The counter starts anew when the window has passed since the last attempt let through.\<close>

definition reset_window :: "time \<Rightarrow> string \<Rightarrow> RateLimiter \<Rightarrow> RateLimiter" where
  "reset_window now ip rl =
     (case rl_lastAttempt rl ip of
        None \<Rightarrow> rl
      | Some t \<Rightarrow> if rl_window rl < time_Sub now t then rl\<lparr>rl_attempts := (rl_attempts rl)(ip \<mapsto> 0)\<rparr> else rl)"

definition Allow :: "time \<Rightarrow> string \<Rightarrow> RateLimiter \<Rightarrow> bool \<times> RateLimiter" where
  "Allow now ip rl =
     (let rl1 = reset_window now ip rl
      in if rl_maxAttempts rl1 \<le> attempts_of rl1 ip then (False, rl1)
         else (True, rl1\<lparr>rl_attempts := (rl_attempts rl1)(ip \<mapsto> i64 (attempts_of rl1 ip + 1)),
                         rl_lastAttempt := (rl_lastAttempt rl1)(ip \<mapsto> now)\<rparr>))"

definition GetRemaining :: "time \<Rightarrow> string \<Rightarrow> RateLimiter \<Rightarrow> int \<times> duration" where
  "GetRemaining now ip rl =
     (case rl_lastAttempt rl ip of
        None \<Rightarrow> (rl_maxAttempts rl, 0)
      | Some t \<Rightarrow>
          if rl_window rl < time_Sub now t then (rl_maxAttempts rl, 0)
          else let remaining = i64 (rl_maxAttempts rl - attempts_of rl ip)
               in (if remaining < 0 then 0 else remaining, i64 (rl_window rl - time_Sub now t)))"

text \<open>\<open>string(rune(n))\<close>: the UTF-8 encoding of the code point, or of U+FFFD if there is none.\<close>

definition utf8_rune :: "int \<Rightarrow> string" where
  "utf8_rune n =
     (let c = (if n < 0 \<or> 1114111 < n \<or> 55296 \<le> n \<and> n \<le> 57343 then 65533 else nat n); tail = (\<lambda>k. char_of (128 + k mod 64))
      in if c < 128 then [char_of c]
         else if c < 2048 then [char_of (192 + c div 64), tail c]
         else if c < 65536 then [char_of (224 + c div 4096), tail (c div 64), tail c]
         else [char_of (240 + c div 262144), tail (c div 4096), tail (c div 64), tail c])"

definition dur_Seconds :: "duration \<Rightarrow> f64" where
  "dur_Seconds d = fadd (rnd (of_int (d sdiv Second))) (fdiv (rnd (of_int (d smod Second))) 1000000000)"

definition formatDurationSeconds :: "duration \<Rightarrow> string" where
  "formatDurationSeconds d = utf8_rune (i32 (trunc (dur_Seconds d)))"

text \<open>The middleware: what is refused gets the status and the texts of the header and the body.\<close>

definition RateLimitMiddleware :: "time \<Rightarrow> web_request \<Rightarrow> RateLimiter \<Rightarrow> (int \<times> string \<times> duration) option \<times> RateLimiter" where
  "RateLimitMiddleware now r rl =
     (let ip = getClientIP r; (ok, rl') = Allow now ip rl
      in if \<not> ok then
           (let (remaining, resetIn) = GetRemaining now ip rl'
            in (Some (429, formatDurationSeconds resetIn, resetIn sdiv 1000000), rl'))
         else (None, rl'))"

subsection \<open>Admitted addresses\<close>

fun isAllowed :: "string list \<Rightarrow> string \<Rightarrow> bool" where
  "isAllowed [] clientIP \<longleftrightarrow> False"
| "isAllowed (cidr # rest) clientIP \<longleftrightarrow>
     (case ParseIP clientIP of
        None \<Rightarrow> False
      | Some ip \<Rightarrow>
          (case ParseCIDR cidr of
             None \<Rightarrow> ParseIP cidr = Some ip \<or> isAllowed rest clientIP
           | Some n \<Rightarrow> net_Contains n ip \<or> isAllowed rest clientIP))"

definition whitelist :: "string list \<Rightarrow> web_request \<Rightarrow> reply" where
  "whitelist allowed r =
     (if allowed = [] then Next
      else if \<not> isAllowed allowed (getClientIP r) then Answer 403 ''Forbidden'' else Next)"

definition looks_encrypted :: "string \<Rightarrow> bool" where
  "looks_encrypted s \<longleftrightarrow> 24 \<le> length s \<and> list_all (\<lambda>c. b64_val c \<noteq> None \<or> c = CHR ''='') s"

subsection \<open>Properties\<close>

fun allowed_count :: "string \<Rightarrow> (time \<times> string) list \<Rightarrow> RateLimiter \<Rightarrow> int" where
  "allowed_count ip [] rl = 0"
| "allowed_count ip ((t, ip') # es) rl =
     (let (ok, rl') = Allow t ip' rl in (if ok \<and> ip' = ip then 1 else 0) + allowed_count ip es rl')"

definition rl_exec :: "(time \<times> string) list \<Rightarrow> RateLimiter \<Rightarrow> RateLimiter" where
  "rl_exec es rl = fold (\<lambda>(t, ip) rl. snd (Allow t ip rl)) es rl"

definition rl_ok :: "RateLimiter \<Rightarrow> bool" where
  "rl_ok rl \<longleftrightarrow> (\<forall>ip. 0 \<le> attempts_of rl ip \<and> (attempts_of rl ip \<le> rl_maxAttempts rl \<or> attempts_of rl ip = 0)) \<and> rl_maxAttempts rl < 2 ^ 62 \<and> 0 \<le> rl_maxAttempts rl \<and>
     0 \<le> rl_window rl \<and> rl_window rl < 2 ^ 62"

definition rl_left :: "time \<Rightarrow> string \<Rightarrow> RateLimiter \<Rightarrow> int" where
  "rl_left T ip rl = (case rl_lastAttempt rl ip of
     None \<Rightarrow> rl_maxAttempts rl | Some t \<Rightarrow> if t < T then rl_maxAttempts rl else rl_maxAttempts rl - attempts_of rl ip)"

lemma time_Sub_le: "t - u \<le> w \<Longrightarrow> 0 \<le> w \<Longrightarrow> time_Sub t u \<le> w"
  by (simp add: time_Sub_def)

lemma reset_window_simps [simp]:
  "rl_maxAttempts (reset_window t ip rl) = rl_maxAttempts rl" "rl_window (reset_window t ip rl) = rl_window rl"
  "rl_lastAttempt (reset_window t ip rl) = rl_lastAttempt rl"
  "ip' \<noteq> ip \<Longrightarrow> rl_attempts (reset_window t ip rl) ip' = rl_attempts rl ip'"
  by (auto simp: reset_window_def split: option.split)

lemma reset_window_attempts:
  "attempts_of (reset_window t ip rl) ip' = (if ip' = ip \<and> (\<exists>u. rl_lastAttempt rl ip = Some u \<and> rl_window rl < time_Sub t u)
     then 0 else attempts_of rl ip')"
  by (auto simp: reset_window_def attempts_of_def split: option.split)

lemma rl_ok_bounds: "rl_ok rl \<Longrightarrow> 0 \<le> attempts_of rl ip \<and> attempts_of rl ip \<le> rl_maxAttempts rl"
  by (auto simp: rl_ok_def dest: spec [of _ ip])

lemma reset_window_ok: "rl_ok rl \<Longrightarrow> rl_ok (reset_window t ip rl)"
  by (simp add: rl_ok_def reset_window_attempts)

text \<open>What \<open>Allow\<close> does on a state with sensible counters.\<close>

lemma Allow_run:
  assumes "rl_ok rl" "rl1 = reset_window t ip rl"
  shows "Allow t ip rl =
    (if attempts_of rl1 ip = rl_maxAttempts rl then (False, rl1)
     else (True, rl1\<lparr>rl_attempts := (rl_attempts rl1)(ip \<mapsto> attempts_of rl1 ip + 1),
                     rl_lastAttempt := (rl_lastAttempt rl)(ip \<mapsto> t)\<rparr>))"
proof -
  have ok: "0 \<le> attempts_of rl1 ip" "attempts_of rl1 ip \<le> rl_maxAttempts rl" "rl_maxAttempts rl < 2 ^ 62"
    using rl_ok_bounds [OF reset_window_ok [OF assms(1)], of t ip ip] assms by (simp_all add: rl_ok_def)
  have "i64 (attempts_of rl1 ip + 1) = attempts_of rl1 ip + 1" using ok by (intro i64_id) (simp add: in_i64_def)
  then show ?thesis using ok unfolding Allow_def assms(2) [symmetric] Let_def by (auto simp: assms(2))
qed

lemma Allow_frame:
  assumes "Allow t ip rl = (ok, rl')" "rl_ok rl"
  shows "rl_ok rl'" "rl_maxAttempts rl' = rl_maxAttempts rl" "rl_window rl' = rl_window rl"
    "ip' \<noteq> ip \<Longrightarrow> rl_left T ip' rl' = rl_left T ip' rl"
proof -
  let ?r = "reset_window t ip rl"
  have r: "rl_ok ?r" "attempts_of ?r ip \<le> rl_maxAttempts rl" using reset_window_ok assms(2) rl_ok_bounds [of ?r ip] by auto
  have at: "attempts_of (?r\<lparr>rl_attempts := (rl_attempts ?r)(ip \<mapsto> n), rl_lastAttempt := la\<rparr>) ip' =
      (if ip' = ip then n else attempts_of ?r ip')" for n la ip'
    by (simp add: attempts_of_def)
  consider (no) "rl' = ?r"
    | (yes) "attempts_of ?r ip < rl_maxAttempts rl" "rl' = ?r\<lparr>rl_attempts := (rl_attempts ?r)(ip \<mapsto> attempts_of ?r ip + 1),
                     rl_lastAttempt := (rl_lastAttempt rl)(ip \<mapsto> t)\<rparr>"
    using Allow_run [OF assms(2) refl, of t ip] assms(1) r(2) by (auto split: if_splits)
  then show "rl_ok rl'" using r by cases (auto simp: rl_ok_def at)
  show "rl_maxAttempts rl' = rl_maxAttempts rl" "rl_window rl' = rl_window rl"
    using Allow_run [OF assms(2) refl, of t ip] assms(1) by (auto split: if_splits)
  show "ip' \<noteq> ip \<Longrightarrow> rl_left T ip' rl' = rl_left T ip' rl"
    using Allow_run [OF assms(2) refl, of t ip] assms(1)
    by (auto simp: rl_left_def attempts_of_def split: if_splits option.splits)
qed

lemma Allow_left:
  assumes "Allow t ip rl = (ok, rl')" "rl_ok rl" "T \<le> t" "t \<le> T + rl_window rl"
  shows "(if ok then 1 else 0) + rl_left T ip rl' \<le> rl_left T ip rl"
proof -
  have n: "0 \<le> attempts_of rl ip" "attempts_of rl ip \<le> rl_maxAttempts rl" "0 \<le> rl_window rl"
    using assms(2) rl_ok_bounds [OF assms(2), of ip] by (simp_all add: rl_ok_def)
  have keep: "attempts_of (reset_window t ip rl) ip = attempts_of rl ip" if "rl_lastAttempt rl ip = Some u" "T \<le> u" for u
  proof -
    have "\<not> rl_window rl < time_Sub t u" using time_Sub_le [of t u "rl_window rl"] that assms(4) n(3) by auto
    then show ?thesis using that by (simp add: reset_window_attempts)
  qed
  have pos: "0 \<le> attempts_of (reset_window t ip rl) ip" using n by (simp add: reset_window_attempts)
  let ?r = "reset_window t ip rl"
  have le: "attempts_of ?r ip \<le> rl_maxAttempts rl" using rl_ok_bounds [OF reset_window_ok [OF assms(2)], of t ip ip] by simp
  consider (no) "ok = False" "rl' = ?r"
    | (yes) "ok = True" "rl' = ?r\<lparr>rl_attempts := (rl_attempts ?r)(ip \<mapsto> attempts_of ?r ip + 1),
                     rl_lastAttempt := (rl_lastAttempt rl)(ip \<mapsto> t)\<rparr>"
    using Allow_run [OF assms(2) refl, of t ip] assms(1) by (cases "attempts_of ?r ip = rl_maxAttempts rl") auto
  then show ?thesis
  proof cases
    case no
    have "rl_left T ip ?r = rl_left T ip rl"
      using keep by (auto simp: rl_left_def split: option.split)
    then show ?thesis using no by simp
  next
    case yes
    have now: "rl_left T ip rl' = rl_maxAttempts rl - (attempts_of ?r ip + 1)"
      using assms(3) by (simp add: yes(2) rl_left_def attempts_of_def)
    show ?thesis
    proof (cases "rl_lastAttempt rl ip")
      case None
      then show ?thesis using now pos yes(1) by (simp add: rl_left_def)
    next
      case (Some u)
      then show ?thesis using now pos yes(1) keep [OF Some] by (simp add: rl_left_def)
    qed
  qed
qed

lemma rl_exec_ok: "rl_ok rl \<Longrightarrow> rl_ok (rl_exec es rl) \<and> rl_maxAttempts (rl_exec es rl) = rl_maxAttempts rl \<and>
    rl_window (rl_exec es rl) = rl_window rl"
proof (induction es arbitrary: rl)
  case (Cons e es)
  obtain t ip where e: "e = (t, ip)" by (cases e)
  obtain ok rl' where a: "Allow t ip rl = (ok, rl')" by (cases "Allow t ip rl")
  show ?case using Allow_frame(1-3) [OF a Cons.prems] Cons.IH [of rl'] by (simp add: rl_exec_def e a)
qed (simp add: rl_exec_def)

lemma allowed_left:
  assumes "rl_ok rl" "\<forall>e \<in> set es. T \<le> fst e \<and> fst e \<le> T + rl_window rl"
  shows "allowed_count ip es rl \<le> rl_left T ip rl"
  using assms
proof (induction es arbitrary: rl)
  case Nil
  then show ?case by (auto simp: rl_left_def rl_ok_def split: option.split dest: spec [of _ ip])
next
  case (Cons e es)
  obtain t ip' where e: "e = (t, ip')" by (cases e)
  obtain ok rl' where a: "Allow t ip' rl = (ok, rl')" by (cases "Allow t ip' rl")
  note f = Allow_frame [OF a Cons.prems(1)]
  have "allowed_count ip es rl' \<le> rl_left T ip rl'" using Cons.IH [OF f(1)] Cons.prems(2) f(3) by simp
  moreover have "(if ok \<and> ip' = ip then 1 else 0) + rl_left T ip rl' \<le> rl_left T ip rl"
    using Allow_left [OF a Cons.prems(1), of T] f(4) [of ip T] Cons.prems(2) e by (cases "ip' = ip") auto
  ultimately show ?case by (simp add: e a)
qed

text \<open>C40: in a window of the configured length at most the configured number of requests of an address is let
  through, whatever came before and whatever other addresses send.\<close>

theorem rate_limit:
  assumes "0 \<le> maxAttempts" "maxAttempts < 2 ^ 62" "0 \<le> window" "window < 2 ^ 62"
    and "\<forall>e \<in> set es. T \<le> fst e \<and> fst e \<le> T + window"
  shows "allowed_count ip es (rl_exec before (NewRateLimiter maxAttempts window)) \<le> maxAttempts"
proof -
  let ?new = "NewRateLimiter maxAttempts window"
  have "rl_ok ?new" "rl_maxAttempts ?new = maxAttempts" "rl_window ?new = window"
    using assms(1-4) by (simp_all add: NewRateLimiter_def rl_ok_def attempts_of_def)
  with rl_exec_ok [of ?new before]
  have ok: "rl_ok (rl_exec before ?new)" "rl_maxAttempts (rl_exec before ?new) = maxAttempts"
      "rl_window (rl_exec before ?new) = window" by simp_all
  have "allowed_count ip es (rl_exec before ?new) \<le> rl_left T ip (rl_exec before ?new)"
    using allowed_left [OF ok(1), of es T ip] assms(5) ok(3) by simp
  also have "\<dots> \<le> maxAttempts"
    using ok by (auto simp: rl_left_def rl_ok_def split: option.split dest: spec [of _ ip])
  finally show ?thesis .
qed

theorem rate_limit_witness:
  "allowed_count ''a'' [(7, ''a''), (8, ''b''), (9, ''a''), (12, ''a'')]
     (rl_exec [(1, ''a''), (2, ''a'')] (NewRateLimiter 2 5)) \<le> 2"
  by (rule rate_limit [where T = 7]) simp_all

lemma utf8_ascii: "n < 128 \<Longrightarrow> utf8_rune (int n) = [char_of n]"
  by (simp add: utf8_rune_def)

lemma dec_digits_longer: "10 \<le> n \<Longrightarrow> 2 \<le> length (dec_digits n)"
  by (subst dec_digits.simps, subst dec_digits.simps) auto

lemma itoa_not_char: "n < 128 \<Longrightarrow> [char_of n] \<noteq> itoa (int n)"
proof (cases "n < 10")
  case True
  have "(char_of n :: char) \<noteq> char_of (48 + n)"
  proof
    assume "(char_of n :: char) = char_of (48 + n)"
    then have "(of_char (char_of n :: char) :: nat) = of_char (char_of (48 + n) :: char)" by simp
    then show False using True by (simp add: of_char_of)
  qed
  then show ?thesis using True by (subst itoa_def, subst dec_digits.simps) auto
next
  case False
  then show ?thesis using dec_digits_longer [of n] by (auto simp: itoa_def dest: arg_cong [where f = length])
qed

text \<open>The \<open>Retry-After\<close> header should name the whole seconds to wait. It carries the character with that
  code instead, which is never the numeral of the seconds: a wait of 48 seconds is announced as \<open>0\<close>.\<close>

theorem retry_after:
  assumes "n < 128"
  shows "formatDurationSeconds (int n * Second) = [char_of n] \<and> formatDurationSeconds (int n * Second) \<noteq> itoa (int n)"
proof -
  have "dur_Seconds (int n * Second) = of_int (int n)"
  proof -
    have "int n * Second sdiv Second = int n" "int n * Second smod Second = 0"
      by (simp_all add: signed_divide_int_def signed_modulo_int_def sgn_if)
    moreover have "rnd (of_int (int n)) = of_int (int n)" using assms by (intro rnd_of_int) simp
    moreover have "is_f64 (of_int (int n))" unfolding is_f64_def by fact
    ultimately show ?thesis by (simp add: dur_Seconds_def fdiv_def)
  qed
  then have "formatDurationSeconds (int n * Second) = utf8_rune (i32 (int n))"
    by (simp only: formatDurationSeconds_def trunc_of_int)
  also have "i32 (int n) = int n" using assms by (simp add: i32_def)
  finally show ?thesis using itoa_not_char [OF assms] by (simp add: utf8_ascii [OF assms])
qed

theorem retry_after_witness:
  "formatDurationSeconds (int 48 * Second) = [char_of (48 :: nat)] \<and> formatDurationSeconds (int 48 * Second) \<noteq> itoa (int 48)"
  by (rule retry_after) simp

end
