(* ===== verification/AgentManager.thy ===== *)
theory AgentManager
  imports Prelude "HOL-Library.AList"
begin

text \<open>
  The manager of the polling agents (\<open>internal/agent/manager.go\<close>). The dashboard starts and stops agents while their
  goroutines run, so the manager is modelled by the interleaved steps of its callers and goroutines: every critical
  section of its mutex is one step, and so is everything that happens between two of them (a call of a factory, the
  return of a runner, the call of a cancel function). Contexts are numbered in the order in which they are made.
\<close>

subsection \<open>State and steps\<close>

text \<open>
  \<open>am_starting\<close> are the calls of \<open>Start\<close> between their two critical sections, \<open>am_cancels\<close> the cancel functions that
  \<open>Stop\<close> and \<open>StopAll\<close> have taken from the map and not called yet. A goroutine is the number of its context, its key
  and whether its runner has returned. \<open>am_results\<close> are the returned values of \<open>Start\<close>.
\<close>

record agent_manager =
  am_factories :: "string list"
  am_running :: "(string \<times> nat) list"
  am_starting :: "string list"
  am_cancels :: "nat list"
  am_cancelled :: "nat list"
  am_goroutines :: "(nat \<times> string \<times> bool) list"
  am_contexts :: nat
  am_results :: "(string \<times> string option) list"

definition NewAgentManager :: agent_manager where
  "NewAgentManager = \<lparr>am_factories = [], am_running = [], am_starting = [], am_cancels = [], am_cancelled = [],
     am_goroutines = [], am_contexts = 0, am_results = []\<rparr>"

datatype factory_answer = FactoryError string | NilRunner | Runner

datatype mgr_event =
    Register string
  | StartEnter string
  | StartCommit nat factory_answer
  | RunnerReturns nat
  | Cleanup nat
  | StopEnter string
  | StopAllEnter
  | CancelContext nat

definition RegisterFactory :: "string \<Rightarrow> agent_manager \<Rightarrow> agent_manager" where
  "RegisterFactory key m = m\<lparr>am_factories := List.insert key (am_factories m)\<rparr>"

definition start_enter :: "string \<Rightarrow> agent_manager \<Rightarrow> agent_manager" where
  "start_enter key m =
     (if map_of (am_running m) key \<noteq> None then m\<lparr>am_results := (key, None) # am_results m\<rparr>
      else if key \<notin> set (am_factories m)
      then m\<lparr>am_results := (key, Some (''agent '' @ key @ '' not registered'')) # am_results m\<rparr>
      else m\<lparr>am_starting := am_starting m @ [key]\<rparr>)"

text \<open>The rest of \<open>Start\<close>, with the answer of the factory. A second caller that was faster keeps its entry, and the new
  context is cancelled.\<close>

definition start_commit :: "string \<Rightarrow> factory_answer \<Rightarrow> agent_manager \<Rightarrow> agent_manager" where
  "start_commit key answer m =
     (case answer of
        FactoryError e \<Rightarrow> m\<lparr>am_results := (key, Some e) # am_results m\<rparr>
      | NilRunner \<Rightarrow> m\<lparr>am_results := (key, Some (''agent '' @ key @ '' factory returned nil runner'')) # am_results m\<rparr>
      | Runner \<Rightarrow>
          let c = am_contexts m; m1 = m\<lparr>am_contexts := c + 1, am_results := (key, None) # am_results m\<rparr>
          in if map_of (am_running m) key \<noteq> None then m1\<lparr>am_cancelled := c # am_cancelled m\<rparr>
             else m1\<lparr>am_running := (key, c) # am_running m, am_goroutines := am_goroutines m @ [(c, key, False)]\<rparr>)"

text \<open>The end of a goroutine: the runner returns, and then the entry of its key is deleted.\<close>

definition runner_returns :: "nat \<Rightarrow> agent_manager \<Rightarrow> agent_manager" where
  "runner_returns c m = m\<lparr>am_goroutines := map (\<lambda>(d, key, r). (d, key, r \<or> d = c)) (am_goroutines m)\<rparr>"

definition cleanup :: "nat \<Rightarrow> string \<Rightarrow> agent_manager \<Rightarrow> agent_manager" where
  "cleanup c key m =
     m\<lparr>am_running := AList.delete key (am_running m), am_goroutines := filter (\<lambda>(d, _). d \<noteq> c) (am_goroutines m)\<rparr>"

definition stop_enter :: "string \<Rightarrow> agent_manager \<Rightarrow> agent_manager" where
  "stop_enter key m =
     (case map_of (am_running m) key of
        None \<Rightarrow> m
      | Some c \<Rightarrow> m\<lparr>am_running := AList.delete key (am_running m), am_cancels := am_cancels m @ [c]\<rparr>)"

definition stop_all_enter :: "agent_manager \<Rightarrow> agent_manager" where
  "stop_all_enter m = m\<lparr>am_running := [], am_cancels := am_cancels m @ map snd (am_running m)\<rparr>"

definition cancel_context :: "nat \<Rightarrow> agent_manager \<Rightarrow> agent_manager" where
  "cancel_context c m = m\<lparr>am_cancels := remove1 c (am_cancels m), am_cancelled := c # am_cancelled m\<rparr>"

definition IsRunning :: "string \<Rightarrow> agent_manager \<Rightarrow> bool" where
  "IsRunning key m \<longleftrightarrow> map_of (am_running m) key \<noteq> None"

fun mgr_step :: "mgr_event \<Rightarrow> agent_manager \<Rightarrow> agent_manager option" where
  "mgr_step (Register key) m = Some (RegisterFactory key m)"
| "mgr_step (StartEnter key) m = Some (start_enter key m)"
| "mgr_step (StartCommit i answer) m =
     (if i < length (am_starting m)
      then Some (start_commit (am_starting m ! i) answer
             (m\<lparr>am_starting := take i (am_starting m) @ drop (i + 1) (am_starting m)\<rparr>))
      else None)"
| "mgr_step (RunnerReturns c) m =
     (if \<exists>g \<in> set (am_goroutines m). fst g = c \<and> \<not> snd (snd g) then Some (runner_returns c m) else None)"
| "mgr_step (Cleanup c) m =
     (case find (\<lambda>(d, _, r). d = c \<and> r) (am_goroutines m) of None \<Rightarrow> None | Some (_, key, _) \<Rightarrow> Some (cleanup c key m))"
| "mgr_step (StopEnter key) m = Some (stop_enter key m)"
| "mgr_step StopAllEnter m = Some (stop_all_enter m)"
| "mgr_step (CancelContext c) m = (if c \<in> set (am_cancels m) then Some (cancel_context c m) else None)"

text \<open>The runs from the new manager.\<close>

inductive mgr_run :: "mgr_event list \<Rightarrow> agent_manager \<Rightarrow> bool" where
  start: "mgr_run [] NewAgentManager"
| step: "mgr_run es m \<Longrightarrow> mgr_step e m = Some m' \<Longrightarrow> mgr_run (es @ [e]) m'"

inductive_cases mgr_run_snocE: "mgr_run (es @ [e]) m"

fun mgr_exec :: "mgr_event list \<Rightarrow> agent_manager \<Rightarrow> agent_manager option" where
  "mgr_exec [] m = Some m"
| "mgr_exec (e # es) m = (case mgr_step e m of None \<Rightarrow> None | Some m' \<Rightarrow> mgr_exec es m')"

lemma mgr_run_exec: "mgr_run es m \<Longrightarrow> mgr_exec es' m = Some m' \<Longrightarrow> mgr_run (es @ es') m'"
proof (induction es' arbitrary: es m)
  case (Cons e es')
  then obtain m1 where "mgr_step e m = Some m1" "mgr_exec es' m1 = Some m'" by (auto split: option.splits)
  then show ?case using Cons.IH [OF mgr_run.step [OF Cons.prems(1)]] by simp
qed simp

subsection \<open>The recorded agents\<close>

text \<open>
  Every entry of the map belongs to a goroutine of that key whose context nobody has cancelled or is about to cancel.
\<close>

definition mgr_ok :: "agent_manager \<Rightarrow> bool" where
  "mgr_ok m \<longleftrightarrow> distinct (map fst (am_running m)) \<and> distinct (map fst (am_goroutines m)) \<and>
     (\<forall>g \<in> set (am_goroutines m). fst g < am_contexts m) \<and>
     (\<forall>c \<in> set (am_cancels m) \<union> set (am_cancelled m). c < am_contexts m) \<and>
     (\<forall>key c. (key, c) \<in> set (am_running m) \<longrightarrow>
        (\<exists>r. (c, key, r) \<in> set (am_goroutines m)) \<and> c \<notin> set (am_cancels m) \<union> set (am_cancelled m))"

lemma set_delete [simp]: "set (AList.delete k xs) = {x \<in> set xs. fst x \<noteq> k}"
  by (auto simp: AList.delete_eq)

lemma goroutine_key:
  "distinct (map fst gs) \<Longrightarrow> g \<in> set gs \<Longrightarrow> g' \<in> set gs \<Longrightarrow> fst g = fst g' \<Longrightarrow> g = g'"
  by (metis distinct_map inj_on_def)

lemma mgr_okD:
  assumes "mgr_ok m"
  shows mgr_ok_live: "(key, c) \<in> set (am_running m) \<Longrightarrow> \<exists>r. (c, key, r) \<in> set (am_goroutines m)"
    and mgr_ok_fresh: "(key, c) \<in> set (am_running m) \<Longrightarrow> c < am_contexts m"
    and mgr_ok_key: "(c, key, r) \<in> set (am_goroutines m) \<Longrightarrow> (k, c) \<in> set (am_running m) \<Longrightarrow> k = key"
    and mgr_ok_next: "(am_contexts m, key, r) \<notin> set (am_goroutines m)"
proof -
  show live: "\<exists>r. (c, key, r) \<in> set (am_goroutines m)" if "(key, c) \<in> set (am_running m)" for key c
    using assms that by (simp add: mgr_ok_def)
  show "(key, c) \<in> set (am_running m) \<Longrightarrow> c < am_contexts m"
    using live [of key c] assms by (force simp: mgr_ok_def)
  show "(am_contexts m, key, r) \<notin> set (am_goroutines m)"
    using assms by (force simp: mgr_ok_def)
  show "(c, key, r) \<in> set (am_goroutines m) \<Longrightarrow> (k, c) \<in> set (am_running m) \<Longrightarrow> k = key"
    using live [of k c] goroutine_key [of "am_goroutines m" "(c, key, r)"] assms by (fastforce simp: mgr_ok_def)
qed

lemma ok_register: "mgr_ok m \<Longrightarrow> mgr_ok (RegisterFactory key m)"
  by (simp add: mgr_ok_def RegisterFactory_def)

lemma ok_start_enter: "mgr_ok m \<Longrightarrow> mgr_ok (start_enter key m)"
  by (simp add: mgr_ok_def start_enter_def)

lemma ok_start_commit:
  assumes "mgr_ok m" shows "mgr_ok (start_commit key answer m)"
proof -
  have new: "am_contexts m \<notin> fst ` set (am_goroutines m)" "am_contexts m \<notin> set (am_cancels m) \<union> set (am_cancelled m)"
    using assms by (force simp: mgr_ok_def)+
  show ?thesis
    using assms new mgr_ok_fresh [OF assms]
    by (auto simp: mgr_ok_def start_commit_def Let_def map_of_eq_None_iff less_Suc_eq split: factory_answer.split) blast+
qed

lemma returns_mem:
  "(d, key, r) \<in> set (am_goroutines (runner_returns c m)) \<longleftrightarrow> (\<exists>r'. (d, key, r') \<in> set (am_goroutines m) \<and> r = (r' \<or> d = c))"
  by (force simp: runner_returns_def image_iff)

lemma ok_returns:
  assumes "mgr_ok m" shows "mgr_ok (runner_returns c m)"
proof -
  have "map fst (am_goroutines (runner_returns c m)) = map fst (am_goroutines m)"
    by (simp add: runner_returns_def comp_def case_prod_unfold)
  moreover have "am_running (runner_returns c m) = am_running m" "am_cancels (runner_returns c m) = am_cancels m"
    "am_cancelled (runner_returns c m) = am_cancelled m" "am_contexts (runner_returns c m) = am_contexts m"
    by (simp_all add: runner_returns_def)
  moreover have "\<forall>g \<in> set (am_goroutines (runner_returns c m)). fst g < am_contexts m"
    using assms by (fastforce simp: mgr_ok_def runner_returns_def)
  moreover have "\<exists>r. (d, key, r) \<in> set (am_goroutines (runner_returns c m))" if "(key, d) \<in> set (am_running m)" for key d
    unfolding returns_mem using mgr_ok_live [OF assms that] by blast
  ultimately show ?thesis using assms by (simp add: mgr_ok_def)
qed

lemma ok_cleanup:
  assumes "mgr_ok m" "(c, key, r) \<in> set (am_goroutines m)"
  shows "mgr_ok (cleanup c key m)"
proof -
  have "\<exists>r. (d, k, r) \<in> set (am_goroutines (cleanup c key m))" if "(k, d) \<in> set (am_running m)" "k \<noteq> key" for k d
    using mgr_ok_live [OF assms(1) that(1)] mgr_ok_key [OF assms, of k] that by (auto simp: cleanup_def)
  then show ?thesis
    using assms by (auto simp: mgr_ok_def cleanup_def distinct_map_filter AList.distinct_delete)
qed

lemma ok_stop:
  assumes "mgr_ok m" shows "mgr_ok (stop_enter key m)"
proof (cases "map_of (am_running m) key")
  case None
  then show ?thesis using assms by (simp add: stop_enter_def)
next
  case (Some c)
  then have c: "(key, c) \<in> set (am_running m)" by (rule map_of_SomeD)
  obtain r where r: "(c, key, r) \<in> set (am_goroutines m)" using mgr_ok_live [OF assms c] by blast
  have "d \<noteq> c" if "(k, d) \<in> set (am_running m)" "k \<noteq> key" for k d
    using mgr_ok_key [OF assms r] that by auto
  then show ?thesis using assms Some mgr_ok_fresh [OF assms c] by (auto simp: mgr_ok_def stop_enter_def AList.distinct_delete)
qed

lemma ok_stop_all:
  assumes "mgr_ok m" shows "mgr_ok (stop_all_enter m)"
proof -
  have "\<forall>c \<in> snd ` set (am_running m). c < am_contexts m" using mgr_ok_fresh [OF assms] by auto
  then show ?thesis using assms unfolding mgr_ok_def stop_all_enter_def by (simp add: ball_Un)
qed

lemma ok_cancel: "mgr_ok m \<Longrightarrow> c \<in> set (am_cancels m) \<Longrightarrow> mgr_ok (cancel_context c m)"
  using set_remove1_subset [of c "am_cancels m"] by (auto simp: mgr_ok_def cancel_context_def)

lemma mgr_ok_starting [simp]: "mgr_ok (m\<lparr>am_starting := ks\<rparr>) = mgr_ok m"
  by (simp add: mgr_ok_def)

lemma find_goroutine:
  "find (\<lambda>(d, _, r). d = c \<and> r) gs = Some g \<Longrightarrow> \<exists>key. g = (c, key, True) \<and> (c, key, True) \<in> set gs"
  by (cases g) (auto simp: find_Some_iff in_set_conv_nth)

lemma cleanup_step:
  assumes "mgr_step (Cleanup c) m = Some m'"
  obtains key where "(c, key, True) \<in> set (am_goroutines m)" "m' = cleanup c key m"
proof -
  obtain g where g: "find (\<lambda>(d, _, r). d = c \<and> r) (am_goroutines m) = Some g" "m' = cleanup c (fst (snd g)) m"
    using assms by (auto split: option.splits)
  from find_goroutine [OF g(1)] g(2) that show ?thesis by auto
qed

lemma mgr_step_ok:
  assumes "mgr_ok m" "mgr_step e m = Some m'"
  shows "mgr_ok m'"
proof (cases e)
  case (Cleanup c)
  from assms(2) [unfolded this] show ?thesis by (rule cleanup_step) (use ok_cleanup [OF assms(1)] in simp)
qed (use assms in \<open>auto split: if_splits intro: ok_register ok_start_enter ok_start_commit ok_returns ok_stop ok_stop_all ok_cancel\<close>)

lemma mgr_run_ok: "mgr_run es m \<Longrightarrow> mgr_ok m"
proof (induction rule: mgr_run.induct)
  case start
  show ?case by (simp add: mgr_ok_def NewAgentManager_def)
qed (rule mgr_step_ok)

text \<open>C25: an agent the dashboard shows as polling is: in every interleaving its key has exactly one entry,
  and that entry's goroutine has not ended and its context is not cancelled nor about to be.\<close>

theorem manager_live:
  assumes "mgr_run es m" "IsRunning key m"
  shows "\<exists>c. map_of (am_running m) key = Some c \<and> (\<exists>r. (c, key, r) \<in> set (am_goroutines m)) \<and>
    c \<notin> set (am_cancels m) \<union> set (am_cancelled m)"
proof -
  obtain c where c: "map_of (am_running m) key = Some c" using assms(2) by (auto simp: IsRunning_def)
  then have "(key, c) \<in> set (am_running m)" by (rule map_of_SomeD)
  then show ?thesis using mgr_run_ok [OF assms(1)] c by (auto simp: mgr_ok_def)
qed

subsection \<open>Agents nobody can stop\<close>

text \<open>An agent that polls, whose cancel function is out of reach.\<close>

definition orphan :: "nat \<Rightarrow> agent_manager \<Rightarrow> bool" where
  "orphan c m \<longleftrightarrow> c < am_contexts m \<and> c \<notin> snd ` set (am_running m) \<union> set (am_cancels m) \<union> set (am_cancelled m)"

lemma orphan_step: "orphan c m \<Longrightarrow> mgr_step e m = Some m' \<Longrightarrow> orphan c m'"
proof (cases e)
  case (StopEnter key)
  then show "orphan c m \<Longrightarrow> mgr_step e m = Some m' \<Longrightarrow> orphan c m'"
    by (force simp: orphan_def stop_enter_def dest: map_of_SomeD split: option.splits)
next
  case (CancelContext d)
  then show "orphan c m \<Longrightarrow> mgr_step e m = Some m' \<Longrightarrow> orphan c m'"
    using notin_set_remove1 [of c "am_cancels m" d] by (auto simp: orphan_def cancel_context_def split: if_splits)
qed (auto simp: orphan_def RegisterFactory_def start_enter_def start_commit_def Let_def runner_returns_def cleanup_def
    stop_all_enter_def split: if_splits factory_answer.splits option.splits)

lemma goroutine_step:
  assumes "(c, key, False) \<in> set (am_goroutines m)" "mgr_step e m = Some m'" "mgr_ok m" "e \<noteq> RunnerReturns c"
  shows "(c, key, False) \<in> set (am_goroutines m')"
proof (cases e)
  case (Cleanup d)
  from assms(2) [unfolded this] obtain k where k: "(d, k, True) \<in> set (am_goroutines m)" "m' = cleanup d k m"
    by (rule cleanup_step)
  have "d \<noteq> c" using goroutine_key [of "am_goroutines m" "(d, k, True)" "(c, key, False)"] assms(1,3) k(1)
    by (auto simp: mgr_ok_def)
  then show ?thesis using assms(1) k(2) by (simp add: cleanup_def)
next
  case (RunnerReturns d)
  then show ?thesis using assms returns_mem [of c key False d m] by (auto split: if_splits)
qed (use assms in \<open>auto simp: RegisterFactory_def start_enter_def start_commit_def Let_def stop_enter_def stop_all_enter_def
    cancel_context_def split: if_splits factory_answer.splits option.splits\<close>)

lemma orphan_exec:
  "mgr_exec es m = Some m' \<Longrightarrow> orphan c m \<Longrightarrow> mgr_ok m \<Longrightarrow> (c, key, False) \<in> set (am_goroutines m) \<Longrightarrow>
   orphan c m' \<and> ((c, key, False) \<in> set (am_goroutines m') \<or> RunnerReturns c \<in> set es)"
proof (induction es arbitrary: m)
  case (Cons e es)
  then obtain m1 where m1: "mgr_step e m = Some m1" "mgr_exec es m1 = Some m'" by (auto split: option.splits)
  have o: "orphan c m1" "mgr_ok m1" using orphan_step [OF Cons.prems(2) m1(1)] mgr_step_ok [OF Cons.prems(3) m1(1)] .
  show ?case
  proof (cases "e = RunnerReturns c")
    case True
    have "orphan c m'" using m1(2) o(1)
    proof (induction es arbitrary: m1)
      case (Cons e es)
      then show ?case by (auto split: option.splits dest: orphan_step)
    qed simp
    then show ?thesis using True by simp
  next
    case False
    show ?thesis using Cons.IH [OF m1(2) o goroutine_step [OF Cons.prems(4) m1(1) Cons.prems(3) False]] by auto
  qed
qed simp

text \<open>Polling of a provider is switched off and on again in the dashboard while its agent waits for an answer.\<close>

definition toggled :: "string \<Rightarrow> mgr_event list" where
  "toggled key = [Register key, StartEnter key, StartCommit 0 Runner, StopEnter key, CancelContext 0, StartEnter key,
     StartCommit 0 Runner, RunnerReturns 0, Cleanup 0]"

definition after_toggle :: "string \<Rightarrow> agent_manager" where
  "after_toggle key = \<lparr>am_factories = [key], am_running = [], am_starting = [], am_cancels = [], am_cancelled = [0],
     am_goroutines = [(1, key, False)], am_contexts = 2, am_results = [(key, None), (key, None)]\<rparr>"

lemma toggled_run: "mgr_exec (toggled key) NewAgentManager = Some (after_toggle key)"
  by (simp add: toggled_def after_toggle_def NewAgentManager_def RegisterFactory_def start_enter_def start_commit_def
      stop_enter_def cancel_context_def runner_returns_def cleanup_def Let_def List.insert_def)

text \<open>C26: switching an agent off and on while its old goroutine is still busy ends with an agent that
  polls and is not in the map: the old goroutine deletes the entry of the new one. From then on the agent counts as
  stopped, and whatever \<open>Stop\<close>, \<open>StopAll\<close> and \<open>Start\<close> follow, its context is never cancelled: it polls until its
  runner returns by itself.\<close>

theorem manager_orphan:
  assumes "mgr_exec (toggled key @ es) NewAgentManager = Some m"
  shows "\<not> IsRunning key (after_toggle key) \<and> 1 \<notin> set (am_cancelled m) \<and> 1 \<notin> set (am_cancels m) \<and>
    ((1, key, False) \<in> set (am_goroutines m) \<or> RunnerReturns 1 \<in> set es)"
proof -
  have split: "mgr_exec (as @ bs) x = (case mgr_exec as x of None \<Rightarrow> None | Some y \<Rightarrow> mgr_exec bs y)" for as bs x
    by (induction as arbitrary: x) (auto split: option.split)
  have run: "mgr_exec es (after_toggle key) = Some m" using assms by (simp add: split toggled_run)
  have "mgr_ok (after_toggle key)" using mgr_run_ok [OF mgr_run_exec [OF mgr_run.start toggled_run]] .
  from orphan_exec [OF run _ this] have "orphan 1 m \<and> ((1, key, False) \<in> set (am_goroutines m) \<or> RunnerReturns 1 \<in> set es)"
    by (simp add: orphan_def after_toggle_def)
  then show ?thesis by (simp add: orphan_def IsRunning_def after_toggle_def)
qed

text \<open>Here a third start makes a second agent of the provider, and the shutdown reaches only that one.\<close>

theorem manager_orphan_witness:
  "case mgr_exec (toggled ''zai'' @ [StartEnter ''zai'', StartCommit 0 Runner, StopAllEnter, CancelContext 2]) NewAgentManager of
     Some m \<Rightarrow> 1 \<notin> set (am_cancelled m) \<and> (1, ''zai'', False) \<in> set (am_goroutines m) \<and> 2 \<in> set (am_cancelled m)
   | None \<Rightarrow> False"
proof -
  define es where "es = [StartEnter ''zai'', StartCommit 0 Runner, StopAllEnter, CancelContext 2]"
  define m where "m = the (mgr_exec (toggled ''zai'' @ es) NewAgentManager)"
  have m: "mgr_exec (toggled ''zai'' @ es) NewAgentManager = Some m" "2 \<in> set (am_cancelled m)" "RunnerReturns 1 \<notin> set es"
    unfolding m_def es_def by code_simp+
  then show ?thesis using manager_orphan [OF m(1)] unfolding es_def [symmetric] by simp
qed

theorem manager_live_witness:
  "case mgr_exec [Register ''zai'', StartEnter ''zai'', StartCommit 0 Runner] NewAgentManager of
     Some m \<Rightarrow> (\<exists>c. map_of (am_running m) ''zai'' = Some c \<and> (\<exists>r. (c, ''zai'', r) \<in> set (am_goroutines m)))
   | None \<Rightarrow> False"
proof -
  define m where "m = the (mgr_exec [Register ''zai'', StartEnter ''zai'', StartCommit 0 Runner] NewAgentManager)"
  have m: "mgr_exec [Register ''zai'', StartEnter ''zai'', StartCommit 0 Runner] NewAgentManager = Some m" "IsRunning ''zai'' m"
    unfolding m_def by code_simp+
  show ?thesis unfolding m(1) using manager_live [OF mgr_run_exec [OF mgr_run.start m(1)] m(2)] by auto
qed

subsection \<open>Starting only when the old agent has gone\<close>

text \<open>An event is calm unless it is the start of an agent whose key still has a goroutine.\<close>

fun calm :: "mgr_event \<Rightarrow> agent_manager \<Rightarrow> bool" where
  "calm (StartCommit i answer) m \<longleftrightarrow> am_starting m ! i \<notin> (fst \<circ> snd) ` set (am_goroutines m)"
| "calm e m \<longleftrightarrow> True"

inductive calm_run :: "mgr_event list \<Rightarrow> agent_manager \<Rightarrow> bool" where
  start: "calm_run [] NewAgentManager"
| step: "calm_run es m \<Longrightarrow> calm e m \<Longrightarrow> mgr_step e m = Some m' \<Longrightarrow> calm_run (es @ [e]) m'"

lemma calm_mgr_run: "calm_run es m \<Longrightarrow> mgr_run es m"
  by (induction rule: calm_run.induct) (auto intro: mgr_run.intros)

definition owned :: "agent_manager \<Rightarrow> bool" where
  "owned m \<longleftrightarrow> distinct (map (fst \<circ> snd) (am_goroutines m)) \<and>
     (\<forall>c key r. (c, key, r) \<in> set (am_goroutines m) \<longrightarrow>
        (key, c) \<in> set (am_running m) \<or> c \<in> set (am_cancels m) \<union> set (am_cancelled m))"

lemma owned_step:
  assumes "owned m" "mgr_ok m" "calm e m" "mgr_step e m = Some m'"
  shows "owned m'"
proof (cases e)
  case (Cleanup c)
  from assms(4) [unfolded this] obtain key where k: "(c, key, True) \<in> set (am_goroutines m)" "m' = cleanup c key m"
    by (rule cleanup_step)
  have "k \<noteq> key" if "(d, k, r) \<in> set (am_goroutines m)" "d \<noteq> c" for d k r
  proof -
    have "inj_on (fst \<circ> snd) (set (am_goroutines m))" using assms(1) by (simp add: owned_def distinct_map)
    then show ?thesis using inj_onD [of "fst \<circ> snd" _ "(d, k, r)" "(c, key, True)"] that k(1) by auto
  qed
  then show ?thesis using assms(1) k(2) unfolding owned_def cleanup_def by (auto simp: distinct_map_filter) blast
next
  case (RunnerReturns c)
  have "map (fst \<circ> snd) (am_goroutines (runner_returns c m)) = map (fst \<circ> snd) (am_goroutines m)"
    by (simp add: runner_returns_def comp_def case_prod_unfold)
  moreover have "m' = runner_returns c m" using assms(4) RunnerReturns by (auto split: if_splits)
  ultimately show ?thesis using assms(1) returns_mem [of _ _ _ c m]
    by (simp add: owned_def) (auto simp: runner_returns_def)
next
  case (StopEnter key)
  show ?thesis
  proof (cases "map_of (am_running m) key")
    case None
    then show ?thesis using assms(1,4) StopEnter by (simp add: stop_enter_def)
  next
    case (Some c)
    have "d = c" if "(key, d) \<in> set (am_running m)" for d
      using that Some assms(2) by (auto simp: mgr_ok_def dest: map_of_is_SomeI)
    then show ?thesis using assms(1,4) StopEnter Some by (auto simp: owned_def stop_enter_def) blast+
  qed
next
  case (CancelContext c)
  have "d \<in> set (remove1 c xs) \<or> d = c" if "d \<in> set xs" for d xs using that by (cases "d = c") auto
  then show ?thesis using assms(1,4) CancelContext by (fastforce simp: owned_def cancel_context_def split: if_splits)
next
  case (StartCommit i answer)
  then show ?thesis using assms(1,3,4)
    by (auto simp: owned_def start_commit_def Let_def split: if_splits factory_answer.splits option.splits) blast+
qed (use assms(1,4) in \<open>force simp: owned_def RegisterFactory_def start_enter_def stop_all_enter_def split: if_splits\<close>)+

text \<open>C27: if an agent is started only when no goroutine of its provider is left, no provider ever has two,
  and after \<open>StopAll\<close> every goroutine there is is cancelled or about to be.\<close>

theorem manager_stop_all:
  assumes "calm_run es m"
  shows "distinct (map (fst \<circ> snd) (am_goroutines m)) \<and>
    (\<forall>c key r. (c, key, r) \<in> set (am_goroutines (stop_all_enter m)) \<longrightarrow>
       c \<in> set (am_cancels (stop_all_enter m)) \<union> set (am_cancelled (stop_all_enter m)))"
proof -
  have "owned m" using assms
  proof (induction rule: calm_run.induct)
    case start
    show ?case by (simp add: owned_def NewAgentManager_def)
  next
    case (step es m e m')
    then show ?case using owned_step mgr_run_ok [OF calm_mgr_run] by blast
  qed
  then show ?thesis by (force simp: owned_def stop_all_enter_def)
qed

lemma calm_two:
  assumes "mgr_step e1 NewAgentManager = Some m1" "mgr_step e2 m1 = Some m2" "mgr_step e3 m2 = Some m3"
    and "calm e1 NewAgentManager" "calm e2 m1" "calm e3 m2"
  shows "calm_run [e1, e2, e3] m3"
  using calm_run.step [OF calm_run.step [OF calm_run.step [OF calm_run.start assms(4,1)] assms(5,2)] assms(6,3)] by simp

definition one_agent :: agent_manager where
  "one_agent = the (mgr_exec [Register ''zai'', StartEnter ''zai'', StartCommit 0 Runner] NewAgentManager)"

theorem manager_stop_all_witness:
  "fst ` set (am_goroutines (stop_all_enter one_agent)) \<subseteq>
     set (am_cancels (stop_all_enter one_agent)) \<union> set (am_cancelled (stop_all_enter one_agent))"
proof -
  have "calm_run [Register ''zai'', StartEnter ''zai'', StartCommit 0 Runner] one_agent"
    unfolding one_agent_def
    by (rule calm_two, simp, simp, simp)
      (simp_all add: NewAgentManager_def RegisterFactory_def start_enter_def start_commit_def Let_def)
  from manager_stop_all [OF this] show ?thesis by force
qed

end
