(* ===== verification/PollBase.thy ===== *)
theory PollBase
  imports Notify Sessions "HOL-Library.Sublist"
begin

text \<open>
  What the polling agents (\<open>internal/agent\<close>) share: the parts a poll hands a snapshot to, the calls it makes in order
  (store, tracker, notifications, session manager), and what follows for a whole run. A poll of a provider is a
  function of what the outside world answers during it; the theories of the agents define one for each of them.
\<close>

subsection \<open>The parts of an agent\<close>

text \<open>
  The tracker's state holds the tables of its provider. \<open>a.notifier\<close>, \<open>a.sm\<close> and, in most agents, \<open>a.tracker\<close> may be
  nil. \<open>pa_metrics\<close> are the counters of finished and failed polls: provider and reason, the empty one for a finished poll.
\<close>

record 't poller =
  pa_tracker :: 't
  pa_hasTracker :: bool
  pa_notifier :: "notif_engine option"
  pa_sm :: "session_manager option"
  pa_metrics :: "(string \<times> string) list"

text \<open>
  The answers a simple poll gets: whether polling is enabled (no check is installed, or it says so), what the client
  fetched (nothing on an error), the time of the snapshot, the times of the checks of notifications, the time and the
  new id the session manager asks for, and whether the context was cancelled during the fetch.
\<close>

record 'r poll_input =
  pi_enabled :: bool
  pi_answer :: "'r option"
  pi_now :: time
  pi_checks :: "nat \<Rightarrow> time"
  pi_report :: time
  pi_uuid :: string
  pi_cancelled :: bool

text \<open>\<open>if a.tracker != nil { if err := a.tracker.Process(snapshot); err != nil { log } }\<close>\<close>

definition track :: "('t, unit) op \<Rightarrow> ('t, 'z) poller_scheme \<Rightarrow> ('t, 'z) poller_scheme" where
  "track m a = (if pa_hasTracker a then a\<lparr>pa_tracker := ignoreE m (pa_tracker a)\<rparr> else a)"

text \<open>\<open>if _, err := a.store.Insert...; err != nil { log; return }\<close>, and the agents that go on after the error.\<close>

definition store_or_stop ::
    "('t, int) op \<Rightarrow> (('t, 'z) poller_scheme \<Rightarrow> ('t, 'z) poller_scheme) \<Rightarrow> ('t, 'z) poller_scheme \<Rightarrow> ('t, 'z) poller_scheme" where
  "store_or_stop m rest a =
     (case m (pa_tracker a) of (Inl _, t) \<Rightarrow> a\<lparr>pa_tracker := t\<rparr> | (Inr _, t) \<Rightarrow> rest (a\<lparr>pa_tracker := t\<rparr>))"

definition store_anyway :: "('t, int) op \<Rightarrow> ('t, 'z) poller_scheme \<Rightarrow> ('t, 'z) poller_scheme" where
  "store_anyway m a = a\<lparr>pa_tracker := ignoreE m (pa_tracker a)\<rparr>"

definition notify_each :: "(nat \<Rightarrow> time) \<Rightarrow> quota_status list \<Rightarrow> ('t, 'z) poller_scheme \<Rightarrow> ('t, 'z) poller_scheme" where
  "notify_each ts qs a =
     (case pa_notifier a of
        None \<Rightarrow> a
      | Some e \<Rightarrow> a\<lparr>pa_notifier := Some (fold (\<lambda>(i, q). notify_Check (ts i) q) (enumerate 0 qs) e)\<rparr>)"

definition report_values :: "string \<Rightarrow> time \<Rightarrow> f64 list \<Rightarrow> ('t, 'z) poller_scheme \<Rightarrow> ('t, 'z) poller_scheme" where
  "report_values uuid now vs a =
     (case pa_sm a of None \<Rightarrow> a | Some s \<Rightarrow> a\<lparr>pa_sm := Some (snd (ReportPoll uuid now vs s))\<rparr>)"

text \<open>The snapshot of a poll that got an answer, for \<open>conv\<close> the conversion of answers.\<close>

definition answered :: "(time \<Rightarrow> 'r \<Rightarrow> 'x) \<Rightarrow> 'r poll_input \<Rightarrow> 'x list" where
  "answered conv p = (case pi_answer p of Some r \<Rightarrow> if pi_enabled p then [conv (pi_now p) r] else [] | None \<Rightarrow> [])"

text \<open>A status with the fields an agent sets; the others are Go's zero values.\<close>

definition status_of :: "string \<Rightarrow> string \<Rightarrow> f64 \<Rightarrow> f64 \<Rightarrow> quota_status" where
  "status_of provider key utilization limit = \<lparr>qs_Provider = provider, qs_QuotaKey = key, qs_AccountID = [],
     qs_Utilization = utilization, qs_Limit = limit, qs_ResetOccurred = False\<rparr>"

lemma notify_each_keeps [simp]:
  "pa_tracker (notify_each ts qs a) = pa_tracker a" "pa_hasTracker (notify_each ts qs a) = pa_hasTracker a"
  "pa_sm (notify_each ts qs a) = pa_sm a"
  by (simp_all add: notify_each_def split: option.split)

lemma report_values_keeps [simp]:
  "pa_tracker (report_values u t vs a) = pa_tracker a" "pa_hasTracker (report_values u t vs a) = pa_hasTracker a"
  "pa_sm (report_values u t vs a) = map_option (\<lambda>s. snd (ReportPoll u t vs s)) (pa_sm a)"
  by (simp_all add: report_values_def split: option.split)

lemma track_keeps [simp]:
  "pa_hasTracker (track m a) = pa_hasTracker a" "pa_sm (track m a) = pa_sm a"
  "pa_tracker (track m a) = (if pa_hasTracker a then ignoreE m (pa_tracker a) else pa_tracker a)"
  by (simp_all add: track_def)

subsection \<open>Operations that leave a part of the state alone\<close>

text \<open>
  An operation commutes with a change of the state that it neither sees nor overwrites. The trackers commute with
  changes of their provider's snapshot table.
\<close>

definition commutes :: "('s \<Rightarrow> 's) \<Rightarrow> ('s, 'a) op \<Rightarrow> bool" where
  "commutes f m \<longleftrightarrow> (\<forall>s. m (f s) = (fst (m s), f (snd (m s))))"

named_theorems commuting

lemma commutes_returnE [commuting]: "commutes f (returnE x)"
  by (simp add: commutes_def)

lemma commutes_failE [commuting]: "commutes f (failE e)"
  by (simp add: commutes_def)

lemma commutes_modifyE [commuting]: "(\<And>s. g (f s) = f (g s)) \<Longrightarrow> commutes f (modifyE g)"
  by (simp add: commutes_def)

lemma commutes_bindE [commuting]: "commutes f m \<Longrightarrow> (\<And>x. commutes f (g x)) \<Longrightarrow> commutes f (bindE m g)"
  by (auto simp: commutes_def bindE_def split: prod.split sum.split)

lemma commutes_thenE [commuting]: "commutes f m \<Longrightarrow> commutes f n \<Longrightarrow> commutes f (thenE m n)"
  unfolding thenE_def by (rule commutes_bindE)

lemma commutes_wrapE [commuting]: "commutes f m \<Longrightarrow> commutes f (wrapE msg m)"
  by (auto simp: commutes_def wrapE_def split: prod.split sum.split)

lemma commutes_withE [commuting]: "(\<And>s. g (f s) = g s) \<Longrightarrow> (\<And>s. commutes f (g s)) \<Longrightarrow> commutes f (withE g)"
  by (simp add: commutes_def)

lemma commutes_onStore [commuting]:
  "(\<And>s. trk_store (f s) = trk_store s) \<Longrightarrow> (\<And>s t. f s\<lparr>trk_store := t\<rparr> = f (s\<lparr>trk_store := t\<rparr>)) \<Longrightarrow> commutes f (onStore m)"
  by (simp add: commutes_def onStore_def split: prod.split)

lemma commutes_if [commuting]: "commutes f m \<Longrightarrow> commutes f n \<Longrightarrow> commutes f (if b then m else n)"
  by simp

lemma commutes_option [commuting]:
  "commutes f m \<Longrightarrow> (\<And>x. commutes f (n x)) \<Longrightarrow> commutes f (case z of None \<Rightarrow> m | Some x \<Rightarrow> n x)"
  by (simp split: option.split)

lemma commutes_prod [commuting]: "(\<And>x y. commutes f (n x y)) \<Longrightarrow> commutes f (case z of (x, y) \<Rightarrow> n x y)"
  by (simp split: prod.split)

lemma commutes_let [commuting]: "(\<And>x. commutes f (n x)) \<Longrightarrow> commutes f (let x = z in n x)"
  by simp

lemma commutes_forE [commuting]: "(\<And>x. commutes f (g x)) \<Longrightarrow> commutes f (forE g xs)"
  by (induction xs) (auto intro!: commuting)

lemma commutes_liftE [commuting]:
  "(\<And>s. part (f s) = part s) \<Longrightarrow> (\<And>t s. put t (f s) = f (put t s)) \<Longrightarrow> commutes f (liftE part put m)"
  by (simp add: commutes_def liftE_def split: prod.split)

lemma commutes_ignore: "commutes f m \<Longrightarrow> ignoreE m (f s) = f (ignoreE m s)"
  by (simp add: commutes_def ignoreE_def)

subsection \<open>What is tracked has been stored\<close>

text \<open>
  The contract of an agent that stores every snapshot before it is tracked. \<open>accept\<close> are the snapshots a poll tries to
  store, \<open>ins\<close> is the insertion into their table and \<open>row\<close> the row it makes.
\<close>

definition store_track ::
    "('x \<Rightarrow> ('r tbl, int) op) \<Rightarrow> ('t \<Rightarrow> 'r tbl) \<Rightarrow> ('r tbl \<Rightarrow> 't \<Rightarrow> 't) \<Rightarrow> ('x \<Rightarrow> ('t, unit) op) \<Rightarrow> 'x \<Rightarrow> 't \<Rightarrow> 't" where
  "store_track ins get put process x t =
     (case ins x (get t) of (Inl _, u) \<Rightarrow> put u t | (Inr _, u) \<Rightarrow> ignoreE (process x) (put u t))"

locale storing_agent =
  fixes poll :: "'i \<Rightarrow> ('t, 'z) poller_scheme \<Rightarrow> ('t, 'z) poller_scheme"
    and accept :: "'i \<Rightarrow> ('t, 'z) poller_scheme \<Rightarrow> 'x list"
    and ins :: "'x \<Rightarrow> ('r tbl, int) op" and get :: "'t \<Rightarrow> 'r tbl" and put :: "'r tbl \<Rightarrow> 't \<Rightarrow> 't"
    and process :: "'x \<Rightarrow> ('t, unit) op" and row :: "'x \<Rightarrow> int \<Rightarrow> 'r" and wf :: "'r tbl \<Rightarrow> bool"
  assumes get_put: "get (put u t) = u" and put_put: "put u (put v t) = put u t" and put_get: "put (get t) t = t"
    and ins_rows: "wf u \<Longrightarrow> wp (ins x) (\<lambda>i u'. db_rows u' = db_rows u @ [row x i] \<and> wf u')
      (\<lambda>_ u'. wf u' \<and> (db_rows u' = db_rows u \<or> (\<exists>i. db_rows u' = db_rows u @ [row x i]))) u"
    and ins_healthy: "healthy u \<Longrightarrow> wf u \<Longrightarrow> wp (ins x) (\<lambda>_. healthy) (\<lambda>_ _. False) u"
    and process_put: "commutes (put u) (process x)"
    and poll_run: "pa_hasTracker a \<Longrightarrow> pa_tracker (poll p a) = fold (store_track ins get put process) (accept p a) (pa_tracker a)"
    and poll_has: "pa_hasTracker (poll p a) = pa_hasTracker a"
begin

abbreviation "step \<equiv> store_track ins get put process"

text \<open>A state reached by storing the snapshots \<open>ys\<close>, of which \<open>xs\<close> were tracked.\<close>

definition consistent :: "'t \<Rightarrow> 'x list \<Rightarrow> 'x list \<Rightarrow> 't \<Rightarrow> bool" where
  "consistent t xs ys t' \<longleftrightarrow> wf (get t') \<and> (\<exists>is. length is = length ys \<and> db_rows (get t') = db_rows (get t) @ map2 row ys is) \<and>
     (\<forall>u. put u t' = poll_all process xs (put u t))"

lemma ignore_put: "ignoreE (process x) (put u t) = put u (ignoreE (process x) t)"
  by (rule commutes_ignore [OF process_put])

lemma consistent_refl: "wf (get t) \<Longrightarrow> consistent t [] [] t"
  by (simp add: consistent_def poll_all_def)

lemma get_ignore: "get (ignoreE (process x) t) = get t"
  using ignore_put [of x "get t" t] get_put by (metis put_get)

lemma step_consistent:
  assumes "consistent t xs ys t'"
  shows "\<exists>xs' ys'. consistent t (xs @ xs') (ys @ ys') (step x t') \<and> subseq xs' ys' \<and> subseq ys' [x]"
proof -
  have w: "wf (get t')" and p: "put u t' = poll_all process xs (put u t)" for u
    using assms by (auto simp: consistent_def)
  obtain "is" where l: "length is = length ys" "db_rows (get t') = db_rows (get t) @ map2 row ys is"
    using assms by (auto simp: consistent_def)
  have add: "map2 row (ys @ [x]) (is @ [i]) = map2 row ys is @ [row x i]" for i using l(1) by simp
  obtain r u where r: "ins x (get t') = (r, u)" by fastforce
  note ir = ins_rows [OF w, of x, unfolded wp_def r prod.case]
  show ?thesis
  proof (cases r)
    case (Inr i)
    have i: "db_rows u = db_rows (get t) @ map2 row (ys @ [x]) (is @ [i])" "wf u" using ir Inr l(2) add [of i] by simp_all
    have "put v (step x t') = poll_all process (xs @ [x]) (put v t)" for v
    proof -
      have "poll_all process (xs @ [x]) (put v t) = ignoreE (process x) (poll_all process xs (put v t))"
        by (simp add: poll_all_def)
      also have "\<dots> = put v (ignoreE (process x) t')" unfolding p [symmetric] by (rule ignore_put)
      finally show ?thesis by (simp add: store_track_def r Inr ignore_put put_put)
    qed
    then have "consistent t (xs @ [x]) (ys @ [x]) (step x t')"
      using i l(1) unfolding consistent_def
      by (intro conjI exI [of _ "is @ [i]"]) (simp_all add: store_track_def r Inr get_ignore get_put)
    then show ?thesis by (intro exI [of _ "[x]"]) simp
  next
    case (Inl e)
    have p': "put v (step x t') = poll_all process (xs @ []) (put v t)" for v
      using p [of v] by (simp add: store_track_def r Inl put_put)
    have g: "get (step x t') = u" by (simp add: store_track_def r Inl get_put)
    consider "db_rows u = db_rows (get t')" | i where "db_rows u = db_rows (get t') @ [row x i]" using ir Inl by auto
    then show ?thesis
    proof cases
      case 1
      then have "consistent t (xs @ []) (ys @ []) (step x t')" using p' l ir Inl unfolding consistent_def g by auto
      then show ?thesis by (intro exI [of _ "[]"]) simp
    next
      case (2 i)
      then have "consistent t (xs @ []) (ys @ [x]) (step x t')"
        using p' l ir Inl add [of i] unfolding consistent_def g by (intro conjI exI [of _ "is @ [i]"]) auto
      then show ?thesis by (intro exI [of _ "[]"] exI [of _ "[x]"]) simp
    qed
  qed
qed

lemma steps_consistent:
  "consistent t xs ys t' \<Longrightarrow> \<exists>xs' ys'. consistent t (xs @ xs') (ys @ ys') (fold step zs t') \<and> subseq xs' ys' \<and> subseq ys' zs"
proof (induction zs arbitrary: t' xs ys)
  case Nil
  then show ?case by (intro exI [of _ "[]"]) simp
next
  case (Cons z zs)
  obtain xs1 ys1 where 1: "consistent t (xs @ xs1) (ys @ ys1) (step z t')" "subseq xs1 ys1" "subseq ys1 [z]"
    using step_consistent [OF Cons.prems] by blast
  obtain xs2 ys2 where 2: "consistent t ((xs @ xs1) @ xs2) ((ys @ ys1) @ ys2) (fold step zs (step z t'))" "subseq xs2 ys2" "subseq ys2 zs"
    using Cons.IH [OF 1(1)] by blast
  have "subseq (xs1 @ xs2) (ys1 @ ys2)" "subseq (ys1 @ ys2) (z # zs)"
    using list_emb_append_mono [OF 1(2) 2(2)] list_emb_append_mono [OF 1(3) 2(3)] by simp_all
  then show ?case using 2(1) by (intro exI [of _ "xs1 @ xs2"] exI [of _ "ys1 @ ys2"]) simp
qed

fun accepted :: "'i list \<Rightarrow> ('t, 'z) poller_scheme \<Rightarrow> 'x list" where
  "accepted [] a = []"
| "accepted (p # ps) a = accept p a @ accepted ps (poll p a)"

lemma run_steps: "pa_hasTracker a \<Longrightarrow> pa_tracker (fold poll ps a) = fold step (accepted ps a) (pa_tracker a)"
  by (induction ps arbitrary: a) (simp_all add: poll_run poll_has)

text \<open>Whatever statements fail, the cycles are those of a part of the stored snapshots, in their order.\<close>

lemma run_consistent:
  assumes "pa_hasTracker a" "wf (get (pa_tracker a))"
  shows "\<exists>xs ys. consistent (pa_tracker a) xs ys (pa_tracker (fold poll ps a)) \<and> subseq xs ys \<and> subseq ys (accepted ps a)"
  using steps_consistent [OF consistent_refl [OF assms(2)], of "accepted ps a"] run_steps [OF assms(1), of ps] by simp

text \<open>On tables that answer, all of them.\<close>

lemma step_healthy:
  assumes "healthy (get t)" "wf (get t)"
  shows "healthy (get (step x t)) \<and> wf (get (step x t)) \<and> (\<exists>i. db_rows (get (step x t)) = db_rows (get t) @ [row x i]) \<and>
    put u (step x t) = ignoreE (process x) (put u t)"
  using ins_rows [OF assms(2), of x] ins_healthy [OF assms, of x]
  by (auto simp: wp_def store_track_def get_ignore get_put ignore_put put_put split: prod.splits sum.splits)

lemma steps_healthy:
  assumes "healthy (get t)" "wf (get t)"
  shows "(\<exists>is. length is = length xs \<and> db_rows (get (fold step xs t)) = db_rows (get t) @ map2 row xs is) \<and>
    put u (fold step xs t) = poll_all process xs (put u t)"
  using assms
proof (induction xs arbitrary: t)
  case (Cons x xs)
  note s = step_healthy [OF Cons.prems, of x u]
  obtain i "is" where "db_rows (get (step x t)) = db_rows (get t) @ [row x i]" "length is = length xs"
      "db_rows (get (fold step xs (step x t))) = db_rows (get (step x t)) @ map2 row xs is"
    using s Cons.IH [of "step x t"] by blast
  then show ?case using s Cons.IH [of "step x t"] by (auto simp: poll_all_def intro!: exI [of _ "i # is"])
qed (simp add: poll_all_def)

lemma run_healthy:
  assumes "pa_hasTracker a" "healthy (get (pa_tracker a))" "wf (get (pa_tracker a))"
  shows "(\<exists>is. length is = length (accepted ps a) \<and>
      db_rows (get (pa_tracker (fold poll ps a))) = db_rows (get (pa_tracker a)) @ map2 row (accepted ps a) is) \<and>
    put u (pa_tracker (fold poll ps a)) = poll_all process (accepted ps a) (put u (pa_tracker a))"
  using steps_healthy [OF assms(2,3)] run_steps [OF assms(1)] by simp

end

subsection \<open>What is reported to the sessions\<close>

lemma run_polls_few: "run_polls [] = (\<lambda>s. s)" "run_polls [(u, t, v)] = (\<lambda>s. snd (ReportPoll u t v s))"
  by (simp_all add: run_polls_def fun_eq_iff)

text \<open>An agent that reports the values of every snapshot it has stored.\<close>

locale reporting_agent = storing_agent poll accept ins get put process row wf
  for poll :: "'i \<Rightarrow> ('t, 'z) poller_scheme \<Rightarrow> ('t, 'z) poller_scheme"
    and accept :: "'i \<Rightarrow> ('t, 'z) poller_scheme \<Rightarrow> 'x list"
    and ins :: "'x \<Rightarrow> ('r tbl, int) op" and get :: "'t \<Rightarrow> 'r tbl" and put :: "'r tbl \<Rightarrow> 't \<Rightarrow> 't"
    and process :: "'x \<Rightarrow> ('t, unit) op" and row :: "'x \<Rightarrow> int \<Rightarrow> 'r" and wf :: "'r tbl \<Rightarrow> bool" +
  fixes ident :: "'i \<Rightarrow> string \<times> time" and vals :: "'x \<Rightarrow> f64 list"
  assumes accept_one: "length (accept p a) \<le> 1"
    and poll_sm: "(\<And>x. x \<in> set (accept p a) \<Longrightarrow> \<exists>i u. ins x (get (pa_tracker a)) = (Inr i, u)) \<Longrightarrow>
      pa_sm (poll p a) = map_option (run_polls (map (\<lambda>x. (fst (ident p), snd (ident p), vals x)) (accept p a))) (pa_sm a)"
begin

fun reports :: "'i list \<Rightarrow> ('t, 'z) poller_scheme \<Rightarrow> poll list" where
  "reports [] a = []"
| "reports (p # ps) a = map (\<lambda>x. (fst (ident p), snd (ident p), vals x)) (accept p a) @ reports ps (poll p a)"

lemma ins_runs: "healthy u \<Longrightarrow> wf u \<Longrightarrow> \<exists>i u'. ins x u = (Inr i, u')"
  using ins_healthy [of u x] by (auto simp: wp_def split: prod.splits sum.splits)

lemma poll_healthy:
  assumes "pa_hasTracker a" "healthy (get (pa_tracker a))" "wf (get (pa_tracker a))"
  shows "healthy (get (pa_tracker (poll p a))) \<and> wf (get (pa_tracker (poll p a)))"
  using poll_run [OF assms(1), of p] accept_one [of p a] step_healthy [OF assms(2,3)] assms
  by (cases "accept p a") auto

lemma run_sm:
  assumes "pa_hasTracker a" "healthy (get (pa_tracker a))" "wf (get (pa_tracker a))"
  shows "pa_sm (fold poll ps a) = map_option (run_polls (reports ps a)) (pa_sm a)"
  using assms
proof (induction ps arbitrary: a)
  case Nil
  then show ?case by (simp add: run_polls_few option.map_ident)
next
  case (Cons p ps)
  have "pa_sm (poll p a) = map_option (run_polls (map (\<lambda>x. (fst (ident p), snd (ident p), vals x)) (accept p a))) (pa_sm a)"
    by (rule poll_sm) (use Cons.prems ins_runs in blast)
  moreover have "run_polls (xs @ ys) s = run_polls ys (run_polls xs s)" for xs ys s by (simp add: run_polls_def)
  ultimately show ?case
    using Cons.IH [of "poll p a"] Cons.prems poll_healthy [OF Cons.prems, of p]
    by (simp add: poll_has option.map_comp comp_def)
qed

end

end
