(* ===== verification/ApiAnswers.thy ===== *)
theory ApiAnswers
  imports BalanceTrackers CopilotTracker MiniMaxTracker SyntheticTracker
begin

text \<open>
  The answers of the providers' interfaces and the snapshots made of them (\<open>internal/api/*_types.go\<close>), as far as the agents
  of \<open>internal/agent\<close> use them: Moonshot, DeepSeek, OpenRouter, Copilot and MiniMax, with the texts of times and numbers
  that are read on the way. A decoded answer is a record; the encoding of an answer as JSON for the audit column is the
  parameter \<open>raw\<close>.
\<close>

section \<open>Texts\<close>

definition is_digit :: "char \<Rightarrow> bool" where
  "is_digit c \<longleftrightarrow> 48 \<le> (of_char c :: nat) \<and> (of_char c :: nat) \<le> 57"

definition dec_int :: "string \<Rightarrow> int" where
  "dec_int s = foldl (\<lambda>a c. 10 * a + (of_char c - 48)) 0 s"

text \<open>\<open>strconv.ParseInt(s, 10, 64)\<close>: an optional sign and digits, in the range of 64 bits.\<close>

definition parse_int64 :: "string \<Rightarrow> int option" where
  "parse_int64 s =
     (let (sign, ds) = (case s of c # r \<Rightarrow> if c = CHR ''-'' then (- 1, r) else if c = CHR ''+'' then (1, r) else (1, s) | [] \<Rightarrow> (1, []))
      in if ds = [] \<or> \<not> list_all is_digit ds then None
         else let n = sign * dec_int ds in if in_i64 n then Some n else None)"

text \<open>
  \<open>time.Parse(time.RFC3339, s)\<close>. As the library does, an hour of one digit and a comma before the fraction are accepted,
  digits after the ninth of the fraction are dropped, and offsets may go up to 24 hours and 60 minutes.
\<close>

fun digits2 :: "bool \<Rightarrow> string \<Rightarrow> (int \<times> string) option" where
  "digits2 fixed (a # b # s) =
     (if \<not> is_digit a then None
      else if is_digit b then Some (dec_int [a, b], s)
      else if fixed then None else Some (dec_int [a], b # s))"
| "digits2 fixed [a] = (if is_digit a \<and> \<not> fixed then Some (dec_int [a], []) else None)"
| "digits2 fixed [] = None"

fun digits4 :: "string \<Rightarrow> (int \<times> string) option" where
  "digits4 (a # b # c # d # s) = (if list_all is_digit [a, b, c, d] then Some (dec_int [a, b, c, d], s) else None)"
| "digits4 _ = None"

fun after_char :: "char \<Rightarrow> string \<Rightarrow> string option" where
  "after_char c (d # s) = (if d = c then Some s else None)"
| "after_char c [] = None"

definition ranged :: "int \<Rightarrow> int \<Rightarrow> (int \<times> string) option \<Rightarrow> (int \<times> string) option" where
  "ranged lo hi r = Option.bind r (\<lambda>(n, s). if lo \<le> n \<and> n \<le> hi then Some (n, s) else None)"

definition fraction :: "string \<Rightarrow> int \<times> string" where
  "fraction s =
     (case s of c # d # r \<Rightarrow>
        if c \<in> {CHR ''.'', CHR '',''} \<and> is_digit d
        then let ds = takeWhile is_digit (d # r)
             in (dec_int (take 9 (ds @ ''00000000'')), dropWhile is_digit (d # r))
        else (0, s)
      | _ \<Rightarrow> (0, s))"

definition zone_offset :: "string \<Rightarrow> (int \<times> string) option" where
  "zone_offset s =
     (if take 1 s = ''Z'' then Some (0, drop 1 s)
      else if length s < 6 then None
      else case (ranged 0 24 (digits2 True (take 2 (drop 1 s))), ranged 0 60 (digits2 True (take 2 (drop 4 s)))) of
        (Some (h, _), Some (m, _)) \<Rightarrow>
          if s ! 3 \<noteq> CHR '':'' then None
          else if s ! 0 = CHR ''+'' then Some ((h * 60 + m) * 60, drop 6 s)
          else if s ! 0 = CHR ''-'' then Some (- ((h * 60 + m) * 60), drop 6 s)
          else None
      | _ \<Rightarrow> None)"

definition leap_year :: "int \<Rightarrow> bool" where
  "leap_year y \<longleftrightarrow> y mod 4 = 0 \<and> (y mod 100 \<noteq> 0 \<or> y mod 400 = 0)"

definition days_in :: "int \<Rightarrow> int \<Rightarrow> int" where
  "days_in m y = (if m = 2 then if leap_year y then 29 else 28 else if m \<in> {4, 6, 9, 11} then 30 else 31)"

text \<open>Days since 1970 of a date, counted in years that begin in March.\<close>

definition civil_days :: "int \<Rightarrow> int \<Rightarrow> int \<Rightarrow> int" where
  "civil_days y m d =
     (let y' = (if m \<le> 2 then y - 1 else y); yoe = y' mod 400; doy = (153 * ((m + 9) mod 12) + 2) div 5 + d - 1
      in y' div 400 * 146097 + yoe * 365 + yoe div 4 - yoe div 100 + doy - 719468)"

definition parse_rfc3339 :: "string \<Rightarrow> time option" where
  "parse_rfc3339 s =
     Option.bind (digits4 s) (\<lambda>(y, s). Option.bind (after_char CHR ''-'' s) (\<lambda>s.
     Option.bind (ranged 1 12 (digits2 True s)) (\<lambda>(mo, s). Option.bind (after_char CHR ''-'' s) (\<lambda>s.
     Option.bind (digits2 True s) (\<lambda>(d, s). Option.bind (after_char CHR ''T'' s) (\<lambda>s.
     Option.bind (ranged 0 23 (digits2 False s)) (\<lambda>(h, s). Option.bind (after_char CHR '':'' s) (\<lambda>s.
     Option.bind (ranged 0 59 (digits2 True s)) (\<lambda>(mi, s). Option.bind (after_char CHR '':'' s) (\<lambda>s.
     Option.bind (ranged 0 59 (digits2 True s)) (\<lambda>(sec, s).
       case fraction s of (ns, s) \<Rightarrow> Option.bind (zone_offset s) (\<lambda>(off, s).
         if s = [] \<and> 1 \<le> d \<and> d \<le> days_in mo y
         then Some ((civil_days y mo d * 86400 + h * 3600 + mi * 60 + sec - off) * Second + ns) else None))))))))))))"

text \<open>
  \<open>strconv.ParseFloat(s, 64)\<close> on decimal texts: the nearest number, an error where that is not finite. Hexadecimal
  numbers and the words for infinities and NaN, which the library also takes, are refused here.
\<close>

definition exponent :: "string \<Rightarrow> int option" where
  "exponent s =
     (case s of
        [] \<Rightarrow> Some 0
      | c # r \<Rightarrow>
          if c \<noteq> CHR ''e'' \<and> c \<noteq> CHR ''E'' then None
          else let (sign, ds) = (case r of d # r' \<Rightarrow> if d = CHR ''-'' then (- 1, r') else if d = CHR ''+'' then (1, r') else (1, r)
                                 | [] \<Rightarrow> (1, []))
               in if ds = [] \<or> \<not> list_all is_digit ds then None else Some (sign * dec_int ds))"

definition parse_float :: "string \<Rightarrow> f64 option" where
  "parse_float s =
     (let (sign, s) = (case s of c # r \<Rightarrow> if c = CHR ''-'' then (- 1, r) else if c = CHR ''+'' then (1, r) else (1, s) | [] \<Rightarrow> (1, []));
          ip = takeWhile is_digit s; r = dropWhile is_digit s;
          (fp, r) = (case r of c # r' \<Rightarrow> if c = CHR ''.'' then (takeWhile is_digit r', dropWhile is_digit r') else ([], r) | [] \<Rightarrow> ([], []))
      in if ip = [] \<and> fp = [] then None
         else Option.bind (exponent r) (\<lambda>e.
           let v = rnd (of_int (sign * dec_int (ip @ fp)) * 10 powi (e - int (length fp)))
           in if \<bar>v\<bar> < 2 ^ 1024 then Some v else None))"

lemma parse_rfc3339_examples:
  "parse_rfc3339 ''1970-01-01T00:00:00Z'' = Some 0"
  "parse_rfc3339 ''2026-03-01T00:00:00.5+01:00'' = Some (1772319600 * Second + 500000000)"
  "parse_rfc3339 ''2025-02-29T00:00:00Z'' = None"
  by code_simp+

section \<open>Balances\<close>

record MoonshotBalanceResponse =
  mbr_Code :: int
  mbr_AvailableBalance :: f64
  mbr_VoucherBalance :: f64
  mbr_CashBalance :: f64

definition moonshot_ToSnapshot :: "MoonshotBalanceResponse \<Rightarrow> time \<Rightarrow> moonshot_snapshot" where
  "moonshot_ToSnapshot r capturedAt = \<lparr>mo_ID = 0, mo_CapturedAt = capturedAt,
     mo_AvailableBalance = mbr_AvailableBalance r, mo_VoucherBalance = mbr_VoucherBalance r,
     mo_CashBalance = mbr_CashBalance r\<rparr>"

text \<open>DeepSeek sends its amounts as text.\<close>

record DeepSeekBalanceInfo =
  dsb_Currency :: string
  dsb_TotalBalance :: string
  dsb_GrantedBalance :: string
  dsb_ToppedUpBalance :: string

record DeepSeekBalanceResponse =
  dsr_IsAvailable :: bool
  dsr_BalanceInfos :: "DeepSeekBalanceInfo list"

definition deepseek_info :: "DeepSeekBalanceInfo list \<Rightarrow> DeepSeekBalanceInfo option" where
  "deepseek_info infos =
     (case find (\<lambda>i. dsb_Currency i = ''CNY'') infos of
        Some i \<Rightarrow> Some i
      | None \<Rightarrow> (case infos of [] \<Rightarrow> None | i # _ \<Rightarrow> Some i))"

definition amount :: "string \<Rightarrow> f64" where
  "amount s = (case parse_float s of Some v \<Rightarrow> v | None \<Rightarrow> 0)"

definition deepseek_ToSnapshot :: "DeepSeekBalanceResponse \<Rightarrow> time \<Rightarrow> deepseek_snapshot" where
  "deepseek_ToSnapshot r capturedAt =
     (let snapshot = \<lparr>ds_ID = 0, ds_CapturedAt = capturedAt, ds_IsAvailable = dsr_IsAvailable r, ds_Currency = [],
            ds_TotalBalance = 0, ds_GrantedBalance = 0, ds_ToppedUpBalance = 0\<rparr>
      in case deepseek_info (dsr_BalanceInfos r) of
           None \<Rightarrow> snapshot
         | Some info \<Rightarrow> snapshot\<lparr>ds_Currency := dsb_Currency info, ds_TotalBalance := amount (dsb_TotalBalance info),
             ds_GrantedBalance := amount (dsb_GrantedBalance info),
             ds_ToppedUpBalance := amount (dsb_ToppedUpBalance info)\<rparr>)"

record OpenRouterAuthKeyData =
  ora_Label :: string
  ora_Usage :: f64
  ora_Limit :: "f64 option"
  ora_LimitRemaining :: "f64 option"
  ora_IsFreeTier :: bool
  ora_RateLimitRequests :: int
  ora_RateLimitInterval :: string
  ora_UsageDaily :: f64
  ora_UsageWeekly :: f64
  ora_UsageMonthly :: f64

definition openrouter_ToSnapshot :: "OpenRouterAuthKeyData \<Rightarrow> time \<Rightarrow> openrouter_snapshot" where
  "openrouter_ToSnapshot d capturedAt = \<lparr>or_ID = 0, or_CapturedAt = capturedAt, or_Label = ora_Label d,
     or_Usage = ora_Usage d, or_UsageDaily = ora_UsageDaily d, or_UsageWeekly = ora_UsageWeekly d,
     or_UsageMonthly = ora_UsageMonthly d, or_Limit = ora_Limit d, or_LimitRemaining = ora_LimitRemaining d,
     or_IsFreeTier = ora_IsFreeTier d, or_RateLimitRequests = ora_RateLimitRequests d,
     or_RateLimitInterval = ora_RateLimitInterval d\<rparr>"

text \<open>The answer of the Synthetic interface; the agent makes the snapshot itself.\<close>

record QuotaResponse =
  qr_Subscription :: QuotaInfo
  qr_SearchHourly :: QuotaInfo
  qr_ToolCallDiscounts :: QuotaInfo

section \<open>Copilot\<close>

record CopilotQuotaSnapshot =
  cqs_Entitlement :: int
  cqs_OverageCount :: int
  cqs_OveragePermitted :: bool
  cqs_PercentRemaining :: f64
  cqs_QuotaID :: string
  cqs_QuotaRemaining :: f64
  cqs_Remaining :: int
  cqs_Unlimited :: bool
  cqs_TimestampUTC :: string

text \<open>Go's maps are association lists without duplicate keys; a pointer that may be nil is an option.\<close>

record CopilotUserResponse =
  cur_Login :: string
  cur_CopilotPlan :: string
  cur_AccessTypeSKU :: string
  cur_QuotaResetDate :: string
  cur_QuotaResetDateUTC :: string
  cur_QuotaSnapshots :: "(string \<times> CopilotQuotaSnapshot option) list"
  cur_LimitedUserQuotas :: "(string \<times> int) list"
  cur_MonthlyQuotas :: "(string \<times> int) list"
  cur_LimitedUserSubscribedDay :: int
  cur_LimitedUserResetDate :: string

definition zero_quota :: CopilotQuotaSnapshot where
  "zero_quota = \<lparr>cqs_Entitlement = 0, cqs_OverageCount = 0, cqs_OveragePermitted = False, cqs_PercentRemaining = 0,
     cqs_QuotaID = [], cqs_QuotaRemaining = 0, cqs_Remaining = 0, cqs_Unlimited = False, cqs_TimestampUTC = []\<rparr>"

definition limited_quota :: "(string \<times> int) list \<Rightarrow> string \<Rightarrow> int \<Rightarrow> CopilotQuotaSnapshot" where
  "limited_quota monthlies key remaining =
     (case map_of monthlies key of
        None \<Rightarrow> zero_quota\<lparr>cqs_Unlimited := True\<rparr>
      | Some monthly \<Rightarrow>
          if monthly = 0 then zero_quota\<lparr>cqs_Unlimited := True\<rparr>
          else let remaining = (if remaining < 0 then 0 else remaining)
               in zero_quota\<lparr>cqs_Entitlement := monthly, cqs_Remaining := remaining,
                    cqs_PercentRemaining := fmul (fdiv (float_of remaining) (float_of monthly)) 100\<rparr>)"

definition copilot_normalize :: "CopilotUserResponse \<Rightarrow> CopilotUserResponse" where
  "copilot_normalize r =
     (if cur_QuotaSnapshots r \<noteq> [] \<or> cur_LimitedUserQuotas r = [] then r
      else let r = r\<lparr>cur_QuotaSnapshots :=
                 map (\<lambda>(key, remaining). (key, Some (limited_quota (cur_MonthlyQuotas r) key remaining))) (cur_LimitedUserQuotas r)\<rparr>
           in if cur_QuotaResetDateUTC r = [] \<and> cur_LimitedUserResetDate r \<noteq> []
              then r\<lparr>cur_QuotaResetDate := cur_LimitedUserResetDate r,
                     cur_QuotaResetDateUTC := cur_LimitedUserResetDate r @ ''T00:00:00.000Z''\<rparr>
              else r)"

definition ActiveQuotaNames :: "CopilotUserResponse \<Rightarrow> string list" where
  "ActiveQuotaNames r = sort (map fst (filter (\<lambda>(_, entry). entry \<noteq> None) (cur_QuotaSnapshots r)))"

text \<open>A date the first layout refuses is refused by the second, which is narrower.\<close>

definition copilot_ToSnapshot :: "(CopilotUserResponse \<Rightarrow> string option) \<Rightarrow> CopilotUserResponse \<Rightarrow> time \<Rightarrow> copilot_snapshot" where
  "copilot_ToSnapshot raw r capturedAt =
     \<lparr>snap_ID = 0, snap_CapturedAt = capturedAt,
      snap_meta = \<lparr>cp_ResetDate = (if cur_QuotaResetDateUTC r \<noteq> [] then parse_rfc3339 (cur_QuotaResetDateUTC r) else None),
        cp_CopilotPlan = cur_CopilotPlan r, cp_RawJSON = (case raw r of Some t \<Rightarrow> t | None \<Rightarrow> [])\<rparr>,
      snap_Quotas = map (\<lambda>name.
        let entry = the (the (map_of (cur_QuotaSnapshots r) name))
        in \<lparr>cp_Name = name, cp_Entitlement = cqs_Entitlement entry, cp_Remaining = cqs_Remaining entry,
            cp_PercentRemaining = cqs_PercentRemaining entry, cp_Unlimited = cqs_Unlimited entry,
            cp_OverageCount = cqs_OverageCount entry\<rparr>) (ActiveQuotaNames r)\<rparr>"


section \<open>MiniMax\<close>

text \<open>A time in an answer is decoded into an \<open>interface{}\<close>: nothing, a text, or a number of milliseconds in one of four types.\<close>

datatype timestamp = TsNil | TsText string | TsFloat f64 | TsInt int | TsNumber string | TsOther

record MiniMaxModelRemain =
  mmr_ModelName :: string
  mmr_StartTime :: timestamp
  mmr_EndTime :: timestamp
  mmr_RemainsTime :: int
  mmr_CurrentIntervalTotalCount :: int
  mmr_CurrentIntervalUsageCount :: int
  mmr_CurrentWeeklyTotalCount :: int
  mmr_CurrentWeeklyUsageCount :: int
  mmr_WeeklyStartTime :: timestamp
  mmr_WeeklyEndTime :: timestamp
  mmr_WeeklyRemainsTime :: int
  mmr_CurrentIntervalRemainingPercent :: "int option"
  mmr_CurrentIntervalStatus :: "int option"
  mmr_CurrentWeeklyRemainingPercent :: "int option"
  mmr_CurrentWeeklyStatus :: "int option"

definition clampPercent :: "int \<Rightarrow> int" where
  "clampPercent v = (if v < 0 then 0 else if 100 < v then 100 else v)"

definition minimaxIntervalActive :: "int option \<Rightarrow> bool" where
  "minimaxIntervalActive status \<longleftrightarrow> (case status of Some s \<Rightarrow> s = 1 \<or> s = 2 | None \<Rightarrow> False)"

definition stringsTrimSpace :: "string \<Rightarrow> string" where
  "stringsTrimSpace s =
     (let sp = (\<lambda>c. c \<in> {CHR '' '', CHR 0x09, CHR 0x0A, CHR 0x0D}) in rev (dropWhile sp (rev (dropWhile sp s))))"

definition unix_milli :: "int \<Rightarrow> time" where
  "unix_milli n = n * 1000000"

fun parseMiniMaxTimestamp :: "timestamp \<Rightarrow> time option" where
  "parseMiniMaxTimestamp TsNil = None"
| "parseMiniMaxTimestamp (TsText ts) =
     (let ts = stringsTrimSpace ts
      in if ts = [] then None
         else case parse_rfc3339 ts of Some t \<Rightarrow> Some t | None \<Rightarrow> map_option unix_milli (parse_int64 ts))"
| "parseMiniMaxTimestamp (TsFloat ts) = Some (unix_milli (to_i64 ts))"
| "parseMiniMaxTimestamp (TsInt ts) = Some (unix_milli ts)"
| "parseMiniMaxTimestamp (TsNumber ts) = map_option unix_milli (parse_int64 ts)"
| "parseMiniMaxTimestamp TsOther = None"

text \<open>The counts of the window: all, remaining and used; a percentage of an active window stands for counts of 100.\<close>

definition interval_counts :: "MiniMaxModelRemain \<Rightarrow> int \<times> int \<times> int" where
  "interval_counts m =
     (let tot = mmr_CurrentIntervalTotalCount m;
          remain = mmr_CurrentIntervalUsageCount m;
          used = i64 (tot - remain);
          used = (if used < 0 then 0 else used);
          remain = (if remain < 0 then 0 else remain)
      in case mmr_CurrentIntervalRemainingPercent m of
           Some p \<Rightarrow> if tot = 0 \<and> minimaxIntervalActive (mmr_CurrentIntervalStatus m)
                     then (100, clampPercent p, 100 - clampPercent p) else (tot, remain, used)
         | None \<Rightarrow> (tot, remain, used))"

definition reset_of :: "time \<Rightarrow> int \<Rightarrow> time option \<Rightarrow> time option \<times> duration" where
  "reset_of capturedAt remainsTime windowEnd =
     (if 0 < remainsTime
      then let d = i64 (remainsTime * 1000000) in (Some (time_Add capturedAt d), d)
      else case windowEnd of
        Some w \<Rightarrow> (let left = time_Sub w capturedAt in (Some w, if left < 0 then 0 else left))
      | None \<Rightarrow> (None, 0))"

definition percent_of :: "int \<Rightarrow> int \<Rightarrow> f64" where
  "percent_of used tot = (if 0 < tot then fmul (fdiv (float_of used) (float_of tot)) 100 else 0)"

definition weekly_quota :: "time \<Rightarrow> MiniMaxModelRemain \<Rightarrow> minimax_model \<Rightarrow> minimax_model" where
  "weekly_quota capturedAt m quota =
     (let active = mmr_CurrentWeeklyRemainingPercent m \<noteq> None \<and> minimaxIntervalActive (mmr_CurrentWeeklyStatus m)
      in if 0 < mmr_CurrentWeeklyTotalCount m \<or> 0 < mmr_CurrentWeeklyUsageCount m \<or> active then
           let tot = mmr_CurrentWeeklyTotalCount m;
               remain = mmr_CurrentWeeklyUsageCount m;
               used = i64 (tot - remain);
               used = (if used < 0 then 0 else used);
               (tot, remain, used) =
                 (case mmr_CurrentWeeklyRemainingPercent m of
                    Some p \<Rightarrow> if tot = 0 \<and> active then (100, clampPercent p, 100 - clampPercent p) else (tot, remain, used)
                  | None \<Rightarrow> (tot, remain, used));
               windowEnd = parseMiniMaxTimestamp (mmr_WeeklyEndTime m);
               (resetAt, left) = reset_of capturedAt (mmr_WeeklyRemainsTime m) windowEnd
           in quota\<lparr>mm_WeeklyTotal := tot, mm_WeeklyRemain := remain, mm_WeeklyUsed := used,
                mm_WeeklyUsedPercent := percent_of used tot, mm_WeeklyResetAt := resetAt,
                mm_WeeklyWindowStart := parseMiniMaxTimestamp (mmr_WeeklyStartTime m), mm_WeeklyWindowEnd := windowEnd,
                mm_WeeklyTimeUntilReset := left, mm_HasWeeklyQuota := True\<rparr>
         else quota)"

definition minimax_quota :: "time \<Rightarrow> MiniMaxModelRemain \<Rightarrow> minimax_model" where
  "minimax_quota capturedAt m =
     (let (tot, remain, used) = interval_counts m;
          windowEnd = parseMiniMaxTimestamp (mmr_EndTime m);
          (resetAt, left) = reset_of capturedAt (mmr_RemainsTime m) windowEnd
      in weekly_quota capturedAt m
           \<lparr>mm_ModelName = mmr_ModelName m, mm_Total = tot, mm_Remain = remain, mm_Used = used,
            mm_UsedPercent = percent_of used tot, mm_ResetAt = resetAt,
            mm_WindowStart = parseMiniMaxTimestamp (mmr_StartTime m), mm_WindowEnd = windowEnd, mm_TimeUntilReset = left,
            mm_WeeklyTotal = 0, mm_WeeklyRemain = 0, mm_WeeklyUsed = 0, mm_WeeklyUsedPercent = 0,
            mm_WeeklyResetAt = None, mm_WeeklyWindowStart = None, mm_WeeklyWindowEnd = None,
            mm_WeeklyTimeUntilReset = 0, mm_HasWeeklyQuota = False\<rparr>)"

definition minimax_ToSnapshot :: "(MiniMaxModelRemain list \<Rightarrow> string option) \<Rightarrow> MiniMaxModelRemain list \<Rightarrow> time \<Rightarrow> minimax_snapshot" where
  "minimax_ToSnapshot raw models capturedAt =
     \<lparr>snap_ID = 0, snap_CapturedAt = capturedAt,
      snap_meta = \<lparr>mx_AccountID = 0, mx_RawJSON = (case raw models of Some t \<Rightarrow> t | None \<Rightarrow> [])\<rparr>,
      snap_Quotas = map (minimax_quota capturedAt) (filter (\<lambda>m. mmr_ModelName m \<noteq> []) models)\<rparr>"

definition same_pool :: "minimax_model \<Rightarrow> minimax_model \<Rightarrow> bool" where
  "same_pool first m \<longleftrightarrow>
     mm_Total m = mm_Total first \<and> mm_Used m = mm_Used first \<and> mm_Remain m = mm_Remain first \<and>
     (case (mm_ResetAt first, mm_ResetAt m) of
        (None, None) \<Rightarrow> True
      | (Some a, Some b) \<Rightarrow> dur_abs (time_Sub a b) \<le> Second
      | _ \<Rightarrow> False)"

definition IsSharedQuota :: "minimax_model list \<Rightarrow> bool" where
  "IsSharedQuota models \<longleftrightarrow> 1 < length models \<and> list_all (same_pool (hd models)) (tl models)"

definition MergedQuota :: "minimax_model list \<Rightarrow> minimax_model option" where
  "MergedQuota models = (case models of [] \<Rightarrow> None | first # _ \<Rightarrow> Some (first\<lparr>mm_ModelName := ''MiniMax Coding Plan''\<rparr>))"

definition ActiveModels :: "minimax_model list \<Rightarrow> string list" where
  "ActiveModels models = sort (filter (\<lambda>n. n \<noteq> []) (map mm_ModelName models))"

definition ActiveModelNames :: "MiniMaxModelRemain list \<Rightarrow> string list" where
  "ActiveModelNames models = sort (remdups (filter (\<lambda>n. n \<noteq> []) (map mmr_ModelName models)))"

text \<open>The pools of a snapshot, in the order of their first models. A key has the reset time in seconds.\<close>

type_synonym pool_key = "int \<times> int \<times> int \<times> int"

definition keyFor :: "minimax_model \<Rightarrow> pool_key" where
  "keyFor m = (mm_Total m, mm_Used m, mm_Remain m, case mm_ResetAt m of Some r \<Rightarrow> r div Second | None \<Rightarrow> 0)"

record MiniMaxQuotaGroup =
  mg_Quota :: minimax_model
  mg_ModelNames :: "string list"

fun add_to_pool :: "minimax_model \<Rightarrow> (pool_key \<times> MiniMaxQuotaGroup) list \<Rightarrow> (pool_key \<times> MiniMaxQuotaGroup) list" where
  "add_to_pool m [] = [(keyFor m, \<lparr>mg_Quota = m, mg_ModelNames = [mm_ModelName m]\<rparr>)]"
| "add_to_pool m ((k, g) # gs) =
     (if k = keyFor m then (k, g\<lparr>mg_ModelNames := mg_ModelNames g @ [mm_ModelName m]\<rparr>) # gs else (k, g) # add_to_pool m gs)"

definition GroupByPool :: "minimax_model list \<Rightarrow> MiniMaxQuotaGroup list" where
  "GroupByPool models =
     map (\<lambda>(_, g). g\<lparr>mg_ModelNames := sort (mg_ModelNames g)\<rparr>)
       (fold add_to_pool (filter (\<lambda>m. \<not> (mm_Total m = 0 \<and> mm_Used m = 0)) models) [])"

section \<open>What the conversions guarantee\<close>


definition counts_ok :: "MiniMaxModelRemain \<Rightarrow> bool" where
  "counts_ok m \<longleftrightarrow> (\<forall>n \<in> {mmr_CurrentIntervalTotalCount m, mmr_CurrentIntervalUsageCount m, mmr_CurrentWeeklyTotalCount m,
     mmr_CurrentWeeklyUsageCount m}. 0 \<le> n \<and> n \<le> 2 ^ 53)"

definition quota_within :: "int \<Rightarrow> int \<Rightarrow> f64 \<Rightarrow> bool" where
  "quota_within used tot percent \<longleftrightarrow> 0 \<le> used \<and> used \<le> tot \<and> 0 \<le> percent \<and> percent \<le> 100"

lemma percent_of_bounds: "0 \<le> u \<Longrightarrow> u \<le> t \<Longrightarrow> t \<le> 2 ^ 53 \<Longrightarrow> 0 \<le> percent_of u t \<and> percent_of u t \<le> 100"
proof -
  assume *: "0 \<le> u" "u \<le> t" "t \<le> 2 ^ 53"
  show ?thesis
  proof (cases "0 < t")
    case True
    have r: "rnd (of_int u) = of_int u" "rnd (of_int t) = of_int t" using * by (simp_all add: rnd_of_int)
    have "fdiv (of_int u) (of_int t) \<le> rnd 1" unfolding fdiv_def by (rule rnd_mono) (use * True in simp)
    then have le: "fdiv (of_int u) (of_int t) \<le> 1" by simp
    have ge: "0 \<le> fdiv (of_int u) (of_int t)" using * by (intro fdiv_nonneg) simp_all
    have "fmul (fdiv (of_int u) (of_int t)) 100 \<le> rnd 100" unfolding fmul_def by (rule rnd_mono) (use le in simp)
    then show ?thesis using ge True by (simp add: percent_of_def float_of_def r fmul_nonneg)
  qed (simp add: percent_of_def)
qed

lemma clampPercent_bounds: "0 \<le> clampPercent p" "clampPercent p \<le> 100"
  by (simp_all add: clampPercent_def)

lemma i64_small: "0 \<le> a \<Longrightarrow> a \<le> 2 ^ 53 \<Longrightarrow> 0 \<le> b \<Longrightarrow> b \<le> 2 ^ 53 \<Longrightarrow> i64 (a - b) = a - b"
  by (rule i64_id) (simp add: in_i64_def)

lemma interval_counts_bounds:
  assumes "counts_ok m" "interval_counts m = (tot, remain, used)"
  shows "0 \<le> used" "used \<le> tot" "tot \<le> 2 ^ 53"
  using assms clampPercent_bounds
  by (auto simp: counts_ok_def interval_counts_def Let_def i64_small split: option.splits if_splits)

lemma weekly_quota_within:
  assumes "counts_ok m" "quota_within 0 (mm_WeeklyTotal q) 0" "mm_WeeklyUsed q = 0" "mm_WeeklyUsedPercent q = 0"
  shows "quota_within (mm_WeeklyUsed (weekly_quota t m q)) (mm_WeeklyTotal (weekly_quota t m q)) (mm_WeeklyUsedPercent (weekly_quota t m q))"
  using assms clampPercent_bounds
  by (auto simp: counts_ok_def weekly_quota_def quota_within_def Let_def i64_small percent_of_bounds
      split: option.splits if_splits prod.splits)

lemma weekly_quota_keeps [simp]:
  "mm_Used (weekly_quota t m q) = mm_Used q" "mm_Total (weekly_quota t m q) = mm_Total q"
  "mm_UsedPercent (weekly_quota t m q) = mm_UsedPercent q"
  by (simp_all add: weekly_quota_def Let_def split: prod.split)

text \<open>From counts that are not negative, every model of a MiniMax snapshot has between none and all of
  its requests used and a utilization from 0 to 100, in the window of the plan as in that of the week.\<close>

theorem minimax_quota_bounds:
  assumes "\<forall>m \<in> set models. counts_ok m" "q \<in> set (snap_Quotas (minimax_ToSnapshot raw models capturedAt))"
  shows "quota_within (mm_Used q) (mm_Total q) (mm_UsedPercent q) \<and> quota_within (mm_WeeklyUsed q) (mm_WeeklyTotal q) (mm_WeeklyUsedPercent q)"
proof -
  obtain m where m: "counts_ok m" "q = minimax_quota capturedAt m" using assms by (auto simp: minimax_ToSnapshot_def)
  obtain tot remain used where c: "interval_counts m = (tot, remain, used)" by (cases "interval_counts m")
  note b = interval_counts_bounds [OF m(1) c]
  show ?thesis
    unfolding m(2) minimax_quota_def c
    using b percent_of_bounds [OF b] m(1)
    by (auto simp: Let_def split: prod.split intro!: weekly_quota_within) (simp_all add: quota_within_def)
qed

definition coding_plan :: MiniMaxModelRemain where
  "coding_plan = \<lparr>mmr_ModelName = ''MiniMax-M2'', mmr_StartTime = TsNil, mmr_EndTime = TsNil, mmr_RemainsTime = 1000,
     mmr_CurrentIntervalTotalCount = 0, mmr_CurrentIntervalUsageCount = 0, mmr_CurrentWeeklyTotalCount = 0,
     mmr_CurrentWeeklyUsageCount = 0, mmr_WeeklyStartTime = TsNil, mmr_WeeklyEndTime = TsNil, mmr_WeeklyRemainsTime = 0,
     mmr_CurrentIntervalRemainingPercent = Some 0, mmr_CurrentIntervalStatus = Some 2,
     mmr_CurrentWeeklyRemainingPercent = None, mmr_CurrentWeeklyStatus = None\<rparr>"

text \<open>An exhausted window of a percentage plan counts as fully used.\<close>

theorem minimax_quota_bounds_witness:
  "quota_within 100 100 (mm_UsedPercent (minimax_quota 0 coding_plan)) \<and> mm_ModelName (minimax_quota 0 coding_plan) = ''MiniMax-M2''"
proof -
  have "\<forall>m \<in> set [coding_plan]. counts_ok m" by (simp add: counts_ok_def coding_plan_def)
  moreover have "minimax_quota 0 coding_plan \<in> set (snap_Quotas (minimax_ToSnapshot (\<lambda>_. None) [coding_plan] 0))"
    by (simp add: minimax_ToSnapshot_def coding_plan_def)
  ultimately show ?thesis
    using minimax_quota_bounds [of "[coding_plan]" "minimax_quota 0 coding_plan" "\<lambda>_. None" 0]
    by (simp add: minimax_quota_def weekly_quota_def interval_counts_def coding_plan_def clampPercent_def minimaxIntervalActive_def
        reset_of_def Let_def)
qed

end
