(* ===== verification/Agents.thy ===== *)
theory Agents
  imports PollBase ApiAnswers SyntheticTracker PlanTrackers BalanceTrackers ZaiTracker CreditTrackers CopilotTracker MiniMaxTracker
begin

text \<open>
  The polling agents of \<open>internal/agent\<close> that keep no state of their own beside their parts: \<open>agent.go\<close> (Synthetic),
  \<open>moonshot_agent.go\<close>, \<open>deepseek_agent.go\<close>, \<open>openrouter_agent.go\<close>, \<open>opencode_agent.go\<close>, \<open>zai_agent.go\<close>,
  \<open>grok_agent.go\<close>, \<open>kimi_agent.go\<close>, which give up a poll whose snapshot cannot be stored, and \<open>copilot_agent.go\<close> and
  \<open>minimax_agent.go\<close>, which go on. A poll is called with the constructors' non-nil client and store.
\<close>

text \<open>The loop of an agent: a poll at once, one for each tick, and the session closed on the way out.\<close>

definition agent_Run :: "('i \<Rightarrow> 't poller \<Rightarrow> 't poller) \<Rightarrow> 'i list \<Rightarrow> time \<Rightarrow> 't poller \<Rightarrow> 't poller" where
  "agent_Run poll ticks now a = (let a = fold poll ticks a in a\<lparr>pa_sm := map_option (session_Close now) (pa_sm a)\<rparr>)"

section \<open>The agents that stop\<close>

subsection \<open>Synthetic\<close>

definition synthetic_snapshot :: "time \<Rightarrow> QuotaResponse \<Rightarrow> Snapshot" where
  "synthetic_snapshot now resp = \<lparr>sn_ID = 0, sn_CapturedAt = now, sn_Sub = qr_Subscription resp,
     sn_Search = qr_SearchHourly resp, sn_ToolCall = qr_ToolCallDiscounts resp\<rparr>"

definition synthetic_statuses :: "Snapshot \<Rightarrow> quota_status list" where
  "synthetic_statuses sn =
     map (\<lambda>(key, q). status_of ''synthetic'' key (fmul (fdiv (qi_Requests q) (qi_Limit q)) 100) (qi_Limit q))
       (filter (\<lambda>(_, q). 0 < qi_Limit q)
          [(''subscription'', sn_Sub sn), (''search'', sn_Search sn), (''toolcall'', sn_ToolCall sn)])"

definition synthetic_values :: "Snapshot \<Rightarrow> f64 list" where
  "synthetic_values sn = [qi_Requests (sn_Sub sn), qi_Requests (sn_Search sn), qi_Requests (sn_ToolCall sn)]"

definition synthetic_insert :: "Snapshot \<Rightarrow> (synthetic_tracker, int) op" where
  "synthetic_insert sn = liftE syn_snaps (\<lambda>t s. s\<lparr>syn_snaps := t\<rparr>) (InsertSnapshot sn)"

definition synthetic_agent_poll :: "QuotaResponse poll_input \<Rightarrow> synthetic_tracker poller \<Rightarrow> synthetic_tracker poller" where
  "synthetic_agent_poll p a =
     (if \<not> pi_enabled p then a
      else case pi_answer p of
        None \<Rightarrow> if pi_cancelled p then a else a\<lparr>pa_metrics := (''synthetic'', ''fetch_failed'') # pa_metrics a\<rparr>
      | Some resp \<Rightarrow>
          let sn = synthetic_snapshot (pi_now p) resp
          in case synthetic_insert sn (pa_tracker a) of
               (Inl _, t) \<Rightarrow> a\<lparr>pa_tracker := t, pa_metrics := (''synthetic'', ''store_failed'') # pa_metrics a\<rparr>
             | (Inr _, t) \<Rightarrow>
                 report_values (pi_uuid p) (pi_report p) (synthetic_values sn)
                   (notify_each (pi_checks p) (synthetic_statuses sn)
                     (a\<lparr>pa_tracker := ignoreE (synthetic_Process sn) t, pa_metrics := (''synthetic'', []) # pa_metrics a\<rparr>)))"

subsection \<open>Moonshot, DeepSeek and OpenRouter\<close>

text \<open>A balance that falls is usage, so the session manager gets its negative.\<close>

definition moonshot_agent_poll :: "MoonshotBalanceResponse poll_input \<Rightarrow> moonshot_tracker poller \<Rightarrow> moonshot_tracker poller" where
  "moonshot_agent_poll p a =
     (if \<not> pi_enabled p then a
      else case pi_answer p of
        None \<Rightarrow> a
      | Some resp \<Rightarrow>
          let sn = moonshot_ToSnapshot resp (pi_now p)
          in store_or_stop (liftE mo_snaps (\<lambda>t s. s\<lparr>mo_snaps := t\<rparr>) (InsertMoonshotSnapshot sn))
               (\<lambda>a. report_values (pi_uuid p) (pi_report p) [- mo_AvailableBalance sn] (track (moonshot_Process sn) a)) a)"

definition deepseek_agent_poll :: "DeepSeekBalanceResponse poll_input \<Rightarrow> deepseek_tracker poller \<Rightarrow> deepseek_tracker poller" where
  "deepseek_agent_poll p a =
     (if \<not> pi_enabled p then a
      else case pi_answer p of
        None \<Rightarrow> a
      | Some resp \<Rightarrow>
          if \<not> dsr_IsAvailable resp then a
          else let sn = deepseek_ToSnapshot resp (pi_now p)
            in store_or_stop (liftE ds_snaps (\<lambda>t s. s\<lparr>ds_snaps := t\<rparr>) (InsertDeepSeekSnapshot sn))
                 (\<lambda>a. report_values (pi_uuid p) (pi_report p) [- ds_TotalBalance sn] (track (deepseek_Process sn) a)) a)"

definition openrouter_statuses :: "openrouter_snapshot \<Rightarrow> quota_status list" where
  "openrouter_statuses sn =
     (case or_Limit sn of
        Some l \<Rightarrow> if 0 < l then [status_of ''openrouter'' ''credits'' (fmul (fdiv (or_Usage sn) l) 100) l] else []
      | None \<Rightarrow> [])"

definition openrouter_agent_poll :: "OpenRouterAuthKeyData poll_input \<Rightarrow> openrouter_tracker poller \<Rightarrow> openrouter_tracker poller" where
  "openrouter_agent_poll p a =
     (if \<not> pi_enabled p then a
      else case pi_answer p of
        None \<Rightarrow> a
      | Some resp \<Rightarrow>
          let sn = openrouter_ToSnapshot resp (pi_now p)
          in store_or_stop (liftE or_snaps (\<lambda>t s. s\<lparr>or_snaps := t\<rparr>) (InsertOpenRouterSnapshot sn))
               (\<lambda>a. report_values (pi_uuid p) (pi_report p) [or_Usage sn]
                 (notify_each (pi_checks p) (openrouter_statuses sn) (track (openrouter_Process sn) a))) a)"

subsection \<open>OpenCode and Z.ai\<close>

text \<open>The client of OpenCode gives a finished snapshot with its own capture time; \<open>configured\<close> is whether it has a
  configuration.\<close>

definition opencode_agent_poll :: "bool \<Rightarrow> plan_snapshot poll_input \<Rightarrow> plan_tracker poller \<Rightarrow> plan_tracker poller" where
  "opencode_agent_poll configured p a =
     (if \<not> configured \<or> \<not> pi_enabled p then a
      else case pi_answer p of
        None \<Rightarrow> a
      | Some sn \<Rightarrow>
          store_or_stop (liftE pt_snaps (\<lambda>t s. s\<lparr>pt_snaps := t\<rparr>) (InsertOpenCodeSnapshot sn))
            (\<lambda>a. report_values (pi_uuid p) (pi_report p) (map uq_Utilization (snap_Quotas sn))
              (notify_each (pi_checks p)
                (map (\<lambda>q. status_of ''opencode'' (uq_Name q) (uq_Utilization q) (pq_Limit q)) (snap_Quotas sn))
                (track (opencode_Process sn) a))) a)"

definition zai_statuses :: "ZaiSnapshot \<Rightarrow> quota_status list" where
  "zai_statuses sn =
     (if 0 < zs_TokensUsage sn then [status_of ''zai'' ''tokens'' (float_of (zs_TokensPercentage sn)) (zs_TokensUsage sn)] else []) @
     (if 0 < zs_TimeUsage sn
      then [status_of ''zai'' ''time'' (fmul (fdiv (zs_TimeCurrentValue sn) (zs_TimeUsage sn)) 100) (zs_TimeUsage sn)] else [])"

text \<open>\<open>raw\<close> is the parameter of \<open>zai_ToSnapshot\<close>, \<open>dflt\<close> the id of the default account and \<open>accountID\<close> the agent's.\<close>

definition zai_agent_poll ::
    "((string \<times> f64) list \<Rightarrow> string) \<Rightarrow> int \<Rightarrow> int \<Rightarrow> ZaiLimit list poll_input \<Rightarrow> zai_tracker poller \<Rightarrow> zai_tracker poller" where
  "zai_agent_poll raw dflt accountID p a =
     (if \<not> pi_enabled p then a
      else case pi_answer p of
        None \<Rightarrow> a
      | Some limits \<Rightarrow>
          let sn = zai_ToSnapshot raw limits (pi_now p)
          in store_or_stop (liftE zt_snaps (\<lambda>t s. s\<lparr>zt_snaps := t\<rparr>) (InsertZaiSnapshot dflt sn accountID))
               (\<lambda>a. report_values (pi_uuid p) (pi_report p) [zs_TokensCurrentValue sn, zs_TimeCurrentValue sn]
                 (notify_each (pi_checks p) (zai_statuses sn) (track (zai_Process dflt sn accountID) a))) a)"

subsection \<open>Grok and Kimi\<close>

text \<open>The tracker is paired with the table of snapshots. Both agents notify about the first quota only.\<close>

definition first_status :: "string \<Rightarrow> credit_quota list \<Rightarrow> quota_status list" where
  "first_status provider qs = (case qs of q # _ \<Rightarrow> [status_of provider (gq_Name q) (gq_Utilization q) 0] | [] \<Rightarrow> [])"

definition on_tracker :: "(credit_tracker, unit) op \<Rightarrow> (credit_tracker \<times> 'r tbl, unit) op" where
  "on_tracker = liftE fst (\<lambda>t s. (t, snd s))"

definition grok_agent_poll :: "grok_snapshot poll_input \<Rightarrow> (credit_tracker \<times> grok_snapshot tbl) poller \<Rightarrow> (credit_tracker \<times> grok_snapshot tbl) poller" where
  "grok_agent_poll p a =
     (if \<not> pi_enabled p then a
      else case pi_answer p of
        None \<Rightarrow> a
      | Some sn \<Rightarrow>
          store_or_stop (liftE snd (\<lambda>t s. (fst s, t)) (InsertGrokSnapshot sn))
            (\<lambda>a. report_values (pi_uuid p) (pi_report p)
                (case snap_Quotas sn of q # _ \<Rightarrow> [gq_Utilization q] | [] \<Rightarrow> [0])
              (notify_each (pi_checks p) (first_status ''grok'' (snap_Quotas sn))
                (track (on_tracker (grok_Process (gm_AccountID (snap_meta sn)) (snap_Quotas sn) (snap_CapturedAt sn))) a))) a)"

definition kimi_agent_poll :: "kimi_snapshot poll_input \<Rightarrow> (credit_tracker \<times> kimi_snapshot tbl) poller \<Rightarrow> (credit_tracker \<times> kimi_snapshot tbl) poller" where
  "kimi_agent_poll p a =
     (if \<not> pi_enabled p then a
      else case pi_answer p of
        None \<Rightarrow> a
      | Some sn \<Rightarrow>
          store_or_stop (liftE snd (\<lambda>t s. (fst s, t)) (InsertKimiSnapshot sn))
            (\<lambda>a. report_values (pi_uuid p) (pi_report p)
                (case snap_Quotas sn of [] \<Rightarrow> [0] | qs \<Rightarrow> map gq_Utilization qs)
              (notify_each (pi_checks p) (first_status ''kimi'' (snap_Quotas sn))
                (track (on_tracker (kimi_Process (km_AccountID (snap_meta sn)) (snap_Quotas sn) (snap_CapturedAt sn))) a))) a)"

section \<open>The agents that go on\<close>

definition copilot_statuses :: "copilot_quota list \<Rightarrow> quota_status list" where
  "copilot_statuses qs =
     map (\<lambda>q. status_of ''copilot'' (cp_Name q)
            (fmul (fdiv (float_of (i64 (cp_Entitlement q - cp_Remaining q))) (float_of (cp_Entitlement q))) 100)
            (float_of (cp_Entitlement q)))
       (filter (\<lambda>q. \<not> (cp_Unlimited q \<or> cp_Entitlement q = 0)) qs)"

definition copilot_agent_poll ::
    "(CopilotUserResponse \<Rightarrow> string option) \<Rightarrow> CopilotUserResponse poll_input \<Rightarrow> copilot_tracker poller \<Rightarrow> copilot_tracker poller" where
  "copilot_agent_poll raw p a =
     (if \<not> pi_enabled p then a
      else case pi_answer p of
        None \<Rightarrow> a
      | Some resp \<Rightarrow>
          let sn = copilot_ToSnapshot raw resp (pi_now p);
              a = store_anyway (liftE ct_snaps (\<lambda>t s. s\<lparr>ct_snaps := t\<rparr>) (InsertCopilotSnapshot sn)) a;
              a = a\<lparr>pa_tracker := ignoreE (copilot_Process sn) (pa_tracker a)\<rparr>;
              a = notify_each (pi_checks p) (copilot_statuses (snap_Quotas sn)) a
          in report_values (pi_uuid p) (pi_report p)
               (map (\<lambda>q. float_of (i64 (cp_Entitlement q - cp_Remaining q))) (snap_Quotas sn)) a)"

definition minimax_statuses :: "minimax_model list \<Rightarrow> quota_status list" where
  "minimax_statuses models =
     (if IsSharedQuota models then
        (case MergedQuota models of
           Some m \<Rightarrow> if 0 < mm_Total m then [status_of ''minimax'' ''coding_plan'' (mm_UsedPercent m) (float_of (mm_Total m))] else []
         | None \<Rightarrow> [])
      else map (\<lambda>m. status_of ''minimax'' (mm_ModelName m) (mm_UsedPercent m) (float_of (mm_Total m)))
             (filter (\<lambda>m. mm_Total m \<noteq> 0) models))"

definition minimax_agent_poll ::
    "(MiniMaxModelRemain list \<Rightarrow> string option) \<Rightarrow> int \<Rightarrow> MiniMaxModelRemain list poll_input \<Rightarrow> minimax_tracker poller \<Rightarrow> minimax_tracker poller" where
  "minimax_agent_poll raw accountID p a =
     (if \<not> pi_enabled p then a
      else case pi_answer p of
        None \<Rightarrow> a
      | Some models \<Rightarrow>
          let sn = minimax_ToSnapshot raw models (pi_now p);
              a = store_anyway (liftE mt_snaps (\<lambda>t s. s\<lparr>mt_snaps := t\<rparr>) (InsertMiniMaxSnapshot sn accountID)) a;
              a = a\<lparr>pa_tracker := ignoreE (minimax_Process sn accountID) (pa_tracker a)\<rparr>;
              a = notify_each (pi_checks p) (minimax_statuses (snap_Quotas sn)) a
          in report_values (pi_uuid p) (pi_report p) (map (\<lambda>m. float_of (mm_Used m)) (snap_Quotas sn)) a)"

section \<open>What is tracked has been stored\<close>

lemma sql_insert_snapshot_rows:
  "wp (sql_insert_snapshot msg idmsg mk) (\<lambda>i u'. db_rows u' = db_rows u @ [mk i])
     (\<lambda>_ u'. db_rows u' = db_rows u \<or> (\<exists>i. db_rows u' = db_rows u @ [mk i])) u"
  unfolding sql_insert_snapshot_def wp_bindE wp_wrapE by (intro wp_db_stmt) auto

lemma healthy_append: "healthy u \<Longrightarrow> healthy (u\<lparr>db_rows := rs, db_seq := n\<rparr>)"
  by (simp add: healthy_def)

lemma sql_insert_snapshot_healthy:
  "healthy u \<Longrightarrow> wp (sql_insert_snapshot msg idmsg mk) (\<lambda>_. healthy) (\<lambda>_ _. False) u"
  by (simp add: sql_insert_snapshot_def wps wp_db_healthy healthy_append)

lemma sql_insert_snap_rows:
  assumes "wf_snaps u"
  shows "wp (sql_insert_snap msg vmsg sn) (\<lambda>i u'. db_rows u' = db_rows u @ [sn\<lparr>snap_ID := i\<rparr>] \<and> wf_snaps u')
     (\<lambda>_ u'. wf_snaps u' \<and> (db_rows u' = db_rows u \<or> (\<exists>i. db_rows u' = db_rows u @ [sn\<lparr>snap_ID := i\<rparr>]))) u"
  by (rule wp_mono [OF sql_insert_snap_law [OF assms]])
     (use assms in \<open>auto simp: same_data_def wf_snaps_def intro: wf_snaps_insert\<close>)

lemma sql_insert_snap_runs:
  "healthy u \<Longrightarrow> wf_snaps u \<Longrightarrow> wp (sql_insert_snap msg vmsg sn) (\<lambda>_. healthy) (\<lambda>_ _. False) u"
  using sql_insert_snap_healthy [of u msg vmsg sn] by (auto simp: wp_def)

subsection \<open>The trackers do not touch the snapshots\<close>

lemma deref_put [simp]: "deref r (s\<lparr>syn_snaps := u\<rparr>) = deref r s" for s :: synthetic_tracker
  by (cases r) (simp_all add: deref.simps)

lemma assign_put [simp]: "assign r v (s\<lparr>syn_snaps := u\<rparr>) = (assign r v s)\<lparr>syn_snaps := u\<rparr>" for s :: synthetic_tracker
  by (cases r) (simp_all add: assign.simps)

lemma synthetic_Process_commutes: "commutes (\<lambda>s. s\<lparr>syn_snaps := u\<rparr>) (synthetic_Process x)"
  unfolding synthetic_Process_def synthetic_processQuota_def synthetic_open_def synthetic_rollover_def synthetic_tick_def Let_def
  by (intro commuting) (simp_all add: fireReset_def commuting)

lemma bal_Process_commutes:
  assumes "\<And>s. trk_store (f s) = trk_store s" "\<And>s. trk_onReset (f s) = trk_onReset s" "\<And>s. trk_resets (f s) = trk_resets s"
    "\<And>s. bt_last (f s) = bt_last s" "\<And>s. bt_hasLastValues (f s) = bt_hasLastValues s"
    "\<And>s t. f s\<lparr>trk_store := t\<rparr> = f (s\<lparr>trk_store := t\<rparr>)" "\<And>s t. f s\<lparr>trk_resets := t\<rparr> = f (s\<lparr>trk_resets := t\<rparr>)"
    "\<And>s t. f s\<lparr>bt_last := t\<rparr> = f (s\<lparr>bt_last := t\<rparr>)" "\<And>s t. f s\<lparr>bt_hasLastValues := t\<rparr> = f (s\<lparr>bt_hasLastValues := t\<rparr>)"
  shows "commutes f (bal_Process F rule tally pre quotaType key val cap x)"
  unfolding bal_Process_def bal_defs
  by (intro commuting) (simp_all add: assms fireReset_def commuting)


lemma util_Process_commutes:
  assumes "\<And>s. trk_store (f s) = trk_store s" "\<And>s. trk_onReset (f s) = trk_onReset s" "\<And>s. trk_resets (f s) = trk_resets s"
    "\<And>s. ut_lastValues (f s) = ut_lastValues s" "\<And>s. ut_lastResets (f s) = ut_lastResets s" "\<And>s. ut_hasLast (f s) = ut_hasLast s"
    "\<And>s t. f s\<lparr>trk_store := t\<rparr> = f (s\<lparr>trk_store := t\<rparr>)" "\<And>s t. f s\<lparr>trk_resets := t\<rparr> = f (s\<lparr>trk_resets := t\<rparr>)"
    "\<And>s t u. f s\<lparr>ut_lastValues := t, ut_lastResets := u\<rparr> = f (s\<lparr>ut_lastValues := t, ut_lastResets := u\<rparr>)"
    "\<And>s t. f s\<lparr>ut_hasLast := t\<rparr> = f (s\<lparr>ut_hasLast := t\<rparr>)"
  shows "commutes f (util_Process F rule pre x)"
  unfolding util_Process_def util_processQuota_def util_open_def util_rollover_def util_tick_def Let_def
  by (intro commuting) (simp_all add: assms fireReset_def util_last_def util_remember_def commuting split: option.split)

lemma zai_put [simp]:
  "zai_last z a (s\<lparr>zt_snaps := u\<rparr>) = zai_last z a s"
  "zai_remember z a v (s\<lparr>zt_snaps := u\<rparr>) = (zai_remember z a v s)\<lparr>zt_snaps := u\<rparr>"
  by (cases z, simp_all add: zai_last_def zai_map.simps zai_remember.simps) (cases z, simp_all add: zai_remember.simps)

lemma zai_parts_commute [commuting]:
  "commutes (\<lambda>s. s\<lparr>zt_snaps := u\<rparr>) (zai_open msg dflt z v t r a)"
  "commutes (\<lambda>s. s\<lparr>zt_snaps := u\<rparr>) (zai_tick dflt z v a c)"
  unfolding zai_open_def zai_tick_def by (intro commuting; simp add: fireReset_def commuting)+

lemma zai_rollovers_commute [commuting]:
  "commutes (\<lambda>s. s\<lparr>zt_snaps := u\<rparr>) (zai_tokens_rollover dflt x a c)"
  "commutes (\<lambda>s. s\<lparr>zt_snaps := u\<rparr>) (zai_time_rollover dflt x a c)"
  unfolding zai_tokens_rollover_def zai_time_rollover_def Let_def
  by (intro commuting; simp add: fireReset_def commuting split: prod.split)+

lemma zai_Process_commutes: "commutes (\<lambda>s. s\<lparr>zt_snaps := u\<rparr>) (zai_Process dflt x accountID)"
  unfolding zai_Process_def zai_processTokensQuota_def zai_processTimeQuota_def
  by (intro commuting; simp add: commuting)+

lemmas poll_defs = store_or_stop_def store_track_def liftE_def answered_def run_polls_few option.map_ident

subsection \<open>The contract of each agent\<close>

interpretation synthetic_agent: reporting_agent synthetic_agent_poll "\<lambda>p _. answered synthetic_snapshot p" InsertSnapshot
    syn_snaps "\<lambda>u s. s\<lparr>syn_snaps := u\<rparr>" synthetic_Process "\<lambda>x i. x\<lparr>sn_ID := i\<rparr>" "\<lambda>_. True"
    "\<lambda>p. (pi_uuid p, pi_report p)" synthetic_values
  by unfold_locales
     (auto simp: InsertSnapshot_def sql_insert_snapshot_rows sql_insert_snapshot_healthy synthetic_Process_commutes
        synthetic_agent_poll_def synthetic_insert_def poll_defs Let_def split: option.split prod.split sum.split)

interpretation moonshot_agent: reporting_agent moonshot_agent_poll "\<lambda>p _. answered (\<lambda>t r. moonshot_ToSnapshot r t) p"
    InsertMoonshotSnapshot mo_snaps "\<lambda>u s. s\<lparr>mo_snaps := u\<rparr>" moonshot_Process "\<lambda>x i. x\<lparr>mo_ID := i\<rparr>" "\<lambda>_. True"
    "\<lambda>p. (pi_uuid p, pi_report p)"
    "\<lambda>sn. [- mo_AvailableBalance sn]"
  by unfold_locales
     (auto simp: InsertMoonshotSnapshot_def sql_insert_snapshot_rows sql_insert_snapshot_healthy moonshot_Process_def
        bal_Process_commutes moonshot_agent_poll_def poll_defs Let_def split: option.split prod.split sum.split)

interpretation openrouter_agent: reporting_agent openrouter_agent_poll "\<lambda>p _. answered (\<lambda>t r. openrouter_ToSnapshot r t) p"
    InsertOpenRouterSnapshot or_snaps "\<lambda>u s. s\<lparr>or_snaps := u\<rparr>" openrouter_Process "\<lambda>x i. x\<lparr>or_ID := i\<rparr>" "\<lambda>_. True"
    "\<lambda>p. (pi_uuid p, pi_report p)"
    "\<lambda>sn. [or_Usage sn]"
  by unfold_locales
     (auto simp: InsertOpenRouterSnapshot_def sql_insert_snapshot_rows sql_insert_snapshot_healthy openrouter_Process_def
        bal_Process_commutes openrouter_agent_poll_def poll_defs Let_def split: option.split prod.split sum.split)

text \<open>DeepSeek says whether its service is available; only then a snapshot is made.\<close>

interpretation deepseek_agent: reporting_agent deepseek_agent_poll
    "\<lambda>p _. filter ds_IsAvailable (answered (\<lambda>t r. deepseek_ToSnapshot r t) p)"
    InsertDeepSeekSnapshot ds_snaps "\<lambda>u s. s\<lparr>ds_snaps := u\<rparr>" deepseek_Process "\<lambda>x i. x\<lparr>ds_ID := i\<rparr>" "\<lambda>_. True"
    "\<lambda>p. (pi_uuid p, pi_report p)"
    "\<lambda>sn. [- ds_TotalBalance sn]"
  by unfold_locales
     (auto simp: InsertDeepSeekSnapshot_def sql_insert_snapshot_rows sql_insert_snapshot_healthy deepseek_Process_def
        bal_Process_commutes deepseek_agent_poll_def poll_defs Let_def deepseek_ToSnapshot_def split: option.split prod.split sum.split)

interpretation zai_agent: reporting_agent "zai_agent_poll raw dflt accountID" "\<lambda>p _. answered (\<lambda>t r. zai_ToSnapshot raw r t) p"
    "\<lambda>x. InsertZaiSnapshot dflt x accountID" zt_snaps "\<lambda>u s. s\<lparr>zt_snaps := u\<rparr>" "\<lambda>x. zai_Process dflt x accountID"
    "\<lambda>x i. (resolveZaiAccount dflt accountID, x\<lparr>zs_ID := i\<rparr>)" "\<lambda>_. True"
    "\<lambda>p. (pi_uuid p, pi_report p)"
    "\<lambda>sn. [zs_TokensCurrentValue sn, zs_TimeCurrentValue sn]"
  for raw dflt accountID
  by unfold_locales
     (auto simp: InsertZaiSnapshot_def sql_insert_snapshot_rows sql_insert_snapshot_healthy zai_Process_commutes
        zai_agent_poll_def poll_defs Let_def split: option.split prod.split sum.split)

interpretation opencode_agent: reporting_agent "opencode_agent_poll True" "\<lambda>p _. answered (\<lambda>_ x. x) p"
    InsertOpenCodeSnapshot pt_snaps "\<lambda>u s. s\<lparr>pt_snaps := u\<rparr>" opencode_Process "\<lambda>x i. x\<lparr>snap_ID := i\<rparr>" wf_snaps
    "\<lambda>p. (pi_uuid p, pi_report p)"
    "\<lambda>sn. map uq_Utilization (snap_Quotas sn)"
  by unfold_locales
     (auto simp: InsertOpenCodeSnapshot_def sql_insert_snap_rows sql_insert_snap_runs opencode_Process_def util_Process_commutes
        opencode_agent_poll_def poll_defs Let_def split: option.split prod.split sum.split)

text \<open>Grok and Kimi complete the account of a snapshot when they store it.\<close>

lemma credit_Process_commutes: "commutes (\<lambda>s. (fst s, u)) (on_tracker m)"
  unfolding on_tracker_def by (intro commuting) simp_all

interpretation grok_agent: reporting_agent grok_agent_poll "\<lambda>p _. answered (\<lambda>_ x. x) p" InsertGrokSnapshot snd
    "\<lambda>u s. (fst s, u)"
    "\<lambda>x. on_tracker (grok_Process (gm_AccountID (snap_meta x)) (snap_Quotas x) (snap_CapturedAt x))"
    "\<lambda>x i. x\<lparr>snap_meta := snap_meta x\<lparr>gm_AccountID := grok_account (gm_AccountID (snap_meta x))\<rparr>, snap_ID := i\<rparr>" wf_snaps
    "\<lambda>p. (pi_uuid p, pi_report p)"
    "\<lambda>sn. case snap_Quotas sn of q # _ \<Rightarrow> [gq_Utilization q] | [] \<Rightarrow> [0]"
  by unfold_locales
     (auto simp: InsertGrokSnapshot_def sql_insert_snap_rows sql_insert_snap_runs credit_Process_commutes
        grok_agent_poll_def poll_defs Let_def split: option.split prod.split sum.split)

interpretation kimi_agent: reporting_agent kimi_agent_poll "\<lambda>p _. answered (\<lambda>_ x. x) p" InsertKimiSnapshot snd
    "\<lambda>u s. (fst s, u)"
    "\<lambda>x. on_tracker (kimi_Process (km_AccountID (snap_meta x)) (snap_Quotas x) (snap_CapturedAt x))"
    "\<lambda>x i. x\<lparr>snap_meta := snap_meta x\<lparr>km_AccountID := kimi_account (km_AccountID (snap_meta x))\<rparr>, snap_ID := i\<rparr>" wf_snaps
    "\<lambda>p. (pi_uuid p, pi_report p)"
    "\<lambda>sn. case snap_Quotas sn of [] \<Rightarrow> [0] | qs \<Rightarrow> map gq_Utilization qs"
  by unfold_locales
     (auto simp: InsertKimiSnapshot_def sql_insert_snap_rows sql_insert_snap_runs credit_Process_commutes
        kimi_agent_poll_def poll_defs Let_def split: option.split prod.split sum.split)

section \<open>Runs of the agents\<close>

lemma synthetic_accepted: "synthetic_agent.accepted ps a = concat (map (answered synthetic_snapshot) ps)"
  by (induction ps arbitrary: a) simp_all

definition synthetic_reports :: "QuotaResponse poll_input list \<Rightarrow> poll list" where
  "synthetic_reports ps = concat (map (\<lambda>p. map (\<lambda>sn. (pi_uuid p, pi_report p, synthetic_values sn)) (answered synthetic_snapshot p)) ps)"

lemma synthetic_reported: "synthetic_agent.reports ps a = synthetic_reports ps"
  by (induction ps arbitrary: a) (simp_all add: synthetic_reports_def)

lemma synthetic_view_snaps [simp]: "synthetic_view q (s\<lparr>syn_snaps := u\<rparr>) = synthetic_view q s"
  by (cases "synthetic_ref q") (simp_all add: synthetic_view_def synthetic_last_def)

lemma synthetic_ok_snaps [simp]: "synthetic_ok (s\<lparr>syn_snaps := u\<rparr>) = synthetic_ok s"
  by (simp add: synthetic_ok_def)

text \<open>C15: whatever statements fail while the Synthetic agent runs, its cycles are those the tracker makes of
  snapshots that have all been stored: the tracked snapshots are a part of the stored ones, and these a part of
  the answers, each in their order.\<close>

theorem agent_consistent:
  assumes "pa_hasTracker a"
  shows "\<exists>xs ys is. subseq xs ys \<and> subseq ys (concat (map (answered synthetic_snapshot) ps)) \<and>
    db_rows (syn_snaps (pa_tracker (fold synthetic_agent_poll ps a))) =
      db_rows (syn_snaps (pa_tracker a)) @ map2 (\<lambda>x i. x\<lparr>sn_ID := i\<rparr>) ys is \<and> length is = length ys \<and>
    (\<forall>u. (pa_tracker (fold synthetic_agent_poll ps a))\<lparr>syn_snaps := u\<rparr> =
      poll_all synthetic_Process xs ((pa_tracker a)\<lparr>syn_snaps := u\<rparr>))"
  using synthetic_agent.run_consistent [OF assms, of ps]
  unfolding synthetic_agent.consistent_def synthetic_accepted by blast

definition unnumbered :: "Snapshot \<Rightarrow> Snapshot" where
  "unnumbered sn = sn\<lparr>sn_ID := 0\<rparr>"

lemma unnumbered_rows: "length is = length xs \<Longrightarrow> map unnumbered (map2 (\<lambda>x i. x\<lparr>sn_ID := i\<rparr>) xs is) = map unnumbered xs"
  by (induction xs "is" rule: list_induct2') (simp_all add: unnumbered_def)

lemma unnumbered_answers: "map unnumbered (concat (map (answered synthetic_snapshot) ps)) = concat (map (answered synthetic_snapshot) ps)"
  by (induction ps) (simp_all add: answered_def unnumbered_def synthetic_snapshot_def split: option.split)

text \<open>C14: a run of the Synthetic agent on tables that answer, from the answers to the dashboard's tables: every
  snapshot is stored in its order, each quota has exactly the cycles of its readings, and the sessions are those
  of the blocks of the reported values.\<close>

theorem agent_history:
  assumes "pa_hasTracker a" "synthetic_ok (pa_tracker a)" "healthy (syn_snaps (pa_tracker a))"
    and "q \<in> {''subscription'', ''search'', ''toolcall''}" "synthetic_view q (pa_tracker a) = empty_quota"
    and "pa_sm a = Some (NewSessionManager store ''synthetic'' idle)" "healthy store"
    and "synthetic_reports ps = (u, t, v) # rs" "fresh_polls rs (db_rows store)"
  shows "map unnumbered (db_rows (syn_snaps (pa_tracker (fold synthetic_agent_poll ps a)))) =
      map unnumbered (db_rows (syn_snaps (pa_tracker a))) @ concat (map (answered synthetic_snapshot) ps) \<and>
    synthetic_view q (pa_tracker (fold synthetic_agent_poll ps a)) =
      synthetic_cycles q (concat (map (answered synthetic_snapshot) ps)) \<and>
    map_option (\<lambda>s. db_rows (sm_store s)) (pa_sm (fold synthetic_agent_poll ps a)) =
      Some (db_rows store @ session_blocks ''synthetic'' idle v rs)"
proof -
  let ?b = "fold synthetic_agent_poll ps a" and ?sns = "concat (map (answered synthetic_snapshot) ps)" and ?t = "pa_tracker a"
  note run = synthetic_agent.run_healthy [OF assms(1,3) TrueI, where ps = ps, unfolded synthetic_accepted]
  obtain "is" where "is": "length is = length ?sns"
      "db_rows (syn_snaps (pa_tracker ?b)) = db_rows (syn_snaps ?t) @ map2 (\<lambda>x i. x\<lparr>sn_ID := i\<rparr>) ?sns is"
    using run by blast
  have put: "(pa_tracker ?b)\<lparr>syn_snaps := empty_tbl\<rparr> = poll_all synthetic_Process ?sns (?t\<lparr>syn_snaps := empty_tbl\<rparr>)"
    using run by blast
  have "synthetic_view q (pa_tracker ?b) = synthetic_view q ((pa_tracker ?b)\<lparr>syn_snaps := empty_tbl\<rparr>)" by simp
  also have "\<dots> = synthetic_cycles q ?sns" unfolding put by (rule synthetic_run_cycles) (use assms in simp_all)
  finally have 2: "synthetic_view q (pa_tracker ?b) = synthetic_cycles q ?sns" .
  have "pa_sm ?b = Some (run_polls (synthetic_reports ps) (NewSessionManager store ''synthetic'' idle))"
    using synthetic_agent.run_sm [OF assms(1,3) TrueI, of ps] assms(6) by (simp add: synthetic_reported)
  then show ?thesis
    using 2 "is" unnumbered_rows [OF "is"(1)] session_run_rows [OF assms(7,9)] assms(8) by (simp add: unnumbered_answers)
qed

subsection \<open>A run of three polls\<close>

definition synthetic_input :: "string \<Rightarrow> time \<Rightarrow> f64 \<Rightarrow> time \<Rightarrow> QuotaResponse poll_input" where
  "synthetic_input u t v r = \<lparr>pi_enabled = True, pi_answer = Some
     \<lparr>qr_Subscription = \<lparr>qi_Limit = 135, qi_Requests = v, qi_RenewsAt = r\<rparr>,
      qr_SearchHourly = \<lparr>qi_Limit = 250, qi_Requests = 0, qi_RenewsAt = r\<rparr>,
      qr_ToolCallDiscounts = \<lparr>qi_Limit = 500, qi_Requests = 0, qi_RenewsAt = r\<rparr>\<rparr>,
     pi_now = t, pi_checks = (\<lambda>_. t), pi_report = t, pi_uuid = u, pi_cancelled = False\<rparr>"

definition three_inputs :: "QuotaResponse poll_input list" where
  "three_inputs = [synthetic_input ''a'' Hour 10 (5 * Hour), synthetic_input ''b'' (2 * Hour) 30 (5 * Hour + Minute),
     synthetic_input ''c'' (6 * Hour) 4 (10 * Hour)]"

definition fresh_synthetic_agent :: "Snapshot tbl \<Rightarrow> synthetic_tracker poller" where
  "fresh_synthetic_agent snaps = \<lparr>pa_tracker = fresh_synthetic\<lparr>syn_snaps := snaps\<rparr>, pa_hasTracker = True, pa_notifier = None,
     pa_sm = Some (NewSessionManager empty_tbl ''synthetic'' (10 * Minute)), pa_metrics = []\<rparr>"

lemmas three_inputs_simps = three_inputs_def synthetic_input_def answered_def synthetic_snapshot_def

lemma three_snapshots: "concat (map (answered synthetic_snapshot) three_inputs) =
    [synthetic_poll Hour 10 (5 * Hour), synthetic_poll (2 * Hour) 30 (5 * Hour + Minute), synthetic_poll (6 * Hour) 4 (10 * Hour)]"
  by (simp add: three_inputs_simps synthetic_poll_def)

lemma three_reports: "synthetic_reports three_inputs = [(''a'', Hour, [10, 0, 0]), (''b'', 2 * Hour, [30, 0, 0]), (''c'', 6 * Hour, [4, 0, 0])]"
  by (simp add: synthetic_reports_def three_inputs_simps synthetic_values_def)

text \<open>The second insertion fails: its snapshot is neither stored nor tracked.\<close>

theorem agent_consistent_witness:
  "\<exists>xs ys is. subseq xs ys \<and> subseq ys (concat (map (answered synthetic_snapshot) three_inputs)) \<and>
    db_rows (syn_snaps (pa_tracker (fold synthetic_agent_poll three_inputs
      (fresh_synthetic_agent (empty_tbl\<lparr>db_faults := [None, None, Some ''disk full'']\<rparr>))))) = [] @ map2 (\<lambda>x i. x\<lparr>sn_ID := i\<rparr>) ys is"
  using agent_consistent [of "fresh_synthetic_agent (empty_tbl\<lparr>db_faults := [None, None, Some ''disk full'']\<rparr>)" three_inputs]
  by (simp add: fresh_synthetic_agent_def fresh_synthetic_def empty_tbl_def) blast

theorem agent_history_witness:
  "synthetic_view ''subscription'' (pa_tracker (fold synthetic_agent_poll three_inputs (fresh_synthetic_agent empty_tbl))) =
      synthetic_cycles ''subscription'' [synthetic_poll Hour 10 (5 * Hour), synthetic_poll (2 * Hour) 30 (5 * Hour + Minute),
        synthetic_poll (6 * Hour) 4 (10 * Hour)] \<and>
   map_option (\<lambda>s. db_rows (sm_store s)) (pa_sm (fold synthetic_agent_poll three_inputs (fresh_synthetic_agent empty_tbl))) =
     Some [\<lparr>ss_ID = ''b'', ss_StartedAt = 2 * Hour, ss_EndedAt = None, ss_PollInterval = 0, ss_MaxSub = 30, ss_MaxSearch = 0,
       ss_MaxTool = 0, ss_StartSub = 10, ss_StartSearch = 0, ss_StartTool = 0, ss_SnapshotCount = 2, ss_Provider = ''synthetic''\<rparr>]"
proof -
  let ?a = "fresh_synthetic_agent empty_tbl"
  have a: "pa_hasTracker ?a" "synthetic_ok (pa_tracker ?a)" "healthy (syn_snaps (pa_tracker ?a))"
      "synthetic_view ''subscription'' (pa_tracker ?a) = empty_quota"
      "pa_sm ?a = Some (NewSessionManager empty_tbl ''synthetic'' (10 * Minute))" "healthy (empty_tbl :: session_row tbl)"
    by (simp_all add: fresh_synthetic_agent_def fresh_synthetic_ok) (simp_all add: healthy_def empty_tbl_def)
  have s: "fresh_polls [(''b'', 2 * Hour, [30, 0, 0]), (''c'', 6 * Hour, [4, 0, 0])] (db_rows (empty_tbl :: session_row tbl))"
    by (simp add: fresh_polls_def empty_tbl_def)
  have "db_rows (empty_tbl :: session_row tbl) = []" by (simp add: empty_tbl_def)
  then show ?thesis
    using agent_history [OF a(1-3) _ a(4-6) three_reports s]
    by (simp add: three_snapshots session_of_def block_max_def value_at_def)
qed

subsection \<open>Balances as sessions\<close>

text \<open>The sessions of a provider that reports balances: the reported values are negative, the recorded maxima begin at 0.\<close>

lemma session_span_append: "session_span idle la prev ps = (xs, rest) \<Longrightarrow> ps = xs @ rest"
  by (induction idle la prev ps arbitrary: xs rest rule: session_span.induct) (auto split: if_splits prod.splits)

lemma block_max_nonpos: "\<forall>(u, t, v) \<in> set ps. value_at v i \<le> 0 \<Longrightarrow> block_max i ps = 0"
  unfolding block_max_def by (induction ps) auto

lemma session_blocks_nonpos:
  "\<forall>(u, t, v) \<in> set ps. value_at v 0 \<le> 0 \<Longrightarrow> r \<in> set (session_blocks provider idle prev ps) \<Longrightarrow> ss_MaxSub r = 0"
proof (induction provider idle prev ps rule: session_blocks.induct)
  case (2 provider idle prev u t v ps)
  obtain xs rest where sp: "session_span idle t v ps = (xs, rest)" by fastforce
  note ps = session_span_append [OF sp]
  show ?case
  proof (cases "v = prev")
    case True
    then show ?thesis using 2 by simp
  next
    case False
    have b: "block_max 0 ((u, t, v) # xs) = 0" using 2(3) ps by (intro block_max_nonpos) simp
    show ?thesis
    proof (cases rest)
      case Nil
      then show ?thesis using 2(4) False sp b by (simp add: session_of_def)
    next
      case (Cons p rest')
      obtain u' t' v' where p: "p = (u', t', v')" by (cases p)
      have "ss_MaxSub r = 0" if "r \<in> set (session_blocks provider idle v' rest')"
        using 2(2) [OF False sp [symmetric] Cons] 2(3) ps Cons p that by simp
      then show ?thesis using 2(4) False sp b Cons p by (auto simp: session_of_def)
    qed
  qed
qed simp

lemma moonshot_reported:
  "moonshot_agent.reports ps a = concat (map (\<lambda>p. map (\<lambda>sn. (pi_uuid p, pi_report p, [- mo_AvailableBalance sn]))
     (answered (\<lambda>t r. moonshot_ToSnapshot r t) p)) ps)"
  by (induction ps arbitrary: a) simp_all

text \<open>C31: a run of the Moonshot agent records sessions of the balance with a maximum of 0, however high the
  balances were.\<close>

theorem balance_sessions:
  assumes "pa_hasTracker a" "healthy (mo_snaps (pa_tracker a))"
    and "pa_sm a = Some (NewSessionManager store ''moonshot'' idle)" "healthy store"
    and "concat (map (\<lambda>p. map (\<lambda>sn. (pi_uuid p, pi_report p, [- mo_AvailableBalance sn]))
      (answered (\<lambda>t r. moonshot_ToSnapshot r t) p)) ps) = (u, t, v) # rs"
    and "fresh_polls rs (db_rows store)" "\<forall>(u, t, v) \<in> set rs. value_at v 0 \<le> 0"
  shows "\<exists>s new. pa_sm (fold moonshot_agent_poll ps a) = Some s \<and> db_rows (sm_store s) = db_rows store @ new \<and>
    (\<forall>r \<in> set new. ss_MaxSub r = 0)"
proof -
  have "pa_sm (fold moonshot_agent_poll ps a) = Some (run_polls ((u, t, v) # rs) (NewSessionManager store ''moonshot'' idle))"
    using moonshot_agent.run_sm [OF assms(1,2) TrueI, of ps] assms(3,5) by (simp add: moonshot_reported)
  then show ?thesis
    using session_run_rows [OF assms(4,6)] session_blocks_nonpos [OF assms(7)] by auto
qed

definition moonshot_input :: "string \<Rightarrow> time \<Rightarrow> f64 \<Rightarrow> MoonshotBalanceResponse poll_input" where
  "moonshot_input u t b = \<lparr>pi_enabled = True, pi_answer = Some \<lparr>mbr_Code = 0, mbr_AvailableBalance = b, mbr_VoucherBalance = 0,
     mbr_CashBalance = b\<rparr>, pi_now = t, pi_checks = (\<lambda>_. t), pi_report = t, pi_uuid = u, pi_cancelled = False\<rparr>"

definition fresh_moonshot_agent :: "moonshot_tracker poller" where
  "fresh_moonshot_agent = \<lparr>pa_tracker = fresh_moonshot, pa_hasTracker = True, pa_notifier = None,
     pa_sm = Some (NewSessionManager empty_tbl ''moonshot'' (10 * Minute)), pa_metrics = []\<rparr>"

text \<open>Of 20, 5 are spent; the session shows a maximum of 0.\<close>

theorem balance_sessions_witness:
  "\<exists>s. pa_sm (fold moonshot_agent_poll [moonshot_input ''a'' Hour 20, moonshot_input ''b'' (2 * Hour) 15] fresh_moonshot_agent) = Some s \<and>
     (\<forall>r \<in> set (db_rows (sm_store s)). ss_MaxSub r = 0)"
proof -
  have a: "pa_hasTracker fresh_moonshot_agent" "healthy (mo_snaps (pa_tracker fresh_moonshot_agent))"
      "pa_sm fresh_moonshot_agent = Some (NewSessionManager empty_tbl ''moonshot'' (10 * Minute))"
      "healthy (empty_tbl :: session_row tbl)" "db_rows (empty_tbl :: session_row tbl) = []"
    by (simp_all add: fresh_moonshot_agent_def fresh_moonshot_def empty_tbl_def healthy_def)
  have r: "concat (map (\<lambda>p. map (\<lambda>sn. (pi_uuid p, pi_report p, [- mo_AvailableBalance sn]))
      (answered (\<lambda>t r. moonshot_ToSnapshot r t) p)) [moonshot_input ''a'' Hour 20, moonshot_input ''b'' (2 * Hour) 15]) =
      [(''a'', Hour, [- 20]), (''b'', 2 * Hour, [- 15])]"
    by (simp add: moonshot_input_def answered_def moonshot_ToSnapshot_def)
  show ?thesis
    using balance_sessions [OF a(1-4) r] a(5) by (auto simp: fresh_polls_def value_at_def)
qed

end
