(* ===== verification/Statusline.thy ===== *)
theory Statusline
  imports AnthropicTracker ApiAnswers Notify
begin

text \<open>
  What the Anthropic agent learns without its timer: the file that Claude Code's statusline writes, the snippet put before
  the user's statusline command (\<open>anthropic_statusline.go\<close>), the command lines of running processes
  (\<open>anthropic_cc_detect.go\<close>) and the snapshot of an answer of the usage API (\<open>internal/api/anthropic_types.go\<close>).
\<close>

section \<open>Answers of the usage API\<close>

record AnthropicQuotaEntry =
  aq_Utilization :: "f64 option"
  aq_ResetsAt :: "string option"
  aq_IsEnabled :: "bool option"
  aq_MonthlyLimit :: "f64 option"
  aq_UsedCredits :: "f64 option"

type_synonym AnthropicQuotaResponse = "(string \<times> AnthropicQuotaEntry option) list"

definition active_entry :: "string \<times> AnthropicQuotaEntry option \<Rightarrow> bool" where
  "active_entry = (\<lambda>(key, entry). case entry of
      None \<Rightarrow> False
    | Some e \<Rightarrow> aq_Utilization e \<noteq> None \<and> aq_IsEnabled e \<noteq> Some False \<and> IsKnownAnthropicQuota key)"

definition anthropic_ActiveQuotaNames :: "AnthropicQuotaResponse \<Rightarrow> string list" where
  "anthropic_ActiveQuotaNames r = sort (map fst (filter active_entry r))"

definition anthropic_ToSnapshot :: "(AnthropicQuotaResponse \<Rightarrow> string option) \<Rightarrow> AnthropicQuotaResponse \<Rightarrow> time \<Rightarrow> anthropic_snapshot" where
  "anthropic_ToSnapshot raw r capturedAt =
     \<lparr>snap_ID = 0, snap_CapturedAt = capturedAt, snap_meta = (case raw r of Some t \<Rightarrow> t | None \<Rightarrow> []),
      snap_Quotas = map (\<lambda>name.
        let entry = the (the (map_of r name))
        in \<lparr>uq_Name = name, uq_Utilization = the (aq_Utilization entry),
            uq_ResetsAt = (case aq_ResetsAt entry of Some t \<Rightarrow> if t = [] then None else parse_rfc3339 t | None \<Rightarrow> None)\<rparr>)
        (anthropic_ActiveQuotaNames r)\<rparr>"

section \<open>The statusline file\<close>

record StatuslineWindow =
  sw_UsedPercentage :: f64
  sw_ResetsAt :: int

record StatuslineRateLimits =
  sl_FiveHour :: "StatuslineWindow option"
  sl_SevenDay :: "StatuslineWindow option"

definition isValidStatuslineWindow :: "StatuslineWindow \<Rightarrow> bool" where
  "isValidStatuslineWindow w \<longleftrightarrow>
     \<not> (sw_UsedPercentage w < 0 \<or> 100 < sw_UsedPercentage w) \<and>
     (sw_ResetsAt w \<noteq> 0 \<longrightarrow> \<not> (sw_ResetsAt w < 1704067200 \<or> 1893456000 < sw_ResetsAt w))"

definition isValidStatuslineData :: "StatuslineRateLimits option \<Rightarrow> bool" where
  "isValidStatuslineData rl \<longleftrightarrow>
     (case rl of
        None \<Rightarrow> False
      | Some r \<Rightarrow> (case sl_FiveHour r of Some w \<Rightarrow> isValidStatuslineWindow w | None \<Rightarrow> True) \<and>
                  (case sl_SevenDay r of Some w \<Rightarrow> isValidStatuslineWindow w | None \<Rightarrow> True) \<and>
                  (sl_FiveHour r \<noteq> None \<or> sl_SevenDay r \<noteq> None))"

definition window_quota :: "string \<Rightarrow> StatuslineWindow option \<Rightarrow> util_quota list" where
  "window_quota name w =
     (case w of
        None \<Rightarrow> []
      | Some w \<Rightarrow> [\<lparr>uq_Name = name, uq_Utilization = sw_UsedPercentage w,
          uq_ResetsAt = (if 0 < sw_ResetsAt w then Some (sw_ResetsAt w * Second) else None)\<rparr>])"

definition statuslineToSnapshot :: "(StatuslineRateLimits \<Rightarrow> string option) \<Rightarrow> StatuslineRateLimits \<Rightarrow> time \<Rightarrow> anthropic_snapshot" where
  "statuslineToSnapshot raw rl capturedAt =
     \<lparr>snap_ID = 0, snap_CapturedAt = capturedAt,
      snap_meta = (case raw rl of
          Some t \<Rightarrow> ''{'' @ [CHR 0x22] @ ''_source'' @ [CHR 0x22] @ '':'' @ [CHR 0x22] @ ''statusline'' @ [CHR 0x22] @ '','' @
            [CHR 0x22] @ ''rate_limits'' @ [CHR 0x22] @ '':'' @ t @ ''}''
        | None \<Rightarrow> []),
      snap_Quotas = window_quota ''five_hour'' (sl_FiveHour rl) @ window_quota ''seven_day'' (sl_SevenDay rl)\<rparr>"

text \<open>Whether the file is used: it is younger than \<open>maxAge\<close>. \<open>modified\<close> is its time of modification, nothing without a file.\<close>

definition isStatuslineFresh :: "time \<Rightarrow> time option \<Rightarrow> duration \<Rightarrow> bool" where
  "isStatuslineFresh now modified maxAge \<longleftrightarrow> (case modified of Some t \<Rightarrow> time_Sub now t < maxAge | None \<Rightarrow> False)"

section \<open>Is Claude Code running?\<close>

text \<open>\<open>strings.Fields\<close> and \<open>filepath.Base\<close>.\<close>

fun fields_acc :: "string \<Rightarrow> string \<Rightarrow> string list" where
  "fields_acc acc [] = (if acc = [] then [] else [rev acc])"
| "fields_acc acc (c # s) =
     (if is_space c then (if acc = [] then fields_acc [] s else rev acc # fields_acc [] s) else fields_acc (c # acc) s)"

definition Fields :: "string \<Rightarrow> string list" where
  "Fields s = fields_acc [] s"

definition path_Base :: "string \<Rightarrow> string" where
  "path_Base p =
     (if p = [] then ''.''
      else let q = rev (dropWhile (\<lambda>c. c = CHR 0x2F) (rev p))
           in if q = [] then ''/'' else rev (takeWhile (\<lambda>c. c \<noteq> CHR 0x2F) (rev q)))"

definition TrimSuffix :: "string \<Rightarrow> string \<Rightarrow> string" where
  "TrimSuffix s p = (if drop (length s - length p) s = p \<and> length p \<le> length s then take (length s - length p) s else s)"

definition isJSRuntime :: "string \<Rightarrow> bool" where
  "isJSRuntime base \<longleftrightarrow> ToLower (TrimSuffix base ''.exe'') \<in> {''node'', ''nodejs'', ''bun'', ''deno''}"

fun script_is_claude :: "string list \<Rightarrow> bool" where
  "script_is_claude [] \<longleftrightarrow> False"
| "script_is_claude (arg # args) \<longleftrightarrow>
     (if HasPrefix arg ''-'' then script_is_claude args
      else if \<not> (\<exists>c \<in> set arg. c = CHR 0x2F \<or> c = CHR ''.'') then script_is_claude args
      else path_Base arg = ''claude'')"

text \<open>\<open>windows\<close> is whether the program runs there.\<close>

definition isClaudeCodeCommandLine :: "bool \<Rightarrow> string \<Rightarrow> bool" where
  "isClaudeCodeCommandLine windows cmdline \<longleftrightarrow>
     (let line = TrimSpace cmdline; lower = ToLower line
      in if line = [] then False
         else if Contains lower ''@anthropic-ai/claude-code'' \<or> Contains lower ''claude-code/cli.js'' then True
         else if Contains line ''.app/Contents/'' \<or> Contains line ''--type='' then False
         else case Fields line of
           [] \<Rightarrow> False
         | f # args \<Rightarrow>
             let base = path_Base f
             in if windows \<and> (ToLower base = ''claude.exe'' \<or> ToLower base = ''claude'') then True
                else if base = ''claude'' then True
                else if \<not> isJSRuntime base then False
                else script_is_claude args)"

fun lines_of :: "string \<Rightarrow> string \<Rightarrow> string list" where
  "lines_of acc [] = [rev acc]"
| "lines_of acc (c # s) = (if c = CHR 0x0A then rev acc # lines_of [] s else lines_of (c # acc) s)"

definition scanForClaudeCode :: "bool \<Rightarrow> string \<Rightarrow> bool" where
  "scanForClaudeCode windows psOutput \<longleftrightarrow> list_ex (isClaudeCodeCommandLine windows) (lines_of [] psOutput)"

section \<open>The bridge in Claude Code's settings\<close>

definition bridgeSnippet :: string where
  "bridgeSnippet = ''bash -c '' @ [CHR 0x27] @ ''I=$(cat);D=$HOME/.onwatch/data;mkdir -p '' @ [CHR 0x22] @ ''$D'' @ [CHR 0x22] @
     '' 2>/dev/null;T='' @ [CHR 0x22] @ ''$D/.sl-$$'' @ [CHR 0x22] @ '';printf '' @ [CHR 0x22] @ ''%s'' @ [CHR 0x22] @ '' '' @ [CHR 0x22] @
     ''$I'' @ [CHR 0x22] @ ''>'' @ [CHR 0x22] @ ''$T'' @ [CHR 0x22] @ ''&&mv -f '' @ [CHR 0x22] @ ''$T'' @ [CHR 0x22] @ '' '' @ [CHR 0x22] @
     ''$D/anthropic-statusline.json'' @ [CHR 0x22] @ '' 2>/dev/null||rm -f '' @ [CHR 0x22] @ ''$T'' @ [CHR 0x22] @ '' 2>/dev/null;printf '' @
     [CHR 0x22] @ ''%s'' @ [CHR 0x22] @ '' '' @ [CHR 0x22] @ ''$I'' @ [CHR 0x22] @ [CHR 0x27]"

definition bridgeMarker :: string where
  "bridgeMarker = ''anthropic-statusline.json''"

definition hasBridgeSnippet :: "string \<Rightarrow> bool" where
  "hasBridgeSnippet command \<longleftrightarrow> Contains command bridgeMarker"

definition addBridgeSnippet :: "string \<Rightarrow> string" where
  "addBridgeSnippet userCommand =
     (if userCommand = [] then bridgeSnippet @ '' > /dev/null'' else bridgeSnippet @ '' | '' @ userCommand)"


text \<open>Decoded JSON: a settings file is a map.\<close>

datatype sj = SjString string | SjBool bool | SjObject "(string \<times> sj) list" | SjOther string

type_synonym settings = "string \<rightharpoonup> sj"

definition isBridgeDisabled :: "settings \<Rightarrow> bool" where
  "isBridgeDisabled cfg \<longleftrightarrow>
     (case cfg ''statusline_bridge'' of
        Some (SjBool b) \<Rightarrow> \<not> b
      | Some (SjString s) \<Rightarrow> s \<in> {''off'', ''false'', ''disabled''}
      | _ \<Rightarrow> False)"

definition getCurrentStatusLineCommand :: "settings \<Rightarrow> string" where
  "getCurrentStatusLineCommand s =
     (case s ''statusLine'' of
        Some (SjObject m) \<Rightarrow> (case map_of m ''command'' of Some (SjString c) \<Rightarrow> c | _ \<Rightarrow> [])
      | _ \<Rightarrow> [])"

definition setStatusLineCommand :: "settings \<Rightarrow> string \<Rightarrow> settings" where
  "setStatusLineCommand s command =
     s(''statusLine'' \<mapsto> SjObject [(''type'', SjString ''command''), (''command'', SjString command)])"

text \<open>
  The files the bridge deals with. \<open>ch_settings\<close> is nothing when the settings cannot be read or decoded; a file that does
  not exist reads as empty. \<open>ch_config\<close> is loomWatch's own configuration, empty when it cannot be read.
\<close>

record claude_home =
  ch_installed :: bool
  ch_config :: settings
  ch_settings :: "settings option"
  ch_writable :: bool
  ch_dataFile :: bool

definition writeClaudeSettings :: "settings \<Rightarrow> claude_home \<Rightarrow> bool \<times> claude_home" where
  "writeClaudeSettings s h = (if ch_writable h then (True, h\<lparr>ch_settings := Some s\<rparr>) else (False, h))"


text \<open>The check from time to time: not before half an hour after the last one, whose time is returned.\<close>

definition EnsureStatuslineBridge :: "time \<Rightarrow> time \<times> claude_home \<Rightarrow> time \<times> claude_home" where
  "EnsureStatuslineBridge now = (\<lambda>(lastCheck, h).
     if time_Sub now lastCheck < 30 * Minute then (lastCheck, h)
     else (now,
       if \<not> ch_installed h \<or> isBridgeDisabled (ch_config h) then h
       else case ch_settings h of
         None \<Rightarrow> h
       | Some s \<Rightarrow>
           let cmd = getCurrentStatusLineCommand s
           in if hasBridgeSnippet cmd then h
              else snd (writeClaudeSettings (setStatusLineCommand s (addBridgeSnippet cmd)) h)))"





lemma Contains_append2: "Contains t p \<Longrightarrow> Contains (s @ t) p"
  by (induction s) auto


lemma command_after_set [simp]: "getCurrentStatusLineCommand (setStatusLineCommand s c) = c"
  by (simp add: getCurrentStatusLineCommand_def setStatusLineCommand_def)






end
