(* ===== verification/AnthropicAgent.thy ===== *)
theory AnthropicAgent
  imports PollBase Statusline
begin

text \<open>
  The Anthropic agent (\<open>internal/agent/anthropic_agent.go\<close>): polling by the statusline file or the usage API, and what it
  does about tokens that expire or are refused and about rate limits. A poll asks the outside world up to a dozen times
  (files, running processes, the usage API, the OAuth server, the clock); every call is recorded in \<open>an_log\<close>, newest
  first, and the answers to a poll are functions of that record, so two calls may get different answers. The clock is
  read off the same record. Counters of failures are unbounded integers.
\<close>

section \<open>State, calls and answers\<close>

record AnthropicCredentials =
  cr_AccessToken :: string
  cr_RefreshToken :: string
  cr_ExpiresAt :: time
  cr_ExpiresIn :: duration

definition IsExpiringSoon :: "duration \<Rightarrow> AnthropicCredentials \<Rightarrow> bool" where
  "IsExpiringSoon threshold c \<longleftrightarrow> cr_ExpiresAt c \<noteq> zero_time \<and> cr_ExpiresIn c < threshold"

record oauth_tokens =
  ot_AccessToken :: string
  ot_RefreshToken :: string

text \<open>
  The kinds of answers the agent tells apart: of the usage API (\<open>Cancelled\<close> is any error after the end of the context), and
  of the OAuth server, whose refusals for too many requests carry the time it asked to wait (0 for none).
\<close>

datatype fetch_answer = Fetched AnthropicQuotaResponse | AuthRejected | TooManyRequests | FetchFailed | Cancelled

datatype refresh_answer = Refreshed oauth_tokens | OAuthRateLimited duration | OAuthInvalidGrant | OAuthFailed

text \<open>A refresh is recorded with its token and whether the agent was in its backoff at that moment.\<close>

datatype call =
    ReadStatusline
  | ReadCredentials
  | ReadToken
  | AskSettings bool
  | AskClaudeCode bool
  | Fetch string
  | OAuthRefresh string bool
  | SaveTokens oauth_tokens bool

record an_env =
  en_enabled :: bool
  en_modified :: "call list \<Rightarrow> time option"
  en_payload :: "call list \<Rightarrow> StatuslineRateLimits option option"
  en_credentials :: "call list \<Rightarrow> AnthropicCredentials option"
  en_token :: "call list \<Rightarrow> string"
  en_autoRefresh :: "call list \<Rightarrow> bool"
  en_claudeCode :: "call list \<Rightarrow> bool"
  en_fetch :: "call list \<Rightarrow> fetch_answer"
  en_oauth :: "call list \<Rightarrow> refresh_answer"
  en_saved :: "call list \<Rightarrow> bool"
  en_now :: "call list \<Rightarrow> time"
  en_checks :: "nat \<Rightarrow> time"
  en_uuid :: string
  en_rawAnswer :: "AnthropicQuotaResponse \<Rightarrow> string option"
  en_rawLine :: "StatuslineRateLimits \<Rightarrow> string option"

record anthropic_agent = "anthropic_tracker poller" +
  an_clientToken :: string
  an_hasTokenRefresh :: bool
  an_hasCredsRefresh :: bool
  an_lastToken :: string
  an_authFailCount :: int
  an_authPaused :: bool
  an_lastFailedToken :: string
  an_authRetryAt :: time
  an_authRetryCount :: int
  an_supersededToken :: string
  an_rateLimitFailCount :: int
  an_rateLimitPaused :: bool
  an_rateLimitResumeAt :: time
  an_statusline :: bool
  an_statuslineStaleness :: duration
  an_apiPollCycleInterval :: int
  an_pollCycleCount :: int
  an_apiPollingDisabled :: bool
  an_log :: "call list"

definition NewAnthropicAgent :: "anthropic_tracker \<Rightarrow> bool \<Rightarrow> string \<Rightarrow> session_manager option \<Rightarrow> anthropic_agent" where
  "NewAnthropicAgent tr hasTracker token sm = \<lparr>pa_tracker = tr, pa_hasTracker = hasTracker, pa_notifier = None, pa_sm = sm,
     pa_metrics = [], an_clientToken = token, an_hasTokenRefresh = False, an_hasCredsRefresh = False, an_lastToken = [],
     an_authFailCount = 0, an_authPaused = False, an_lastFailedToken = [], an_authRetryAt = zero_time, an_authRetryCount = 0,
     an_supersededToken = [], an_rateLimitFailCount = 0, an_rateLimitPaused = False, an_rateLimitResumeAt = zero_time,
     an_statusline = False, an_statuslineStaleness = 0, an_apiPollCycleInterval = 0, an_pollCycleCount = 0,
     an_apiPollingDisabled = False, an_log = []\<rparr>"

definition EnableStatuslineBridge :: "anthropic_agent \<Rightarrow> anthropic_agent" where
  "EnableStatuslineBridge a = a\<lparr>an_statusline := True, an_statuslineStaleness := 5 * Minute, an_apiPollCycleInterval := 10\<rparr>"


definition SetCredentialsRefresh :: "anthropic_agent \<Rightarrow> anthropic_agent" where
  "SetCredentialsRefresh a = a\<lparr>an_hasCredsRefresh := True\<rparr>"

definition SetAPIPollCycleInterval :: "int \<Rightarrow> anthropic_agent \<Rightarrow> anthropic_agent" where
  "SetAPIPollCycleInterval n a = a\<lparr>an_apiPollCycleInterval := n\<rparr>"

definition SetAPIPollingDisabled :: "bool \<Rightarrow> anthropic_agent \<Rightarrow> anthropic_agent" where
  "SetAPIPollingDisabled disabled a = a\<lparr>an_apiPollingDisabled := disabled\<rparr>"

definition SetStatuslineStaleness :: "duration \<Rightarrow> anthropic_agent \<Rightarrow> anthropic_agent" where
  "SetStatuslineStaleness d a = a\<lparr>an_statuslineStaleness := d\<rparr>"

section \<open>Backoff and pauses\<close>

definition maxAuthFailures :: int where "maxAuthFailures = 3"
definition rateLimitBaseBackoff :: duration where "rateLimitBaseBackoff = 5 * Minute"
definition rateLimitMaxBackoff :: duration where "rateLimitMaxBackoff = 6 * Hour"
definition tokenRefreshThreshold :: duration where "tokenRefreshThreshold = Hour"
definition authPausedRetryInterval :: duration where "authPausedRetryInterval = 15 * Minute"
definition authPausedRetryMaxInterval :: duration where "authPausedRetryMaxInterval = 6 * Hour"

definition rateLimitBackoff :: "int \<Rightarrow> duration" where
  "rateLimitBackoff failCount =
     (if failCount \<le> 0 then rateLimitBaseBackoff
      else let shift = failCount - 1;
               shift = (if 10 < shift then 10 else shift);
               backoff = rateLimitBaseBackoff * 2 ^ nat shift
           in if rateLimitMaxBackoff < backoff then rateLimitMaxBackoff else backoff)"

definition authRetryBackoff :: "int \<Rightarrow> duration" where
  "authRetryBackoff attempts =
     (if attempts \<le> 0 then authPausedRetryInterval
      else let shift = attempts - 1;
               shift = (if 10 < shift then 10 else shift);
               backoff = authPausedRetryInterval * 2 ^ nat shift
           in if authPausedRetryMaxInterval < backoff then authPausedRetryMaxInterval else backoff)"

definition now :: "an_env \<Rightarrow> anthropic_agent \<Rightarrow> time" where
  "now E a = en_now E (an_log a)"

definition logged :: "call \<Rightarrow> anthropic_agent \<Rightarrow> anthropic_agent" where
  "logged c a = a\<lparr>an_log := c # an_log a\<rparr>"

definition sendAuthErrorNotification :: "an_env \<Rightarrow> string \<Rightarrow> string \<Rightarrow> bool \<Rightarrow> anthropic_agent \<Rightarrow> anthropic_agent" where
  "sendAuthErrorNotification E title message recoverable a =
     a\<lparr>pa_notifier := map_option (\<lambda>e. snd (SendAuthErrorNotification (now E a)
        \<lparr>aa_Provider = ''anthropic'', aa_Title = title, aa_Message = message, aa_AccountID = [], aa_IsRecovable = recoverable\<rparr> e))
        (pa_notifier a)\<rparr>"

definition pauseAuth :: "an_env \<Rightarrow> string \<Rightarrow> anthropic_agent \<Rightarrow> anthropic_agent" where
  "pauseAuth E failedToken a =
     a\<lparr>an_authPaused := True, an_lastFailedToken := failedToken,
       an_authRetryAt := (if an_authRetryAt a = zero_time then time_Add (now E a) authPausedRetryInterval else an_authRetryAt a)\<rparr>"

definition resumeAuth :: "anthropic_agent \<Rightarrow> anthropic_agent" where
  "resumeAuth a = a\<lparr>an_authPaused := False, an_authFailCount := 0, an_lastFailedToken := [],
     an_authRetryAt := zero_time, an_authRetryCount := 0\<rparr>"

definition decay :: "anthropic_agent \<Rightarrow> anthropic_agent" where
  "decay a = (if 0 < an_rateLimitFailCount a then a\<lparr>an_rateLimitFailCount := an_rateLimitFailCount a - 1\<rparr> else a)"

text \<open>\<open>a.rateLimitPaused && time.Now().Before(a.rateLimitResumeAt)\<close>\<close>

definition in_backoff :: "an_env \<Rightarrow> anthropic_agent \<Rightarrow> bool" where
  "in_backoff E a \<longleftrightarrow> an_rateLimitPaused a \<and> time_Before (now E a) (an_rateLimitResumeAt a)"

definition back_off :: "an_env \<Rightarrow> duration \<Rightarrow> anthropic_agent \<Rightarrow> anthropic_agent" where
  "back_off E d a = a\<lparr>an_rateLimitPaused := True, an_rateLimitResumeAt := time_Add (now E a) d\<rparr>"

definition end_backoff :: "anthropic_agent \<Rightarrow> anthropic_agent" where
  "end_backoff a = a\<lparr>an_rateLimitFailCount := 0, an_rateLimitPaused := False, an_rateLimitResumeAt := zero_time\<rparr>"

definition failed_again :: "anthropic_agent \<Rightarrow> anthropic_agent" where
  "failed_again a = a\<lparr>an_rateLimitFailCount := an_rateLimitFailCount a + 1\<rparr>"

text \<open>The server's own delay if it gave one.\<close>

definition rate_limited :: "an_env \<Rightarrow> duration \<Rightarrow> anthropic_agent \<Rightarrow> anthropic_agent" where
  "rate_limited E retryAfter a =
     (let a = failed_again a
      in back_off E (if retryAfter \<le> 0 then rateLimitBackoff (an_rateLimitFailCount a) else retryAfter) a)"

definition invalid_grant :: "an_env \<Rightarrow> anthropic_agent \<Rightarrow> anthropic_agent" where
  "invalid_grant E a = pauseAuth E (an_lastToken a) (a\<lparr>an_authFailCount := maxAuthFailures\<rparr>)"

definition grant_notice :: "an_env \<Rightarrow> anthropic_agent \<Rightarrow> anthropic_agent" where
  "grant_notice E = sendAuthErrorNotification E ''OAuth refresh token expired''
     (''Refresh token is invalid or revoked. Re-authenticate with '' @ [CHR 0x27] @ ''claude auth'' @ [CHR 0x27] @ '' to resume polling.'') False"

section \<open>Calls\<close>

definition autoRefreshAllowed :: "an_env \<Rightarrow> anthropic_agent \<Rightarrow> bool \<times> anthropic_agent" where
  "autoRefreshAllowed E a = (let b = en_autoRefresh E (an_log a) in (b, logged (AskSettings b) a))"

definition claudeCodeRunning :: "an_env \<Rightarrow> anthropic_agent \<Rightarrow> bool \<times> anthropic_agent" where
  "claudeCodeRunning E a = (let b = en_claudeCode E (an_log a) in (b, logged (AskClaudeCode b) a))"

definition credsRefresh :: "an_env \<Rightarrow> anthropic_agent \<Rightarrow> AnthropicCredentials option \<times> anthropic_agent" where
  "credsRefresh E a = (en_credentials E (an_log a), logged ReadCredentials a)"

definition tokenRefresh :: "an_env \<Rightarrow> anthropic_agent \<Rightarrow> string \<times> anthropic_agent" where
  "tokenRefresh E a = (en_token E (an_log a), logged ReadToken a)"

definition FetchQuotas :: "an_env \<Rightarrow> anthropic_agent \<Rightarrow> fetch_answer \<times> anthropic_agent" where
  "FetchQuotas E a = (en_fetch E (an_log a), logged (Fetch (an_clientToken a)) a)"

definition RefreshAnthropicToken :: "an_env \<Rightarrow> string \<Rightarrow> anthropic_agent \<Rightarrow> refresh_answer \<times> anthropic_agent" where
  "RefreshAnthropicToken E token a = (en_oauth E (an_log a), logged (OAuthRefresh token (in_backoff E a)) a)"

section \<open>Refreshing\<close>

definition applyRefreshedTokens :: "an_env \<Rightarrow> oauth_tokens \<Rightarrow> string \<Rightarrow> anthropic_agent \<Rightarrow> anthropic_agent" where
  "applyRefreshedTokens E tokens superseded a =
     (let saved = en_saved E (an_log a); a = logged (SaveTokens tokens saved) a
      in a\<lparr>an_supersededToken := (if saved then [] else superseded), an_clientToken := ot_AccessToken tokens,
           an_lastToken := ot_AccessToken tokens\<rparr>)"

fun noteOAuthRefreshFailure :: "an_env \<Rightarrow> refresh_answer \<Rightarrow> anthropic_agent \<Rightarrow> anthropic_agent" where
  "noteOAuthRefreshFailure E (OAuthRateLimited d) a = rate_limited E d a"
| "noteOAuthRefreshFailure E OAuthInvalidGrant a = grant_notice E (invalid_grant E a)"
| "noteOAuthRefreshFailure E _ a = a"

definition tryOAuthRecovery :: "an_env \<Rightarrow> anthropic_agent \<Rightarrow> bool \<times> anthropic_agent" where
  "tryOAuthRecovery E a =
     (if \<not> an_hasCredsRefresh a then (False, a)
      else case autoRefreshAllowed E a of (allowed, a) \<Rightarrow>
        if \<not> allowed then (False, a)
        else case claudeCodeRunning E a of (running, a) \<Rightarrow>
          if running then (False, a)
          else if in_backoff E a then (False, a)
          else case credsRefresh E a of
            (None, a) \<Rightarrow> (False, a)
          | (Some creds, a) \<Rightarrow>
              if cr_RefreshToken creds = [] then (False, a)
              else case RefreshAnthropicToken E (cr_RefreshToken creds) a of
                (Refreshed tokens, a) \<Rightarrow> (True, applyRefreshedTokens E tokens (cr_AccessToken creds) (end_backoff a))
              | (failure, a) \<Rightarrow> (False, noteOAuthRefreshFailure E failure a))"

definition tryPausedAuthRecovery :: "an_env \<Rightarrow> anthropic_agent \<Rightarrow> bool \<times> anthropic_agent" where
  "tryPausedAuthRecovery E a =
     (let t = now E a
      in if an_authRetryAt a = zero_time \<or> time_Before t (an_authRetryAt a) then (False, a)
         else let a = a\<lparr>an_authRetryCount := an_authRetryCount a + 1\<rparr>;
                  a = a\<lparr>an_authRetryAt := time_Add t (authRetryBackoff (an_authRetryCount a))\<rparr>
              in case tryOAuthRecovery E a of
                   (False, a) \<Rightarrow> (False, a)
                 | (True, a) \<Rightarrow>
                     (True, (resumeAuth a)\<lparr>an_authRetryAt := an_authRetryAt a, an_authRetryCount := an_authRetryCount a\<rparr>))"

definition proactiveRefresh :: "an_env \<Rightarrow> AnthropicCredentials \<Rightarrow> anthropic_agent \<Rightarrow> anthropic_agent" where
  "proactiveRefresh E creds a =
     (case autoRefreshAllowed E a of (allowed, a) \<Rightarrow>
        if \<not> allowed then a
        else if cr_AccessToken creds \<noteq> [] \<and> cr_AccessToken creds = an_supersededToken a then a
        else case claudeCodeRunning E a of (running, a) \<Rightarrow>
          if running then a
          else if in_backoff E a then a
          else case RefreshAnthropicToken E (cr_RefreshToken creds) a of
            (Refreshed tokens, a) \<Rightarrow>
              let a = applyRefreshedTokens E tokens (cr_AccessToken creds) (end_backoff a)
              in if an_authPaused a then resumeAuth a else a
          | (OAuthRateLimited d, a) \<Rightarrow> rate_limited E d a
          | (OAuthInvalidGrant, a) \<Rightarrow> invalid_grant E a
          | (OAuthFailed, a) \<Rightarrow> a)"

section \<open>The poll\<close>

definition maxRateLimitFailures :: int where "maxRateLimitFailures = 5"

definition store_snapshot :: "anthropic_snapshot \<Rightarrow> anthropic_agent \<Rightarrow> bool \<times> anthropic_agent" where
  "store_snapshot sn a =
     (case liftE ant_snaps (\<lambda>t s. s\<lparr>ant_snaps := t\<rparr>) (InsertAnthropicSnapshot sn) (pa_tracker a) of
        (Inl _, t) \<Rightarrow> (False, a\<lparr>pa_tracker := t\<rparr>)
      | (Inr _, t) \<Rightarrow> (True, a\<lparr>pa_tracker := t\<rparr>))"

text \<open>The statusline part of a poll; the result tells whether to go on to the usage API.\<close>

definition statusline_poll :: "an_env \<Rightarrow> anthropic_agent \<Rightarrow> bool \<times> anthropic_agent" where
  "statusline_poll E a =
     (if \<not> an_statusline a \<or> \<not> isStatuslineFresh (now E a) (en_modified E (an_log a)) (an_statuslineStaleness a) then (True, a)
      else let payload = en_payload E (an_log a); a = logged ReadStatusline a
        in case payload of
          None \<Rightarrow> (True, a)
        | Some rl \<Rightarrow>
            if \<not> isValidStatuslineData rl then (True, a)
            else let sn = statuslineToSnapshot (en_rawLine E) (the rl) (now E a)
              in case store_snapshot sn a of
                (False, a) \<Rightarrow> (False, a)
              | (True, a) \<Rightarrow>
                  let a = track (anthropic_Process sn) a;
                      a = a\<lparr>an_pollCycleCount := an_pollCycleCount a + 1\<rparr>;
                      a = decay a
                  in (0 < an_apiPollCycleInterval a \<and> an_pollCycleCount a mod an_apiPollCycleInterval a = 0, a))"

definition proactive_step :: "an_env \<Rightarrow> anthropic_agent \<Rightarrow> anthropic_agent" where
  "proactive_step E a =
     (if an_hasCredsRefresh a \<and> \<not> an_authPaused a then
        (case credsRefresh E a of
           (None, a) \<Rightarrow> a
         | (Some creds, a) \<Rightarrow>
             if IsExpiringSoon tokenRefreshThreshold creds \<and> cr_RefreshToken creds \<noteq> [] then proactiveRefresh E creds a else a)
      else a)"

text \<open>The credentials are read again before every poll; a token known to be stale is not taken.\<close>

definition token_step :: "an_env \<Rightarrow> anthropic_agent \<Rightarrow> anthropic_agent" where
  "token_step E a =
     (if \<not> an_hasTokenRefresh a then a
      else case tokenRefresh E a of (newToken, a) \<Rightarrow>
        let newToken = (if newToken \<noteq> [] \<and> newToken = an_supersededToken a then an_lastToken a else newToken)
        in if newToken \<noteq> [] \<and> newToken \<noteq> an_lastToken a then
             let a = a\<lparr>an_clientToken := newToken, an_lastToken := newToken\<rparr>;
                 a = (if an_authPaused a \<and> newToken \<noteq> an_lastFailedToken a then resumeAuth a else a)
             in if an_rateLimitPaused a then end_backoff a else a
           else a)"

fun bypass_failed :: "an_env \<Rightarrow> refresh_answer \<Rightarrow> anthropic_agent \<Rightarrow> anthropic_agent" where
  "bypass_failed E (OAuthRateLimited d) a = rate_limited E d a"
| "bypass_failed E OAuthInvalidGrant a = grant_notice E (invalid_grant E a)"
| "bypass_failed E OAuthFailed a =
     (let a = failed_again a
      in if maxRateLimitFailures \<le> an_rateLimitFailCount a then back_off E (rateLimitBackoff (an_rateLimitFailCount a)) a else a)"
| "bypass_failed E (Refreshed _) a = a"

text \<open>After an answer 429: a new token has a new window of requests. An expired backoff is taken back by one failure.\<close>

definition rate_limit_bypass :: "an_env \<Rightarrow> anthropic_agent \<Rightarrow> AnthropicQuotaResponse option \<times> anthropic_agent" where
  "rate_limit_bypass E a =
     (if in_backoff E a then (None, a)
      else let a = (if an_rateLimitPaused a then (decay a)\<lparr>an_rateLimitPaused := False\<rparr> else a)
        in case autoRefreshAllowed E a of (allowed, a) \<Rightarrow>
          if \<not> allowed then (None, a)
          else case claudeCodeRunning E a of (running, a) \<Rightarrow>
            if running \<or> \<not> an_hasCredsRefresh a then (None, a)
            else case credsRefresh E a of
              (None, a) \<Rightarrow> (None, a)
            | (Some creds, a) \<Rightarrow>
                if cr_RefreshToken creds = [] then (None, a)
                else case RefreshAnthropicToken E (cr_RefreshToken creds) a of
                  (Refreshed tokens, a) \<Rightarrow>
                    (case FetchQuotas E (applyRefreshedTokens E tokens (cr_AccessToken creds) (end_backoff a)) of
                       (Fetched resp, a) \<Rightarrow> (Some resp, a)
                     | (_, a) \<Rightarrow> (None, a))
                | (failure, a) \<Rightarrow> (None, bypass_failed E failure a))"

definition pause_polling :: "an_env \<Rightarrow> string \<Rightarrow> anthropic_agent \<Rightarrow> anthropic_agent" where
  "pause_polling E retryToken a =
     (if an_authPaused a then a
      else let a = pauseAuth E retryToken a
        in sendAuthErrorNotification E ''Anthropic polling paused''
             (''Repeated auth failures ('' @ itoa (an_authFailCount a) @ ''). Re-authenticate with '' @ [CHR 0x27] @ ''claude auth'' @
              [CHR 0x27] @ '' to resume.'') False a)"

definition last_resort :: "an_env \<Rightarrow> string \<Rightarrow> anthropic_agent \<Rightarrow> AnthropicQuotaResponse option \<times> anthropic_agent" where
  "last_resort E retryToken a =
     (case tryOAuthRecovery E a of
        (True, a) \<Rightarrow>
          (case FetchQuotas E a of
             (Fetched resp, a) \<Rightarrow> (Some resp, a\<lparr>an_authFailCount := 0, an_lastFailedToken := []\<rparr>)
           | (Cancelled, a) \<Rightarrow> (None, a)
           | (_, a) \<Rightarrow> (None, pause_polling E retryToken a))
      | (False, a) \<Rightarrow> (None, pause_polling E retryToken a))"

text \<open>After an answer 401 or 403 the credentials are read again and the request repeated once.\<close>

definition auth_retry :: "an_env \<Rightarrow> anthropic_agent \<Rightarrow> AnthropicQuotaResponse option \<times> anthropic_agent" where
  "auth_retry E a =
     (if \<not> an_hasTokenRefresh a then (None, a)
      else case tokenRefresh E (a\<lparr>an_lastToken := []\<rparr>) of (retryToken, a) \<Rightarrow>
        if retryToken = [] then (None, a)
        else case FetchQuotas E (a\<lparr>an_clientToken := retryToken, an_lastToken := retryToken\<rparr>) of
          (Fetched resp, a) \<Rightarrow> (Some resp, a\<lparr>an_authFailCount := 0\<rparr>)
        | (AuthRejected, a) \<Rightarrow>
            let a = a\<lparr>an_authFailCount := an_authFailCount a + 1\<rparr>
            in if maxAuthFailures \<le> an_authFailCount a then last_resort E retryToken a else (None, a)
        | (_, a) \<Rightarrow> (None, a))"

definition quota_value :: "string \<Rightarrow> util_quota list \<Rightarrow> f64" where
  "quota_value n qs = (case find (\<lambda>q. uq_Name q = n) (rev qs) of Some q \<Rightarrow> uq_Utilization q | None \<Rightarrow> 0)"

definition anthropic_values :: "util_quota list \<Rightarrow> f64 list" where
  "anthropic_values qs = [quota_value ''five_hour'' qs, quota_value ''seven_day'' qs, quota_value ''seven_day_sonnet'' qs]"

definition processResponse :: "an_env \<Rightarrow> AnthropicQuotaResponse \<Rightarrow> anthropic_agent \<Rightarrow> anthropic_agent" where
  "processResponse E resp a =
     (let a = a\<lparr>an_authFailCount := 0, an_authRetryCount := 0, an_authRetryAt := zero_time\<rparr>;
          sn = anthropic_ToSnapshot (en_rawAnswer E) resp (now E a)
      in case store_snapshot sn a of
           (False, a) \<Rightarrow> a
         | (True, a) \<Rightarrow>
             let a = track (anthropic_Process sn) a;
                 a = notify_each (en_checks E)
                       (map (\<lambda>q. status_of ''anthropic'' (uq_Name q) (uq_Utilization q) 0) (snap_Quotas sn)) a
             in report_values (en_uuid E) (now E a) (anthropic_values (snap_Quotas sn)) a)"

definition finish :: "an_env \<Rightarrow> AnthropicQuotaResponse option \<times> anthropic_agent \<Rightarrow> anthropic_agent" where
  "finish E = (\<lambda>(resp, a). case resp of Some r \<Rightarrow> processResponse E r a | None \<Rightarrow> a)"

definition fetch_step :: "an_env \<Rightarrow> anthropic_agent \<Rightarrow> anthropic_agent" where
  "fetch_step E a =
     (case FetchQuotas E a of
        (Fetched resp, a) \<Rightarrow> finish E (Some resp, decay a)
      | (TooManyRequests, a) \<Rightarrow> finish E (rate_limit_bypass E a)
      | (AuthRejected, a) \<Rightarrow> finish E (auth_retry E a)
      | (_, a) \<Rightarrow> a)"

definition anthropic_agent_poll :: "an_env \<Rightarrow> anthropic_agent \<Rightarrow> anthropic_agent" where
  "anthropic_agent_poll E a =
     (if \<not> en_enabled E then a
      else case statusline_poll E a of (on, a) \<Rightarrow>
        if \<not> on \<or> an_apiPollingDisabled a then a
        else let a = token_step E (proactive_step E a)
          in if an_authPaused a
             then (case tryPausedAuthRecovery E a of (True, a) \<Rightarrow> fetch_step E a | (False, a) \<Rightarrow> a)
             else fetch_step E a)"

definition anthropic_polls :: "an_env list \<Rightarrow> anthropic_agent \<Rightarrow> anthropic_agent" where
  "anthropic_polls = fold anthropic_agent_poll"

section \<open>What leaves the record alone\<close>

lemma parts_keep_log [simp]:
  "an_log (track m a) = an_log a" "an_log (notify_each ts qs a) = an_log a" "an_log (report_values u t vs a) = an_log a"
  for a :: anthropic_agent
  by (simp_all add: track_def notify_each_def report_values_def split: option.split)

lemma states_keep_log [simp]:
  "an_log (sendAuthErrorNotification E x y b a) = an_log a" "an_log (pauseAuth E t a) = an_log a" "an_log (resumeAuth a) = an_log a"
  "an_log (decay a) = an_log a" "an_log (back_off E d a) = an_log a" "an_log (end_backoff a) = an_log a"
  "an_log (failed_again a) = an_log a"
  by (simp_all add: sendAuthErrorNotification_def pauseAuth_def resumeAuth_def decay_def back_off_def end_backoff_def failed_again_def)

lemma failures_keep_log [simp]:
  "an_log (rate_limited E d a) = an_log a" "an_log (invalid_grant E a) = an_log a" "an_log (grant_notice E a) = an_log a"
  "an_log (noteOAuthRefreshFailure E r a) = an_log a" "an_log (bypass_failed E r a) = an_log a"
  "an_log (pause_polling E t a) = an_log a"
  by (cases r; simp add: rate_limited_def invalid_grant_def grant_notice_def pause_polling_def Let_def)+

lemma store_snapshot_result: "store_snapshot sn a = (b, a') \<Longrightarrow> \<exists>t. a' = a\<lparr>pa_tracker := t\<rparr>"
  by (auto simp: store_snapshot_def split: prod.splits sum.splits)

lemma process_keeps_log [simp]: "an_log (processResponse E r a) = an_log a"
  by (auto simp: processResponse_def Let_def split: prod.split bool.split dest!: store_snapshot_result)

lemma finish_keeps_log [simp]: "an_log (finish E x) = an_log (snd x)"
  by (cases x) (simp add: finish_def split: option.split)

lemma calls_log [simp]:
  "an_log (logged c a) = c # an_log a" "an_log (applyRefreshedTokens E ts t a) = SaveTokens ts (en_saved E (an_log a)) # an_log a"
  by (simp_all add: logged_def applyRefreshedTokens_def Let_def)


section \<open>When a token is refreshed\<close>



definition steady :: "an_env \<Rightarrow> bool" where
  "steady E \<longleftrightarrow> (\<forall>c cs. en_now E cs \<le> en_now E (c # cs))"


lemmas asking_defs = autoRefreshAllowed_def claudeCodeRunning_def credsRefresh_def tokenRefresh_def RefreshAnthropicToken_def FetchQuotas_def













section \<open>Paused agents\<close>

text \<open>The delays after rate limits and before attempts of a paused agent are the initial delay, doubled with
  every failure and capped at six hours; stopping the shift at ten changes nothing.\<close>

lemma capped_shift:
  fixes b m :: int
  assumes "0 < b" "m \<le> b * 1024" "0 < n"
  shows "(let shift = (if 10 < n - 1 then 10 else n - 1); d = b * 2 ^ nat shift in if m < d then m else d) = min m (b * 2 ^ nat (n - 1))"
proof (cases "10 < n - 1")
  case True
  have "(2::int) ^ 10 \<le> 2 ^ nat (n - 1)" by (rule power_increasing) (use True in simp_all)
  then have "b * 1024 \<le> b * 2 ^ nat (n - 1)" using assms(1) by simp
  then show ?thesis using True assms(2) by (simp add: Let_def min_def)
qed (simp add: Let_def min_def)

theorem backoff_reference:
  "rateLimitBackoff n = min (6 * Hour) (5 * Minute * 2 ^ nat (n - 1)) \<and> authRetryBackoff n = min (6 * Hour) (15 * Minute * 2 ^ nat (n - 1))"
proof (cases "n \<le> 0")
  case True
  then show ?thesis
    by (simp add: rateLimitBackoff_def authRetryBackoff_def rateLimitBaseBackoff_def authPausedRetryInterval_def)
next
  case False
  then show ?thesis
    using capped_shift [of "5 * Minute" "6 * Hour" n] capped_shift [of "15 * Minute" "6 * Hour" n]
    unfolding rateLimitBackoff_def authRetryBackoff_def rateLimitBaseBackoff_def rateLimitMaxBackoff_def
      authPausedRetryInterval_def authPausedRetryMaxInterval_def Let_def
    by simp
qed

lemma retry_delay: "0 < authRetryBackoff n" "authRetryBackoff n \<le> 6 * Hour"
  by (simp_all add: authRetryBackoff_def authPausedRetryInterval_def authPausedRetryMaxInterval_def Let_def)

text \<open>The next attempt of a paused agent is set, and at most six hours after \<open>T\<close>, a time no clock has passed.\<close>

definition scheduled :: "time \<Rightarrow> anthropic_agent \<Rightarrow> bool" where
  "scheduled T a \<longleftrightarrow> (an_authPaused a \<longrightarrow> an_authRetryAt a \<noteq> zero_time) \<and> an_authRetryAt a \<le> T + 6 * Hour"

definition clock_within :: "time \<Rightarrow> an_env \<Rightarrow> bool" where
  "clock_within T E \<longleftrightarrow> (\<forall>cs. 0 \<le> en_now E cs \<and> en_now E cs \<le> T)"

lemma parts_keep_auth [simp]:
  "an_authPaused (track m a) = an_authPaused a" "an_authRetryAt (track m a) = an_authRetryAt a"
  "an_authPaused (notify_each ts qs a) = an_authPaused a" "an_authRetryAt (notify_each ts qs a) = an_authRetryAt a"
  "an_authPaused (report_values u t vs a) = an_authPaused a" "an_authRetryAt (report_values u t vs a) = an_authRetryAt a"
  for a :: anthropic_agent
  by (simp_all add: track_def notify_each_def report_values_def split: option.split)

lemma states_keep_auth [simp]:
  "an_authPaused (logged c a) = an_authPaused a" "an_authRetryAt (logged c a) = an_authRetryAt a"
  "an_authPaused (decay a) = an_authPaused a" "an_authRetryAt (decay a) = an_authRetryAt a"
  "an_authPaused (end_backoff a) = an_authPaused a" "an_authRetryAt (end_backoff a) = an_authRetryAt a"
  "an_authPaused (back_off E d a) = an_authPaused a" "an_authRetryAt (back_off E d a) = an_authRetryAt a"
  "an_authPaused (failed_again a) = an_authPaused a" "an_authRetryAt (failed_again a) = an_authRetryAt a"
  "an_authPaused (sendAuthErrorNotification E x y b a) = an_authPaused a"
  "an_authRetryAt (sendAuthErrorNotification E x y b a) = an_authRetryAt a"
  "an_authPaused (applyRefreshedTokens E ts t a) = an_authPaused a" "an_authRetryAt (applyRefreshedTokens E ts t a) = an_authRetryAt a"
  by (simp_all add: logged_def decay_def end_backoff_def back_off_def failed_again_def sendAuthErrorNotification_def
      applyRefreshedTokens_def Let_def)

lemma rate_limited_auth [simp]:
  "an_authPaused (rate_limited E d a) = an_authPaused a" "an_authRetryAt (rate_limited E d a) = an_authRetryAt a"
  by (simp_all add: rate_limited_def Let_def)

lemma scheduled_cong: "an_authPaused b = an_authPaused a \<Longrightarrow> an_authRetryAt b = an_authRetryAt a \<Longrightarrow> scheduled T b = scheduled T a"
  by (simp add: scheduled_def)

lemma within_now: "clock_within T E \<Longrightarrow> 0 \<le> now E a \<and> now E a \<le> T"
  by (simp add: clock_within_def now_def)

lemma scheduled_pause: "clock_within T E \<Longrightarrow> scheduled T a \<Longrightarrow> scheduled T (pauseAuth E t a)"
  using within_now [of T E a]
  by (auto simp: scheduled_def pauseAuth_def time_Add_def authPausedRetryInterval_def zero_time_def)

lemma scheduled_failures:
  assumes "clock_within T E" "scheduled T a"
  shows "scheduled T (invalid_grant E a)" "scheduled T (grant_notice E a)" "scheduled T (noteOAuthRefreshFailure E r a)"
    "scheduled T (bypass_failed E r a)" "scheduled T (pause_polling E t a)"
proof -
  have c: "scheduled T (a\<lparr>an_authFailCount := n\<rparr>)" for n using assms(2) by (simp add: scheduled_def)
  show 1: "scheduled T (invalid_grant E a)" unfolding invalid_grant_def by (rule scheduled_pause [OF assms(1) c])
  show "scheduled T (grant_notice E a)" using assms(2) by (simp add: grant_notice_def scheduled_def)
  show "scheduled T (noteOAuthRefreshFailure E r a)" "scheduled T (bypass_failed E r a)"
    using assms(2) 1 by (cases r; simp add: grant_notice_def scheduled_def Let_def)+
  show "scheduled T (pause_polling E t a)"
    using assms(2) scheduled_pause [OF assms, of t] by (simp add: pause_polling_def Let_def scheduled_def)
qed

lemma recovery_scheduled:
  assumes "clock_within T E" "scheduled T a" "tryOAuthRecovery E a = (b, a')"
  shows "scheduled T a'" "b \<Longrightarrow> an_authPaused a' = an_authPaused a \<and> an_authRetryAt a' = an_authRetryAt a"
proof -
  show "scheduled T a'"
    using assms scheduled_failures(3) [OF assms(1), unfolded scheduled_def]
    by (auto simp: tryOAuthRecovery_def asking_defs Let_def scheduled_def simp del: noteOAuthRefreshFailure.simps
        split: if_splits option.splits refresh_answer.splits)
  show "b \<Longrightarrow> an_authPaused a' = an_authPaused a \<and> an_authRetryAt a' = an_authRetryAt a"
    using assms(3) by (auto simp: tryOAuthRecovery_def asking_defs Let_def split: if_splits option.splits refresh_answer.splits)
qed


lemma resumed_scheduled: "0 \<le> T \<Longrightarrow> scheduled T (resumeAuth a)"
  by (simp add: scheduled_def resumeAuth_def zero_time_def)

lemma paused_scheduled:
  assumes "clock_within T E" "scheduled T a" "tryPausedAuthRecovery E a = (b, a')"
  shows "scheduled T a'" "b \<Longrightarrow> \<not> an_authPaused a'"
proof -
  let ?r = "a\<lparr>an_authRetryCount := an_authRetryCount a + 1,
      an_authRetryAt := time_Add (now E a) (authRetryBackoff (an_authRetryCount a + 1))\<rparr>"
  have r: "scheduled T ?r"
    using within_now [OF assms(1), of a] retry_delay [of "an_authRetryCount a + 1"]
    by (simp add: scheduled_def time_Add_def zero_time_def)
  obtain c x where x: "tryOAuthRecovery E ?r = (c, x)" by fastforce
  note rec = recovery_scheduled [OF assms(1) r x]
  show "scheduled T a'"
    using assms(2,3) x rec(1) by (auto simp: tryPausedAuthRecovery_def Let_def scheduled_def resumeAuth_def split: if_splits bool.splits)
  show "b \<Longrightarrow> \<not> an_authPaused a'"
    using assms(3) x by (auto simp: tryPausedAuthRecovery_def Let_def resumeAuth_def split: if_splits bool.splits)
qed

text \<open>An answer is only handed on by an agent that is not paused.\<close>

definition outcome_ok :: "time \<Rightarrow> 'r option \<times> anthropic_agent \<Rightarrow> bool" where
  "outcome_ok T x \<longleftrightarrow> scheduled T (snd x) \<and> (fst x = None \<or> \<not> an_authPaused (snd x))"

lemma bypass_outcome:
  assumes "clock_within T E" "scheduled T a" "\<not> an_authPaused a"
  shows "outcome_ok T (rate_limit_bypass E a)"
  using assms(2,3) scheduled_failures(4) [OF assms(1), unfolded scheduled_def]
  by (auto simp: rate_limit_bypass_def asking_defs Let_def outcome_ok_def scheduled_def simp del: bypass_failed.simps
      split: option.split refresh_answer.split fetch_answer.split)

lemma resort_outcome:
  assumes "clock_within T E" "scheduled T a" "\<not> an_authPaused a"
  shows "outcome_ok T (last_resort E t a)"
proof (cases "tryOAuthRecovery E a")
  case (Pair b x)
  note r = recovery_scheduled [OF assms(1,2) Pair]
  have "scheduled T (logged c x)" for c using r(1) by (simp add: scheduled_def)
  note p = scheduled_failures(5) [OF assms(1) this] scheduled_failures(5) [OF assms(1) r(1)]
  show ?thesis
    using Pair r p assms(3) unfolding last_resort_def FetchQuotas_def outcome_ok_def
    by (auto split: bool.split fetch_answer.split) (auto simp: scheduled_def)
qed

lemma retry_outcome:
  assumes "clock_within T E" "scheduled T a" "\<not> an_authPaused a"
  shows "outcome_ok T (auth_retry E a)"
proof -
  have "outcome_ok T (last_resort E t b)" if "an_authPaused b = an_authPaused a" "an_authRetryAt b = an_authRetryAt a" for t b
    by (rule resort_outcome [OF assms(1)]) (use assms(2,3) that in \<open>simp_all add: scheduled_def\<close>)
  then show ?thesis
    using assms(2,3) by (auto simp: auth_retry_def tokenRefresh_def FetchQuotas_def Let_def outcome_ok_def [where x = "(_, _)"] scheduled_def
      split: fetch_answer.split)
qed

lemma finish_scheduled:
  assumes "clock_within T E" "outcome_ok T x"
  shows "scheduled T (finish E x)"
proof -
  have T: "0 \<le> T" using within_now [OF assms(1)] by (meson order_trans)
  have "scheduled T (processResponse E r a)" if "\<not> an_authPaused a" for r a
    using that T by (auto simp: processResponse_def Let_def scheduled_def zero_time_def split: prod.split bool.split dest!: store_snapshot_result)
  then show ?thesis using assms(2) by (cases x) (auto simp: finish_def outcome_ok_def split: option.split)
qed


lemma fetch_scheduled:
  assumes "clock_within T E" "scheduled T a" "\<not> an_authPaused a"
  shows "scheduled T (fetch_step E a)"
proof -
  have l: "scheduled T (logged c a)" "\<not> an_authPaused (logged c a)" for c using assms(2,3) by (simp_all add: scheduled_def)
  have d: "outcome_ok T (Some r, decay (logged c a))" for r c using l by (simp add: outcome_ok_def scheduled_def)
  show ?thesis
    unfolding fetch_step_def FetchQuotas_def
    using l finish_scheduled [OF assms(1) d] finish_scheduled [OF assms(1) bypass_outcome [OF assms(1) l]]
      finish_scheduled [OF assms(1) retry_outcome [OF assms(1) l]]
    by (simp split: fetch_answer.split)
qed

lemma statusline_scheduled: "scheduled T a \<Longrightarrow> statusline_poll E a = (b, a') \<Longrightarrow> scheduled T a'"
  by (auto simp: statusline_poll_def Let_def scheduled_def split: if_splits option.splits prod.splits bool.splits dest!: store_snapshot_result)

lemma token_scheduled: "clock_within T E \<Longrightarrow> scheduled T a \<Longrightarrow> scheduled T (token_step E a)"
  using within_now [of T E a] by (auto simp: token_step_def tokenRefresh_def Let_def scheduled_def resumeAuth_def zero_time_def)

lemma proactive_scheduled:
  assumes "clock_within T E" "scheduled T a"
  shows "scheduled T (proactive_step E a)"
  using assms(2) within_now [OF assms(1), of a] scheduled_failures(1) [OF assms(1), unfolded scheduled_def]
  by (auto simp: proactive_step_def credsRefresh_def proactiveRefresh_def asking_defs Let_def scheduled_def resumeAuth_def zero_time_def
      split: option.split refresh_answer.split)

lemma poll_scheduled:
  assumes "clock_within T E" "scheduled T a"
  shows "scheduled T (anthropic_agent_poll E a)"
proof (cases "statusline_poll E a")
  case (Pair on b)
  note b = statusline_scheduled [OF assms(2) Pair]
  note p = token_scheduled [OF assms(1) proactive_scheduled [OF assms(1) b]]
  obtain c x where x: "tryPausedAuthRecovery E (token_step E (proactive_step E b)) = (c, x)" by fastforce
  note r = paused_scheduled [OF assms(1) p x]
  show ?thesis
    using assms(2) Pair b p x r fetch_scheduled [OF assms(1) p] fetch_scheduled [OF assms(1) r(1)]
    by (auto simp: anthropic_agent_poll_def Let_def split: bool.split)
qed

text \<open>C12: an agent paused after refused tokens always has its next attempt set, never more than six hours ahead,
  whatever the answers were; in particular no pause lasts until somebody logs in again.\<close>

theorem retry_scheduled:
  assumes "\<forall>E \<in> set Es. clock_within T E" "0 \<le> T" "\<not> an_authPaused a" "an_authRetryAt a = zero_time"
  shows "(an_authPaused (anthropic_polls Es a) \<longrightarrow> an_authRetryAt (anthropic_polls Es a) \<noteq> zero_time) \<and>
    an_authRetryAt (anthropic_polls Es a) \<le> T + 6 * Hour"
proof -
  have "scheduled T (anthropic_polls Es a)" if "scheduled T a" for a
    using assms(1) that by (induction Es arbitrary: a) (simp_all add: anthropic_polls_def poll_scheduled)
  moreover have "scheduled T a" using assms(2-4) by (simp add: scheduled_def zero_time_def)
  ultimately show ?thesis by (simp add: scheduled_def)
qed



text \<open>C21: before the time of the next attempt a paused agent that finds no other token makes no request at all, neither
  for usage nor for tokens, and stays paused.\<close>

theorem pause_quiet:
  assumes "an_authPaused a" "\<forall>cs. en_now E cs < an_authRetryAt a"
    and "\<forall>cs. en_token E cs \<in> {[], an_lastToken a, an_lastFailedToken a, an_supersededToken a}"
  shows "an_authPaused (anthropic_agent_poll E a) \<and>
    (\<exists>new. an_log (anthropic_agent_poll E a) = new @ an_log a \<and> set new \<subseteq> {ReadStatusline, ReadToken})"
proof -
  have quiet: "\<exists>new. an_log b = new @ an_log a \<and> set new \<subseteq> {ReadStatusline} \<and> an_authPaused b \<and>
      (an_authRetryAt b, an_lastToken b, an_lastFailedToken b, an_supersededToken b) =
      (an_authRetryAt a, an_lastToken a, an_lastFailedToken a, an_supersededToken a)" if "statusline_poll E a = (on, b)" for on b
    using that assms(1)
    by (auto simp: statusline_poll_def Let_def decay_def track_def logged_def split: if_splits option.splits prod.splits bool.splits dest!: store_snapshot_result)
  have token: "an_authPaused (token_step E b) \<and> an_authRetryAt (token_step E b) = an_authRetryAt b \<and>
      (an_log (token_step E b) = an_log b \<or> an_log (token_step E b) = ReadToken # an_log b)"
    if "an_authPaused b" "en_token E (an_log b) \<in> {[], an_lastToken b, an_lastFailedToken b, an_supersededToken b}" for b
    using that by (auto simp: token_step_def tokenRefresh_def Let_def logged_def end_backoff_def)
  obtain on b where b: "statusline_poll E a = (on, b)" by fastforce
  note q = quiet [OF b]
  have pro: "proactive_step E b = b" using q by (auto simp: proactive_step_def)
  have t: "an_authPaused (token_step E b) \<and> an_authRetryAt (token_step E b) = an_authRetryAt b \<and>
      (an_log (token_step E b) = an_log b \<or> an_log (token_step E b) = ReadToken # an_log b)"
    by (rule token) (use q assms(3) in auto)
  have "tryPausedAuthRecovery E (token_step E b) = (False, token_step E b)"
    using t q assms(2) by (auto simp: tryPausedAuthRecovery_def Let_def now_def time_Before_def)
  then show ?thesis using b q t pro assms(1) by (auto simp: anthropic_agent_poll_def Let_def)
qed

text \<open>C22: in the mode that uses the statusline alone, a poll never talks to the usage API or the OAuth server and
  never touches a token, however old or broken the file is.\<close>

theorem statusline_only:
  assumes "an_apiPollingDisabled a"
  shows "an_apiPollingDisabled (anthropic_polls Es a) \<and> an_clientToken (anthropic_polls Es a) = an_clientToken a \<and>
    (\<exists>new. an_log (anthropic_polls Es a) = new @ an_log a \<and> set new \<subseteq> {ReadStatusline})"
  using assms
proof (induction Es arbitrary: a)
  case Nil
  then show ?case by (simp add: anthropic_polls_def)
next
  case (Cons E Es)
  obtain on b where b: "statusline_poll E a = (on, b)" by fastforce
  have q: "an_apiPollingDisabled b \<and> an_clientToken b = an_clientToken a \<and> (\<exists>new. an_log b = new @ an_log a \<and> set new \<subseteq> {ReadStatusline})"
    using b Cons.prems
    by (auto simp: statusline_poll_def Let_def decay_def track_def logged_def split: if_splits option.splits prod.splits bool.splits dest!: store_snapshot_result)
  have "anthropic_agent_poll E a = (if en_enabled E then b else a)" using b q by (simp add: anthropic_agent_poll_def)
  then show ?case using Cons.IH [of b] Cons.IH [of a] Cons.prems q by (auto simp: anthropic_polls_def)
qed



section \<open>Sample polls\<close>

definition sample_agent :: anthropic_agent where
  "sample_agent = SetCredentialsRefresh (NewAnthropicAgent fresh_anthropic False ''old'' None)"

text \<open>A world in which the token is about to expire, the OAuth server says \<open>answer\<close> and the usage API fails.\<close>

definition sample_env :: "refresh_answer \<Rightarrow> fetch_answer \<Rightarrow> an_env" where
  "sample_env answer usage = \<lparr>en_enabled = True, en_modified = (\<lambda>_. None), en_payload = (\<lambda>_. None),
     en_credentials = (\<lambda>_. Some \<lparr>cr_AccessToken = ''old'', cr_RefreshToken = ''r1'', cr_ExpiresAt = 101 * Hour, cr_ExpiresIn = Minute\<rparr>),
     en_token = (\<lambda>_. ''old''), en_autoRefresh = (\<lambda>_. True), en_claudeCode = (\<lambda>_. False), en_fetch = (\<lambda>_. usage),
     en_oauth = (\<lambda>_. answer), en_saved = (\<lambda>_. False), en_now = (\<lambda>_. 100 * Hour), en_checks = (\<lambda>_. 0), en_uuid = ''u'',
     en_rawAnswer = (\<lambda>_. None), en_rawLine = (\<lambda>_. None)\<rparr>"

definition sample_tokens :: oauth_tokens where
  "sample_tokens = \<lparr>ot_AccessToken = ''new'', ot_RefreshToken = ''r2''\<rparr>"

lemma sample_steady: "steady (sample_env x y)" "clock_within (100 * Hour) (sample_env x y)"
  by (simp_all add: steady_def clock_within_def sample_env_def)


text \<open>The refresh token is refused, the agent pauses; a second poll changes nothing.\<close>

definition paused_sample :: anthropic_agent where
  "paused_sample = anthropic_polls [sample_env OAuthInvalidGrant FetchFailed] sample_agent"

lemma paused_sample_fields:
  "an_authPaused paused_sample" "an_authRetryAt paused_sample = 100 * Hour + 15 * Minute" "an_lastToken paused_sample = []"
  by code_simp+

theorem retry_scheduled_witness:
  "an_authRetryAt paused_sample \<noteq> zero_time \<and> an_authRetryAt paused_sample \<le> 106 * Hour"
proof -
  have "\<not> an_authPaused sample_agent" "an_authRetryAt sample_agent = zero_time"
    by (simp_all add: sample_agent_def SetCredentialsRefresh_def NewAnthropicAgent_def)
  then show ?thesis
    using retry_scheduled [of "[sample_env OAuthInvalidGrant FetchFailed]" "100 * Hour" sample_agent] sample_steady paused_sample_fields(1)
    by (simp add: paused_sample_def)
qed


theorem pause_quiet_witness:
  "an_authPaused (anthropic_agent_poll ((sample_env OAuthFailed FetchFailed)\<lparr>en_token := (\<lambda>_. [])\<rparr>) paused_sample)"
proof -
  let ?E = "(sample_env OAuthFailed FetchFailed)\<lparr>en_token := (\<lambda>_. [])\<rparr>"
  have "\<forall>cs. en_now ?E cs < an_authRetryAt paused_sample" "\<forall>cs. en_token ?E cs \<in> {[], an_lastToken paused_sample, an_lastFailedToken paused_sample,
      an_supersededToken paused_sample}"
    by (simp_all add: paused_sample_fields sample_env_def)
  from pause_quiet [OF paused_sample_fields(1) this] show ?thesis by simp
qed


theorem statusline_only_witness:
  "an_clientToken (anthropic_polls [sample_env (Refreshed sample_tokens) (Fetched [])] (SetAPIPollingDisabled True sample_agent)) = ''old''"
proof -
  have "an_apiPollingDisabled (SetAPIPollingDisabled True sample_agent)" "an_clientToken (SetAPIPollingDisabled True sample_agent) = ''old''"
    by (simp_all add: SetAPIPollingDisabled_def sample_agent_def SetCredentialsRefresh_def NewAnthropicAgent_def)
  from statusline_only [OF this(1), of "[sample_env (Refreshed sample_tokens) (Fetched [])]"] this(2) show ?thesis by simp
qed


end
