(* ===== verification/Spec2Isabelle.thy ===== *)
theory Spec2Isabelle
  imports SyntheticTracker AnthropicTracker PlanTrackers CodexTracker GeminiTracker BalanceTrackers AntigravityTracker
    CopilotTracker MiniMaxTracker ZaiTracker CreditTrackers Sessions Notify Setup SessionMigration
    WebSafety LoginLimit Secrets RateLimit AgentManager Agents AnthropicAgent
begin

text \<open>
  The program polls the usage quotas of AI providers, stores what they report in an embedded SQLite database, cuts the
  readings of every quota into reset cycles and usage sessions, mails or pushes notifications when a quota runs low, and
  serves a dashboard. A polling agent (\<open>internal/agent\<close>) fetches a snapshot with an API client (\<open>internal/api\<close>), stores
  it, passes it to the tracker of its provider (\<open>internal/tracker\<close>), which keeps the reset cycles in the store
  (\<open>internal/store\<close>), to the session manager, and, quota by quota, to the notification engine (\<open>internal/notify\<close>). The
  web server (\<open>internal/web\<close>) reads the store behind an authentication layer; \<open>setup.go\<close> writes the configuration that
  \<open>internal/config\<close> reads.

  \<^bold>\<open>Ground.\<close> \<open>Float64\<close> is the arithmetic of Go's \<open>float64\<close>: finite values are rationals, every operation rounds to the
  nearest with ties to even (\<open>rnd\<close>); overflow to infinity and NaN are not modelled (the inputs are finite and the code
  divides by positive values). \<open>Prelude\<close> has times (an \<open>int\<close> of nanoseconds since 1970), durations (with the saturation of
  \<open>time.Sub\<close>), the wrap-around of 64-bit integers (\<open>i64\<close>), the text form of times as the queries compare it, and the
  effects: an operation is a function from a state to an error text or a value and the new state; each statement on a
  table asks the list \<open>db_faults\<close> whether it fails, so the theorems about failures hold for every pattern of failing
  statements; a state is \<open>healthy\<close> when no fault is left in it.

  \<^bold>\<open>The store.\<close> \<open>CycleStore\<close> has the tables of reset cycles with the statements on them, the relation \<open>cyc_step\<close> of the
  atomic changes a table can undergo, and the locale \<open>cycle_store\<close>: what a tracker may rely on when it queries, creates,
  updates and closes cycles. \<open>ProviderStores\<close> has the functions of the fifteen stores (\<open>internal/store/*_store.go\<close> and
  \<open>store.go\<close>) and interprets the locale for each; Grok and Kimi write by row id and have \<open>cycle_store_by_id\<close>.
  \<open>SnapshotStore\<close> is the insertion of a snapshot as a transaction and the reading of the newest one.

  \<^bold>\<open>Trackers.\<close> \<open>QuotaSpec\<close> is the abstract account of a single quota: its open cycle, the bag of its finished cycles, the
  last value, and one step per reading under a policy. It proves once what a whole run amounts to: the readings are
  cut into consecutive segments, one cycle for each. \<open>TrackerBase\<close> has what the trackers share and the locales
  \<open>quota_tracker\<close> (every change is a sequence of \<open>cyc_step\<close>s, so a run never touches closed cycles) and
  \<open>stepping_tracker\<close> with \<open>refining_tracker\<close> and \<open>carrying_tracker\<close> (seen quota by quota, a tracker makes exactly the
  steps of its policy). \<open>UtilTracker\<close>, \<open>AnthropicTracker\<close>, \<open>PlanTrackers\<close> (Cursor, OpenCode), \<open>SyntheticTracker\<close>,
  \<open>CodexTracker\<close>, \<open>GeminiTracker\<close>, \<open>BalanceTrackers\<close> (Moonshot, DeepSeek, OpenRouter), \<open>AntigravityTracker\<close>,
  \<open>CopilotTracker\<close>, \<open>MiniMaxTracker\<close>, \<open>ZaiTracker\<close> and \<open>CreditTrackers\<close> (Grok, Kimi) are the files of
  \<open>internal/tracker\<close> with the queries and summaries they use. For each of them \<open><provider>_Process\<close> is
  \<open><Provider>Tracker.Process\<close>, its record the tracker's struct together with its table, and the theorem
  \<open><provider>_history\<close> the refinement of the account of \<open>QuotaSpec\<close>.

  \<^bold>\<open>Agents.\<close> \<open>AgentManager\<close> is \<open>manager.go\<close>: the critical sections of \<open>Start\<close>, \<open>Stop\<close>, \<open>StopAll\<close> and of the goroutines as
  interleaved steps of a relation, with the invariant of the map of running agents and the way it is lost.
  \<open>ApiAnswers\<close> makes snapshots of the answers of the providers (\<open>internal/api/*_types.go\<close>). \<open>PollBase\<close> has the parts of an
  agent and two locales, \<open>storing_agent\<close> (an agent that tracks only what it has stored) and \<open>reporting_agent\<close> (one that
  reports every stored snapshot); \<open>Agents\<close> has the polls of ten agents, interprets the locales for eight of them and follows
  a run from the answers to the tables: snapshots, cycles and sessions. \<open>Statusline\<close> is what the Anthropic agent learns from
  files and processes (\<open>anthropic_statusline.go\<close>, \<open>anthropic_cc_detect.go\<close>) with the snippet in the settings of Claude Code;
  \<open>AnthropicAgent\<close> is \<open>anthropic_agent.go\<close>: each poll takes the answers of the outside world as functions of the record of
  its calls, and the theorems say when tokens are refreshed, when a paused agent is quiet and when it recovers.

  \<^bold>\<open>Sessions.\<close> \<open>Sessions\<close> is \<open>session_manager.go\<close> with its functions of the store; \<open>SessionMigration\<close> the recomputation of
  sessions from stored snapshots (\<open>store.go\<close>), equal to what the manager makes of the same values.

  \<^bold>\<open>Notifications and setup.\<close> \<open>AlertStore\<close> has the tables behind the notifications, \<open>Notify\<close> the engine of \<open>notify.go\<close>
  (\<open>notify_Check\<close> is \<open>Check\<close>): between two resets a notification is sent once, after a reset again. \<open>Secrets\<close> is the
  encryption of the mail password and its way through the settings handler, the engine and a change of the password.
  \<open>Setup\<close> is \<open>setup.go\<close>: prompts over the lines of the input, the file written and the file read back.

  \<^bold>\<open>The web server.\<close> \<open>NetText\<close> has what the server uses of Go's library (Base64, addresses, networks). \<open>WebAuth\<close> is
  \<open>middleware.go\<close>, \<open>trusted_proxy.go\<close>, the chain built by \<open>NewServer\<close>, and the login and logout handlers;
  \<open>WebServer\<close> adds \<open>ChangePassword\<close> and the server as a state machine: events are requests, evictions of stale tokens
  and attempts, and restarts, and \<open>web_run\<close> is the inductive set of the states reached. \<open>WebSafety\<close> proves who gets
  through the chain in a reachable state and when tokens die, \<open>LoginLimit\<close> what the limiter of logins guarantees,
  \<open>RateLimit\<close> is the rest of \<open>security.go\<close>.

  \<^bold>\<open>Bounds, fuel and parameters.\<close> No definition takes fuel: loops run over lists, and the prompts of the setup, which may
  loop forever, are a \<open>partial_function (option)\<close> whose return is a property of its own. Times are assumed below
  \<open>2 ^ 62\<close> nanoseconds (the year 2116) where a property has such a hypothesis. Hashes and ciphers are the parameters
  \<open>hashes\<close> and \<open>ciphers\<close>, random bytes and the current time are arguments. Go maps whose order is random are
  association lists, or the theorem says what depends on the order.

  \<^bold>\<open>Not modelled.\<close> The HTTP clients and key stores of \<open>internal/api\<close>, the protocols of SMTP and web push, the metrics
  exporter, the JSON of the data endpoints of \<open>handlers.go\<close> and their templates, the schema migrations, the menu bar and
  service integration and the process control of \<open>main.go\<close>: input and output over what is modelled here, or glue to the
  operating system. The mutexes of the trackers and of the web layer serialise their operations, so every operation
  is one step of the model.
\<close>

end
